(* ===== verification/Prelude.thy ===== *)
theory Prelude
  imports Main "HOL-Library.Word" "HOL-Library.Multiset"
begin

text \<open>
  Shared vocabulary of the development: the fixed-width integers of Go, the outcome of a
  piece of Go code that may panic, the little-endian byte order of package
  \<^verbatim>\<open>encoding/binary\<close>, and the generic lemmas on lists, options and words that the component
  theories use.

  A Go function that can panic (a failed \<^verbatim>\<open>logger.Assert...\<close>, a nil dereference, an index out
  of range, an explicit \<^verbatim>\<open>logger.Panicf\<close>) has a result of type \<open>'a res\<close>: \<open>Inl\<close> carries
  the reason of the panic and \<open>Inr\<close> the value. \<open>bindr\<close> sequences two such pieces of code;
  a panic in the first one skips the second one.
\<close>

unbundle bit_operations_syntax

section \<open>Machine integers and node identifiers\<close>

type_synonym u8 = "8 word"
type_synonym u16 = "16 word"
type_synonym u32 = "32 word"
type_synonym u64 = "64 word"
type_synonym bytes = "8 word list"

section \<open>Code that may panic\<close>

datatype panic =
    AssertFailed \<comment> \<open>logger.AssertTrue, AssertNil, ... in logger/logger.go\<close>
  | NilDeref \<comment> \<open>a field access through a nil pointer\<close>
  | IndexOutOfRange \<comment> \<open>an index or a slice expression out of range\<close>
  | ExplicitPanic \<comment> \<open>logger.Panicf\<close>
  | ErrorPanic \<comment> \<open>logger.PanicIfError with a non-nil error\<close>
  | NilMapWrite \<comment> \<open>an assignment to an entry in a nil map\<close>
  | UndefinedBehaviour \<comment> \<open>in C: an operation without a defined result\<close>
  | NoReturn \<comment> \<open>a loop that has not ended when the fuel is used up\<close>

type_synonym 'a res = "panic + 'a"

definition bindr :: "'a res \<Rightarrow> ('a \<Rightarrow> 'b res) \<Rightarrow> 'b res" where
  "bindr r f = (case r of Inl p \<Rightarrow> Inl p | Inr x \<Rightarrow> f x)"

definition assertr :: "bool \<Rightarrow> 'a res \<Rightarrow> 'a res" where
  "assertr b r = (if b then r else Inl AssertFailed)"

definition derefr :: "'a option \<Rightarrow> 'a res" where
  "derefr p = (case p of None \<Rightarrow> Inl NilDeref | Some x \<Rightarrow> Inr x)"

definition indexr :: "'a list \<Rightarrow> nat \<Rightarrow> 'a res" where
  "indexr xs i = (if i < length xs then Inr (xs ! i) else Inl IndexOutOfRange)"

definition foldr_res :: "('a \<Rightarrow> 's \<Rightarrow> 's res) \<Rightarrow> 'a list \<Rightarrow> 's \<Rightarrow> 's res" where
  "foldr_res f xs s = fold (\<lambda>x r. bindr r (f x)) xs (Inr s)"

named_theorems res_simps
named_theorems go_inv

lemma bindr_Inr [simp, res_simps]: "bindr (Inr x) f = f x"
  by (simp add: bindr_def)

lemma bindr_Inl [simp, res_simps]: "bindr (Inl p) f = Inl p"
  by (simp add: bindr_def)

lemma bindr_eq_Inr_iff [res_simps]: "bindr r f = Inr y \<longleftrightarrow> (\<exists>x. r = Inr x \<and> f x = Inr y)"
  by (cases r) simp_all

lemma Inr_eq_bindr_iff [res_simps]: "Inr y = bindr r f \<longleftrightarrow> (\<exists>x. r = Inr x \<and> f x = Inr y)"
  by (cases r) auto

lemma bindr_eq_Inl_iff: "bindr r f = Inl p \<longleftrightarrow> r = Inl p \<or> (\<exists>x. r = Inr x \<and> f x = Inl p)"
  by (cases r) simp_all

lemma bindr_assoc: "bindr (bindr r f) g = bindr r (\<lambda>x. bindr (f x) g)"
  by (cases r) simp_all

lemma bindr_cong [fundef_cong]:
  "r = r' \<Longrightarrow> (\<And>x. r' = Inr x \<Longrightarrow> f x = f' x) \<Longrightarrow> bindr r f = bindr r' f'"
  by (cases r') simp_all

lemma assertr_True [simp, res_simps]: "b \<Longrightarrow> assertr b r = r"
  by (simp add: assertr_def)

lemma assertr_False [simp]: "\<not> b \<Longrightarrow> assertr b r = Inl AssertFailed"
  by (simp add: assertr_def)

lemma assertr_eq_Inr_iff [res_simps]: "assertr b r = Inr y \<longleftrightarrow> b \<and> r = Inr y"
  by (simp add: assertr_def)

lemma derefr_Some [simp, res_simps]: "derefr (Some x) = Inr x"
  by (simp add: derefr_def)

lemma derefr_None [simp]: "derefr None = Inl NilDeref"
  by (simp add: derefr_def)

lemma derefr_eq_Inr_iff [res_simps]: "derefr p = Inr x \<longleftrightarrow> p = Some x"
  by (cases p) simp_all

lemma indexr_eq_Inr_iff [res_simps]: "indexr xs i = Inr x \<longleftrightarrow> i < length xs \<and> xs ! i = x"
  by (simp add: indexr_def)

lemma indexr_less [simp]: "i < length xs \<Longrightarrow> indexr xs i = Inr (xs ! i)"
  by (simp add: indexr_def)

lemma fold_bindr_Inl [simp]: "fold (\<lambda>x r. bindr r (f x)) xs (Inl p) = Inl p"
  by (induction xs) simp_all

lemma foldr_res_Nil [simp]: "foldr_res f [] s = Inr s"
  by (simp add: foldr_res_def)

lemma foldr_res_Cons [simp]: "foldr_res f (x # xs) s = bindr (f x s) (foldr_res f xs)"
  by (cases "f x s") (simp_all add: foldr_res_def)

text \<open>An invariant kept by every successful iteration holds after a successful loop.\<close>

lemma foldr_res_invariant:
  assumes "foldr_res f xs s = Inr s'"
    and "P s"
    and "\<And>x s s'. x \<in> set xs \<Longrightarrow> P s \<Longrightarrow> f x s = Inr s' \<Longrightarrow> P s'"
  shows "P s'"
  using assms
proof (induction xs arbitrary: s)
  case Nil
  then show ?case by simp
next
  case (Cons x xs)
  then obtain t where "f x s = Inr t" and "foldr_res f xs t = Inr s'"
    by (auto simp: bindr_eq_Inr_iff)
  with Cons.prems(2,3) show ?case
    by (intro Cons.IH [of t]) auto
qed

lemma foldr_res_total:
  assumes "P s" and "\<And>x s. x \<in> set xs \<Longrightarrow> P s \<Longrightarrow> \<exists>s'. f x s = Inr s' \<and> P s'"
  shows "\<exists>s'. foldr_res f xs s = Inr s' \<and> P s'"
  using assms
proof (induction xs arbitrary: s)
  case (Cons x xs)
  then obtain t where "f x s = Inr t" "P t" by fastforce
  with Cons.IH [of t] Cons.prems(2) show ?case by simp
qed simp

section \<open>Maps of maps\<close>

text \<open>
  Reading a missing inner map gives the nil map, which reads as empty; deleting from it does nothing
  and writing to it panics.
\<close>

definition nget :: "('k \<rightharpoonup> ('a \<rightharpoonup> 'b)) \<Rightarrow> 'k \<Rightarrow> ('a \<rightharpoonup> 'b)" where
  "nget m k = (case m k of None \<Rightarrow> Map.empty | Some x \<Rightarrow> x)"

definition nput :: "('k \<rightharpoonup> ('a \<rightharpoonup> 'b)) \<Rightarrow> 'k \<Rightarrow> 'a \<Rightarrow> 'b \<Rightarrow> ('k \<rightharpoonup> ('a \<rightharpoonup> 'b)) res" where
  "nput m k a b = (case m k of None \<Rightarrow> Inl NilMapWrite | Some x \<Rightarrow> Inr (m(k \<mapsto> x(a \<mapsto> b))))"

definition ndel :: "('k \<rightharpoonup> ('a \<rightharpoonup> 'b)) \<Rightarrow> 'k \<Rightarrow> 'a \<Rightarrow> ('k \<rightharpoonup> ('a \<rightharpoonup> 'b))" where
  "ndel m k a = (case m k of None \<Rightarrow> m | Some x \<Rightarrow> m(k \<mapsto> x(a := None)))"

lemma nget_ndel [simp]: "nget (ndel m k a) k' = (if k' = k then (nget m k)(a := None) else nget m k')"
  by (auto simp: nget_def ndel_def split: option.split)

lemma dom_ndel [simp]: "dom (ndel m k a) = dom m"
  by (auto simp: ndel_def split: option.splits)

lemma nget_upd [simp]: "nget (m(k \<mapsto> x)) k' = (if k' = k then x else nget m k')"
  by (simp add: nget_def)

lemma nput_eq_Inr_iff [res_simps]:
  "nput m k a b = Inr m' \<longleftrightarrow> k \<in> dom m \<and> m' = m(k \<mapsto> (nget m k)(a \<mapsto> b))"
  by (auto simp: nput_def nget_def split: option.splits)

lemma nput_dom: "k \<in> dom m \<Longrightarrow> nput m k a b = Inr (m(k \<mapsto> (nget m k)(a \<mapsto> b)))"
  by (auto simp: nput_def nget_def)

section \<open>Little-endian byte order (package encoding/binary)\<close>

text \<open>\<^verbatim>\<open>binary.LittleEndian.PutUint16/32/64\<close> write \<open>n\<close> = 2, 4 or 8 bytes.\<close>

definition put_le :: "nat \<Rightarrow> 'a::len word \<Rightarrow> bytes" where
  "put_le n w = map (\<lambda>i. ucast (drop_bit (8 * i) w)) [0..<n]"

text \<open>\<^verbatim>\<open>binary.LittleEndian.Uint16/32/64\<close>.\<close>

fun get_le :: "bytes \<Rightarrow> 'a::len word" where
  "get_le [] = 0"
| "get_le (b # bs) = ucast b OR push_bit 8 (get_le bs)"

text \<open>\<^verbatim>\<open>binary.BigEndian.Uint64\<close>.\<close>

definition get_be :: "bytes \<Rightarrow> 'a::len word" where
  "get_be bs = get_le (rev bs)"

lemma length_put_le [simp]: "length (put_le n w) = n"
  by (simp add: put_le_def)

lemma bit_get_le:
  "bit (get_le bs :: 'a::len word) i \<longleftrightarrow>
     i < LENGTH('a) \<and> i div 8 < length bs \<and> bit (bs ! (i div 8)) (i mod 8)"
proof (induction bs arbitrary: i)
  case Nil
  then show ?case by simp
next
  case (Cons b bs)
  show ?case
  proof (cases "i < 8")
    case True
    then show ?thesis
      by (auto simp: bit_or_iff bit_push_bit_iff bit_unsigned_iff possible_bit_def)
  next
    case False
    then obtain k where k: "i = 8 + k"
      using le_Suc_ex not_less by blast
    have "\<not> bit b i"
      using False bit_imp_le_length [of b i] by auto
    moreover have "(8 + k) div 8 = Suc (k div 8)" and "(8 + k) mod 8 = k mod 8"
      by simp_all
    ultimately show ?thesis
      using Cons.IH [of k] by (auto simp: k bit_or_iff bit_push_bit_iff bit_unsigned_iff possible_bit_def)
  qed
qed

lemma bit_put_le:
  "j < n \<Longrightarrow> bit (put_le n (w :: 'a::len word) ! j) k \<longleftrightarrow> k < 8 \<and> bit w (8 * j + k)"
  by (auto simp: put_le_def bit_unsigned_iff bit_drop_bit_eq possible_bit_def
      dest: bit_imp_le_length)

lemma get_put_le [simp]:
  assumes "LENGTH('a) \<le> 8 * n"
  shows "get_le (put_le n (w :: 'a::len word)) = w"
proof (rule bit_word_eqI)
  fix i assume "i < LENGTH('a)"
  then show "bit (get_le (put_le n w) :: 'a word) i \<longleftrightarrow> bit w i"
    using assms by (auto simp: bit_get_le bit_put_le)
qed

lemma put_get_le [simp]:
  assumes "8 * length bs \<le> LENGTH('a)"
  shows "put_le (length bs) (get_le bs :: 'a::len word) = bs"
proof (rule nth_equalityI)
  show "length (put_le (length bs) (get_le bs :: 'a word)) = length bs" by simp
next
  fix j assume "j < length (put_le (length bs) (get_le bs :: 'a word))"
  then have j: "j < length bs" by simp
  show "put_le (length bs) (get_le bs :: 'a word) ! j = bs ! j"
  proof (rule bit_word_eqI)
    fix k assume "k < LENGTH(8)"
    then have k: "k < 8" by simp
    with j assms have "8 * j + k < LENGTH('a)" by linarith
    with j k show "bit (put_le (length bs) (get_le bs :: 'a word) ! j) k \<longleftrightarrow> bit (bs ! j) k"
      by (simp add: bit_put_le bit_get_le)
  qed
qed

end
