(* ===== verification/Go_Heap.thy ===== *)
theory Go_Heap
  imports Prelude
begin

text \<open>
  The binary heap of Go's standard package \<^verbatim>\<open>container/heap\<close>, which both queues of the
  dispatcher use. As in Go, the algorithms know the collection only through an interface
  value: \<open>Len\<close>, \<open>Less\<close> and \<open>Swap\<close> (\<^verbatim>\<open>sort.Interface\<close>) and \<open>Push\<close> and \<open>Pop\<close>, here the
  fields of the record \<open>heap_iface\<close>, over an arbitrary state type. \<open>Less\<close>, \<open>Swap\<close> and \<open>Pop\<close>
  may panic (an index out of range, an explicit panic of the implementation).

  The locale \<open>heap_impl\<close> states what an implementation promises: the state is a list of
  elements seen through \<open>view\<close>, \<open>Less\<close> compares two of them, \<open>Swap\<close> exchanges two and leaves
  the rest of the state (\<open>frame\<close>) alone. The comparison \<open>lt\<close> has to be compatible with a
  total preorder \<open>le\<close>, which need not be the order that \<open>lt\<close> itself induces. Inside the locale
  the algorithms are proved total and correct: they never panic, keep the multiset of elements,
  and re-establish the heap order.
\<close>

section \<open>The algorithms of container/heap\<close>

record ('s, 'x) heap_iface =
  hLen :: "'s \<Rightarrow> nat"
  hLess :: "'s \<Rightarrow> nat \<Rightarrow> nat \<Rightarrow> bool res"
  hSwap :: "'s \<Rightarrow> nat \<Rightarrow> nat \<Rightarrow> 's res"
  hPush :: "'s \<Rightarrow> 'x \<Rightarrow> 's"
  hPop :: "'s \<Rightarrow> ('s \<times> 'x) res"

definition parent :: "nat \<Rightarrow> nat" where
  "parent c = (c - 1) div 2"

function heap_up :: "('s, 'x) heap_iface \<Rightarrow> 's \<Rightarrow> nat \<Rightarrow> 's res" where
  "heap_up h s j =
     (let i = parent j in
      if i = j then Inr s
      else bindr (hLess h s j i) (\<lambda>b.
        if \<not> b then Inr s
        else bindr (hSwap h s i j) (\<lambda>s'. heap_up h s' i)))"
  by pat_completeness auto
termination
  by (relation "measure (\<lambda>(h, s, j). j)") (auto simp: parent_def)

text \<open>The loop of \<^verbatim>\<open>down\<close> returns the final index; \<^verbatim>\<open>down\<close> reports whether the element moved.\<close>

function heap_down_loop :: "('s, 'x) heap_iface \<Rightarrow> 's \<Rightarrow> nat \<Rightarrow> nat \<Rightarrow> ('s \<times> nat) res" where
  "heap_down_loop h s i n =
     (let j1 = 2 * i + 1 in
      if j1 \<ge> n then Inr (s, i)
      else bindr (if j1 + 1 < n then hLess h s (j1 + 1) j1 else Inr False) (\<lambda>r.
        let j = (if r then j1 + 1 else j1) in
        bindr (hLess h s j i) (\<lambda>b.
          if \<not> b then Inr (s, i)
          else bindr (hSwap h s i j) (\<lambda>s'. heap_down_loop h s' j n))))"
  by pat_completeness auto
termination
  by (relation "measure (\<lambda>(h, s, i, n). n - i)") auto

declare heap_up.simps [simp del] heap_down_loop.simps [simp del]

definition heap_down :: "('s, 'x) heap_iface \<Rightarrow> 's \<Rightarrow> nat \<Rightarrow> nat \<Rightarrow> ('s \<times> bool) res" where
  "heap_down h s i0 n = bindr (heap_down_loop h s i0 n) (\<lambda>(s', i). Inr (s', i > i0))"

fun heap_init_loop :: "('s, 'x) heap_iface \<Rightarrow> 's \<Rightarrow> nat \<Rightarrow> nat \<Rightarrow> 's res" where
  "heap_init_loop h s n 0 = Inr s"
| "heap_init_loop h s n (Suc i) = bindr (heap_down h s i n) (\<lambda>(s', _). heap_init_loop h s' n i)"

definition heap_Init :: "('s, 'x) heap_iface \<Rightarrow> 's \<Rightarrow> 's res" where
  "heap_Init h s = heap_init_loop h s (hLen h s) (hLen h s div 2)"

definition heap_Push :: "('s, 'x) heap_iface \<Rightarrow> 's \<Rightarrow> 'x \<Rightarrow> 's res" where
  "heap_Push h s x = (let s' = hPush h s x in heap_up h s' (hLen h s' - 1))"

text \<open>On an empty collection \<^verbatim>\<open>Pop\<close> calls \<^verbatim>\<open>Swap(0, -1)\<close>, an index out of range.\<close>

definition heap_Pop :: "('s, 'x) heap_iface \<Rightarrow> 's \<Rightarrow> ('s \<times> 'x) res" where
  "heap_Pop h s =
     (if hLen h s = 0 then Inl IndexOutOfRange
      else let n = hLen h s - 1 in
        bindr (hSwap h s 0 n) (\<lambda>s1.
        bindr (heap_down h s1 0 n) (\<lambda>(s2, _). hPop h s2)))"

definition heap_Remove :: "('s, 'x) heap_iface \<Rightarrow> 's \<Rightarrow> nat \<Rightarrow> ('s \<times> 'x) res" where
  "heap_Remove h s i =
     (if hLen h s = 0 then Inl IndexOutOfRange
      else let n = hLen h s - 1 in
        if n = i then hPop h s
        else bindr (hSwap h s i n) (\<lambda>s1.
          bindr (heap_down h s1 i n) (\<lambda>(s2, moved).
          bindr (if moved then Inr s2 else heap_up h s2 i) (hPop h))))"

definition heap_Fix :: "('s, 'x) heap_iface \<Rightarrow> 's \<Rightarrow> nat \<Rightarrow> 's res" where
  "heap_Fix h s i =
     bindr (heap_down h s i (hLen h s)) (\<lambda>(s1, moved).
       if moved then Inr s1 else heap_up h s1 i)"

section \<open>Heap-ordered lists\<close>

definition swap_list :: "'a list \<Rightarrow> nat \<Rightarrow> nat \<Rightarrow> 'a list" where
  "swap_list xs i j = xs[i := xs ! j, j := xs ! i]"

text \<open>The first \<open>n\<close> elements are heap ordered, possibly but for the edges in \<open>E\<close>.\<close>

definition heap_but :: "('a \<Rightarrow> 'a \<Rightarrow> bool) \<Rightarrow> (nat \<Rightarrow> bool) \<Rightarrow> 'a list \<Rightarrow> nat \<Rightarrow> bool" where
  "heap_but le E xs n \<longleftrightarrow> (\<forall>c. 0 < c \<and> c < n \<and> \<not> E c \<longrightarrow> le (xs ! parent c) (xs ! c))"

text \<open>The parent of \<open>i\<close> is below the children of \<open>i\<close>.\<close>

definition grand_ok :: "('a \<Rightarrow> 'a \<Rightarrow> bool) \<Rightarrow> 'a list \<Rightarrow> nat \<Rightarrow> nat \<Rightarrow> bool" where
  "grand_ok le xs n i \<longleftrightarrow>
     (0 < i \<longrightarrow> (\<forall>c. 0 < c \<and> c < n \<and> parent c = i \<longrightarrow> le (xs ! parent i) (xs ! c)))"

abbreviation heap_list :: "('a \<Rightarrow> 'a \<Rightarrow> bool) \<Rightarrow> 'a list \<Rightarrow> bool" where
  "heap_list le xs \<equiv> heap_but le (\<lambda>_. False) xs (length xs)"

lemma length_swap_list [simp]: "length (swap_list xs i j) = length xs"
  by (simp add: swap_list_def)

lemma mset_swap_list [simp]:
  "i < length xs \<Longrightarrow> j < length xs \<Longrightarrow> mset (swap_list xs i j) = mset xs"
  by (simp add: swap_list_def mset_swap)

lemma nth_swap_list:
  "i < length xs \<Longrightarrow> j < length xs \<Longrightarrow>
     swap_list xs i j ! k = (if k = j then xs ! i else if k = i then xs ! j else xs ! k)"
  by (cases "k < length xs") (auto simp: swap_list_def nth_list_update)

lemma parent_0 [simp]: "parent 0 = 0"
  by (simp add: parent_def)

lemma parent_less [simp]: "0 < c \<Longrightarrow> parent c < c"
  by (auto simp: parent_def)

lemma parent_le [simp]: "parent c \<le> c"
  by (auto simp: parent_def)

lemma parent_eq_self [simp]: "parent c = c \<longleftrightarrow> c = 0"
  by (auto simp: parent_def)

lemma parent_child [simp]: "parent (Suc (2 * i)) = i" "parent (Suc (Suc (2 * i))) = i"
  by (simp_all add: parent_def)

lemma child_cases: "0 < c \<Longrightarrow> parent c = i \<longleftrightarrow> c = 2 * i + 1 \<or> c = 2 * i + 2"
  by (auto simp: parent_def)

lemma heap_but_le: "heap_but le E xs n \<Longrightarrow> m \<le> n \<Longrightarrow> heap_but le E xs m"
  by (auto simp: heap_but_def)

lemma heap_but_agree:
  "heap_but le E xs n \<Longrightarrow> (\<And>k. k < n \<Longrightarrow> ys ! k = xs ! k) \<Longrightarrow> heap_but le E ys n"
  by (auto simp: heap_but_def) (metis less_trans parent_less)

text \<open>
  The order the heap is built on: a preorder, since two queue elements may well have equal keys.
\<close>

locale heap_preorder =
  fixes le :: "'a \<Rightarrow> 'a \<Rightarrow> bool"
  assumes le_refl: "le a a"
    and le_trans: "le a b \<Longrightarrow> le b c \<Longrightarrow> le a c"
begin

text \<open>The root of a heap is a least element.\<close>

lemma heap_root_least:
  assumes heap: "heap_but le (\<lambda>_. False) xs n" and "k < n"
  shows "le (xs ! 0) (xs ! k)"
  using \<open>k < n\<close>
proof (induction k rule: less_induct)
  case (less k)
  show ?case
  proof (cases "k = 0")
    case True
    then show ?thesis by (simp add: le_refl)
  next
    case False
    then have "parent k < k" by auto
    with less have "le (xs ! 0) (xs ! parent k)" by simp
    moreover have "le (xs ! parent k) (xs ! k)"
      using heap False less.prems by (simp add: heap_but_def)
    ultimately show ?thesis by (rule le_trans)
  qed
qed

text \<open>Changing one element of a heap breaks at most the edges at that element.\<close>

lemma heap_changed_at:
  assumes heap: "heap_but le (\<lambda>_. False) xs n"
    and same: "\<And>k. k < n \<Longrightarrow> k \<noteq> i \<Longrightarrow> ys ! k = xs ! k"
  shows "heap_but le (\<lambda>c. c = i \<or> parent c = i) ys n" and "grand_ok le ys n i"
proof -
  have pn: "parent c < n" if "c < n" for c
    using that le_less_trans [OF parent_le] by blast
  have edge: "le (xs ! parent c) (xs ! c)" if "0 < c" "c < n" for c
    using heap that by (simp add: heap_but_def)
  show "heap_but le (\<lambda>c. c = i \<or> parent c = i) ys n"
    using edge same pn by (simp add: heap_but_def)
  show "grand_ok le ys n i"
    unfolding grand_ok_def
  proof (intro impI allI)
    fix c assume i: "0 < i" and c: "0 < c \<and> c < n \<and> parent c = i"
    then have "i < n" "c \<noteq> i" "parent i \<noteq> i" using pn parent_less [of c] by auto
    moreover have "le (xs ! parent i) (xs ! c)"
      using edge [of i] edge [of c] i c \<open>i < n\<close> le_trans by blast
    ultimately show "le (ys ! parent i) (ys ! c)"
      using same c pn by auto
  qed
qed

text \<open>Moving an element one level up: the wrong edge moves up with it.\<close>

lemma swap_up_heap:
  assumes heap: "heap_but le (\<lambda>c. c = j) xs n" and grand: "grand_ok le xs n j"
    and j: "0 < j" "j < n" "n \<le> length xs" and lej: "le (xs ! j) (xs ! parent j)"
  shows "heap_but le (\<lambda>c. c = parent j) (swap_list xs (parent j) j) n"
  unfolding heap_but_def
proof (intro allI impI)
  let ?i = "parent j"
  fix c assume c: "0 < c \<and> c < n \<and> \<not> c = ?i"
  have ij: "?i < j" using j by auto
  have v: "swap_list xs ?i j ! k = (if k = j then xs ! ?i else if k = ?i then xs ! j else xs ! k)" for k
    using j ij by (simp add: nth_swap_list)
  have edge: "c \<noteq> j \<Longrightarrow> le (xs ! parent c) (xs ! c)"
    using heap c by (simp add: heap_but_def)
  have "parent c = j \<Longrightarrow> le (xs ! ?i) (xs ! c)"
    using grand j c by (simp add: grand_ok_def)
  moreover have "c \<noteq> j \<Longrightarrow> parent c = ?i \<Longrightarrow> le (xs ! j) (xs ! c)"
    using edge lej le_trans by auto
  ultimately show "le (swap_list xs ?i j ! parent c) (swap_list xs ?i j ! c)"
    using c ij lej edge by (cases "c = j"; cases "parent c = j"; cases "parent c = ?i") (auto simp: v)
qed

lemma swap_up_grand:
  assumes heap: "heap_but le (\<lambda>c. c = j) xs n" and j: "0 < j" "j < n" "n \<le> length xs"
  shows "grand_ok le (swap_list xs (parent j) j) n (parent j)"
  unfolding grand_ok_def
proof (intro allI impI)
  let ?i = "parent j"
  fix c assume i0: "0 < ?i" and c: "0 < c \<and> c < n \<and> parent c = ?i"
  have ij: "?i < j" "parent ?i < ?i" "?i < c" using j i0 c parent_less [of c] by auto
  have v: "swap_list xs ?i j ! k = (if k = j then xs ! ?i else if k = ?i then xs ! j else xs ! k)" for k
    using j ij by (simp add: nth_swap_list)
  have up: "le (xs ! parent ?i) (xs ! ?i)"
    using heap i0 le_less_trans [OF parent_le j(2)] j(1) by (simp add: heap_but_def)
  have "le (xs ! ?i) (xs ! c)" if "c \<noteq> j"
    using heap c that by (auto simp: heap_but_def)
  with up have "le (xs ! parent ?i) (xs ! c)" if "c \<noteq> j"
    using that le_trans by blast
  with up ij show "le (swap_list xs ?i j ! parent ?i) (swap_list xs ?i j ! c)"
    by (auto simp: v)
qed

text \<open>
  Moving an element one level down, exchanging it with its least child \<open>j\<close>. The edge above the
  old position \<open>i\<close> is right afterwards, even if it was wrong before.
\<close>

lemma swap_down_heap:
  assumes heap: "heap_but le (\<lambda>c. c = i \<or> parent c = i) xs n" and grand: "grand_ok le xs n i"
    and j: "0 < j" "j < n" "parent j = i" "n \<le> length xs"
    and least: "\<And>c. 0 < c \<Longrightarrow> c < n \<Longrightarrow> parent c = i \<Longrightarrow> le (xs ! j) (xs ! c)"
    and lej: "le (xs ! j) (xs ! i)"
  shows "heap_but le (\<lambda>c. parent c = j) (swap_list xs i j) n"
  unfolding heap_but_def
proof (intro allI impI)
  fix c assume c: "0 < c \<and> c < n \<and> \<not> parent c = j"
  have ij: "i < j" using j parent_less [of j] by auto
  have v: "swap_list xs i j ! k = (if k = j then xs ! i else if k = i then xs ! j else xs ! k)" for k
    using j ij by (simp add: nth_swap_list)
  have edge: "c \<noteq> i \<Longrightarrow> parent c \<noteq> i \<Longrightarrow> le (xs ! parent c) (xs ! c)"
    using heap c by (simp add: heap_but_def)
  have "c = i \<Longrightarrow> le (xs ! parent c) (xs ! j)"
    using grand j c by (simp add: grand_ok_def)
  moreover have "parent c < c" using c by auto
  ultimately show "le (swap_list xs i j ! parent c) (swap_list xs i j ! c)"
    using c ij lej edge least [of c] j
    by (cases "c = j"; cases "c = i"; cases "parent c = i") (auto simp: v)
qed

lemma swap_down_grand:
  assumes heap: "heap_but le (\<lambda>c. c = i \<or> parent c = i) xs n"
    and j: "0 < j" "j < n" "parent j = i" "n \<le> length xs"
  shows "grand_ok le (swap_list xs i j) n j"
  unfolding grand_ok_def
proof (intro allI impI)
  fix c assume c: "0 < c \<and> c < n \<and> parent c = j"
  have ij: "i < j" "j < c" using j c parent_less [of c] parent_less [of j] by auto
  have v: "swap_list xs i j ! k = (if k = j then xs ! i else if k = i then xs ! j else xs ! k)" for k
    using j ij by (simp add: nth_swap_list)
  have "le (xs ! j) (xs ! c)"
    using heap c ij by (auto simp: heap_but_def)
  with ij j show "le (swap_list xs i j ! parent j) (swap_list xs i j ! c)"
    by (simp add: v)
qed

end

section \<open>Implementations of the interface\<close>

locale heap_impl = heap_preorder le
  for le :: "'a \<Rightarrow> 'a \<Rightarrow> bool" +
  fixes h :: "('s, 'x) heap_iface"
    and ok :: "'s \<Rightarrow> bool"
    and view :: "'s \<Rightarrow> 'a list"
    and frame :: "'s \<Rightarrow> 'f"
    and lt :: "'a \<Rightarrow> 'a \<Rightarrow> bool"
  assumes len_view: "ok s \<Longrightarrow> hLen h s = length (view s)"
    and less_view: "ok s \<Longrightarrow> i < length (view s) \<Longrightarrow> j < length (view s) \<Longrightarrow>
      hLess h s i j = Inr (lt (view s ! i) (view s ! j))"
    and swap_view: "ok s \<Longrightarrow> i < length (view s) \<Longrightarrow> j < length (view s) \<Longrightarrow>
      \<exists>s'. hSwap h s i j = Inr s' \<and> ok s' \<and> view s' = swap_list (view s) i j \<and> frame s' = frame s"
    and lt_le: "lt a b \<Longrightarrow> le a b"
    and not_lt_le: "\<not> lt a b \<Longrightarrow> le b a"
begin

text \<open>The outcome of a run that rearranges the first \<open>n\<close> elements only.\<close>

definition permuted :: "'s \<Rightarrow> 's \<Rightarrow> nat \<Rightarrow> bool" where
  "permuted s s' n \<longleftrightarrow> ok s' \<and> mset (view s') = mset (view s) \<and> frame s' = frame s \<and>
     (\<forall>k. n \<le> k \<longrightarrow> view s' ! k = view s ! k)"

lemma permuted_refl: "ok s \<Longrightarrow> permuted s s n"
  by (simp add: permuted_def)

lemma permuted_trans: "permuted s s' n \<Longrightarrow> permuted s' s'' n \<Longrightarrow> permuted s s'' n"
  by (simp add: permuted_def)

lemma permuted_ok: "permuted s s' n \<Longrightarrow> ok s'"
  by (simp add: permuted_def)

lemma permuted_length: "permuted s s' n \<Longrightarrow> length (view s') = length (view s)"
  unfolding permuted_def by (metis size_mset)

lemma swap_permuted:
  assumes "ok s" "i < n" "j < n" "n \<le> length (view s)"
  obtains s' where "hSwap h s i j = Inr s'" "view s' = swap_list (view s) i j" "permuted s s' n"
proof -
  have ij: "i < length (view s)" "j < length (view s)" using assms by auto
  obtain s' where s': "hSwap h s i j = Inr s'" "ok s'" "view s' = swap_list (view s) i j"
    "frame s' = frame s" using swap_view [OF \<open>ok s\<close> ij] by auto
  have "permuted s s' n"
    using s' ij assms(2,3) by (auto simp: permuted_def nth_swap_list)
  with s' that show thesis by blast
qed

text \<open>\<^verbatim>\<open>up\<close>: the only edge that may be wrong is the one above \<open>j\<close>; the run repairs it.\<close>

lemma heap_up_correct:
  assumes "ok s" "j < n" "n \<le> length (view s)"
    and "heap_but le (\<lambda>c. c = j) (view s) n" "grand_ok le (view s) n j"
  shows "\<exists>s'. heap_up h s j = Inr s' \<and> permuted s s' n \<and> heap_but le (\<lambda>_. False) (view s') n"
  using assms
proof (induction j arbitrary: s rule: less_induct)
  case (less j)
  let ?i = "parent j"
  note unf = heap_up.simps [of h s j]
  have lessv: "hLess h s j ?i = Inr (lt (view s ! j) (view s ! ?i))"
    using less.prems by (intro less_view) (auto intro: le_less_trans [OF parent_le])
  show ?case
  proof (cases "0 < j \<and> lt (view s ! j) (view s ! ?i)")
    case False
    then have "heap_but le (\<lambda>_. False) (view s) n"
      using less.prems(4) not_lt_le by (auto simp: heap_but_def)
    moreover have "heap_up h s j = Inr s" using False lessv by (subst unf) (auto simp: Let_def)
    ultimately show ?thesis using less.prems(1) by (auto intro: permuted_refl)
  next
    case True
    then have ij: "?i < j" by auto
    obtain s1 where s1: "hSwap h s ?i j = Inr s1" "view s1 = swap_list (view s) ?i j"
      "permuted s s1 n"
      using swap_permuted [of s ?i n j] less.prems ij by auto
    have "heap_but le (\<lambda>c. c = ?i) (view s1) n" "grand_ok le (view s1) n ?i"
      using True less.prems lt_le by (auto simp: s1(2) intro!: swap_up_heap swap_up_grand)
    then obtain s' where "heap_up h s1 ?i = Inr s'" "permuted s1 s' n"
      "heap_but le (\<lambda>_. False) (view s') n"
      using less.IH [of ?i s1] less.prems ij s1(3) by (auto simp: permuted_ok permuted_length)
    with True ij lessv s1 show ?thesis
      by (auto simp: unf intro: permuted_trans)
  qed
qed

text \<open>One round of \<^verbatim>\<open>down\<close>: the loop stops, or exchanges \<open>i\<close> with its least child.\<close>

lemma heap_down_round:
  assumes "ok s" "i < n" "n \<le> length (view s)"
  obtains (stop) "heap_down_loop h s i n = Inr (s, i)"
      "\<And>c. 0 < c \<Longrightarrow> c < n \<Longrightarrow> parent c = i \<Longrightarrow> le (view s ! i) (view s ! c)"
  | (move) s' j where "heap_down_loop h s i n = heap_down_loop h s' j n"
      "view s' = swap_list (view s) i j" "permuted s s' n"
      "0 < j" "j < n" "parent j = i" "le (view s ! j) (view s ! i)"
      "\<And>c. 0 < c \<Longrightarrow> c < n \<Longrightarrow> parent c = i \<Longrightarrow> le (view s ! j) (view s ! c)"
proof (cases "2 * i + 1 < n")
  case False
  then have "heap_down_loop h s i n = Inr (s, i)"
    by (simp add: heap_down_loop.simps [of h s i n])
  moreover have "\<not> parent c = i" if "0 < c" "c < n" for c
    using that False by (auto simp: child_cases)
  ultimately show thesis using stop by blast
next
  case True
  define r where "r \<longleftrightarrow> 2 * i + 2 < n \<and> lt (view s ! (2 * i + 2)) (view s ! (2 * i + 1))"
  define j where "j = (if r then 2 * i + 2 else 2 * i + 1)"
  have j_def': "j = (if r then 2 * i + 1 + 1 else 2 * i + 1)" by (simp add: j_def)
  have j: "0 < j" "j < n" "parent j = i" using True by (auto simp: j_def r_def)
  have least: "le (view s ! j) (view s ! c)" if "0 < c" "c < n" "parent c = i" for c
    using that le_refl lt_le not_lt_le by (auto simp: child_cases j_def r_def)
  have lr: "(if 2 * i + 1 + 1 < n then hLess h s (2 * i + 1 + 1) (2 * i + 1) else Inr False) = Inr r"
    using assms by (auto simp: less_view r_def)
  have lj: "hLess h s j i = Inr (lt (view s ! j) (view s ! i))"
    using assms j by (intro less_view) auto
  have unf: "heap_down_loop h s i n = bindr (hLess h s j i) (\<lambda>b.
      if \<not> b then Inr (s, i) else bindr (hSwap h s i j) (\<lambda>s'. heap_down_loop h s' j n))"
    unfolding heap_down_loop.simps [of h s i n] Let_def lr bindr_Inr j_def' [symmetric]
    using True by simp
  show thesis
  proof (cases "lt (view s ! j) (view s ! i)")
    case False
    then have "le (view s ! i) (view s ! j)" by (rule not_lt_le)
    with least le_trans have "\<And>c. 0 < c \<Longrightarrow> c < n \<Longrightarrow> parent c = i \<Longrightarrow> le (view s ! i) (view s ! c)"
      by blast
    moreover have "heap_down_loop h s i n = Inr (s, i)" using False by (simp add: unf lj)
    ultimately show thesis using stop by blast
  next
    case True
    obtain s' where "hSwap h s i j = Inr s'" "view s' = swap_list (view s) i j" "permuted s s' n"
      using swap_permuted [of s i n j] assms j by auto
    with True show thesis
      using move [of s' j] j least lt_le by (simp add: unf lj)
  qed
qed

text \<open>\<^verbatim>\<open>down\<close> from \<open>i\<close>, where the edges below \<open>i\<close> may be wrong.\<close>

lemma heap_down_loop_correct:
  assumes "ok s" "i < n" "n \<le> length (view s)"
    and "heap_but le (\<lambda>c. parent c = i) (view s) n" "grand_ok le (view s) n i"
  shows "\<exists>s' k. heap_down_loop h s i n = Inr (s', k) \<and> i \<le> k \<and> permuted s s' n \<and>
    heap_but le (\<lambda>_. False) (view s') n"
  using assms
proof (induction "n - i" arbitrary: s i rule: less_induct)
  case less
  show ?case
  proof (cases rule: heap_down_round [of s i n, OF less.prems(1-3), case_names stop move])
    case stop
    with less.prems(4) have "heap_but le (\<lambda>_. False) (view s) n"
      by (auto simp: heap_but_def)
    with stop(1) less.prems(1) show ?thesis by (auto intro: permuted_refl)
  next
    case (move s1 j)
    then have ij: "i < j" using parent_less [of j] by auto
    have "heap_but le (\<lambda>c. c = i \<or> parent c = i) (view s) n"
      using less.prems(4) by (auto simp: heap_but_def)
    then have "heap_but le (\<lambda>c. parent c = j) (view s1) n" "grand_ok le (view s1) n j"
      using move less.prems by (auto intro!: swap_down_heap swap_down_grand)
    then obtain s' k where "heap_down_loop h s1 j n = Inr (s', k)" "j \<le> k" "permuted s1 s' n"
      "heap_but le (\<lambda>_. False) (view s') n"
      using less.hyps [of j s1] less.prems move ij permuted_ok permuted_length
      by (auto simp: diff_less_mono2)
    with move(1,3) ij show ?thesis by (auto intro: permuted_trans)
  qed
qed

text \<open>
  \<^verbatim>\<open>down\<close> from an arbitrary changed element \<open>i\<close>: if it reports no move, the state is the old one
  and only the edge above \<open>i\<close> may still be wrong.
\<close>

lemma heap_down_correct:
  assumes "ok s" "i < n" "n \<le> length (view s)"
    and "heap_but le (\<lambda>c. c = i \<or> parent c = i) (view s) n" "grand_ok le (view s) n i"
  obtains (kept) "heap_down h s i n = Inr (s, False)" "heap_but le (\<lambda>c. c = i) (view s) n"
  | (moved) s' where "heap_down h s i n = Inr (s', True)" "permuted s s' n"
      "heap_but le (\<lambda>_. False) (view s') n"
proof (cases rule: heap_down_round [of s i n, OF assms(1-3), case_names stop move])
  case stop
  with assms(4) have "heap_but le (\<lambda>c. c = i) (view s) n" by (auto simp: heap_but_def)
  with stop(1) kept show thesis by (simp add: heap_down_def)
next
  case (move s1 j)
  then have ij: "i < j" using parent_less [of j] by auto
  have "heap_but le (\<lambda>c. parent c = j) (view s1) n" "grand_ok le (view s1) n j"
    using move assms by (auto intro!: swap_down_heap swap_down_grand)
  then obtain s' k where "heap_down_loop h s1 j n = Inr (s', k)" "j \<le> k" "permuted s1 s' n"
    "heap_but le (\<lambda>_. False) (view s') n"
    using heap_down_loop_correct [of s1 j n] assms move permuted_ok permuted_length by auto
  with move(1,3) ij moved [of s'] show thesis
    by (auto simp: heap_down_def intro: permuted_trans)
qed

end

text \<open>
  An implementation whose \<open>Push\<close> appends and whose \<open>Pop\<close> drops the last element. What \<open>Push\<close>
  takes and \<open>Pop\<close> returns is a handle (a pointer, for the alarm queue); \<open>elt\<close> reads the element
  behind it from the framed part of the state.
\<close>

locale heap_store = heap_impl le h ok view frame lt
  for le :: "'a \<Rightarrow> 'a \<Rightarrow> bool" and h :: "('s, 'x) heap_iface" and ok :: "'s \<Rightarrow> bool"
    and view :: "'s \<Rightarrow> 'a list" and frame :: "'s \<Rightarrow> 'f" and lt :: "'a \<Rightarrow> 'a \<Rightarrow> bool" +
  fixes good :: "'s \<Rightarrow> 'x \<Rightarrow> bool"
    and elt :: "'f \<Rightarrow> 'x \<Rightarrow> 'a"
  assumes push_view: "ok s \<Longrightarrow> good s x \<Longrightarrow>
      ok (hPush h s x) \<and> view (hPush h s x) = view s @ [elt (frame s) x] \<and> frame (hPush h s x) = frame s"
    and pop_view: "ok s \<Longrightarrow> view s \<noteq> [] \<Longrightarrow>
      \<exists>s' x. hPop h s = Inr (s', x) \<and> ok s' \<and> view s' = butlast (view s) \<and>
        elt (frame s) x = last (view s) \<and> frame s' = frame s"
begin

definition heap_ok :: "'s \<Rightarrow> bool" where
  "heap_ok s \<longleftrightarrow> ok s \<and> heap_list le (view s)"

text \<open>The common end of \<^verbatim>\<open>Pop\<close> and \<^verbatim>\<open>Remove\<close>: the last element goes.\<close>

lemma pop_last:
  assumes "permuted s s1 (length (view s) - 1)" "view s \<noteq> []" "last (view s) = y"
    and "heap_but le (\<lambda>_. False) (view s1) (length (view s) - 1)"
  shows "\<exists>s' x. hPop h s1 = Inr (s', x) \<and> heap_ok s' \<and> elt (frame s) x = y \<and>
    mset (view s') = mset (view s) - {#y#} \<and> frame s' = frame s"
proof -
  let ?n = "length (view s) - 1"
  have len1: "length (view s1) = length (view s)" using assms(1) by (rule permuted_length)
  with assms(2) have ne: "view s1 \<noteq> []" by auto
  have "last (view s1) = y"
    using assms(1-3) len1 ne by (simp add: permuted_def last_conv_nth)
  moreover obtain s' x where s': "hPop h s1 = Inr (s', x)" "ok s'" "view s' = butlast (view s1)"
    "elt (frame s1) x = last (view s1)" "frame s' = frame s1"
    using pop_view [of s1] ne permuted_ok [OF assms(1)] by blast
  moreover have "heap_list le (view s')"
    unfolding s'(3) length_butlast len1
    by (rule heap_but_agree [OF assms(4)]) (use len1 in \<open>auto simp: nth_butlast\<close>)
  moreover have "mset (butlast (view s1)) = mset (view s1) - {#last (view s1)#}"
    using arg_cong [where f = mset, OF append_butlast_last_id [OF ne, symmetric]] by simp
  ultimately show ?thesis
    using assms(1) by (auto simp: permuted_def heap_ok_def)
qed

lemma heap_Push_correct:
  assumes "heap_ok s" "good s x"
  shows "\<exists>s'. heap_Push h s x = Inr s' \<and> heap_ok s' \<and>
    mset (view s') = add_mset (elt (frame s) x) (mset (view s)) \<and> frame s' = frame s"
proof -
  let ?s1 = "hPush h s x" and ?n = "length (view s)"
  have s1: "ok ?s1" "view ?s1 = view s @ [elt (frame s) x]" "frame ?s1 = frame s"
    using push_view assms by (auto simp: heap_ok_def)
  have "heap_but le (\<lambda>c. c = ?n) (view ?s1) (Suc ?n)"
    using assms(1) le_less_trans [OF parent_le]
    by (auto simp: heap_ok_def heap_but_def s1(2) nth_append less_Suc_eq)
  moreover have "parent c \<noteq> ?n" if "0 < c" "c < Suc ?n" for c
    using parent_less [OF that(1)] that(2) by linarith
  then have "grand_ok le (view ?s1) (Suc ?n) ?n"
    unfolding grand_ok_def by blast
  ultimately obtain s' where "heap_up h ?s1 ?n = Inr s'" "permuted ?s1 s' (Suc ?n)"
    "heap_but le (\<lambda>_. False) (view s') (Suc ?n)"
    using heap_up_correct [of ?s1 ?n "Suc ?n"] s1 by auto
  moreover from this(2) have "length (view s') = Suc ?n"
    using permuted_length s1(2) by auto
  ultimately show ?thesis
    using s1 by (auto simp: heap_Push_def Let_def len_view permuted_def heap_ok_def)
qed

text \<open>The sifting step that \<^verbatim>\<open>Fix\<close> and \<^verbatim>\<open>Remove\<close> share: down, and up if it did not move.\<close>

lemma sift_correct:
  assumes "ok s" "i < n" "n \<le> length (view s)"
    and "heap_but le (\<lambda>c. c = i \<or> parent c = i) (view s) n" "grand_ok le (view s) n i"
  shows "\<exists>s'. bindr (heap_down h s i n) (\<lambda>(s1, moved). if moved then Inr s1 else heap_up h s1 i) = Inr s' \<and>
    permuted s s' n \<and> heap_but le (\<lambda>_. False) (view s') n"
proof (cases rule: heap_down_correct [of s i n, OF assms, case_names kept moved])
  case kept
  with heap_up_correct [of s i n] assms show ?thesis by auto
qed auto

lemma heap_Fix_correct:
  assumes "ok s" "i < length (view s)"
    and "heap_but le (\<lambda>c. c = i \<or> parent c = i) (view s) (length (view s))"
    and "grand_ok le (view s) (length (view s)) i"
  shows "\<exists>s'. heap_Fix h s i = Inr s' \<and> heap_ok s' \<and> mset (view s') = mset (view s) \<and> frame s' = frame s"
proof -
  obtain s' where "heap_Fix h s i = Inr s'" "permuted s s' (length (view s))"
    "heap_but le (\<lambda>_. False) (view s') (length (view s))"
    using sift_correct [OF assms(1,2) order_refl assms(3,4)] assms(1)
    by (auto simp: heap_Fix_def len_view)
  moreover from this(2) have "length (view s') = length (view s)" by (rule permuted_length)
  ultimately show ?thesis
    by (simp add: heap_ok_def permuted_def)
qed

text \<open>Exchanging \<open>i\<close> with the last element leaves the others a heap, but for the edges at \<open>i\<close>.\<close>

lemma swap_last:
  assumes "heap_ok s" "i < length (view s)"
  obtains s1 where "hSwap h s i (length (view s) - 1) = Inr s1" "permuted s s1 (length (view s))"
    "last (view s1) = view s ! i" "view s1 \<noteq> []"
    "heap_but le (\<lambda>c. c = i \<or> parent c = i) (view s1) (length (view s) - 1)"
    "grand_ok le (view s1) (length (view s) - 1) i"
proof -
  let ?n = "length (view s) - 1"
  have s: "ok s" "heap_list le (view s)" using assms(1) by (auto simp: heap_ok_def)
  have n: "?n < length (view s)" using assms(2) by auto
  obtain s1 where s1: "hSwap h s i ?n = Inr s1" "view s1 = swap_list (view s) i ?n"
    "permuted s s1 (length (view s))"
    using swap_permuted [of s i "length (view s)" ?n] s assms(2) n by auto
  have v: "view s1 ! k = (if k = ?n then view s ! i else if k = i then view s ! ?n else view s ! k)" for k
    using assms(2) n by (simp add: s1(2) nth_swap_list)
  have ne: "length (view s1) = length (view s)" "view s1 \<noteq> []"
    using assms(2) by (auto simp: s1(2) simp flip: length_greater_0_conv)
  then have "last (view s1) = view s ! i" by (simp add: last_conv_nth v)
  moreover have "heap_but le (\<lambda>_. False) (view s) ?n" using s(2) by (rule heap_but_le) simp
  then have "heap_but le (\<lambda>c. c = i \<or> parent c = i) (view s1) ?n" "grand_ok le (view s1) ?n i"
    by (rule heap_changed_at, simp add: v)+
  ultimately show thesis using that s1 ne by blast
qed

lemma heap_Remove_correct:
  assumes "heap_ok s" "i < length (view s)"
  shows "\<exists>s' x. heap_Remove h s i = Inr (s', x) \<and> heap_ok s' \<and> elt (frame s) x = view s ! i \<and>
    mset (view s') = mset (view s) - {#view s ! i#} \<and> frame s' = frame s"
proof (cases "length (view s) - 1 = i")
  case True
  then have "heap_Remove h s i = hPop h s"
    using assms by (auto simp: heap_Remove_def heap_ok_def len_view Let_def)
  moreover have "heap_but le (\<lambda>_. False) (view s) (length (view s) - 1)"
    using assms(1) by (auto simp: heap_ok_def intro: heap_but_le)
  moreover have "view s \<noteq> []" using assms(2) by auto
  ultimately show ?thesis
    using pop_last [of s s "view s ! i"] assms(1) True
    by (auto simp: permuted_refl heap_ok_def last_conv_nth)
next
  case False
  let ?n = "length (view s) - 1"
  have i: "i < ?n" using False assms(2) by linarith
  obtain s1 where s1: "hSwap h s i ?n = Inr s1" "permuted s s1 (length (view s))"
    "last (view s1) = view s ! i" "view s1 \<noteq> []"
    "heap_but le (\<lambda>c. c = i \<or> parent c = i) (view s1) ?n" "grand_ok le (view s1) ?n i"
    using swap_last [OF assms] by blast
  have len1: "length (view s1) = length (view s)" using s1(2) by (rule permuted_length)
  obtain s2 where s2: "permuted s1 s2 ?n" "heap_but le (\<lambda>_. False) (view s2) ?n"
    "bindr (heap_down h s1 i ?n) (\<lambda>(s1, moved). if moved then Inr s1 else heap_up h s1 i) = Inr s2"
    using sift_correct [OF permuted_ok [OF s1(2)] i _ s1(5,6)] len1 by auto
  have "heap_Remove h s i = hPop h s2"
    using assms False s1(1) s2(3)
    by (auto simp: heap_Remove_def heap_ok_def len_view Let_def bindr_eq_Inr_iff split: prod.splits if_splits)
  with pop_last [of s1 s2 "view s ! i"] s1 s2 len1 show ?thesis
    by (auto simp: permuted_def)
qed

lemma heap_Pop_correct:
  assumes "heap_ok s" "view s \<noteq> []"
  shows "\<exists>s' x. heap_Pop h s = Inr (s', x) \<and> heap_ok s' \<and> elt (frame s) x = view s ! 0 \<and>
    mset (view s') = mset (view s) - {#view s ! 0#} \<and> frame s' = frame s"
proof -
  let ?n = "length (view s) - 1"
  obtain s1 where s1: "hSwap h s 0 ?n = Inr s1" "permuted s s1 (length (view s))"
    "last (view s1) = view s ! 0" "view s1 \<noteq> []"
    "heap_but le (\<lambda>c. c = 0 \<or> parent c = 0) (view s1) ?n" "grand_ok le (view s1) ?n 0"
    using swap_last [of s 0] assms by auto
  have len1: "length (view s1) = length (view s)" using s1(2) by (rule permuted_length)
  have ok1: "ok s1" using s1(2) by (rule permuted_ok)
  have "\<exists>s2 m. heap_down h s1 0 ?n = Inr (s2, m) \<and> permuted s1 s2 ?n \<and> heap_but le (\<lambda>_. False) (view s2) ?n"
  proof (cases "?n = 0")
    case True
    with ok1 show ?thesis
      by (auto simp: heap_down_def heap_down_loop.simps [of h s1 0 0] heap_but_def permuted_refl)
  next
    case False
    then have "0 < ?n" "?n \<le> length (view s1)" using len1 by auto
    then show ?thesis
    proof (cases rule: heap_down_correct [OF ok1 _ _ s1(5,6), case_names pos len kept moved])
      case kept
      then have "heap_but le (\<lambda>_. False) (view s1) ?n" by (simp add: heap_but_def)
      with kept(1) ok1 show ?thesis by (blast intro: permuted_refl)
    qed auto
  qed
  then obtain s2 m where s2: "heap_down h s1 0 ?n = Inr (s2, m)" "permuted s1 s2 ?n"
    "heap_but le (\<lambda>_. False) (view s2) ?n" by blast
  have "heap_Pop h s = hPop h s2"
    using assms s1(1) s2(1) by (simp add: heap_Pop_def heap_ok_def len_view Let_def)
  with pop_last [of s1 s2 "view s ! 0"] s1 s2 len1 show ?thesis
    by (auto simp: permuted_def)
qed

lemma heap_ok_least:
  assumes "heap_ok s" "y \<in> set (view s)"
  shows "le (view s ! 0) y"
  using assms heap_root_least [of "view s" "length (view s)"]
  by (auto simp: heap_ok_def in_set_conv_nth)

end

end
