(* ===== verification/Go_Strings.thy ===== *)
theory Go_Strings
  imports Prelude
begin

text \<open>
  The functions of the Go packages \<^verbatim>\<open>strings\<close> and \<^verbatim>\<open>strconv\<close> that the message parsers use: splitting at a
  one-character separator, and the parsers of decimal and hexadecimal numbers, which return \<open>None\<close>
  where Go returns an error.
\<close>

section \<open>strings.Split\<close>

fun go_Split :: "string \<Rightarrow> char \<Rightarrow> string list" where
  "go_Split [] sep = [[]]"
| "go_Split (c # cs) sep =
     (if c = sep then [] # go_Split cs sep
      else (case go_Split cs sep of [] \<Rightarrow> [[c]] | w # ws \<Rightarrow> (c # w) # ws))"

fun go_Join :: "string list \<Rightarrow> char \<Rightarrow> string" where
  "go_Join [] sep = []"
| "go_Join [w] sep = w"
| "go_Join (w # v # ws) sep = w @ sep # go_Join (v # ws) sep"

lemma go_Split_not_Nil [simp]: "go_Split s sep \<noteq> []"
  by (cases s) (auto split: list.splits)

lemma go_Split_append:
  "sep \<notin> set w \<Longrightarrow> go_Split (w @ sep # s) sep = w # go_Split s sep"
  by (induction w) auto

lemma go_Split_single: "sep \<notin> set w \<Longrightarrow> go_Split w sep = [w]"
  by (induction w) auto

lemma go_Split_Join:
  "ws \<noteq> [] \<Longrightarrow> \<forall>w \<in> set ws. sep \<notin> set w \<Longrightarrow> go_Split (go_Join ws sep) sep = ws"
  by (induction ws sep rule: go_Join.induct) (auto simp: go_Split_append go_Split_single)

lemma go_Join_Cons: "ws \<noteq> [] \<Longrightarrow> go_Join (w # ws) sep = w @ sep # go_Join ws sep"
  by (cases ws) auto

lemma go_Join_Split: "go_Join (go_Split s sep) sep = s"
proof (induction s)
  case (Cons c s)
  show ?case
  proof (cases "go_Split s sep")
    case (Cons w ws)
    with \<open>go_Join (go_Split s sep) sep = s\<close> show ?thesis
      by (cases ws) (auto simp: go_Join_Cons)
  qed simp
qed simp

lemma go_Split_no_sep: "w \<in> set (go_Split s sep) \<Longrightarrow> sep \<notin> set w"
  by (induction s arbitrary: w) (auto split: if_splits list.splits)

section \<open>strconv\<close>

definition digit_val :: "char \<Rightarrow> nat option" where
  "digit_val c = (let n = of_char c :: nat in
     if 48 \<le> n \<and> n \<le> 57 then Some (n - 48)
     else if 97 \<le> n \<and> n \<le> 102 then Some (n - 87)
     else if 65 \<le> n \<and> n \<le> 70 then Some (n - 55) else None)"

fun parse_digits :: "nat \<Rightarrow> nat \<Rightarrow> string \<Rightarrow> nat option" where
  "parse_digits base acc [] = Some acc"
| "parse_digits base acc (c # cs) =
     (case digit_val c of None \<Rightarrow> None
      | Some d \<Rightarrow> if d < base then parse_digits base (acc * base + d) cs else None)"

text \<open>\<^verbatim>\<open>strconv.ParseUint(s, base, bits)\<close> for the bases 10 and 16.\<close>

definition go_ParseUint :: "string \<Rightarrow> nat \<Rightarrow> nat \<Rightarrow> nat option" where
  "go_ParseUint s base bits =
     (if s = [] then None
      else case parse_digits base 0 s of
        None \<Rightarrow> None
      | Some n \<Rightarrow> if n < 2 ^ bits then Some n else None)"

text \<open>\<^verbatim>\<open>strconv.Atoi\<close>, with the 64-bit \<open>int\<close>.\<close>

definition go_Atoi :: "string \<Rightarrow> int option" where
  "go_Atoi s =
     (let neg = (s \<noteq> [] \<and> hd s = CHR ''-'');
          ds = (if s \<noteq> [] \<and> (hd s = CHR ''-'' \<or> hd s = CHR ''+'') then tl s else s)
      in if ds = [] then None
         else case parse_digits 10 0 ds of
           None \<Rightarrow> None
         | Some n \<Rightarrow> (let i = (if neg then - int n else int n) in
             if - (2 ^ 63) \<le> i \<and> i < 2 ^ 63 then Some i else None))"

text \<open>\<^verbatim>\<open>strconv.Itoa\<close>: decimal digits, with a minus sign for a negative number.\<close>

fun nat_digits :: "nat \<Rightarrow> string" where
  "nat_digits n = (if n < 10 then [char_of (48 + n)] else nat_digits (n div 10) @ [char_of (48 + n mod 10)])"

declare nat_digits.simps [simp del]

definition go_Itoa :: "int \<Rightarrow> string" where
  "go_Itoa i = (if i < 0 then CHR ''-'' # nat_digits (nat (- i)) else nat_digits (nat i))"

text \<open>A failed conversion followed by \<^verbatim>\<open>logger.PanicIfError\<close>.\<close>

definition panicIfError :: "'a option \<Rightarrow> 'a res" where
  "panicIfError r = (case r of None \<Rightarrow> Inl ErrorPanic | Some x \<Rightarrow> Inr x)"

lemma panicIfError_simps [simp]: "panicIfError (Some x) = Inr x" "panicIfError None = Inl ErrorPanic"
  by (simp_all add: panicIfError_def)

lemma panicIfError_eq_Inr [res_simps]: "panicIfError r = Inr x \<longleftrightarrow> r = Some x"
  by (cases r) simp_all

lemma go_ParseUint_bound: "go_ParseUint s base bits = Some n \<Longrightarrow> n < 2 ^ bits"
  by (auto simp: go_ParseUint_def split: if_splits option.splits)

text \<open>\<^verbatim>\<open>[]byte(s)\<close> and \<^verbatim>\<open>string(b)\<close>.\<close>

definition string_bytes :: "string \<Rightarrow> bytes" where
  "string_bytes s = map (\<lambda>c. of_nat (of_char c)) s"

definition bytes_string :: "bytes \<Rightarrow> string" where
  "bytes_string bs = map (\<lambda>b. char_of (unat b)) bs"

lemma bytes_string_bytes [simp]: "bytes_string (string_bytes s) = s"
  by (simp add: bytes_string_def string_bytes_def comp_def unat_of_nat)

section \<open>Printing and parsing decimal numbers\<close>

lemma digit_val_char_of: "d < 10 \<Longrightarrow> digit_val (char_of (48 + d)) = Some d"
  by (simp add: digit_val_def Let_def)

lemma parse_digits_append:
  "parse_digits b acc (xs @ ys) = (case parse_digits b acc xs of None \<Rightarrow> None | Some a \<Rightarrow> parse_digits b a ys)"
  by (induction xs arbitrary: acc) (auto split: option.split)

lemma parse_nat_digits: "parse_digits 10 0 (nat_digits n) = Some n"
proof (induction n rule: nat_digits.induct)
  case (1 n)
  have "digit_val (char_of (48 + n mod 10)) = Some (n mod 10)" by (rule digit_val_char_of) simp
  with 1 show ?case
    by (subst nat_digits.simps) (simp add: digit_val_char_of parse_digits_append)
qed

lemma nat_digits_nonempty [simp]: "nat_digits n \<noteq> []"
  by (subst nat_digits.simps) simp

lemma nat_digits_range:
  "c \<in> set (nat_digits n) \<Longrightarrow> (48::nat) \<le> of_char c \<and> of_char c \<le> (57::nat)"
proof (induction n rule: nat_digits.induct)
  case (1 n)
  have d: "(of_char (char_of (48 + d) :: char) :: nat) = 48 + d" if "d < 10" for d :: nat
    using that by simp
  show ?case
  proof (cases "n < 10")
    case True
    with 1(2) have "c = char_of (48 + n)" by (subst (asm) nat_digits.simps) simp
    with d [OF True] True show ?thesis by simp
  next
    case False
    with 1(2) have "c = char_of (48 + n mod 10) \<or> c \<in> set (nat_digits (n div 10))"
      by (subst (asm) nat_digits.simps) auto
    moreover have "(of_char (char_of (48 + n mod 10) :: char) :: nat) = 48 + n mod 10" by (rule d) simp
    moreover have "n mod 10 < 10" by simp
    ultimately show ?thesis using 1(1) False by force
  qed
qed

lemma hd_nat_digits_no_sign: "hd (nat_digits n) \<noteq> CHR ''-''" "hd (nat_digits n) \<noteq> CHR ''+''"
  using nat_digits_range [OF hd_in_set [OF nat_digits_nonempty], of n] by auto

lemma go_Itoa_no_separator: "CHR ''/'' \<notin> set (go_Itoa i)" "CHR 0x5C \<notin> set (go_Itoa i)"
  using nat_digits_range [of "CHR ''/''"] nat_digits_range [of "CHR 0x5C"]
  by (auto simp: go_Itoa_def)

lemma go_Atoi_Itoa: "- (2 ^ 63) \<le> i \<Longrightarrow> i < 2 ^ 63 \<Longrightarrow> go_Atoi (go_Itoa i) = Some i"
  by (simp add: go_Atoi_def go_Itoa_def Let_def parse_nat_digits hd_nat_digits_no_sign)

end
