(* ===== verification/Types.thy ===== *)
theory Types
  imports Prelude Go_Strings
begin

text \<open>
  Package \<^verbatim>\<open>types\<close>: the identifiers, constants and small structs that every other package uses
  (\<^verbatim>\<open>src/types/types.go\<close>, \<^verbatim>\<open>ot_types.go\<close>, \<^verbatim>\<open>rfsim_types.go\<close>, \<^verbatim>\<open>node_config.go\<close>). Go's enumerations
  are plain integers that may hold values outside the named constants (they come off the wire), so
  they are integers or words here too, and the named constants are abbreviations.
\<close>

section \<open>Identifiers and constants (types.go, ot_types.go)\<close>

type_synonym NodeId = int
type_synonym ChannelId = u8

abbreviation InvalidNodeId :: NodeId where
  "InvalidNodeId \<equiv> 0"

abbreviation BroadcastNodeId :: NodeId where
  "BroadcastNodeId \<equiv> -1"

abbreviation InvalidExtAddr :: u64 where
  "InvalidExtAddr \<equiv> 0xffffffffffffffff"

abbreviation InvalidChannel :: ChannelId where
  "InvalidChannel \<equiv> 0xff"

abbreviation OT_ERROR_NONE :: u8 where
  "OT_ERROR_NONE \<equiv> 0"

abbreviation OT_ERROR_ABORT :: u8 where
  "OT_ERROR_ABORT \<equiv> 11"

abbreviation OT_ERROR_FCS :: u8 where
  "OT_ERROR_FCS \<equiv> 17"

abbreviation OT_TX_TYPE_INTF :: u8 where
  "OT_TX_TYPE_INTF \<equiv> 192"

abbreviation InvalidRloc16 :: u16 where
  "InvalidRloc16 \<equiv> 0xfffe"

abbreviation BroadcastRloc16 :: u16 where
  "BroadcastRloc16 \<equiv> 0xffff"

abbreviation MinChannelNumber :: ChannelId where
  "MinChannelNumber \<equiv> 0"

abbreviation MaxChannelNumber :: ChannelId where
  "MaxChannelNumber \<equiv> 39"

abbreviation PhyHeaderLenBytes :: nat where
  "PhyHeaderLenBytes \<equiv> 6"

section \<open>Roles, joiner states and radio states\<close>

type_synonym OtDeviceRole = int

abbreviation OtDeviceRoleDisabled :: OtDeviceRole where
  "OtDeviceRoleDisabled \<equiv> 0"

abbreviation OtDeviceRoleDetached :: OtDeviceRole where
  "OtDeviceRoleDetached \<equiv> 1"

abbreviation OtDeviceRoleChild :: OtDeviceRole where
  "OtDeviceRoleChild \<equiv> 2"

abbreviation OtDeviceRoleRouter :: OtDeviceRole where
  "OtDeviceRoleRouter \<equiv> 3"

abbreviation OtDeviceRoleLeader :: OtDeviceRole where
  "OtDeviceRoleLeader \<equiv> 4"

type_synonym OtJoinerState = int

abbreviation OtJoinerStateIdle :: OtJoinerState where
  "OtJoinerStateIdle \<equiv> 0"

abbreviation OtJoinerStateDiscover :: OtJoinerState where
  "OtJoinerStateDiscover \<equiv> 1"

abbreviation OtJoinerStateConnect :: OtJoinerState where
  "OtJoinerStateConnect \<equiv> 2"

abbreviation OtJoinerStateJoined :: OtJoinerState where
  "OtJoinerStateJoined \<equiv> 5"

type_synonym RadioStates = u8
type_synonym RadioSubStates = u8

abbreviation RadioDisabled :: RadioStates where
  "RadioDisabled \<equiv> 0"

abbreviation RadioSleep :: RadioStates where
  "RadioSleep \<equiv> 1"

abbreviation RadioRx :: RadioStates where
  "RadioRx \<equiv> 2"

abbreviation RadioTx :: RadioStates where
  "RadioTx \<equiv> 3"

abbreviation RadioInvalid :: RadioStates where
  "RadioInvalid \<equiv> 255"

text \<open>The \<^verbatim>\<open>String\<close> methods, with the substates numbered as \<^verbatim>\<open>iota\<close> does.\<close>

definition OtDeviceRole_String :: "OtDeviceRole \<Rightarrow> string" where
  "OtDeviceRole_String r =
    (if r = OtDeviceRoleDisabled then ''disabled'' else if r = OtDeviceRoleDetached then ''detached''
     else if r = OtDeviceRoleChild then ''child'' else if r = OtDeviceRoleRouter then ''router''
     else if r = OtDeviceRoleLeader then ''leader'' else ''INVALID'')"

definition RadioStates_String :: "RadioStates \<Rightarrow> string" where
  "RadioStates_String s =
    (if s = RadioDisabled then ''Off'' else if s = RadioSleep then ''Slp''
     else if s = RadioRx then ''Rx_'' else if s = RadioTx then ''Tx_'' else ''INVALID'')"

definition RadioSubStates_String :: "RadioSubStates \<Rightarrow> string" where
  "RadioSubStates_String s =
    (if s = 0 then ''Ready__'' else if s = 1 then ''IFS____'' else if s = 2 then ''CCA____''
     else if s = 3 then ''CCA2Tx_'' else if s = 4 then ''FrameTx'' else if s = 5 then ''Tx2Rx__''
     else if s = 6 then ''Tx2AIFS'' else if s = 7 then ''TxAIFS_'' else if s = 8 then ''AckRx__''
     else if s = 9 then ''FrameRx'' else if s = 10 then ''RxAIFS_'' else if s = 11 then ''AckTx__''
     else if s = 12 then ''AckT2Rx'' else if s = 13 then ''EnrScan'' else if s = 14 then ''Startup''
     else if s = 15 then ''Invalid'' else if s = 16 then ''WaitCCA'' else if s = 17 then ''CwBackf''
     else ''???????'')"

definition GetNodeName :: "NodeId \<Rightarrow> string" where
  "GetNodeName nodeid =
    (let spacing = (if nodeid \<ge> 100 then [] else if nodeid \<ge> 10 then '' '' else ''  '')
     in ''Node<'' @ go_Itoa nodeid @ ''>'' @ spacing)"

text \<open>\<^verbatim>\<open>func GetDefaultRcpIeeeEui64\<close>.\<close>

definition GetDefaultRcpIeeeEui64 :: "NodeId \<Rightarrow> u64" where
  "GetDefaultRcpIeeeEui64 nodeid =
     (word_of_int nodeid AND 0x000000FFFFFFFFFF) OR push_bit 40 0x18b430"

section \<open>Node mode and statistics (types.go)\<close>

record NodeMode =
  RxOnWhenIdle :: bool
  FullThreadDevice :: bool
  FullNetworkData :: bool

definition DefaultNodeMode :: NodeMode where
  "DefaultNodeMode = \<lparr>RxOnWhenIdle = True, FullThreadDevice = True, FullNetworkData = True\<rparr>"

definition ParseNodeMode_step :: "char \<Rightarrow> NodeMode \<Rightarrow> NodeMode" where
  "ParseNodeMode_step c mode =
     (if c = CHR ''r'' then mode\<lparr>RxOnWhenIdle := True\<rparr>
      else if c = CHR ''d'' then mode\<lparr>FullThreadDevice := True\<rparr>
      else if c = CHR ''n'' then mode\<lparr>FullNetworkData := True\<rparr>
      else mode)"

definition ParseNodeMode :: "string \<Rightarrow> NodeMode" where
  "ParseNodeMode s = fold ParseNodeMode_step s
     \<lparr>RxOnWhenIdle = False, FullThreadDevice = False, FullNetworkData = False\<rparr>"

record NodeStats =
  NumNodes :: nat
  NumLeaders :: nat
  NumPartitions :: nat
  NumRouters :: nat
  NumEndDevices :: nat
  NumDetached :: nat
  NumDisabled :: nat
  NumSleepy :: nat
  NumFailed :: nat

definition zeroNodeStats :: NodeStats where
  "zeroNodeStats = \<lparr>NumNodes = 0, NumLeaders = 0, NumPartitions = 0, NumRouters = 0, NumEndDevices = 0,
     NumDetached = 0, NumDisabled = 0, NumSleepy = 0, NumFailed = 0\<rparr>"

record PhyStats =
  TxBytes :: u64
  TxTimeUs :: u64
  ChanSampleCount :: u64

definition zeroPhyStats :: PhyStats where
  "zeroPhyStats = \<lparr>TxBytes = 0, TxTimeUs = 0, ChanSampleCount = 0\<rparr>"

definition PhyStats_Minus :: "PhyStats \<Rightarrow> PhyStats \<Rightarrow> PhyStats" where
  "PhyStats_Minus ps other =
     \<lparr>TxBytes = TxBytes ps - TxBytes other,
      TxTimeUs = TxTimeUs ps - TxTimeUs other,
      ChanSampleCount = ChanSampleCount ps - ChanSampleCount other\<rparr>"

section \<open>Radio simulation parameters (rfsim\_types.go)\<close>

type_synonym RfSimParam = u8
type_synonym RfSimParamValue = "32 word"

abbreviation ParamUnknown :: RfSimParam where
  "ParamUnknown \<equiv> 255"

definition RfSimParamsList :: "RfSimParam list" where
  "RfSimParamsList = [0, 1, 2, 3, 4, 5, 6]"

definition RfSimParamNamesList :: "string list" where
  "RfSimParamNamesList =
     [''rxsens'', ''ccath'', ''cslacc'', ''cslunc'', ''txintf'', ''clkdrift'', ''bitrate'']"

fun ParseRfSimParam_loop :: "string \<Rightarrow> (string \<times> RfSimParam) list \<Rightarrow> RfSimParam" where
  "ParseRfSimParam_loop parName [] = ParamUnknown"
| "ParseRfSimParam_loop parName ((name, par) # rest) =
     (if parName = name then par else ParseRfSimParam_loop parName rest)"

definition ParseRfSimParam :: "string \<Rightarrow> RfSimParam" where
  "ParseRfSimParam parName = ParseRfSimParam_loop parName (zip RfSimParamNamesList RfSimParamsList)"

section \<open>Node configuration (node\_config.go)\<close>

record NodeConfig =
  cfgID :: int
  cfgType :: string
  cfgVersion :: string
  cfgX :: int
  cfgY :: int
  cfgZ :: int
  IsAutoPlaced :: bool
  IsRaw :: bool
  IsMtd :: bool
  IsRcp :: bool
  IsRouter :: bool
  IsBorderRouter :: bool
  IsExternal :: bool
  RxOffWhenIdle :: bool
  NodeLogFile :: bool
  cfgRadioRange :: int
  ExecutablePath :: string
  HostExePath :: string
  NetIfName :: string
  Restore :: bool
  InitScript :: "string list"
  cfgRandomSeed :: "32 word"
  RfSimParams :: "(RfSimParam \<times> RfSimParamValue) list"

text \<open>
  \<^verbatim>\<open>UpdateNodeConfigFromType\<close> resets the flags, then sets those of the type. It mutates the
  receiver also when it returns the error (the flag of the second component).
\<close>

definition UpdateNodeConfigFromType :: "NodeConfig \<Rightarrow> NodeConfig \<times> bool" where
  "UpdateNodeConfigFromType cfg0 =
     (let cfg = cfg0\<lparr>IsRouter := False, IsMtd := False, IsBorderRouter := False, IsRcp := False,
        RxOffWhenIdle := False\<rparr> in
      if cfgType cfg \<in> {''router'', ''reed'', ''ftd'', ''matter''} then (cfg\<lparr>IsRouter := True\<rparr>, True)
      else if cfgType cfg \<in> {''fed'', ''wifi''} then (cfg, True)
      else if cfgType cfg \<in> {''med'', ''mtd''} then (cfg\<lparr>IsMtd := True\<rparr>, True)
      else if cfgType cfg \<in> {''sed'', ''ssed''} then (cfg\<lparr>IsMtd := True, RxOffWhenIdle := True\<rparr>, True)
      else if cfgType cfg = ''br'' then (cfg\<lparr>IsRouter := True, IsBorderRouter := True\<rparr>, True)
      else if cfgType cfg = ''otbr'' then
        (cfg\<lparr>IsRouter := True, IsBorderRouter := True, IsRcp := True\<rparr>, True)
      else if cfgType cfg = ''ext'' then (cfg\<lparr>IsExternal := True\<rparr>, True)
      else if cfgType cfg = ''rcp'' then (cfg\<lparr>IsRouter := True, IsRcp := True\<rparr>, True)
      else (cfg, False))"

section \<open>Properties\<close>

lemma fold_ParseNodeMode_step:
  "fold ParseNodeMode_step s mode =
     \<lparr>RxOnWhenIdle = RxOnWhenIdle mode \<or> CHR ''r'' \<in> set s,
      FullThreadDevice = FullThreadDevice mode \<or> CHR ''d'' \<in> set s,
      FullNetworkData = FullNetworkData mode \<or> CHR ''n'' \<in> set s\<rparr>"
  by (induction s arbitrary: mode) (auto simp: ParseNodeMode_step_def)

lemma PhyStats_Minus_add:
  "TxBytes (PhyStats_Minus a b) + TxBytes b = TxBytes a"
  "TxTimeUs (PhyStats_Minus a b) + TxTimeUs b = TxTimeUs a"
  "ChanSampleCount (PhyStats_Minus a b) + ChanSampleCount b = ChanSampleCount a"
  by (simp_all add: PhyStats_Minus_def)

text \<open>
  The node types are consistent. \<open>UpdateNodeConfigFromType\<close> fails exactly for an unknown type; for
  a known one, whatever the flags were before, a device is not both a minimal device and a router,
  only minimal devices sleep, every border router is a router, and nothing but these flags (and
  \<open>IsExternal\<close>, which is only ever set) changes; applying it again changes nothing.
\<close>

theorem UpdateNodeConfig_flags:
  "let (cfg', ok) = UpdateNodeConfigFromType cfg in
     (ok = (cfgType cfg \<in> {''router'', ''reed'', ''ftd'', ''matter'', ''fed'', ''wifi'', ''med'', ''mtd'',
        ''sed'', ''ssed'', ''br'', ''otbr'', ''ext'', ''rcp''})) \<and>
     \<not> (IsMtd cfg' \<and> IsRouter cfg') \<and> \<not> (RxOffWhenIdle cfg' \<and> \<not> IsMtd cfg') \<and>
     \<not> (IsBorderRouter cfg' \<and> \<not> IsRouter cfg') \<and> IsExternal cfg' = (IsExternal cfg \<or> cfgType cfg = ''ext'') \<and>
     cfg'\<lparr>IsRouter := IsRouter cfg, IsMtd := IsMtd cfg, IsBorderRouter := IsBorderRouter cfg,
       IsRcp := IsRcp cfg, RxOffWhenIdle := RxOffWhenIdle cfg, IsExternal := IsExternal cfg\<rparr> = cfg \<and>
     UpdateNodeConfigFromType cfg' = (cfg', ok)"
  by (auto simp: UpdateNodeConfigFromType_def Let_def)

end
