(* ===== verification/Alarm_Mgr.thy ===== *)
theory Alarm_Mgr
  imports Go_Heap Types
begin

text \<open>
  The alarm manager of the dispatcher (\<^verbatim>\<open>src/dispatcher/alarm_mgr.go\<close>): one \<open>alarmEvent\<close> per node,
  reachable both through the priority queue \<open>q\<close> and through the map \<open>events\<close>. The two share the
  objects (the queue moves them and rewrites their \<open>index\<close>, the map is used to find the one to
  change), so the objects live in an explicit memory \<open>amMem\<close> and both structures hold pointers;
  allocation appends to the memory.

  The section \<^emph>\<open>Refinement\<close> shows that the manager implements a finite map from node ids to
  timestamps with a least element: every operation has exactly the effect on that map that its name
  says, keeps the invariant (the queue is heap ordered, every \<open>index\<close> is right, queue and map hold
  the same objects), and never panics when its documented precondition holds.
\<close>

section \<open>The code\<close>

abbreviation Ever :: u64 where
  "Ever \<equiv> 0x7fffffffffffffff"

type_synonym ptr = nat

record alarmEvent =
  aeNodeId :: NodeId
  aeTimestamp :: u64
  aeIndex :: nat

record alarmMgr =
  amQ :: "ptr list"
  amEvents :: "NodeId \<rightharpoonup> ptr"
  amMem :: "alarmEvent list"

definition am_load :: "alarmMgr \<Rightarrow> ptr \<Rightarrow> alarmEvent res" where
  "am_load am p = (if p < length (amMem am) then Inr (amMem am ! p) else Inl NilDeref)"

definition am_store :: "alarmMgr \<Rightarrow> ptr \<Rightarrow> alarmEvent \<Rightarrow> alarmMgr" where
  "am_store am p e = am\<lparr>amMem := (amMem am)[p := e]\<rparr>"

definition am_set_index :: "alarmMgr \<Rightarrow> ptr \<Rightarrow> nat \<Rightarrow> alarmMgr" where
  "am_set_index am p i = am\<lparr>amMem := (amMem am)[p := (amMem am ! p)\<lparr>aeIndex := i\<rparr>]\<rparr>"

definition alarmQueue_Less :: "alarmMgr \<Rightarrow> nat \<Rightarrow> nat \<Rightarrow> bool res" where
  "alarmQueue_Less am i j =
     bindr (indexr (amQ am) i) (\<lambda>p. bindr (am_load am p) (\<lambda>a.
     bindr (indexr (amQ am) j) (\<lambda>r. bindr (am_load am r) (\<lambda>b.
       Inr (aeTimestamp a < aeTimestamp b)))))"

definition alarmQueue_Swap :: "alarmMgr \<Rightarrow> nat \<Rightarrow> nat \<Rightarrow> alarmMgr res" where
  "alarmQueue_Swap am i j =
     bindr (indexr (amQ am) i) (\<lambda>pa. bindr (indexr (amQ am) j) (\<lambda>pb.
     bindr (am_load am pa) (\<lambda>a. bindr (am_load am pb) (\<lambda>b.
       if aeIndex a \<noteq> i \<and> aeIndex b \<noteq> j then Inl ExplicitPanic
       else Inr (am_set_index (am_set_index
              (am\<lparr>amQ := (amQ am)[i := pb, j := pa]\<rparr>) pb i) pa j)))))"

definition alarmQueue_Push :: "alarmMgr \<Rightarrow> ptr \<Rightarrow> alarmMgr" where
  "alarmQueue_Push am p =
     (let am1 = am\<lparr>amQ := amQ am @ [p]\<rparr> in am_set_index am1 p (length (amQ am1) - 1))"

definition alarmQueue_Pop :: "alarmMgr \<Rightarrow> (alarmMgr \<times> ptr) res" where
  "alarmQueue_Pop am =
     (if amQ am = [] then Inl IndexOutOfRange
      else Inr (am\<lparr>amQ := butlast (amQ am)\<rparr>, last (amQ am)))"

definition alarmQueue :: "(alarmMgr, ptr) heap_iface" where
  "alarmQueue = \<lparr>hLen = (\<lambda>am. length (amQ am)), hLess = alarmQueue_Less, hSwap = alarmQueue_Swap,
     hPush = alarmQueue_Push, hPop = alarmQueue_Pop\<rparr>"

definition newAlarmMgr :: "alarmMgr res" where
  "newAlarmMgr = heap_Init alarmQueue \<lparr>amQ = [], amEvents = Map.empty, amMem = []\<rparr>"

definition alarmMgr_AddNode :: "alarmMgr \<Rightarrow> NodeId \<Rightarrow> alarmMgr res" where
  "alarmMgr_AddNode am nodeid =
     assertr (amEvents am nodeid = None)
       (let p = length (amMem am);
            e = \<lparr>aeNodeId = nodeid, aeTimestamp = Ever, aeIndex = 0\<rparr>;
            am1 = am\<lparr>amMem := amMem am @ [e]\<rparr>
        in bindr (heap_Push alarmQueue am1 p) (\<lambda>am2.
             Inr (am2\<lparr>amEvents := (amEvents am2)(nodeid \<mapsto> p)\<rparr>)))"

definition alarmMgr_SetTimestamp :: "alarmMgr \<Rightarrow> NodeId \<Rightarrow> u64 \<Rightarrow> alarmMgr res" where
  "alarmMgr_SetTimestamp am nodeid timestamp =
     (case amEvents am nodeid of
        None \<Rightarrow> Inl AssertFailed
      | Some p \<Rightarrow> bindr (am_load am p) (\<lambda>e.
          if aeTimestamp e \<noteq> timestamp
          then heap_Fix alarmQueue (am_store am p (e\<lparr>aeTimestamp := timestamp\<rparr>)) (aeIndex e)
          else Inr am))"

definition alarmMgr_SetNotified :: "alarmMgr \<Rightarrow> NodeId \<Rightarrow> alarmMgr res" where
  "alarmMgr_SetNotified am nodeid = alarmMgr_SetTimestamp am nodeid Ever"

definition alarmMgr_GetTimestamp :: "alarmMgr \<Rightarrow> NodeId \<Rightarrow> u64 res" where
  "alarmMgr_GetTimestamp am nodeid =
     (case amEvents am nodeid of
        None \<Rightarrow> Inl AssertFailed
      | Some p \<Rightarrow> bindr (am_load am p) (\<lambda>e. Inr (aeTimestamp e)))"

definition alarmMgr_NextAlarm :: "alarmMgr \<Rightarrow> alarmEvent option res" where
  "alarmMgr_NextAlarm am =
     (if amQ am = [] then Inr None
      else bindr (am_load am (amQ am ! 0)) (\<lambda>e. Inr (Some e)))"

definition alarmMgr_NextTimestamp :: "alarmMgr \<Rightarrow> u64 res" where
  "alarmMgr_NextTimestamp am =
     (if amQ am = [] then Inr Ever
      else bindr (am_load am (amQ am ! 0)) (\<lambda>e. Inr (aeTimestamp e)))"

definition alarmMgr_DeleteNode :: "alarmMgr \<Rightarrow> NodeId \<Rightarrow> alarmMgr res" where
  "alarmMgr_DeleteNode am nodeid =
     (case amEvents am nodeid of
        None \<Rightarrow> Inl AssertFailed
      | Some p \<Rightarrow> bindr (am_load am p) (\<lambda>e.
          bindr (heap_Remove alarmQueue am (aeIndex e)) (\<lambda>(am1, _).
            Inr (am1\<lparr>amEvents := (amEvents am1)(nodeid := None)\<rparr>))))"

section \<open>The queue implements the heap interface\<close>

definition aq_ok :: "alarmMgr \<Rightarrow> bool" where
  "aq_ok am \<longleftrightarrow> (\<forall>i < length (amQ am). amQ am ! i < length (amMem am) \<and>
     aeIndex (amMem am ! (amQ am ! i)) = i)"

definition aq_view :: "alarmMgr \<Rightarrow> (ptr \<times> u64) list" where
  "aq_view am = map (\<lambda>p. (p, aeTimestamp (amMem am ! p))) (amQ am)"

definition aq_frame :: "alarmMgr \<Rightarrow> (NodeId \<rightharpoonup> ptr) \<times> (NodeId \<times> u64) list" where
  "aq_frame am = (amEvents am, map (\<lambda>e. (aeNodeId e, aeTimestamp e)) (amMem am))"

definition aq_elt :: "(NodeId \<rightharpoonup> ptr) \<times> (NodeId \<times> u64) list \<Rightarrow> ptr \<Rightarrow> ptr \<times> u64" where
  "aq_elt fr p = (p, snd (snd fr ! p))"

definition aq_good :: "alarmMgr \<Rightarrow> ptr \<Rightarrow> bool" where
  "aq_good am p \<longleftrightarrow> p < length (amMem am) \<and> p \<notin> set (amQ am)"

lemma aq_ok_distinct: "aq_ok am \<Longrightarrow> distinct (amQ am)"
  unfolding aq_ok_def distinct_conv_nth by metis

lemma length_aq_view [simp]: "length (aq_view am) = length (amQ am)"
  by (simp add: aq_view_def)

lemma aq_Less_view:
  "aq_ok am \<Longrightarrow> i < length (amQ am) \<Longrightarrow> j < length (amQ am) \<Longrightarrow>
     alarmQueue_Less am i j = Inr (snd (aq_view am ! i) < snd (aq_view am ! j))"
  by (simp add: alarmQueue_Less_def aq_ok_def am_load_def aq_view_def)

lemma set_index_nth [simp]:
  "aeTimestamp (xs[p := (xs ! p)\<lparr>aeIndex := i\<rparr>] ! x) = aeTimestamp (xs ! x)"
  "aeNodeId (xs[p := (xs ! p)\<lparr>aeIndex := i\<rparr>] ! x) = aeNodeId (xs ! x)"
  by (cases "p < length xs"; cases "x = p"; simp add: list_update_beyond)+

lemma am_set_index_view [simp]:
  "aq_view (am_set_index am p i) = aq_view am"
  "aq_frame (am_set_index am p i) = aq_frame am"
  "amQ (am_set_index am p i) = amQ am"
  "length (amMem (am_set_index am p i)) = length (amMem am)"
  by (auto simp: am_set_index_def aq_view_def aq_frame_def intro!: nth_equalityI simp del: map_update)

lemma aq_Swap_view:
  assumes "aq_ok am" "i < length (amQ am)" "j < length (amQ am)"
  shows "\<exists>am'. alarmQueue_Swap am i j = Inr am' \<and> aq_ok am' \<and>
    aq_view am' = swap_list (aq_view am) i j \<and> aq_frame am' = aq_frame am"
proof -
  let ?pa = "amQ am ! i" and ?pb = "amQ am ! j"
  let ?am0 = "am\<lparr>amQ := (amQ am)[i := ?pb, j := ?pa]\<rparr>"
  let ?am' = "am_set_index (am_set_index ?am0 ?pb i) ?pa j"
  have swap: "alarmQueue_Swap am i j = Inr ?am'"
    using assms by (simp add: alarmQueue_Swap_def aq_ok_def am_load_def)
  have view: "aq_view ?am' = swap_list (aq_view am) i j"
    unfolding am_set_index_view
    using assms(2,3) by (simp add: aq_view_def swap_list_def map_update)
  have frame: "aq_frame ?am' = aq_frame am"
    unfolding am_set_index_view by (simp add: aq_frame_def)
  have "aq_ok ?am'"
    unfolding aq_ok_def
  proof (intro allI impI)
    fix k assume k: "k < length (amQ ?am')"
    have inj: "amQ am ! k' = amQ am ! k'' \<longleftrightarrow> k' = k''"
      if "k' < length (amQ am)" "k'' < length (amQ am)" for k' k''
      using that aq_ok_distinct [OF assms(1)] by (simp add: nth_eq_iff_index_eq)
    show "amQ ?am' ! k < length (amMem ?am') \<and> aeIndex (amMem ?am' ! (amQ ?am' ! k)) = k"
      using k assms inj
      by (auto simp: aq_ok_def am_set_index_def nth_list_update)
  qed
  with swap view frame show ?thesis by blast
qed

lemma aq_Push_view:
  assumes "aq_ok am" "aq_good am p"
  shows "aq_ok (alarmQueue_Push am p) \<and>
    aq_view (alarmQueue_Push am p) = aq_view am @ [aq_elt (aq_frame am) p] \<and>
    aq_frame (alarmQueue_Push am p) = aq_frame am"
proof (intro conjI)
  show "aq_ok (alarmQueue_Push am p)"
    using assms
    by (auto simp: aq_ok_def aq_good_def alarmQueue_Push_def am_set_index_def Let_def nth_append
        nth_list_update in_set_conv_nth)
  show "aq_view (alarmQueue_Push am p) = aq_view am @ [aq_elt (aq_frame am) p]"
    using assms by (simp add: alarmQueue_Push_def Let_def)
      (simp add: aq_view_def aq_elt_def aq_frame_def aq_good_def)
  show "aq_frame (alarmQueue_Push am p) = aq_frame am"
    by (simp add: alarmQueue_Push_def Let_def) (simp add: aq_frame_def)
qed

lemma aq_Pop_view:
  assumes "aq_ok am" "aq_view am \<noteq> []"
  shows "\<exists>am' p. alarmQueue_Pop am = Inr (am', p) \<and> aq_ok am' \<and> aq_view am' = butlast (aq_view am) \<and>
    aq_elt (aq_frame am) p = last (aq_view am) \<and> aq_frame am' = aq_frame am"
proof -
  have ne: "amQ am \<noteq> []" using assms(2) by (simp add: aq_view_def)
  let ?am' = "am\<lparr>amQ := butlast (amQ am)\<rparr>"
  have "last (amQ am) < length (amMem am)"
    using assms(1) ne by (simp add: aq_ok_def last_conv_nth)
  then have "aq_elt (aq_frame am) (last (amQ am)) = last (aq_view am)"
    using ne by (simp add: aq_elt_def aq_frame_def aq_view_def last_map)
  moreover have "aq_ok ?am'"
    using assms(1) by (simp add: aq_ok_def nth_butlast)
  moreover have "aq_view ?am' = butlast (aq_view am)" "aq_frame ?am' = aq_frame am"
    by (simp_all add: aq_view_def aq_frame_def map_butlast)
  ultimately show ?thesis using ne by (simp add: alarmQueue_Pop_def)
qed

interpretation aq: heap_store "\<lambda>a b. snd a \<le> snd b" alarmQueue aq_ok aq_view aq_frame
  "\<lambda>a b. snd a < snd b" aq_good aq_elt
proof unfold_locales
  fix am i j assume "aq_ok am" "i < length (aq_view am)" "j < length (aq_view am)"
  then show "hLess alarmQueue am i j = Inr (snd (aq_view am ! i) < snd (aq_view am ! j))"
    and "\<exists>am'. hSwap alarmQueue am i j = Inr am' \<and> aq_ok am' \<and>
      aq_view am' = swap_list (aq_view am) i j \<and> aq_frame am' = aq_frame am"
    by (simp_all add: alarmQueue_def aq_Less_view aq_Swap_view)
qed (auto simp: alarmQueue_def aq_Push_view aq_Pop_view)

section \<open>Refinement: a map from node ids to timestamps\<close>

definition am_abs :: "alarmMgr \<Rightarrow> NodeId \<rightharpoonup> u64" where
  "am_abs am = (\<lambda>nodeid. map_option (\<lambda>p. aeTimestamp (amMem am ! p)) (amEvents am nodeid))"

definition am_inv :: "alarmMgr \<Rightarrow> bool" where
  "am_inv am \<longleftrightarrow> aq_ok am \<and> heap_list (\<lambda>a b. snd a \<le> snd b) (aq_view am) \<and>
     (\<forall>nodeid p. amEvents am nodeid = Some p \<longrightarrow> p \<in> set (amQ am) \<and> aeNodeId (amMem am ! p) = nodeid) \<and>
     (\<forall>p \<in> set (amQ am). amEvents am (aeNodeId (amMem am ! p)) = Some p)"

lemma am_inv_heap: "am_inv am \<Longrightarrow> aq.heap_ok am"
  by (simp add: am_inv_def aq.heap_ok_def)

lemma am_invD:
  assumes "am_inv am"
  shows am_inv_ok: "aq_ok am"
    and am_inv_ptr: "amEvents am nodeid = Some p \<Longrightarrow> p \<in> set (amQ am)"
    and am_inv_node: "amEvents am nodeid = Some p \<Longrightarrow> aeNodeId (amMem am ! p) = nodeid"
    and am_inv_rev: "p \<in> set (amQ am) \<Longrightarrow> amEvents am (aeNodeId (amMem am ! p)) = Some p"
  using assms by (auto simp: am_inv_def)

lemma set_amQ: "set (amQ am) = fst ` set (aq_view am)"
  by (force simp: aq_view_def)

lemma aq_ok_ptr: "aq_ok am \<Longrightarrow> p \<in> set (amQ am) \<Longrightarrow> p < length (amMem am)"
  by (auto simp: aq_ok_def in_set_conv_nth)

lemma aq_frame_eqD:
  assumes "aq_frame am' = aq_frame am"
  shows "amEvents am' = amEvents am" "length (amMem am') = length (amMem am)"
    and "p < length (amMem am) \<Longrightarrow> aeTimestamp (amMem am' ! p) = aeTimestamp (amMem am ! p)"
    and "p < length (amMem am) \<Longrightarrow> aeNodeId (amMem am' ! p) = aeNodeId (amMem am ! p)"
proof -
  from assms have ev: "amEvents am' = amEvents am"
    and m: "map (\<lambda>e. (aeNodeId e, aeTimestamp e)) (amMem am') = map (\<lambda>e. (aeNodeId e, aeTimestamp e)) (amMem am)"
    by (simp_all add: aq_frame_def)
  show "amEvents am' = amEvents am" by (rule ev)
  show len: "length (amMem am') = length (amMem am)" using map_eq_imp_length_eq [OF m] .
  assume "p < length (amMem am)"
  with arg_cong [OF m, of "\<lambda>xs. xs ! p"] len
  show "aeTimestamp (amMem am' ! p) = aeTimestamp (amMem am ! p)"
    and "aeNodeId (amMem am' ! p) = aeNodeId (amMem am ! p)" by simp_all
qed

lemma am_inv_event:
  assumes "am_inv am" "amEvents am nodeid = Some p"
  obtains i where "i < length (amQ am)" "amQ am ! i = p" "p < length (amMem am)"
    "aeIndex (amMem am ! p) = i" "aeNodeId (amMem am ! p) = nodeid"
  using assms unfolding am_inv_def aq_ok_def by (metis in_set_conv_nth)

text \<open>What the heap operations leave in place is enough to carry the invariant over.\<close>

lemma am_inv_transfer:
  assumes "aq.heap_ok am'" "aq_frame am' = aq_frame am" "set (amQ am') = Q" "Q \<subseteq> {..<length (amMem am)}"
    and "\<And>nodeid p. ev nodeid = Some p \<Longrightarrow> p \<in> Q \<and> aeNodeId (amMem am ! p) = nodeid"
    and "\<And>p. p \<in> Q \<Longrightarrow> ev (aeNodeId (amMem am ! p)) = Some p"
  shows "am_inv (am'\<lparr>amEvents := ev\<rparr>)"
    and "am_abs (am'\<lparr>amEvents := ev\<rparr>) = (\<lambda>nodeid. map_option (\<lambda>p. aeTimestamp (amMem am ! p)) (ev nodeid))"
proof -
  have node: "p \<in> Q \<Longrightarrow> aeNodeId (amMem am' ! p) = aeNodeId (amMem am ! p)"
    and ts: "p \<in> Q \<Longrightarrow> aeTimestamp (amMem am' ! p) = aeTimestamp (amMem am ! p)" for p
    using aq_frame_eqD(3,4) [OF assms(2), of p] assms(4) by auto
  have "aq_ok (am'\<lparr>amEvents := ev\<rparr>) = aq_ok am'" "aq_view (am'\<lparr>amEvents := ev\<rparr>) = aq_view am'"
    by (simp_all add: aq_ok_def aq_view_def)
  with assms(1,3,5,6) node show "am_inv (am'\<lparr>amEvents := ev\<rparr>)"
    by (auto simp: am_inv_def aq.heap_ok_def)
  show "am_abs (am'\<lparr>amEvents := ev\<rparr>) = (\<lambda>nodeid. map_option (\<lambda>p. aeTimestamp (amMem am ! p)) (ev nodeid))"
    using assms(5) ts by (auto simp: am_abs_def fun_eq_iff intro!: option.map_cong0)
qed

lemma newAlarmMgr_refines: "\<exists>am. newAlarmMgr = Inr am \<and> am_inv am \<and> am_abs am = Map.empty"
  by (auto simp: newAlarmMgr_def heap_Init_def alarmQueue_def am_inv_def aq_ok_def aq_view_def
      heap_but_def am_abs_def fun_eq_iff)

lemma AddNode_refines:
  assumes inv: "am_inv am" and new: "am_abs am nodeid = None"
  shows "\<exists>am'. alarmMgr_AddNode am nodeid = Inr am' \<and> am_inv am' \<and> am_abs am' = (am_abs am)(nodeid \<mapsto> Ever)"
proof -
  define p where "p = length (amMem am)"
  define am1 where "am1 = am\<lparr>amMem := amMem am @ [\<lparr>aeNodeId = nodeid, aeTimestamp = Ever, aeIndex = 0\<rparr>]\<rparr>"
  have none: "amEvents am nodeid = None" using new by (simp add: am_abs_def)
  have ptr: "r < p" if "r \<in> set (amQ am)" for r
    using aq_ok_ptr [OF am_inv_ok [OF inv] that] by (simp add: p_def)
  have mem1: "amMem am1 ! r = amMem am ! r" if "r \<in> set (amQ am)" for r
    using ptr [OF that] by (simp add: am1_def p_def nth_append)
  have memp: "aeNodeId (amMem am1 ! p) = nodeid" "aeTimestamp (amMem am1 ! p) = Ever"
    by (simp_all add: am1_def p_def)
  have q1: "amQ am1 = amQ am" "length (amMem am1) = Suc p" "amEvents am1 = amEvents am"
    by (simp_all add: am1_def p_def)
  have view1: "aq_view am1 = aq_view am" using mem1 by (auto simp: aq_view_def q1)
  moreover have "aq_ok am1" 
    using am_inv_ok [OF inv] ptr less_SucI [OF ptr] by (simp add: aq_ok_def q1 mem1)
  ultimately have "aq.heap_ok am1" using inv by (simp add: am_inv_def aq.heap_ok_def)
  moreover have "aq_good am1 p" using ptr by (auto simp: aq_good_def q1)
  ultimately obtain am2 where am2: "heap_Push alarmQueue am1 p = Inr am2" "aq.heap_ok am2"
    "mset (aq_view am2) = add_mset (aq_elt (aq_frame am1) p) (mset (aq_view am1))"
    "aq_frame am2 = aq_frame am1"
    using aq.heap_Push_correct by blast
  have Q: "set (amQ am2) = insert p (set (amQ am))"
    using arg_cong [OF am2(3), of set_mset] view1 by (simp add: set_amQ aq_elt_def)
  let ?ev = "(amEvents am)(nodeid \<mapsto> p)"
  have ev: "r \<in> insert p (set (amQ am)) \<and> aeNodeId (amMem am1 ! r) = n" if "?ev n = Some r" for n r
    using that am_inv_ptr [OF inv] am_inv_node [OF inv] memp mem1 [of r] by (auto split: if_splits)
  have rev: "?ev (aeNodeId (amMem am1 ! r)) = Some r" if "r \<in> insert p (set (amQ am))" for r
    using that none memp mem1 [of r] am_inv_rev [OF inv, of r] by auto
  have sub: "insert p (set (amQ am)) \<subseteq> {..<length (amMem am1)}"
    using less_SucI [OF ptr] by (auto simp: q1)
  have "(\<lambda>n. map_option (\<lambda>r. aeTimestamp (amMem am1 ! r)) (?ev n)) = (am_abs am)(nodeid \<mapsto> Ever)"
    using memp mem1 [OF am_inv_ptr [OF inv]]
    by (auto simp: am_abs_def fun_eq_iff intro!: option.map_cong0)
  with am_inv_transfer [where ev = ?ev, OF am2(2,4) Q sub ev rev]
  have "am_inv (am2\<lparr>amEvents := ?ev\<rparr>)" "am_abs (am2\<lparr>amEvents := ?ev\<rparr>) = (am_abs am)(nodeid \<mapsto> Ever)"
    by simp_all
  moreover have "alarmMgr_AddNode am nodeid = Inr (am2\<lparr>amEvents := ?ev\<rparr>)"
    using none am2(1) aq_frame_eqD(1) [OF am2(4)]
    by (simp add: alarmMgr_AddNode_def Let_def q1 flip: p_def am1_def)
  ultimately show ?thesis by blast
qed

lemma SetTimestamp_refines:
  assumes inv: "am_inv am" and known: "am_abs am nodeid \<noteq> None"
  shows "\<exists>am'. alarmMgr_SetTimestamp am nodeid ts = Inr am' \<and> am_inv am' \<and>
    am_abs am' = (am_abs am)(nodeid \<mapsto> ts)"
proof -
  obtain p where ev: "amEvents am nodeid = Some p" using known by (auto simp: am_abs_def)
  then obtain i where i: "i < length (amQ am)" "amQ am ! i = p" "p < length (amMem am)"
    "aeIndex (amMem am ! p) = i" "aeNodeId (amMem am ! p) = nodeid"
    using am_inv_event [OF inv] by blast
  have load: "am_load am p = Inr (amMem am ! p)" using i(3) by (simp add: am_load_def)
  show ?thesis
  proof (cases "aeTimestamp (amMem am ! p) = ts")
    case True
    then have "(am_abs am)(nodeid \<mapsto> ts) = am_abs am" using ev by (auto simp: am_abs_def fun_eq_iff)
    with True inv ev load show ?thesis by (simp add: alarmMgr_SetTimestamp_def)
  next
    case False
    define am1 where "am1 = am_store am p ((amMem am ! p)\<lparr>aeTimestamp := ts\<rparr>)"
    have mem1: "amMem am1 ! r = (if r = p then (amMem am ! p)\<lparr>aeTimestamp := ts\<rparr> else amMem am ! r)" for r
      using i(3) by (simp add: am1_def am_store_def)
    have q1: "amQ am1 = amQ am" "length (amMem am1) = length (amMem am)" "amEvents am1 = amEvents am"
      by (simp_all add: am1_def am_store_def)
    have ok1: "aq_ok am1" using am_inv_ok [OF inv] by (auto simp: aq_ok_def q1 mem1)
    have "aq_view am1 ! k = aq_view am ! k" if "k < length (amQ am)" "k \<noteq> i" for k
      using that i(1,2) aq_ok_distinct [OF am_inv_ok [OF inv]]
      by (auto simp: aq_view_def q1 mem1 nth_eq_iff_index_eq)
    then have "heap_but (\<lambda>a b. snd a \<le> snd b) (\<lambda>c. c = i \<or> parent c = i) (aq_view am1) (length (aq_view am1))"
      "grand_ok (\<lambda>a b. snd a \<le> snd b) (aq_view am1) (length (aq_view am1)) i"
      using inv aq.heap_changed_at [of "aq_view am" "length (aq_view am)" i "aq_view am1"]
      by (auto simp: am_inv_def q1)
    then obtain am2 where am2: "heap_Fix alarmQueue am1 i = Inr am2" "aq.heap_ok am2"
      "mset (aq_view am2) = mset (aq_view am1)" "aq_frame am2 = aq_frame am1"
      using aq.heap_Fix_correct [of am1 i] ok1 i(1) q1 by auto
    have "set (amQ am2) = set (amQ am1)" using arg_cong [OF am2(3), of set_mset] by (simp add: set_amQ)
    then have Q: "set (amQ am2) = set (amQ am)" by (simp add: q1)
    have ev2: "am2\<lparr>amEvents := amEvents am\<rparr> = am2" using aq_frame_eqD(1) [OF am2(4)] q1 by simp
    have sub: "set (amQ am) \<subseteq> {..<length (amMem am1)}"
      using inv by (auto simp: am_inv_def q1 dest: aq_ok_ptr)
    have ev1: "r \<in> set (amQ am) \<and> aeNodeId (amMem am1 ! r) = n" if "amEvents am n = Some r" for n r
      using that am_inv_ptr [OF inv] am_inv_node [OF inv] by (simp add: mem1)
    have rev: "amEvents am (aeNodeId (amMem am1 ! r)) = Some r" if "r \<in> set (amQ am)" for r
      using am_inv_rev [OF inv that] by (auto simp: mem1)
    note am_inv_transfer [OF am2(2,4) Q sub ev1 rev]
    moreover have "(\<lambda>n. map_option (\<lambda>r. aeTimestamp (amMem am1 ! r)) (amEvents am n)) = (am_abs am)(nodeid \<mapsto> ts)"
      using ev i(5)
      by (auto simp: am_abs_def fun_eq_iff mem1 dest: am_inv_node [OF inv] intro!: option.map_cong0)
    ultimately show ?thesis
      using ev load False am2(1) i(4) by (simp add: alarmMgr_SetTimestamp_def am1_def ev2)
  qed
qed

lemma DeleteNode_refines:
  assumes inv: "am_inv am" and known: "am_abs am nodeid \<noteq> None"
  shows "\<exists>am'. alarmMgr_DeleteNode am nodeid = Inr am' \<and> am_inv am' \<and> am_abs am' = (am_abs am)(nodeid := None)"
proof -
  obtain p where ev: "amEvents am nodeid = Some p" using known by (auto simp: am_abs_def)
  then obtain i where i: "i < length (amQ am)" "amQ am ! i = p" "p < length (amMem am)"
    "aeIndex (amMem am ! p) = i" "aeNodeId (amMem am ! p) = nodeid"
    using am_inv_event [OF inv] by blast
  obtain am1 x where am1: "heap_Remove alarmQueue am i = Inr (am1, x)" "aq.heap_ok am1"
    "mset (aq_view am1) = mset (aq_view am) - {#aq_view am ! i#}" "aq_frame am1 = aq_frame am"
    using aq.heap_Remove_correct [OF am_inv_heap [OF inv], of i] i(1) by auto
  have Q1: "mset (amQ a) = image_mset fst (mset (aq_view a))" for a
    by (simp add: aq_view_def multiset.map_comp comp_def)
  have "aq_view am ! i \<in># mset (aq_view am)" using i(1) by (metis length_aq_view nth_mem set_mset_mset)
  then have "mset (amQ am1) = mset (amQ am) - {#p#}"
    using i(1,2) by (simp add: Q1 am1(3) image_mset_Diff) (simp add: aq_view_def)
  then have Q: "set (amQ am1) = set (amQ am) - {p}"
    using aq_ok_distinct [of am] inv by (metis am_inv_def distinct_remove1 mset_remove1 set_mset_mset set_remove1_eq)
  have sub: "set (amQ am) - {p} \<subseteq> {..<length (amMem am)}"
    using inv by (auto simp: am_inv_def dest: aq_ok_ptr)
  let ?ev = "(amEvents am)(nodeid := None)"
  have ev1: "r \<in> set (amQ am) - {p} \<and> aeNodeId (amMem am ! r) = n" if "?ev n = Some r" for n r
    using that i(5) am_inv_ptr [OF inv] am_inv_node [OF inv] by (auto split: if_splits)
  have rev: "?ev (aeNodeId (amMem am ! r)) = Some r" if "r \<in> set (amQ am) - {p}" for r
    using that ev am_inv_rev [OF inv, of r] by auto
  have "(\<lambda>n. map_option (\<lambda>r. aeTimestamp (amMem am ! r)) (?ev n)) = (am_abs am)(nodeid := None)"
    by (auto simp: am_abs_def fun_eq_iff)
  with am_inv_transfer [where ev = ?ev, OF am1(2,4) Q sub ev1 rev]
  have "am_inv (am1\<lparr>amEvents := ?ev\<rparr>)" "am_abs (am1\<lparr>amEvents := ?ev\<rparr>) = (am_abs am)(nodeid := None)"
    by simp_all
  moreover have "alarmMgr_DeleteNode am nodeid = Inr (am1\<lparr>amEvents := ?ev\<rparr>)"
    using ev i am1(1) aq_frame_eqD(1) [OF am1(4)]
    by (simp add: alarmMgr_DeleteNode_def am_load_def)
  ultimately show ?thesis by blast
qed

lemma GetTimestamp_refines:
  assumes "am_inv am"
  shows "alarmMgr_GetTimestamp am nodeid =
    (case am_abs am nodeid of None \<Rightarrow> Inl AssertFailed | Some ts \<Rightarrow> Inr ts)"
  using aq_ok_ptr [OF am_inv_ok am_inv_ptr, OF assms assms]
  by (auto simp: alarmMgr_GetTimestamp_def am_abs_def am_load_def split: option.splits)

lemma ops_unknown_node:
  assumes "am_abs am nodeid = None"
  shows "alarmMgr_SetTimestamp am nodeid ts = Inl AssertFailed"
    and "alarmMgr_DeleteNode am nodeid = Inl AssertFailed"
  using assms by (simp_all add: am_abs_def alarmMgr_SetTimestamp_def alarmMgr_DeleteNode_def)

lemma AddNode_known_node:
  "am_abs am nodeid \<noteq> None \<Longrightarrow> alarmMgr_AddNode am nodeid = Inl AssertFailed"
  by (simp add: am_abs_def alarmMgr_AddNode_def)

lemma am_abs_empty_iff:
  assumes "am_inv am"
  shows "amQ am = [] \<longleftrightarrow> am_abs am = Map.empty"
proof
  assume "amQ am = []"
  then show "am_abs am = Map.empty"
    using am_inv_ptr [OF assms] by (fastforce simp: am_abs_def fun_eq_iff intro: option.exhaust)
next
  assume e: "am_abs am = Map.empty"
  show "amQ am = []"
  proof (rule ccontr)
    assume "amQ am \<noteq> []"
    then have "amEvents am (aeNodeId (amMem am ! (amQ am ! 0))) \<noteq> None"
      using am_inv_rev [OF assms, of "amQ am ! 0"] by simp
    with fun_cong [OF e] show False by (simp add: am_abs_def)
  qed
qed

lemma am_head:
  assumes inv: "am_inv am" and ne: "am_abs am \<noteq> Map.empty"
  defines "e \<equiv> amMem am ! (amQ am ! 0)"
  shows "am_load am (amQ am ! 0) = Inr e" "am_abs am (aeNodeId e) = Some (aeTimestamp e)"
    and "am_abs am n = Some ts \<Longrightarrow> aeTimestamp e \<le> ts"
proof -
  have q: "amQ am \<noteq> []" using ne am_abs_empty_iff [OF inv] by simp
  then have q0: "amQ am ! 0 \<in> set (amQ am)" by simp
  show "am_load am (amQ am ! 0) = Inr e"
    using aq_ok_ptr [OF am_inv_ok [OF inv] q0] by (simp add: am_load_def e_def)
  show "am_abs am (aeNodeId e) = Some (aeTimestamp e)"
    using am_inv_rev [OF inv q0] by (simp add: am_abs_def e_def)
  assume "am_abs am n = Some ts"
  then obtain p where p: "amEvents am n = Some p" "ts = aeTimestamp (amMem am ! p)"
    by (auto simp: am_abs_def)
  then have "(p, ts) \<in> set (aq_view am)"
    using am_inv_ptr [OF inv p(1)] by (force simp: aq_view_def)
  then have "snd (aq_view am ! 0) \<le> ts" using aq.heap_ok_least [OF am_inv_heap [OF inv]] by fastforce
  then show "aeTimestamp e \<le> ts" using q by (simp add: aq_view_def e_def)
qed

definition next_of :: "(NodeId \<rightharpoonup> u64) \<Rightarrow> u64 \<Rightarrow> bool" where
  "next_of m ts \<longleftrightarrow> (if m = Map.empty then ts = Ever else ts \<in> ran m \<and> (\<forall>t \<in> ran m. ts \<le> t))"

lemma next_of_le: "next_of m ts \<Longrightarrow> m n = Some t \<Longrightarrow> ts \<le> t"
  by (auto simp: next_of_def intro: ranI split: if_splits)

lemma NextTimestamp_refines:
  assumes "am_inv am"
  shows "\<exists>ts. alarmMgr_NextTimestamp am = Inr ts \<and> next_of (am_abs am) ts"
proof (cases "am_abs am = Map.empty")
  case True
  then show ?thesis
    using am_abs_empty_iff [OF assms] by (simp add: alarmMgr_NextTimestamp_def next_of_def)
next
  case False
  with am_head [OF assms False] am_abs_empty_iff [OF assms] show ?thesis
    by (auto simp: alarmMgr_NextTimestamp_def next_of_def ran_def)
qed

lemma NextAlarm_refines:
  assumes "am_inv am"
  shows "(am_abs am = Map.empty \<and> alarmMgr_NextAlarm am = Inr None) \<or>
    (\<exists>e. alarmMgr_NextAlarm am = Inr (Some e) \<and> am_abs am (aeNodeId e) = Some (aeTimestamp e) \<and>
       alarmMgr_NextTimestamp am = Inr (aeTimestamp e) \<and> next_of (am_abs am) (aeTimestamp e))"
proof (cases "am_abs am = Map.empty")
  case True
  then show ?thesis
    using am_abs_empty_iff [OF assms] by (simp add: alarmMgr_NextAlarm_def)
next
  case False
  with am_head [OF assms False] am_abs_empty_iff [OF assms] show ?thesis
    by (auto simp: alarmMgr_NextAlarm_def alarmMgr_NextTimestamp_def next_of_def ran_def)
qed

subsection \<open>The interface the dispatcher uses\<close>

text \<open>
  The dispatcher sees the manager only through these laws: a map of timestamps with an operation that
  reads its least value. Inside the locale a whole sequence of calls is compared with the map.
\<close>

datatype alarm_op = OpAdd NodeId | OpSet NodeId u64 | OpNotified NodeId | OpDel NodeId

fun spec_op :: "alarm_op \<Rightarrow> (NodeId \<rightharpoonup> u64) \<Rightarrow> (NodeId \<rightharpoonup> u64) res" where
  "spec_op (OpAdd n) m = (if m n = None then Inr (m(n \<mapsto> Ever)) else Inl AssertFailed)"
| "spec_op (OpSet n ts) m = (if m n \<noteq> None then Inr (m(n \<mapsto> ts)) else Inl AssertFailed)"
| "spec_op (OpNotified n) m = (if m n \<noteq> None then Inr (m(n \<mapsto> Ever)) else Inl AssertFailed)"
| "spec_op (OpDel n) m = (if m n \<noteq> None then Inr (m(n := None)) else Inl AssertFailed)"

locale alarm_clock =
  fixes inv :: "'s \<Rightarrow> bool"
    and abs :: "'s \<Rightarrow> NodeId \<rightharpoonup> u64"
    and op :: "alarm_op \<Rightarrow> 's \<Rightarrow> 's res"
    and next_ts :: "'s \<Rightarrow> u64 res"
  assumes op_law: "inv s \<Longrightarrow> rel_sum (=) (\<lambda>s' m. inv s' \<and> abs s' = m) (op x s) (spec_op x (abs s))"
    and next_law: "inv s \<Longrightarrow> \<exists>ts. next_ts s = Inr ts \<and> next_of (abs s) ts"
begin

lemma ops_law:
  "inv s \<Longrightarrow> rel_sum (=) (\<lambda>s' m. inv s' \<and> abs s' = m) (foldr_res op xs s) (foldr_res spec_op xs (abs s))"
proof (induction xs arbitrary: s)
  case (Cons x xs)
  then show ?case
    using op_law [OF Cons.prems, of x] by (cases "op x s"; cases "spec_op x (abs s)") auto
qed simp

lemma ops_then_next:
  assumes "inv s"
  shows "case foldr_res spec_op xs (abs s) of
      Inl e \<Rightarrow> foldr_res op xs s = Inl e
    | Inr m \<Rightarrow> \<exists>s' ts. foldr_res op xs s = Inr s' \<and> abs s' = m \<and> next_ts s' = Inr ts \<and> next_of m ts"
  using ops_law [OF assms, of xs] next_law
  by (cases "foldr_res op xs s"; cases "foldr_res spec_op xs (abs s)") auto

end

fun alarmMgr_op :: "alarm_op \<Rightarrow> alarmMgr \<Rightarrow> alarmMgr res" where
  "alarmMgr_op (OpAdd n) am = alarmMgr_AddNode am n"
| "alarmMgr_op (OpSet n ts) am = alarmMgr_SetTimestamp am n ts"
| "alarmMgr_op (OpNotified n) am = alarmMgr_SetNotified am n"
| "alarmMgr_op (OpDel n) am = alarmMgr_DeleteNode am n"

interpretation amc: alarm_clock am_inv am_abs alarmMgr_op alarmMgr_NextTimestamp
proof
  fix am x assume inv: "am_inv am"
  show "rel_sum (=) (\<lambda>s' m. am_inv s' \<and> am_abs s' = m) (alarmMgr_op x am) (spec_op x (am_abs am))"
  proof (cases x)
    case (OpAdd n)
    then show ?thesis
      using AddNode_refines [OF inv, of n] AddNode_known_node [of am n] by (cases "am_abs am n") auto
  next
    case (OpSet n ts)
    then show ?thesis
      using SetTimestamp_refines [OF inv, of n ts] ops_unknown_node [of am n] by (cases "am_abs am n") auto
  next
    case (OpNotified n)
    then show ?thesis
      using SetTimestamp_refines [OF inv, of n Ever] ops_unknown_node [of am n]
      by (cases "am_abs am n") (auto simp: alarmMgr_SetNotified_def)
  next
    case (OpDel n)
    then show ?thesis
      using DeleteNode_refines [OF inv, of n] ops_unknown_node [of am n] by (cases "am_abs am n") auto
  qed
  show "\<exists>ts. alarmMgr_NextTimestamp am = Inr ts \<and> next_of (am_abs am) ts"
    by (rule NextTimestamp_refines [OF inv])
qed

lemma ops_from_new:
  "rel_sum (=) (\<lambda>am m. am_inv am \<and> am_abs am = m)
     (bindr newAlarmMgr (foldr_res alarmMgr_op ops)) (foldr_res spec_op ops Map.empty)"
proof -
  obtain am0 where am0: "newAlarmMgr = Inr am0" "am_inv am0" "am_abs am0 = Map.empty"
    using newAlarmMgr_refines by blast
  show ?thesis unfolding am0(1) bindr_Inr using amc.ops_law [OF am0(2), of ops] unfolding am0(3) .
qed

section \<open>Properties\<close>

text \<open>
  C5. The alarm manager refines a map from node ids to timestamps. After any sequence of
  \<open>AddNode\<close>, \<open>SetTimestamp\<close>, \<open>SetNotified\<close> and \<open>DeleteNode\<close> calls on a new manager, either the
  sequence is one that the map rejects (a node added twice, or an unknown node named) and the code
  stops with the assertion failure, or the code has not panicked, holds exactly the timestamps of
  the map, and \<open>NextTimestamp\<close> returns their minimum (\<open>Ever\<close> when there is no node).
\<close>

theorem alarmMgr_refines_map:
  "case foldr_res spec_op ops Map.empty of
     Inl e \<Rightarrow> bindr newAlarmMgr (foldr_res alarmMgr_op ops) = Inl e
   | Inr m \<Rightarrow> \<exists>am ts. bindr newAlarmMgr (foldr_res alarmMgr_op ops) = Inr am \<and>
       (\<forall>n. alarmMgr_GetTimestamp am n = (case m n of None \<Rightarrow> Inl AssertFailed | Some t \<Rightarrow> Inr t)) \<and>
       alarmMgr_NextTimestamp am = Inr ts \<and> next_of m ts"
  using ops_from_new [of ops]
proof (cases rule: rel_sum.cases)
  case (2 am m)
  then have inv: "am_inv am" "am_abs am = m" by simp_all
  then show ?thesis using NextTimestamp_refines [of am] by (auto simp: 2(1,2) GetTimestamp_refines)
qed simp

text \<open>
  However the manager was reached from \<open>newAlarmMgr\<close>, \<open>NextAlarm\<close> does not panic; it returns
  \<open>nil\<close> exactly when no node is registered, and otherwise the alarm of a registered node, with the
  timestamp that \<open>GetTimestamp\<close> returns for that node and \<open>NextTimestamp\<close> returns, which no other
  node's timestamp is below.
\<close>

theorem NextAlarm_is_least:
  "case bindr newAlarmMgr (foldr_res alarmMgr_op ops) of
     Inl e \<Rightarrow> foldr_res spec_op ops Map.empty = Inl e
   | Inr am \<Rightarrow> (case alarmMgr_NextAlarm am of
       Inl _ \<Rightarrow> False
     | Inr None \<Rightarrow> (\<forall>n. alarmMgr_GetTimestamp am n = Inl AssertFailed)
     | Inr (Some e) \<Rightarrow> alarmMgr_GetTimestamp am (aeNodeId e) = Inr (aeTimestamp e) \<and>
         alarmMgr_NextTimestamp am = Inr (aeTimestamp e) \<and>
         (\<forall>n. case alarmMgr_GetTimestamp am n of Inl _ \<Rightarrow> True | Inr ts \<Rightarrow> aeTimestamp e \<le> ts))"
  using ops_from_new [of ops]
proof (cases rule: rel_sum.cases)
  case (2 am m)
  then have inv: "am_inv am" by simp
  show ?thesis
    using NextAlarm_refines [OF inv]
    by (auto simp: 2(1) GetTimestamp_refines [OF inv] dest: next_of_le split: option.split)
qed simp

end
