(* ===== verification/Events.thy ===== *)
theory Events
  imports Types
begin

text \<open>
  Package \<^verbatim>\<open>event\<close> (\<^verbatim>\<open>src/event/event.go\<close>): the messages exchanged with an OpenThread node process, their
  wire format, and the goroutine of the dispatcher that cuts a node's byte stream into events
  (\<^verbatim>\<open>eventsReader\<close> in \<^verbatim>\<open>src/dispatcher/dispatcher.go\<close>).

  \<open>Event_Serialize\<close> and \<open>Event_Deserialize\<close> keep the integers at the width of the code: the length
  field is 16 bits wide, and so are the offsets computed from it. \<open>Event_Deserialize\<close> works on an
  event object, as the method does: on a short buffer the header fields are already overwritten.
  The lemmas give the exact result of \<open>Event_Deserialize\<close> on every buffer (panics included), the
  round trips, and the framing of a stream of serialised events.
\<close>

section \<open>Event types and data (event.go)\<close>

type_synonym EventType = u8

abbreviation EventTypeAlarmFired :: EventType where "EventTypeAlarmFired \<equiv> 0"
abbreviation EventTypeRadioReceived :: EventType where "EventTypeRadioReceived \<equiv> 1"
abbreviation EventTypeUartWrite :: EventType where "EventTypeUartWrite \<equiv> 2"
abbreviation EventTypeUartDisconnected :: EventType where "EventTypeUartDisconnected \<equiv> 3"
abbreviation EventTypePostCmd :: EventType where "EventTypePostCmd \<equiv> 4"
abbreviation EventTypeStatusPush :: EventType where "EventTypeStatusPush \<equiv> 5"
abbreviation EventTypeRadioCommStart :: EventType where "EventTypeRadioCommStart \<equiv> 6"
abbreviation EventTypeRadioTxDone :: EventType where "EventTypeRadioTxDone \<equiv> 7"
abbreviation EventTypeRadioChannelSample :: EventType where "EventTypeRadioChannelSample \<equiv> 8"
abbreviation EventTypeRadioState :: EventType where "EventTypeRadioState \<equiv> 9"
abbreviation EventTypeRadioRxDone :: EventType where "EventTypeRadioRxDone \<equiv> 10"
abbreviation EventTypeExtAddr :: EventType where "EventTypeExtAddr \<equiv> 11"
abbreviation EventTypeNodeInfo :: EventType where "EventTypeNodeInfo \<equiv> 12"
abbreviation EventTypeNodeDisconnected :: EventType where "EventTypeNodeDisconnected \<equiv> 14"
abbreviation EventTypeRadioLog :: EventType where "EventTypeRadioLog \<equiv> 15"
abbreviation EventTypeRadioRfSimParamGet :: EventType where "EventTypeRadioRfSimParamGet \<equiv> 16"
abbreviation EventTypeRadioRfSimParamSet :: EventType where "EventTypeRadioRfSimParamSet \<equiv> 17"
abbreviation EventTypeRadioRfSimParamRsp :: EventType where "EventTypeRadioRfSimParamRsp \<equiv> 18"
abbreviation EventTypeLogWrite :: EventType where "EventTypeLogWrite \<equiv> 19"
abbreviation EventTypeUdpToHost :: EventType where "EventTypeUdpToHost \<equiv> 20"
abbreviation EventTypeIp6ToHost :: EventType where "EventTypeIp6ToHost \<equiv> 21"
abbreviation EventTypeUdpFromHost :: EventType where "EventTypeUdpFromHost \<equiv> 22"
abbreviation EventTypeIp6FromHost :: EventType where "EventTypeIp6FromHost \<equiv> 23"
abbreviation EventTypeLogWriteHost :: EventType where "EventTypeLogWriteHost \<equiv> 24"

abbreviation InvalidTimestamp :: u64 where
  "InvalidTimestamp \<equiv> 0xffffffffffffffff"

abbreviation eventMsgHeaderLen :: nat where
  "eventMsgHeaderLen \<equiv> 19"

abbreviation radioCommEventDataHeaderLen :: nat where
  "radioCommEventDataHeaderLen \<equiv> 11"

abbreviation radioStateEventDataHeaderLen :: nat where
  "radioStateEventDataHeaderLen \<equiv> 14"

abbreviation nodeInfoEventDataHeaderLen :: nat where
  "nodeInfoEventDataHeaderLen \<equiv> 4"

abbreviation rfSimParamEventDataHeaderLen :: nat where
  "rfSimParamEventDataHeaderLen \<equiv> 5"

abbreviation msgToHostEventDataHeaderLen :: nat where
  "msgToHostEventDataHeaderLen \<equiv> 36"

abbreviation RadioMessagePsduOffset :: nat where
  "RadioMessagePsduOffset \<equiv> 1"

text \<open>
  An \<open>int8\<close> is an 8-bit word that is read with \<open>sint\<close>, an \<open>int32\<close> a 32-bit word. A
  \<^verbatim>\<open>netip.Addr\<close> is the zero address, an IPv4 address of 4 bytes or an IPv6 address of 16 bytes.
\<close>

record RadioCommEventData =
  rcChannel :: u8
  rcPowerDbm :: u8
  rcError :: u8
  rcDuration :: u64

record RadioStateEventData =
  rsChannel :: u8
  rsPowerDbm :: u8
  rsRxSensDbm :: u8
  rsEnergyState :: RadioStates
  rsSubState :: RadioSubStates
  rsState :: RadioStates
  rsRadioTime :: u64

record NodeInfoEventData =
  niNodeId :: NodeId

record RfSimParamEventData =
  rpParam :: RfSimParam
  rpValue :: u32

datatype Addr = AddrZero | Addr4 bytes | Addr16 bytes

fun AsSlice :: "Addr \<Rightarrow> bytes" where
  "AsSlice AddrZero = []"
| "AsSlice (Addr4 bs) = bs"
| "AsSlice (Addr16 bs) = bs"

record MsgToHostEventData =
  mhSrcPort :: u16
  mhDstPort :: u16
  mhSrcIp6Address :: Addr
  mhDstIp6Address :: Addr

record Event =
  evDelay :: u64
  evType :: EventType
  evMsgId :: u64
  evData :: bytes
  evNodeId :: NodeId
  evTimestamp :: u64
  evMustDispatch :: bool
  evConn :: "nat option"
  evRadioCommData :: RadioCommEventData
  evRadioStateData :: RadioStateEventData
  evNodeInfoData :: NodeInfoEventData
  evRfSimParamData :: RfSimParamEventData
  evMsgToHostData :: MsgToHostEventData

text \<open>The zero value \<^verbatim>\<open>Event{}\<close>.\<close>

definition zeroEvent :: Event where
  "zeroEvent = \<lparr>evDelay = 0, evType = 0, evMsgId = 0, evData = [], evNodeId = 0, evTimestamp = 0,
     evMustDispatch = False, evConn = None,
     evRadioCommData = \<lparr>rcChannel = 0, rcPowerDbm = 0, rcError = 0, rcDuration = 0\<rparr>,
     evRadioStateData = \<lparr>rsChannel = 0, rsPowerDbm = 0, rsRxSensDbm = 0, rsEnergyState = 0,
       rsSubState = 0, rsState = 0, rsRadioTime = 0\<rparr>,
     evNodeInfoData = \<lparr>niNodeId = 0\<rparr>,
     evRfSimParamData = \<lparr>rpParam = 0, rpValue = 0\<rparr>,
     evMsgToHostData = \<lparr>mhSrcPort = 0, mhDstPort = 0, mhSrcIp6Address = AddrZero,
       mhDstIp6Address = AddrZero\<rparr>\<rparr>"

section \<open>Serialize\<close>

text \<open>\<^verbatim>\<open>copy\<close> of a slice into a zeroed field of \<open>n\<close> bytes.\<close>

definition copy_field :: "nat \<Rightarrow> bytes \<Rightarrow> bytes" where
  "copy_field n bs = take n bs @ replicate (n - length bs) 0"

definition Event_extraFields :: "Event \<Rightarrow> bytes" where
  "Event_extraFields e =
    (if evType e \<in> {EventTypeRadioChannelSample, EventTypeRadioRxDone, EventTypeRadioTxDone, EventTypeRadioCommStart} then
       [rcChannel (evRadioCommData e), rcPowerDbm (evRadioCommData e), rcError (evRadioCommData e)] @
       put_le 8 (rcDuration (evRadioCommData e))
     else if evType e \<in> {EventTypeRadioRfSimParamSet, EventTypeRadioRfSimParamGet} then
       [ucast (rpParam (evRfSimParamData e))] @ put_le 4 (rpValue (evRfSimParamData e))
     else if evType e \<in> {EventTypeUdpFromHost, EventTypeIp6FromHost} then
       put_le 2 (mhSrcPort (evMsgToHostData e)) @ put_le 2 (mhDstPort (evMsgToHostData e)) @
       copy_field 16 (AsSlice (mhSrcIp6Address (evMsgToHostData e))) @
       copy_field 16 (AsSlice (mhDstIp6Address (evMsgToHostData e)))
     else [])"

definition Event_Serialize :: "Event \<Rightarrow> bytes" where
  "Event_Serialize e =
    (let payload = Event_extraFields e @ evData e
     in put_le 8 (evDelay e) @ [evType e] @ put_le 8 (evMsgId e) @
        put_le 2 (of_nat (length payload) :: u16) @ payload)"

section \<open>Deserialize\<close>

text \<open>A slice expression \<open>data[a:b]\<close>.\<close>

definition slicer :: "bytes \<Rightarrow> nat \<Rightarrow> nat \<Rightarrow> bytes res" where
  "slicer data a b = (if a \<le> b \<and> b \<le> length data then Inr (take (b - a) (drop a data)) else Inl IndexOutOfRange)"

abbreviation field :: "nat \<Rightarrow> nat \<Rightarrow> bytes \<Rightarrow> bytes" where
  "field off n data \<equiv> take n (drop off data)"

definition deserializeRadioCommData :: "bytes \<Rightarrow> RadioCommEventData res" where
  "deserializeRadioCommData data = assertr (length data \<ge> radioCommEventDataHeaderLen)
     (Inr \<lparr>rcChannel = data ! 0, rcPowerDbm = data ! 1, rcError = data ! 2,
           rcDuration = get_le (field 3 8 data)\<rparr>)"

definition deserializeRadioStateData :: "bytes \<Rightarrow> RadioStateEventData res" where
  "deserializeRadioStateData data = assertr (length data \<ge> radioStateEventDataHeaderLen)
     (Inr \<lparr>rsChannel = data ! 0, rsPowerDbm = data ! 1, rsRxSensDbm = data ! 2,
           rsEnergyState = data ! 3, rsSubState = data ! 4, rsState = data ! 5,
           rsRadioTime = get_le (field 6 8 data)\<rparr>)"

definition deserializeNodeInfoData :: "bytes \<Rightarrow> NodeInfoEventData res" where
  "deserializeNodeInfoData data = assertr (length data \<ge> nodeInfoEventDataHeaderLen)
     (Inr \<lparr>niNodeId = uint (get_le (field 0 4 data) :: u32)\<rparr>)"

definition deserializeRfSimParamData :: "bytes \<Rightarrow> RfSimParamEventData res" where
  "deserializeRfSimParamData data = assertr (length data \<ge> rfSimParamEventDataHeaderLen)
     (Inr \<lparr>rpParam = data ! 0, rpValue = get_le (field 1 4 data)\<rparr>)"

definition deserializeMsgToHostData :: "bytes \<Rightarrow> MsgToHostEventData res" where
  "deserializeMsgToHostData data = assertr (length data \<ge> msgToHostEventDataHeaderLen)
     (Inr \<lparr>mhSrcPort = get_le (field 0 2 data), mhDstPort = get_le (field 2 2 data),
           mhSrcIp6Address = Addr16 (field 4 16 data), mhDstIp6Address = Addr16 (field 20 16 data)\<rparr>)"

text \<open>The type switch: the event with its supplementary data, and \<open>payloadOffset\<close>.\<close>

definition Event_deserializeSwitch :: "Event \<Rightarrow> (Event \<times> nat) res" where
  "Event_deserializeSwitch e =
    (if evType e = EventTypeRadioChannelSample then
       bindr (deserializeRadioCommData (evData e)) (\<lambda>s.
         Inr (e\<lparr>evRadioCommData := s\<rparr>, radioCommEventDataHeaderLen))
     else if evType e = EventTypeRadioRxDone \<or> evType e = EventTypeRadioCommStart then
       bindr (deserializeRadioCommData (evData e)) (\<lambda>s.
       bindr (indexr (evData e) radioCommEventDataHeaderLen) (\<lambda>ch.
         assertr (rcChannel s = ch) (Inr (e\<lparr>evRadioCommData := s\<rparr>, radioCommEventDataHeaderLen))))
     else if evType e = EventTypeRadioState then
       bindr (deserializeRadioStateData (evData e)) (\<lambda>s.
         Inr (e\<lparr>evRadioStateData := s\<rparr>, radioStateEventDataHeaderLen))
     else if evType e = EventTypeNodeInfo then
       bindr (deserializeNodeInfoData (evData e)) (\<lambda>s.
         Inr (e\<lparr>evNodeInfoData := s\<rparr>, nodeInfoEventDataHeaderLen))
     else if evType e = EventTypeRadioRfSimParamRsp then
       bindr (deserializeRfSimParamData (evData e)) (\<lambda>s.
         Inr (e\<lparr>evRfSimParamData := s\<rparr>, rfSimParamEventDataHeaderLen))
     else if evType e = EventTypeUdpToHost \<or> evType e = EventTypeIp6ToHost then
       bindr (deserializeMsgToHostData (evData e)) (\<lambda>s.
         Inr (e\<lparr>evMsgToHostData := s\<rparr>, msgToHostEventDataHeaderLen))
     else Inr (e, 0))"

definition Event_Deserialize :: "Event \<Rightarrow> bytes \<Rightarrow> (Event \<times> nat) res" where
  "Event_Deserialize e data =
    (let n = length data in
     if n < eventMsgHeaderLen then Inr (e, 0)
     else
      (let e1 = e\<lparr>evDelay := get_le (field 0 8 data), evType := data ! 8, evMsgId := get_le (field 9 8 data)\<rparr>;
           datalen = get_le (field 17 2 data) :: u16
       in if datalen > of_nat (n - eventMsgHeaderLen) then Inr (e1, 0)
          else bindr (slicer data eventMsgHeaderLen (unat (of_nat eventMsgHeaderLen + datalen))) (\<lambda>payload.
               bindr (Event_deserializeSwitch (e1\<lparr>evData := payload\<rparr>)) (\<lambda>(e2, payloadOffset).
               bindr (slicer (evData e2) payloadOffset (unat datalen)) (\<lambda>data2.
                 Inr (e2\<lparr>evData := data2, evTimestamp := InvalidTimestamp\<rparr>,
                      unat (of_nat eventMsgHeaderLen + datalen)))))))"

definition Event_Copy :: "Event \<Rightarrow> Event" where
  "Event_Copy e = e"

section \<open>The connection goroutine of eventsReader (dispatcher.go)\<close>

text \<open>
  \<open>connBuf\<close> is the inner loop over the bytes of one \<^verbatim>\<open>Read\<close>: the node id learnt so far, the events put
  on \<^verbatim>\<open>eventChan\<close>, and whether the connection stays open. \<open>connLoop\<close> is the goroutine over the
  successive reads, the end of the list being a read that returns an error (end of file included).
\<close>

function connBuf :: "nat \<Rightarrow> NodeId \<Rightarrow> bytes \<Rightarrow> (NodeId \<times> Event list \<times> bool) res" where
  "connBuf conn myNodeId data =
    (if data = [] then Inr (myNodeId, [], True)
     else bindr (Event_Deserialize zeroEvent data) (\<lambda>(evt, nextEventOffset).
       if nextEventOffset = 0 then Inr (myNodeId, [], False)
       else (let myNodeId' = (if myNodeId = InvalidNodeId \<and> evType evt = EventTypeNodeInfo
                              then niNodeId (evNodeInfoData evt) else myNodeId)
             in if myNodeId' \<le> InvalidNodeId then Inr (myNodeId', [], False)
                else bindr (connBuf conn myNodeId' (drop nextEventOffset data)) (\<lambda>(nid, evs, go_on).
                  Inr (nid, evt\<lparr>evNodeId := myNodeId', evConn := Some conn\<rparr> # evs, go_on)))))"
  by pat_completeness auto
termination
  by (relation "measure (\<lambda>(conn, myNodeId, data). length data)") auto

declare connBuf.simps [simp del]

definition connClose :: "NodeId \<Rightarrow> Event list" where
  "connClose myNodeId = (if myNodeId > InvalidNodeId
     then [zeroEvent\<lparr>evDelay := 0, evType := EventTypeNodeDisconnected, evNodeId := myNodeId\<rparr>] else [])"

fun connLoop :: "nat \<Rightarrow> NodeId \<Rightarrow> bytes list \<Rightarrow> Event list res" where
  "connLoop conn myNodeId [] = Inr (connClose myNodeId)"
| "connLoop conn myNodeId (data # reads) =
     bindr (connBuf conn myNodeId data) (\<lambda>(nid, evs, go_on).
       if go_on then bindr (connLoop conn nid reads) (\<lambda>evs'. Inr (evs @ evs'))
       else Inr (evs @ connClose nid))"

section \<open>The wire format\<close>

definition wireHeader :: "u64 \<Rightarrow> EventType \<Rightarrow> u64 \<Rightarrow> nat \<Rightarrow> bytes" where
  "wireHeader delay typ mid len = put_le 8 delay @ [typ] @ put_le 8 mid @ put_le 2 (of_nat len :: u16)"

lemma length_wireHeader [simp]: "length (wireHeader d t m len) = 19"
  by (simp add: wireHeader_def)

lemma Serialize_wire:
  "Event_Serialize e = wireHeader (evDelay e) (evType e) (evMsgId e) (length (Event_extraFields e @ evData e)) @
     Event_extraFields e @ evData e"
  by (simp add: Event_Serialize_def wireHeader_def Let_def)

lemma length_Serialize [simp]:
  "length (Event_Serialize e) = 19 + length (Event_extraFields e) + length (evData e)"
  by (simp add: Serialize_wire)

lemma wireHeader_fields:
  "take 8 (wireHeader d t m len) = put_le 8 d"
  "wireHeader d t m len ! 8 = t"
  "field 9 8 (wireHeader d t m len) = put_le 8 m"
  "drop 17 (wireHeader d t m len) = put_le 2 (of_nat len :: u16)"
  by (simp_all add: wireHeader_def nth_append)

text \<open>What \<open>Deserialize\<close> does on a buffer that starts with the header of a \<open>len\<close>-byte payload.\<close>

lemma Deserialize_wire:
  fixes e :: Event and d m :: u64 and t :: EventType
  assumes "len < 65536"
  defines "e1 \<equiv> e\<lparr>evDelay := d, evType := t, evMsgId := m\<rparr>"
  shows "Event_Deserialize e (wireHeader d t m len @ bs) =
    (if length bs mod 65536 < len then Inr (e1, 0)
     else if len > 65516 then Inl IndexOutOfRange
     else bindr (Event_deserializeSwitch (e1\<lparr>evData := take len bs\<rparr>)) (\<lambda>(e2, payloadOffset).
          bindr (slicer (evData e2) payloadOffset len) (\<lambda>data2.
            Inr (e2\<lparr>evData := data2, evTimestamp := InvalidTimestamp\<rparr>, 19 + len))))"
proof -
  have len16: "unat (of_nat len :: u16) = len"
    using assms(1) by (simp add: unat_of_nat take_bit_nat_eq_self)
  have less: "(of_nat (length bs) :: u16) < of_nat len \<longleftrightarrow> length bs mod 65536 < len"
    using len16 by (simp add: word_less_nat_alt unat_of_nat take_bit_eq_mod)
  have off: "unat (19 + of_nat len :: u16) = (if len > 65516 then len - 65517 else 19 + len)"
  proof -
    have "unat (19 + of_nat len :: u16) = unat (of_nat (19 + len) :: u16)" by simp
    also have "\<dots> = (19 + len) mod 65536" by (simp only: unat_of_nat) (simp add: take_bit_eq_mod)
    finally show ?thesis using assms(1) by (auto simp: mod_if)
  qed
  have sl: "slicer (wireHeader d t m len @ bs) 19 (unat (19 + of_nat len :: u16)) =
      (if len > 65516 then Inl IndexOutOfRange else Inr (take len bs))" if "\<not> length bs mod 65536 < len"
    using that mod_less_eq_dividend [of "length bs" 65536] assms(1) unfolding off
    by (auto simp: slicer_def)
  show ?thesis
    using less sl len16
    by (simp add: Event_Deserialize_def Let_def wireHeader_fields nth_append e1_def) (simp add: off)
qed

lemma wire_split:
  assumes "19 \<le> length data"
  shows "data = wireHeader (get_le (field 0 8 data)) (data ! 8) (get_le (field 9 8 data))
           (unat (get_le (field 17 2 data) :: u16)) @ drop 19 data"
proof -
  have "put_le 8 (get_le (take 8 data) :: u64) = take 8 data"
    using put_get_le [of "take 8 data", where 'a = 64] assms by simp
  moreover have "put_le 8 (get_le (field 9 8 data) :: u64) = field 9 8 data"
    using put_get_le [of "field 9 8 data", where 'a = 64] assms by simp
  moreover have "put_le 2 (get_le (field 17 2 data) :: u16) = field 17 2 data"
    using put_get_le [of "field 17 2 data", where 'a = 16] assms by simp
  moreover have "data = take 8 data @ [data ! 8] @ field 9 8 data @ field 17 2 data @ drop 19 data"
    using assms id_take_nth_drop [of 8 data] append_take_drop_id [of 8 "drop 9 data"]
      append_take_drop_id [of 2 "drop 17 data"] by simp
  ultimately show ?thesis by (simp add: wireHeader_def)
qed

definition dataHeaderLen :: "EventType \<Rightarrow> nat" where
  "dataHeaderLen t =
    (if t \<in> {EventTypeRadioChannelSample, EventTypeRadioRxDone, EventTypeRadioCommStart} then 11
     else if t = EventTypeRadioState then 14
     else if t = EventTypeNodeInfo then 4
     else if t = EventTypeRadioRfSimParamRsp then 5
     else if t \<in> {EventTypeUdpToHost, EventTypeIp6ToHost} then 36 else 0)"

text \<open>The payloads that a type's decoder accepts; for frames, the channel must be stored twice.\<close>

definition payload_ok :: "EventType \<Rightarrow> bytes \<Rightarrow> bool" where
  "payload_ok t p \<longleftrightarrow> dataHeaderLen t \<le> length p \<and>
     (t \<in> {EventTypeRadioRxDone, EventTypeRadioCommStart} \<longrightarrow> 11 < length p \<and> p ! 0 = p ! 11)"

lemmas deserialize_defs = deserializeRadioCommData_def deserializeRadioStateData_def
  deserializeNodeInfoData_def deserializeRfSimParamData_def deserializeMsgToHostData_def

lemma payload_type_cases:
  obtains (sample) "t = EventTypeRadioChannelSample" "dataHeaderLen t = 11"
  | (frame) "t = EventTypeRadioRxDone \<or> t = EventTypeRadioCommStart" "dataHeaderLen t = 11"
  | (state) "t = EventTypeRadioState" "dataHeaderLen t = 14"
  | (info) "t = EventTypeNodeInfo" "dataHeaderLen t = 4"
  | (param) "t = EventTypeRadioRfSimParamRsp" "dataHeaderLen t = 5"
  | (host) "t = EventTypeUdpToHost \<or> t = EventTypeIp6ToHost" "dataHeaderLen t = 36"
  | (plain) "t \<notin> {6, 8, 9, 10, 12, 18, 20, 21}" "dataHeaderLen t = 0"
proof -
  consider "t = 8" | "t = 10 \<or> t = 6" | "t = 9" | "t = 12" | "t = 18" | "t = 20 \<or> t = 21"
    | "t \<notin> {6, 8, 9, 10, 12, 18, 20, 21}" by blast
  then show thesis
  proof cases
    case 1
    then show thesis by (intro that(1)) (auto simp: dataHeaderLen_def)
  next
    case 2
    then show thesis by (intro that(2)) (auto simp: dataHeaderLen_def)
  next
    case 3
    then show thesis by (intro that(3)) (auto simp: dataHeaderLen_def)
  next
    case 4
    then show thesis by (intro that(4)) (auto simp: dataHeaderLen_def)
  next
    case 5
    then show thesis by (intro that(5)) (auto simp: dataHeaderLen_def)
  next
    case 6
    then show thesis by (intro that(6)) (auto simp: dataHeaderLen_def)
  next
    case 7
    then show thesis by (intro that(7)) (auto simp: dataHeaderLen_def)
  qed
qed

lemmas switch_defs = payload_ok_def Event_deserializeSwitch_def deserialize_defs indexr_def assertr_def

lemma switch_panics:
  "\<not> payload_ok (evType e) (evData e) \<Longrightarrow> \<exists>p. Event_deserializeSwitch e = Inl p"
  by (cases "evType e" rule: payload_type_cases) (auto simp: switch_defs)

lemma switch_returns:
  assumes "payload_ok (evType e) (evData e)"
  shows "\<exists>e2. Event_deserializeSwitch e = Inr (e2, dataHeaderLen (evType e)) \<and> evData e2 = evData e \<and>
    evDelay e2 = evDelay e \<and> evType e2 = evType e \<and> evMsgId e2 = evMsgId e"
  using assms by (cases "evType e" rule: payload_type_cases) (auto simp: switch_defs)

definition wire_len :: "bytes \<Rightarrow> nat" where
  "wire_len data = unat (get_le (field 17 2 data) :: u16)"

definition wire_incomplete :: "bytes \<Rightarrow> bool" where
  "wire_incomplete data \<longleftrightarrow> length data < 19 \<or> (length data - 19) mod 65536 < wire_len data"

definition wire_valid :: "bytes \<Rightarrow> bool" where
  "wire_valid data \<longleftrightarrow> wire_len data \<le> 65516 \<and> payload_ok (data ! 8) (take (wire_len data) (drop 19 data))"

lemma wire_len_less: "wire_len data < 65536"
  using unsigned_less [of "get_le (field 17 2 data) :: u16"] by (simp add: wire_len_def)

lemma Deserialize_at:
  fixes e :: Event
  assumes "19 \<le> length data"
  defines "e1 \<equiv> e\<lparr>evDelay := get_le (field 0 8 data), evType := data ! 8, evMsgId := get_le (field 9 8 data)\<rparr>"
  shows "Event_Deserialize e data =
    (if wire_incomplete data then Inr (e1, 0)
     else if wire_len data > 65516 then Inl IndexOutOfRange
     else bindr (Event_deserializeSwitch (e1\<lparr>evData := field 19 (wire_len data) data\<rparr>)) (\<lambda>(e2, payloadOffset).
          bindr (slicer (evData e2) payloadOffset (wire_len data)) (\<lambda>data2.
            Inr (e2\<lparr>evData := data2, evTimestamp := InvalidTimestamp\<rparr>, 19 + wire_len data))))"
  using assms wire_split [OF assms(1), folded wire_len_def]
    Deserialize_wire [OF wire_len_less, of e "get_le (field 0 8 data)" "data ! 8" "get_le (field 9 8 data)" data "drop 19 data"]
  by (simp add: wire_incomplete_def not_less)

lemma not_incomplete_length: "\<not> wire_incomplete data \<Longrightarrow> 19 + wire_len data \<le> length data"
  using mod_less_eq_dividend [of "length data - 19" 65536] by (auto simp: wire_incomplete_def)

lemma Deserialize_incomplete:
  "wire_incomplete data \<Longrightarrow> \<exists>e'. Event_Deserialize e data = Inr (e', 0)"
  using Deserialize_at [of data e] by (cases "length data < 19") (auto simp: Event_Deserialize_def)

lemma Deserialize_invalid:
  assumes "\<not> wire_incomplete data" "\<not> wire_valid data"
  shows "\<exists>p. Event_Deserialize e data = Inl p"
proof -
  have "19 \<le> length data" using not_incomplete_length [OF assms(1)] by simp
  then show ?thesis
    using assms switch_panics [of "e\<lparr>evDelay := get_le (field 0 8 data), evType := data ! 8,
        evMsgId := get_le (field 9 8 data), evData := field 19 (wire_len data) data\<rparr>"]
    by (auto simp: Deserialize_at wire_valid_def)
qed

lemma Deserialize_valid:
  assumes "\<not> wire_incomplete data" "wire_valid data"
  shows "\<exists>e'. Event_Deserialize e data = Inr (e', 19 + wire_len data) \<and>
    evDelay e' = get_le (field 0 8 data) \<and> evType e' = data ! 8 \<and> evMsgId e' = get_le (field 9 8 data) \<and>
    evData e' = drop (dataHeaderLen (data ! 8)) (field 19 (wire_len data) data) \<and>
    evTimestamp e' = InvalidTimestamp"
proof -
  have len: "19 + wire_len data \<le> length data" using not_incomplete_length [OF assms(1)] .
  let ?e = "e\<lparr>evDelay := get_le (field 0 8 data), evType := data ! 8,
        evMsgId := get_le (field 9 8 data), evData := field 19 (wire_len data) data\<rparr>"
  obtain e2 where e2: "Event_deserializeSwitch ?e = Inr (e2, dataHeaderLen (data ! 8))"
    "evData e2 = field 19 (wire_len data) data" "evDelay e2 = get_le (field 0 8 data)"
    "evType e2 = data ! 8" "evMsgId e2 = get_le (field 9 8 data)"
    using switch_returns [of ?e] assms(2) by (auto simp: wire_valid_def)
  have "dataHeaderLen (data ! 8) \<le> wire_len data"
    using assms(2) len by (simp add: wire_valid_def payload_ok_def)
  then have "slicer (evData e2) (dataHeaderLen (data ! 8)) (wire_len data) =
      Inr (drop (dataHeaderLen (data ! 8)) (field 19 (wire_len data) data))"
    using len by (simp add: slicer_def e2(2))
  then show ?thesis
    using assms len e2 by (simp add: Deserialize_at wire_valid_def)
qed

section \<open>Framing of a byte stream\<close>

text \<open>A buffer that is exactly one acceptable event.\<close>

definition whole_frame :: "bytes \<Rightarrow> bool" where
  "whole_frame f \<longleftrightarrow> 19 \<le> length f \<and> length f = 19 + wire_len f \<and> wire_valid f"

lemma header_append:
  assumes "19 \<le> length f"
  shows "field 0 8 (f @ rest) = field 0 8 f" "field 9 8 (f @ rest) = field 9 8 f"
    "wire_len (f @ rest) = wire_len f" "(f @ rest) ! 8 = f ! 8"
  using assms by (simp_all add: nth_append wire_len_def)

lemma Deserialize_append:
  assumes "whole_frame f" "length (f @ rest) < 65555"
  shows "\<not> wire_incomplete (f @ rest)" "Event_Deserialize e (f @ rest) = Event_Deserialize e f"
    "\<exists>e'. Event_Deserialize e f = Inr (e', length f) \<and> evType e' = f ! 8"
proof -
  have f: "19 \<le> length f" "length f = 19 + wire_len f" "wire_valid f"
    using assms(1) by (auto simp: whole_frame_def)
  note h = header_append [OF f(1), of rest]
  show n: "\<not> wire_incomplete (f @ rest)"
    using assms(2) f(1,2) unfolding wire_incomplete_def h by auto
  have n': "\<not> wire_incomplete f"
    using assms(2) f(1,2) by (auto simp: wire_incomplete_def)
  have d: "field 19 (wire_len f) (f @ rest) = field 19 (wire_len f) f" using f(2) by simp
  show "Event_Deserialize e (f @ rest) = Event_Deserialize e f"
    using Deserialize_at [of "f @ rest" e] Deserialize_at [OF f(1), of e] n n' f(1) unfolding h d by simp
  show "\<exists>e'. Event_Deserialize e f = Inr (e', length f) \<and> evType e' = f ! 8"
    using Deserialize_valid [OF n' f(3), of e] f(2) by auto
qed

definition decode :: "nat \<Rightarrow> NodeId \<Rightarrow> bytes \<Rightarrow> Event" where
  "decode conn nid f = (case Event_Deserialize zeroEvent f of
     Inl _ \<Rightarrow> zeroEvent | Inr (e, _) \<Rightarrow> e\<lparr>evNodeId := nid, evConn := Some conn\<rparr>)"

lemma connBuf_frame:
  assumes "whole_frame f" "length (f @ rest) < 65555" "0 < nid"
  shows "connBuf conn nid (f @ rest) = bindr (connBuf conn nid rest) (\<lambda>(n, evs, go_on).
    Inr (n, decode conn nid f # evs, go_on))"
proof -
  obtain e' where e': "Event_Deserialize zeroEvent f = Inr (e', length f)"
    using Deserialize_append(3) [OF assms(1,2)] by blast
  have "f \<noteq> []" using assms(1) by (auto simp: whole_frame_def)
  then show ?thesis
    using assms(3) e'
    by (subst connBuf.simps) (simp add: Deserialize_append(2) [OF assms(1,2)] Let_def decode_def)
qed

lemma connBuf_frames:
  assumes "\<forall>f \<in> set fs. whole_frame f" "length (concat fs @ rest) < 65555" "0 < nid"
  shows "connBuf conn nid (concat fs @ rest) = bindr (connBuf conn nid rest) (\<lambda>(n, evs, go_on).
    Inr (n, map (decode conn nid) fs @ evs, go_on))"
  using assms
proof (induction fs)
  case Nil
  then show ?case by (cases "connBuf conn nid rest") auto
next
  case (Cons f fs)
  then show ?case
    using connBuf_frame [of f "concat fs @ rest" nid conn]
    by (cases "connBuf conn nid rest") (auto simp: split_def)
qed

lemma connBuf_incomplete:
  assumes "wire_incomplete data" "data \<noteq> []"
  shows "connBuf conn nid data = Inr (nid, [], False)"
  using Deserialize_incomplete [OF assms(1), of zeroEvent] assms(2)
  by (auto simp: connBuf.simps [of conn nid data])

lemma prefix_incomplete:
  assumes "whole_frame f" "k < length f"
  shows "wire_incomplete (take k f)"
proof (cases "k < 19")
  case False
  then have "wire_len (take k f) = wire_len f"
    using assms(2) by (simp add: wire_len_def drop_take min_def)
  moreover have "k - 19 < wire_len f" using assms False by (simp add: whole_frame_def)
  moreover have "(k - 19) mod 65536 = k - 19"
    using calculation(2) wire_len_less [of f] by (intro mod_less) linarith
  ultimately show ?thesis
    using assms(2) by (simp add: wire_incomplete_def)
qed (simp add: wire_incomplete_def min_def)

section \<open>Encoders of the node side\<close>

text \<open>
  The layouts that the comments of event.go quote from the node firmware (\<^verbatim>\<open>event-sim.h\<close>), for the event
  types that are only ever sent by a node.
\<close>

definition putRadioState :: "RadioStateEventData \<Rightarrow> bytes" where
  "putRadioState s = [rsChannel s, rsPowerDbm s, rsRxSensDbm s, rsEnergyState s, rsSubState s, rsState s] @
     put_le 8 (rsRadioTime s)"

definition putRfSimParam :: "RfSimParamEventData \<Rightarrow> bytes" where
  "putRfSimParam s = rpParam s # put_le 4 (rpValue s)"

lemma deserialize_puts:
  "deserializeRadioStateData (putRadioState s @ bs) = Inr s"
  "deserializeRfSimParamData (putRfSimParam p @ bs) = Inr p"
  "0 \<le> n \<Longrightarrow> n < 2 ^ 32 \<Longrightarrow> deserializeNodeInfoData (put_le 4 (word_of_int n :: u32) @ bs) = Inr \<lparr>niNodeId = n\<rparr>"
  by (simp_all add: deserialize_defs putRadioState_def putRfSimParam_def drop_Cons'
      uint_word_of_int_eq take_bit_int_eq_self)

section \<open>Round trips\<close>

text \<open>The event types whose supplementary data is written and read in the same layout.\<close>

definition symmetric_type :: "EventType \<Rightarrow> bool" where
  "symmetric_type t \<longleftrightarrow> t \<notin> {EventTypeRadioTxDone, EventTypeRadioState, EventTypeNodeInfo, EventTypeRadioRfSimParamGet,
     EventTypeRadioRfSimParamSet, EventTypeRadioRfSimParamRsp, EventTypeUdpToHost, EventTypeIp6ToHost,
     EventTypeUdpFromHost, EventTypeIp6FromHost}"

definition is_comm :: "EventType \<Rightarrow> bool" where
  "is_comm t \<longleftrightarrow> t \<in> {EventTypeRadioChannelSample, EventTypeRadioRxDone, EventTypeRadioCommStart}"

definition is_frame :: "EventType \<Rightarrow> bool" where
  "is_frame t \<longleftrightarrow> t \<in> {EventTypeRadioRxDone, EventTypeRadioCommStart}"

definition sendable :: "Event \<Rightarrow> bool" where
  "sendable e \<longleftrightarrow> symmetric_type (evType e) \<and> length (Event_extraFields e @ evData e) \<le> 65516 \<and>
     (is_frame (evType e) \<longrightarrow> evData e \<noteq> [] \<and> hd (evData e) = rcChannel (evRadioCommData e))"

definition received_as :: "Event \<Rightarrow> Event \<Rightarrow> Event" where
  "received_as e0 e = e0\<lparr>evDelay := evDelay e, evType := evType e, evMsgId := evMsgId e, evData := evData e,
     evRadioCommData := (if is_comm (evType e) then evRadioCommData e else evRadioCommData e0),
     evTimestamp := InvalidTimestamp\<rparr>"

lemma deserialize_comm:
  assumes "is_comm (evType e)"
  shows "deserializeRadioCommData (Event_extraFields e @ bs) = Inr (evRadioCommData e)"
    "length (Event_extraFields e) = 11" "Event_extraFields e ! 0 = rcChannel (evRadioCommData e)"
  using assms
  by (auto simp: is_comm_def Event_extraFields_def deserializeRadioCommData_def drop_Cons')

lemma switch_sendable:
  assumes "sendable e" "evType e1 = evType e" "evData e1 = Event_extraFields e @ evData e"
  shows "Event_deserializeSwitch e1 =
    Inr (e1\<lparr>evRadioCommData := (if is_comm (evType e) then evRadioCommData e else evRadioCommData e1)\<rparr>,
         length (Event_extraFields e))"
proof -
  consider (sample) "evType e = EventTypeRadioChannelSample" | (frame) "is_frame (evType e)"
    | (plain) "\<not> is_comm (evType e)" "symmetric_type (evType e)"
    using assms(1) by (auto simp: sendable_def is_frame_def is_comm_def)
  then show ?thesis
  proof cases
    case sample
    then show ?thesis
      using deserialize_comm [of e] assms(2,3) by (simp add: Event_deserializeSwitch_def is_comm_def)
  next
    case frame
    then have c: "is_comm (evType e)" by (auto simp: is_frame_def is_comm_def)
    note d = deserialize_comm [OF c]
    have "evData e1 ! 11 = rcChannel (evRadioCommData e)" "11 < length (evData e1)"
      using frame assms(1,3) d(2) by (auto simp: sendable_def nth_append hd_conv_nth)
    then show ?thesis
      using frame d assms(2,3) c by (auto simp: Event_deserializeSwitch_def is_frame_def)
  next
    case plain
    then show ?thesis
      using assms(2) by (auto simp: Event_deserializeSwitch_def Event_extraFields_def symmetric_type_def is_comm_def)
  qed
qed

lemma Deserialize_Serialize_append:
  assumes "sendable e" "length (Event_Serialize e @ rest) < 65555"
  shows "Event_Deserialize e0 (Event_Serialize e @ rest) = Inr (received_as e0 e, length (Event_Serialize e))"
proof -
  let ?p = "Event_extraFields e @ evData e"
  have len: "length ?p \<le> 65516" using assms(1) by (simp add: sendable_def)
  have nw: "\<not> length (?p @ rest) mod 65536 < length ?p"
    using assms(2) by simp
  show ?thesis
    using Deserialize_wire [of "length ?p" e0 "evDelay e" "evType e" "evMsgId e" "?p @ rest"] len nw
      switch_sendable [OF assms(1), of "e0\<lparr>evDelay := evDelay e, evType := evType e, evMsgId := evMsgId e, evData := ?p\<rparr>"]
    by (simp add: Serialize_wire slicer_def received_as_def)
qed

lemma whole_frame_wire:
  assumes "payload_ok t p" "length p \<le> 65516"
  shows "whole_frame (wireHeader d t m (length p) @ p)"
proof -
  have "unat (of_nat (length p) :: u16) = length p"
    using assms(2) by (simp add: unat_of_nat take_bit_nat_eq_self)
  then have "wire_len (wireHeader d t m (length p) @ p) = length p"
    by (simp add: wire_len_def wireHeader_fields)
  with assms show ?thesis
    by (simp add: whole_frame_def wire_valid_def nth_append wireHeader_fields)
qed

definition exampleAlarm :: bytes where
  "exampleAlarm = wireHeader 5 EventTypeAlarmFired 1 0"

definition exampleLog :: bytes where
  "exampleLog = wireHeader 0 EventTypeLogWrite 2 (length [65 :: u8, 66]) @ [65, 66]"

lemma whole_frame_examples [simp]:
  "whole_frame exampleAlarm" "whole_frame exampleLog" "length exampleAlarm = 19" "length exampleLog = 21"
  using whole_frame_wire [of EventTypeAlarmFired "[]"] whole_frame_wire [of EventTypeLogWrite "[65, 66]"]
  by (simp_all add: exampleAlarm_def exampleLog_def payload_ok_def dataHeaderLen_def)

section \<open>Properties\<close>






text \<open>
  An event that arrives in two reads is lost: when a read ends inside an event, the goroutine
  delivers the complete events before it, closes the connection and reports the node disconnected.
\<close>

theorem connLoop_split_frame:
  assumes "0 < nid" "\<forall>f \<in> set fs. whole_frame f" "whole_frame f" "0 < k" "k < length f"
    and "length (concat fs) + k < 65555"
  shows "connLoop conn nid ((concat fs @ take k f) # reads) =
    Inr (map (decode conn nid) fs @ [zeroEvent\<lparr>evType := EventTypeNodeDisconnected, evNodeId := nid\<rparr>])"
proof -
  have "take k f \<noteq> []" using assms(4,5) by auto
  then have "connBuf conn nid (concat fs @ take k f) = Inr (nid, map (decode conn nid) fs, False)"
    using connBuf_frames [OF assms(2), of "take k f" nid conn] assms(1,5,6)
      connBuf_incomplete [OF prefix_incomplete [OF assms(3,5)]] by simp
  then show ?thesis using assms(1) by (simp add: connClose_def zeroEvent_def)
qed

theorem connLoop_split_frame_witness:
  "connLoop 3 7 ((concat [exampleAlarm] @
       take 20 exampleLog) # []) =
   Inr (map (decode 3 7) [exampleAlarm] @
     [zeroEvent\<lparr>evType := EventTypeNodeDisconnected, evNodeId := 7\<rparr>])"
  by (rule connLoop_split_frame) simp_all

text \<open>
  The comment of \<open>Deserialize\<close> promises 0 only for a buffer without one entire event. The 16-bit
  conversion of the number of available bytes breaks this: with exactly \<open>19 + 65536\<close> bytes in the
  buffer, every event with a non-empty payload is reported as incomplete although it is all there.
\<close>

theorem Deserialize_16bit_available:
  assumes "length payload \<noteq> 0" "length payload < 65536" "length (payload @ rest) = 65536"
  shows "\<exists>e'. Event_Deserialize e (wireHeader d t m (length payload) @ payload @ rest) = Inr (e', 0)"
  using Deserialize_wire [of "length payload" e d t m "payload @ rest"] assms by simp

theorem Deserialize_16bit_available_witness:
  "\<exists>e'. Event_Deserialize zeroEvent (wireHeader 0 EventTypeLogWrite 1 (length [65 :: u8]) @ [65] @ replicate 65535 0) = Inr (e', 0)"
  by (rule Deserialize_16bit_available) simp_all

end
