(* ===== verification/Send_Queue.thy ===== *)
theory Send_Queue
  imports Go_Heap Events Alarm_Mgr
begin

text \<open>
  The queue of scheduled events of the dispatcher (\<^verbatim>\<open>src/dispatcher/send_queue.go\<close>): a binary heap over
  \<^verbatim>\<open>container/heap\<close>, ordered by timestamp and then by node id. The elements are pointers in the
  code; the only writes through them while they are queued are those of \<open>DisableEventsForNode\<close>, so
  the queue holds the events themselves.

  \<open>container/heap\<close> is verified in \<open>Go_Heap\<close> for an arbitrary preorder, and is used here for two of
  them. For the order of \<open>Less\<close> the heap property is kept by \<open>Add\<close> and \<open>PopNext\<close>, but not by
  \<open>DisableEventsForNode\<close>, which rewrites the node id, a part of the key, in place. For the coarser
  order by timestamp all three operations keep it, and this is what the dispatcher relies on.
\<close>

section \<open>The code\<close>

type_synonym sendQueue = "Event list"

definition sendQueue_Less :: "sendQueue \<Rightarrow> nat \<Rightarrow> nat \<Rightarrow> bool res" where
  "sendQueue_Less sq i j =
     bindr (indexr sq i) (\<lambda>ei. bindr (indexr sq j) (\<lambda>ej.
       if evTimestamp ei = evTimestamp ej then Inr (evNodeId ei < evNodeId ej)
       else Inr (evTimestamp ei < evTimestamp ej)))"

definition sendQueue_Swap :: "sendQueue \<Rightarrow> nat \<Rightarrow> nat \<Rightarrow> sendQueue res" where
  "sendQueue_Swap sq i j =
     bindr (indexr sq i) (\<lambda>ei. bindr (indexr sq j) (\<lambda>ej. Inr (sq[i := ej, j := ei])))"

definition sendQueue_Push :: "sendQueue \<Rightarrow> Event \<Rightarrow> sendQueue" where
  "sendQueue_Push sq x = sq @ [x]"

definition sendQueue_Pop :: "sendQueue \<Rightarrow> (sendQueue \<times> Event) res" where
  "sendQueue_Pop sq = (if sq = [] then Inl IndexOutOfRange else Inr (butlast sq, last sq))"

definition sendQueue_heap :: "(sendQueue, Event) heap_iface" where
  "sendQueue_heap = \<lparr>hLen = length, hLess = sendQueue_Less, hSwap = sendQueue_Swap,
     hPush = sendQueue_Push, hPop = sendQueue_Pop\<rparr>"

definition sendQueue_NextTimestamp :: "sendQueue \<Rightarrow> u64" where
  "sendQueue_NextTimestamp sq = (if length sq > 0 then evTimestamp (sq ! 0) else Ever)"

definition sendQueue_NextEvent :: "sendQueue \<Rightarrow> Event option" where
  "sendQueue_NextEvent sq = (if length sq > 0 then Some (sq ! 0) else None)"

definition sendQueue_Add :: "sendQueue \<Rightarrow> Event \<Rightarrow> sendQueue res" where
  "sendQueue_Add sq evt = heap_Push sendQueue_heap sq evt"

definition sendQueue_DisableEventsForNode :: "sendQueue \<Rightarrow> NodeId \<Rightarrow> sendQueue" where
  "sendQueue_DisableEventsForNode sq nodeid =
     map (\<lambda>evt. if evNodeId evt = nodeid then evt\<lparr>evNodeId := InvalidNodeId\<rparr> else evt) sq"

definition sendQueue_PopNext :: "sendQueue \<Rightarrow> (sendQueue \<times> Event) res" where
  "sendQueue_PopNext sq = heap_Pop sendQueue_heap sq"

definition newSendQueue :: "sendQueue res" where
  "newSendQueue = heap_Init sendQueue_heap []"

section \<open>Two orders on one heap\<close>

abbreviation ts_le :: "Event \<Rightarrow> Event \<Rightarrow> bool" where
  "ts_le a b \<equiv> evTimestamp a \<le> evTimestamp b"

definition key_le :: "Event \<Rightarrow> Event \<Rightarrow> bool" where
  "key_le a b \<longleftrightarrow> evTimestamp a < evTimestamp b \<or> evTimestamp a = evTimestamp b \<and> evNodeId a \<le> evNodeId b"

definition key_lt :: "Event \<Rightarrow> Event \<Rightarrow> bool" where
  "key_lt a b \<longleftrightarrow> (if evTimestamp a = evTimestamp b then evNodeId a < evNodeId b else evTimestamp a < evTimestamp b)"

lemma sendQueue_heap_laws:
  "hLen sendQueue_heap sq = length sq"
  "i < length sq \<Longrightarrow> j < length sq \<Longrightarrow> hLess sendQueue_heap sq i j = Inr (key_lt (sq ! i) (sq ! j))"
  "i < length sq \<Longrightarrow> j < length sq \<Longrightarrow> hSwap sendQueue_heap sq i j = Inr (swap_list sq i j)"
  "hPush sendQueue_heap sq x = sq @ [x]"
  "sq \<noteq> [] \<Longrightarrow> hPop sendQueue_heap sq = Inr (butlast sq, last sq)"
  by (simp_all add: sendQueue_heap_def sendQueue_Less_def sendQueue_Swap_def sendQueue_Push_def
      sendQueue_Pop_def key_lt_def swap_list_def)

interpretation sqt: heap_store ts_le sendQueue_heap "\<lambda>_. True" "\<lambda>sq. sq" "\<lambda>_. ()" key_lt "\<lambda>_ _. True" "\<lambda>_ x. x"
  by unfold_locales (auto simp: sendQueue_heap_laws key_lt_def split: if_splits)

interpretation sqk: heap_store key_le sendQueue_heap "\<lambda>_. True" "\<lambda>sq. sq" "\<lambda>_. ()" key_lt "\<lambda>_ _. True" "\<lambda>_ x. x"
  by unfold_locales (auto simp: sendQueue_heap_laws key_lt_def key_le_def split: if_splits)

definition sq_inv :: "sendQueue \<Rightarrow> bool" where
  "sq_inv sq \<longleftrightarrow> heap_list ts_le sq"

definition sq_key_inv :: "sendQueue \<Rightarrow> bool" where
  "sq_key_inv sq \<longleftrightarrow> heap_list key_le sq"

lemma sq_key_inv_imp_sq_inv: "sq_key_inv sq \<Longrightarrow> sq_inv sq"
  by (auto simp: sq_key_inv_def sq_inv_def heap_but_def key_le_def)

lemma newSendQueue_refines: "newSendQueue = Inr [] \<and> sq_key_inv [] \<and> sq_inv []"
  by (simp add: newSendQueue_def heap_Init_def sendQueue_heap_def sq_key_inv_def sq_inv_def heap_but_def)

lemma Add_time:
  "sq_inv sq \<Longrightarrow> \<exists>sq'. sendQueue_Add sq e = Inr sq' \<and> sq_inv sq' \<and> mset sq' = add_mset e (mset sq)"
  using sqt.heap_Push_correct [of sq e] by (simp add: sendQueue_Add_def sq_inv_def sqt.heap_ok_def)

lemma Add_key:
  "sq_key_inv sq \<Longrightarrow> \<exists>sq'. sendQueue_Add sq e = Inr sq' \<and> sq_key_inv sq' \<and> mset sq' = add_mset e (mset sq)"
  using sqk.heap_Push_correct [of sq e] by (simp add: sendQueue_Add_def sq_key_inv_def sqk.heap_ok_def)

lemma PopNext_time:
  assumes "sq_inv sq" "sq \<noteq> []"
  shows "\<exists>sq'. sendQueue_PopNext sq = Inr (sq', sq ! 0) \<and> sq_inv sq' \<and> mset sq' = mset sq - {#sq ! 0#} \<and>
    (\<forall>e \<in> set sq. evTimestamp (sq ! 0) \<le> evTimestamp e)"
  using sqt.heap_Pop_correct [of sq] sqt.heap_ok_least [of sq] assms
  by (simp add: sendQueue_PopNext_def sq_inv_def sqt.heap_ok_def)

lemma PopNext_key:
  assumes "sq_key_inv sq" "sq \<noteq> []"
  shows "\<exists>sq'. sendQueue_PopNext sq = Inr (sq', sq ! 0) \<and> sq_key_inv sq' \<and> mset sq' = mset sq - {#sq ! 0#} \<and>
    (\<forall>e \<in> set sq. key_le (sq ! 0) e)"
  using sqk.heap_Pop_correct [of sq] sqk.heap_ok_least [of sq] assms
  by (simp add: sendQueue_PopNext_def sq_key_inv_def sqk.heap_ok_def)

abbreviation disable :: "NodeId \<Rightarrow> Event \<Rightarrow> Event" where
  "disable nodeid evt \<equiv> (if evNodeId evt = nodeid then evt\<lparr>evNodeId := InvalidNodeId\<rparr> else evt)"

lemma Disable_time:
  assumes "sq_inv sq"
  shows "sq_inv (sendQueue_DisableEventsForNode sq nodeid)"
    "mset (sendQueue_DisableEventsForNode sq nodeid) = image_mset (disable nodeid) (mset sq)"
  using assms order.strict_trans1 [OF parent_le]
  by (auto simp: sq_inv_def heap_but_def sendQueue_DisableEventsForNode_def)

lemma NextTimestamp_spec:
  assumes "sq_inv sq"
  shows "sq \<noteq> [] \<Longrightarrow> sendQueue_NextTimestamp sq \<in> evTimestamp ` set sq"
    and "e \<in> set sq \<Longrightarrow> sendQueue_NextTimestamp sq \<le> evTimestamp e"
  using PopNext_time [OF assms] by (auto simp: sendQueue_NextTimestamp_def)

section \<open>Refinement: a priority queue of events\<close>

datatype queue_op = QAdd Event | QDisable NodeId | QPop

text \<open>
  The specification: a multiset of events; \<open>QPop\<close> takes out some event with a least timestamp and is
  not possible on the empty queue. \<open>pq_run M ops out M'\<close>: from \<open>M\<close>, the operations return the
  events \<open>out\<close> and leave \<open>M'\<close>.
\<close>

inductive pq_run :: "Event multiset \<Rightarrow> queue_op list \<Rightarrow> Event list \<Rightarrow> Event multiset \<Rightarrow> bool" where
  pq_nil: "pq_run M [] [] M"
| pq_add: "pq_run (add_mset e M) ops out M' \<Longrightarrow> pq_run M (QAdd e # ops) out M'"
| pq_disable: "pq_run (image_mset (disable n) M) ops out M' \<Longrightarrow> pq_run M (QDisable n # ops) out M'"
| pq_pop: "e \<in># M \<Longrightarrow> (\<And>x. x \<in># M \<Longrightarrow> evTimestamp e \<le> evTimestamp x) \<Longrightarrow>
    pq_run (M - {#e#}) ops out M' \<Longrightarrow> pq_run M (QPop # ops) (e # out) M'"

inductive_cases pq_popE: "pq_run M (QPop # ops) out M'"

text \<open>How many events the queue must hold for the pops of a sequence to be possible.\<close>

fun pops_possible :: "nat \<Rightarrow> queue_op list \<Rightarrow> bool" where
  "pops_possible n [] = True"
| "pops_possible n (QAdd e # ops) = pops_possible (Suc n) ops"
| "pops_possible n (QDisable m # ops) = pops_possible n ops"
| "pops_possible n (QPop # ops) = (case n of 0 \<Rightarrow> False | Suc k \<Rightarrow> pops_possible k ops)"

locale event_queue =
  fixes inv :: "'s \<Rightarrow> bool"
    and abs :: "'s \<Rightarrow> Event multiset"
    and add :: "'s \<Rightarrow> Event \<Rightarrow> 's res"
    and disab :: "'s \<Rightarrow> NodeId \<Rightarrow> 's"
    and pop :: "'s \<Rightarrow> ('s \<times> Event) res"
  assumes add_law: "inv s \<Longrightarrow> \<exists>s'. add s e = Inr s' \<and> inv s' \<and> abs s' = add_mset e (abs s)"
    and disab_law: "inv s \<Longrightarrow> inv (disab s n) \<and> abs (disab s n) = image_mset (disable n) (abs s)"
    and pop_law: "inv s \<Longrightarrow> abs s \<noteq> {#} \<Longrightarrow> \<exists>s' e. pop s = Inr (s', e) \<and> inv s' \<and> e \<in># abs s \<and>
      abs s' = abs s - {#e#} \<and> (\<forall>x. x \<in># abs s \<longrightarrow> evTimestamp e \<le> evTimestamp x)"
begin

fun run :: "'s \<Rightarrow> queue_op list \<Rightarrow> ('s \<times> Event list) res" where
  "run s [] = Inr (s, [])"
| "run s (QAdd e # ops) = bindr (add s e) (\<lambda>s'. run s' ops)"
| "run s (QDisable n # ops) = run (disab s n) ops"
| "run s (QPop # ops) = bindr (pop s) (\<lambda>(s', e). bindr (run s' ops) (\<lambda>(s'', out). Inr (s'', e # out)))"

lemma run_refines:
  assumes "inv s" "pops_possible (size (abs s)) ops"
  shows "\<exists>s' out. run s ops = Inr (s', out) \<and> inv s' \<and> pq_run (abs s) ops out (abs s')"
  using assms
proof (induction ops arbitrary: s)
  case Nil
  then show ?case by (auto intro: pq_nil)
next
  case (Cons op ops)
  show ?case
  proof (cases op)
    case (QAdd e)
    then obtain s1 where "add s e = Inr s1" "inv s1" "abs s1 = add_mset e (abs s)"
      using add_law Cons.prems(1) by blast
    with Cons.IH [of s1] Cons.prems(2) QAdd show ?thesis by (auto intro: pq_add)
  next
    case (QDisable n)
    with Cons.IH [of "disab s n"] Cons.prems disab_law [of s n] show ?thesis
      by (auto intro: pq_disable)
  next
    case QPop
    then have "abs s \<noteq> {#}" using Cons.prems(2) by auto
    then obtain s1 e where s1: "pop s = Inr (s1, e)" "inv s1" "e \<in># abs s" "abs s1 = abs s - {#e#}"
      "\<And>x. x \<in># abs s \<Longrightarrow> evTimestamp e \<le> evTimestamp x"
      using pop_law [OF Cons.prems(1)] by blast
    have "pops_possible (size (abs s1)) ops"
      using Cons.prems(2) QPop s1(3,4) by (auto simp: size_Diff_singleton split: nat.splits)
    with Cons.IH [OF s1(2)] obtain s2 out where "run s1 ops = Inr (s2, out)" "inv s2"
      "pq_run (abs s1) ops out (abs s2)" by blast
    with s1 QPop show ?thesis using pq_pop [OF s1(3,5), of ops out "abs s2"] by simp
  qed
qed

text \<open>Taking out everything yields the events in the order of their timestamps.\<close>

lemma drain_sorted:
  assumes "inv s" "n = size (abs s)"
  shows "\<exists>s' out. run s (replicate n QPop) = Inr (s', out) \<and> mset out = abs s \<and> sorted (map evTimestamp out)"
  using assms
proof (induction n arbitrary: s)
  case 0
  then show ?case by simp
next
  case (Suc n)
  then have "abs s \<noteq> {#}" by auto
  then obtain s1 e where s1: "pop s = Inr (s1, e)" "inv s1" "e \<in># abs s" "abs s1 = abs s - {#e#}"
    "\<And>x. x \<in># abs s \<Longrightarrow> evTimestamp e \<le> evTimestamp x"
    using pop_law [OF Suc.prems(1)] by blast
  have "n = size (abs s1)" using Suc.prems(2) s1(3,4) by (simp add: size_Diff_singleton)
  with Suc.IH [OF s1(2)] obtain s2 out where out: "run s1 (replicate n QPop) = Inr (s2, out)"
    "mset out = abs s1" "sorted (map evTimestamp out)" by blast
  have "evTimestamp e \<le> evTimestamp x" if "x \<in> set out" for x
    using that s1(4,5) out(2) by (metis in_diffD set_mset_mset)
  with s1 out show ?case by simp
qed

end

interpretation sq: event_queue sq_inv mset sendQueue_Add sendQueue_DisableEventsForNode sendQueue_PopNext
proof
  fix q e n assume q: "sq_inv q"
  show "\<exists>s'. sendQueue_Add q e = Inr s' \<and> sq_inv s' \<and> mset s' = add_mset e (mset q)"
    by (rule Add_time [OF q])
  show "sq_inv (sendQueue_DisableEventsForNode q n) \<and>
      mset (sendQueue_DisableEventsForNode q n) = image_mset (disable n) (mset q)"
    using Disable_time [OF q] by blast
  assume "mset q \<noteq> {#}"
  then show "\<exists>s' e. sendQueue_PopNext q = Inr (s', e) \<and> sq_inv s' \<and> e \<in># mset q \<and>
      mset s' = mset q - {#e#} \<and> (\<forall>x. x \<in># mset q \<longrightarrow> evTimestamp e \<le> evTimestamp x)"
    using PopNext_time [OF q] by fastforce
qed

section \<open>Sequences of operations\<close>

fun sendQueue_run :: "sendQueue \<Rightarrow> queue_op list \<Rightarrow> (sendQueue \<times> Event list) res" where
  "sendQueue_run sq [] = Inr (sq, [])"
| "sendQueue_run sq (QAdd e # ops) = bindr (sendQueue_Add sq e) (\<lambda>sq'. sendQueue_run sq' ops)"
| "sendQueue_run sq (QDisable n # ops) = sendQueue_run (sendQueue_DisableEventsForNode sq n) ops"
| "sendQueue_run sq (QPop # ops) = bindr (sendQueue_PopNext sq) (\<lambda>(sq', e).
     bindr (sendQueue_run sq' ops) (\<lambda>(sq'', out). Inr (sq'', e # out)))"

lemma sendQueue_run_eq: "sendQueue_run sq ops = sq.run sq ops"
  by (induction sq ops rule: sendQueue_run.induct) (auto intro!: bindr_cong)

section \<open>Properties\<close>

text \<open>
  C6. The event queue is a priority queue. Any sequence of \<open>Add\<close>, \<open>DisableEventsForNode\<close> and
  \<open>PopNext\<close> on a new queue that never pops more than it added runs without a panic and returns what
  the specification allows: each popped event was in the queue, had a least timestamp there, and
  is gone afterwards, disabled events keep their place.
\<close>

theorem sendQueue_refines_pq:
  assumes "pops_possible 0 ops"
  shows "\<exists>sq out. bindr newSendQueue (\<lambda>sq. sendQueue_run sq ops) = Inr (sq, out) \<and> pq_run {#} ops out (mset sq)"
  using sq.run_refines [of "[]" ops] assms newSendQueue_refines
  by (auto simp: sendQueue_run_eq newSendQueue_refines [THEN conjunct1])

theorem sendQueue_refines_pq_witness:
  "\<exists>sq out. bindr newSendQueue (\<lambda>sq. sendQueue_run sq [QAdd (zeroEvent\<lparr>evTimestamp := 7, evNodeId := 2\<rparr>),
       QAdd (zeroEvent\<lparr>evTimestamp := 5, evNodeId := 3\<rparr>), QDisable 3, QPop, QPop]) = Inr (sq, out) \<and>
     pq_run {#} [QAdd (zeroEvent\<lparr>evTimestamp := 7, evNodeId := 2\<rparr>),
       QAdd (zeroEvent\<lparr>evTimestamp := 5, evNodeId := 3\<rparr>), QDisable 3, QPop, QPop] out (mset sq)"
  by (rule sendQueue_refines_pq) simp

text \<open>
  Draining the queue. Whatever was added, and whatever was disabled in between, popping every
  event returns them all, in non-decreasing order of their timestamps.
\<close>

theorem sendQueue_drain_sorted:
  assumes "sq_inv sq"
  shows "\<exists>sq' out. sendQueue_run sq (replicate (length sq) QPop) = Inr (sq', out) \<and>
    mset out = mset sq \<and> sorted (map evTimestamp out)"
  using sq.drain_sorted [OF assms, of "length sq"] by (simp add: sendQueue_run_eq)

definition exampleQueue :: sendQueue where
  "exampleQueue = [zeroEvent\<lparr>evTimestamp := 5, evNodeId := 3\<rparr>, zeroEvent\<lparr>evTimestamp := 9, evNodeId := 1\<rparr>,
     zeroEvent\<lparr>evTimestamp := 5, evNodeId := 4\<rparr>]"

lemma exampleQueue_inv: "sq_inv exampleQueue" "sq_key_inv exampleQueue"
  by (auto simp: exampleQueue_def sq_inv_def sq_key_inv_def heap_but_def key_le_def parent_def zeroEvent_def less_Suc_eq numeral_3_eq_3)

theorem sendQueue_drain_sorted_witness:
  "\<exists>sq' out. sendQueue_run exampleQueue (replicate (length exampleQueue) QPop) = Inr (sq', out) \<and>
    mset out = mset exampleQueue \<and> sorted (map evTimestamp out)"
  by (rule sendQueue_drain_sorted [OF exampleQueue_inv(1)])

text \<open>
  As long as no event is disabled, the queue is ordered by timestamp and then node id, so that
  simultaneous events are processed in the order of their nodes: both operations keep the order of
  \<open>Less\<close>, and \<open>PopNext\<close> returns an element that is least in it.
\<close>

theorem sendQueue_key_order:
  assumes "sq_key_inv sq" "sq \<noteq> []"
  shows "(\<exists>sq'. sendQueue_Add sq e = Inr sq' \<and> sq_key_inv sq' \<and> mset sq' = add_mset e (mset sq)) \<and>
    (\<exists>sq' x. sendQueue_PopNext sq = Inr (sq', x) \<and> sq_key_inv sq' \<and>
       mset sq = add_mset x (mset sq') \<and> list_all (key_le x) sq)"
  using Add_key [OF assms(1), of e] PopNext_key [OF assms] assms(2) by (fastforce simp: list_all_iff)

theorem sendQueue_key_order_witness:
  "(\<exists>sq'. sendQueue_Add exampleQueue zeroEvent = Inr sq' \<and> sq_key_inv sq' \<and>
      mset sq' = add_mset zeroEvent (mset exampleQueue)) \<and>
    (\<exists>sq' x. sendQueue_PopNext exampleQueue = Inr (sq', x) \<and> sq_key_inv sq' \<and>
       mset exampleQueue = add_mset x (mset sq') \<and> list_all (key_le x) exampleQueue)"
  by (rule sendQueue_key_order [OF exampleQueue_inv(2)]) (simp add: exampleQueue_def)

end
