(* ===== verification/Rloc16_Map.thy ===== *)
theory Rloc16_Map
  imports Types
begin

text \<open>
  The map from a Thread short address (RLOC16) to the nodes that use it
  (\<^verbatim>\<open>src/dispatcher/rloc16_map.go\<close>). Nodes are compared by pointer in the code; a pointer is
  identified with the id of its node here. A key that is absent from the Go map reads as the empty
  list. Every list is free of duplicates, which is why the closing assertion of \<open>Remove\<close> holds
  although \<open>removeFromList\<close> removes one occurrence only.
\<close>

section \<open>The code\<close>

type_synonym rloc16Map = "u16 \<Rightarrow> NodeId list"

fun rloc16Map_containsLoop :: "NodeId list \<Rightarrow> NodeId \<Rightarrow> bool" where
  "rloc16Map_containsLoop [] node = False"
| "rloc16Map_containsLoop (n # ns) node = (if n = node then True else rloc16Map_containsLoop ns node)"

definition rloc16Map_Contains :: "rloc16Map \<Rightarrow> u16 \<Rightarrow> NodeId \<Rightarrow> bool" where
  "rloc16Map_Contains m rloc16 node = rloc16Map_containsLoop (m rloc16) node"

fun rloc16Map_removeFromList :: "NodeId list \<Rightarrow> NodeId \<Rightarrow> NodeId list" where
  "rloc16Map_removeFromList [] node = []"
| "rloc16Map_removeFromList (n # ns) node = (if n = node then ns else n # rloc16Map_removeFromList ns node)"

definition rloc16Map_Remove :: "rloc16Map \<Rightarrow> u16 \<Rightarrow> NodeId \<Rightarrow> rloc16Map res" where
  "rloc16Map_Remove m rloc16 node =
     assertr (rloc16 \<noteq> InvalidRloc16)
    (assertr (rloc16Map_Contains m rloc16 node)
      (let m' = m(rloc16 := rloc16Map_removeFromList (m rloc16) node)
       in assertr (\<not> rloc16Map_Contains m' rloc16 node) (Inr m')))"

definition rloc16Map_Add :: "rloc16Map \<Rightarrow> u16 \<Rightarrow> NodeId \<Rightarrow> rloc16Map res" where
  "rloc16Map_Add m rloc16 node =
     assertr (rloc16 \<noteq> InvalidRloc16)
    (assertr (\<not> rloc16Map_Contains m rloc16 node)
      (let m' = m(rloc16 := m rloc16 @ [node])
       in assertr (rloc16Map_Contains m' rloc16 node) (Inr m')))"

section \<open>Refinement: a relation between addresses and nodes\<close>

definition rm_inv :: "rloc16Map \<Rightarrow> bool" where
  "rm_inv m \<longleftrightarrow> (\<forall>r. distinct (m r)) \<and> m InvalidRloc16 = []"

definition rm_abs :: "rloc16Map \<Rightarrow> (u16 \<times> NodeId) set" where
  "rm_abs m = {(r, n). n \<in> set (m r)}"

lemma containsLoop_iff [simp]: "rloc16Map_containsLoop ns node \<longleftrightarrow> node \<in> set ns"
  by (induction ns) auto

lemma removeFromList_remove1 [simp]: "rloc16Map_removeFromList ns node = remove1 node ns"
  by (induction ns) auto

lemma Contains_iff: "rloc16Map_Contains m r n \<longleftrightarrow> (r, n) \<in> rm_abs m"
  by (simp add: rloc16Map_Contains_def rm_abs_def)

lemma rm_Add:
  assumes "rm_inv m" "r \<noteq> InvalidRloc16" "(r, n) \<notin> rm_abs m"
  shows "\<exists>m'. rloc16Map_Add m r n = Inr m' \<and> rm_inv m' \<and> rm_abs m' = insert (r, n) (rm_abs m) \<and>
    (\<forall>r'. r' \<noteq> r \<longrightarrow> m' r' = m r')"
  using assms
  by (auto simp: rloc16Map_Add_def rloc16Map_Contains_def rm_inv_def rm_abs_def split: if_splits)

lemma rm_Remove:
  assumes "rm_inv m" "r \<noteq> InvalidRloc16" "(r, n) \<in> rm_abs m"
  shows "\<exists>m'. rloc16Map_Remove m r n = Inr m' \<and> rm_inv m' \<and> rm_abs m' = rm_abs m - {(r, n)} \<and>
    (\<forall>r'. r' \<noteq> r \<longrightarrow> m' r' = m r')"
  using assms
  by (auto simp: rloc16Map_Remove_def rloc16Map_Contains_def rm_inv_def rm_abs_def Let_def split: if_splits)

lemma rm_panics:
  "(r, n) \<in> rm_abs m \<or> r = InvalidRloc16 \<Longrightarrow> rloc16Map_Add m r n = Inl AssertFailed"
  "(r, n) \<notin> rm_abs m \<or> r = InvalidRloc16 \<Longrightarrow> rloc16Map_Remove m r n = Inl AssertFailed"
  by (auto simp: rloc16Map_Add_def rloc16Map_Remove_def rloc16Map_Contains_def rm_abs_def assertr_def)

lemma rm_empty: "rm_inv (\<lambda>_. [])" "rm_abs (\<lambda>_. []) = {}"
  by (simp_all add: rm_inv_def rm_abs_def)

section \<open>Properties\<close>

datatype rloc_op = RAdd u16 NodeId | RRemove u16 NodeId

fun rloc16Map_op :: "rloc_op \<Rightarrow> rloc16Map \<Rightarrow> rloc16Map res" where
  "rloc16Map_op (RAdd r n) m = rloc16Map_Add m r n"
| "rloc16Map_op (RRemove r n) m = rloc16Map_Remove m r n"

fun rel_op :: "rloc_op \<Rightarrow> (u16 \<times> NodeId) set \<Rightarrow> (u16 \<times> NodeId) set res" where
  "rel_op (RAdd r n) R = (if r \<noteq> InvalidRloc16 \<and> (r, n) \<notin> R then Inr (insert (r, n) R) else Inl AssertFailed)"
| "rel_op (RRemove r n) R = (if r \<noteq> InvalidRloc16 \<and> (r, n) \<in> R then Inr (R - {(r, n)}) else Inl AssertFailed)"

lemma rloc16Map_op_rel:
  assumes "rm_inv m"
  shows "rel_sum (=) (\<lambda>m' R. rm_inv m' \<and> rm_abs m' = R) (rloc16Map_op x m) (rel_op x (rm_abs m))"
proof (cases x)
  case (RAdd r n)
  then show ?thesis
    using rm_Add [OF assms, of r n] rm_panics(1) [of r n m]
    by (cases "r \<noteq> InvalidRloc16 \<and> (r, n) \<notin> rm_abs m") auto
next
  case (RRemove r n)
  then show ?thesis
    using rm_Remove [OF assms, of r n] rm_panics(2) [of r n m]
    by (cases "r \<noteq> InvalidRloc16 \<and> (r, n) \<in> rm_abs m") auto
qed

lemma rloc16Map_ops_rel:
  "rm_inv m \<Longrightarrow>
    rel_sum (=) (\<lambda>m' R. rm_inv m' \<and> rm_abs m' = R) (foldr_res rloc16Map_op ops m) (foldr_res rel_op ops (rm_abs m))"
proof (induction ops arbitrary: m)
  case (Cons x ops)
  show ?case
    using rloc16Map_op_rel [OF Cons.prems, of x]
    by (cases rule: rel_sum.cases) (auto intro: Cons.IH)
qed simp

text \<open>
  C15. The address map refines a relation between addresses and nodes: after any sequence of \<open>Add\<close>
  and \<open>Remove\<close> calls on an empty map, either a call was one that the relation rejects (an address
  \<open>InvalidRloc16\<close>, an entry added twice, an absent entry removed) and the code stopped with the
  assertion failure, or the closing assertions of both functions held and \<open>Contains\<close> answers
  membership in the relation.
\<close>

theorem rloc16Map_refines_relation:
  "case foldr_res rel_op ops {} of
     Inl e \<Rightarrow> foldr_res rloc16Map_op ops (\<lambda>_. []) = Inl e
   | Inr R \<Rightarrow> \<exists>m. foldr_res rloc16Map_op ops (\<lambda>_. []) = Inr m \<and>
       (\<forall>r n. rloc16Map_Contains m r n = ((r, n) \<in> R))"
  using rloc16Map_ops_rel [OF rm_empty(1), of ops, unfolded rm_empty(2)]
  by (cases rule: rel_sum.cases) (auto simp: Contains_iff)

end
