(* ===== verification/Failure_Ctrl.thy ===== *)
theory Failure_Ctrl
  imports Types
begin

text \<open>
  The generator of scheduled radio failures (\<^verbatim>\<open>src/dispatcher/FailureCtrl.go\<close>). The controller reads and
  changes two fields of its owner, the node: its clock \<open>CurTime\<close> and the flag \<open>isFailed\<close>; they are
  arguments and results here (the node sends a visualisation message exactly when the flag
  changes). The random number that \<^verbatim>\<open>prng.NewFailTime\<close> draws is the argument \<open>failTsRel\<close>.

  The controller alternates between two states: not failed with a scheduled failure time, and failed
  with a scheduled recovery time. The lemmas show that no assertion of the code fails in these
  states, and that exactly one failure starts in each interval.
\<close>

section \<open>The code\<close>

record FailTime =
  FailDuration :: u64
  FailInterval :: u64

definition NonFailTime :: FailTime where
  "NonFailTime = \<lparr>FailDuration = 0, FailInterval = 0\<rparr>"

record FailureCtrl =
  fcFailTime :: FailTime
  fcRecoverTs :: u64
  fcFailTs :: u64
  fcRemainTm :: u64
  fcPrevOpTimestamp :: u64

definition newFailureCtrl :: "FailTime \<Rightarrow> FailureCtrl" where
  "newFailureCtrl failTime = \<lparr>fcFailTime = failTime, fcRecoverTs = 0, fcFailTs = 0, fcRemainTm = 0, fcPrevOpTimestamp = 0\<rparr>"

definition FailTime_CanFail :: "FailTime \<Rightarrow> bool" where
  "FailTime_CanFail ft \<longleftrightarrow> FailDuration ft > 0"

definition FailureCtrl_calcNextFailTimestamp :: "u64 \<Rightarrow> u64 \<Rightarrow> FailureCtrl \<Rightarrow> FailureCtrl res" where
  "FailureCtrl_calcNextFailTimestamp failTsRel curTime fc =
    (if \<not> FailTime_CanFail (fcFailTime fc) then Inr fc
     else
       assertr (FailDuration (fcFailTime fc) > 0 \<and> FailInterval (fcFailTime fc) > FailDuration (fcFailTime fc))
        (let fc1 = fc\<lparr>fcFailTs := failTsRel + curTime + fcRemainTm fc\<rparr>;
             fc2 = fc1\<lparr>fcRemainTm := FailInterval (fcFailTime fc) - FailDuration (fcFailTime fc) - failTsRel\<rparr>
         in assertr (fcRemainTm fc2 < FailInterval (fcFailTime fc2)) (Inr fc2)))"

text \<open>Result: the controller and the new value of \<open>isFailed\<close>.\<close>

definition FailureCtrl_SetFailTime :: "u64 \<Rightarrow> u64 \<Rightarrow> bool \<Rightarrow> FailureCtrl \<Rightarrow> FailTime \<Rightarrow> (FailureCtrl \<times> bool) res" where
  "FailureCtrl_SetFailTime failTsRel curTime isFailed fc failTime =
    (let fc1 = fc\<lparr>fcFailTime := failTime, fcRecoverTs := 0, fcFailTs := 0, fcRemainTm := 0\<rparr>;
         isFailed1 = (if \<not> FailTime_CanFail failTime \<and> isFailed then False else isFailed)
     in bindr (FailureCtrl_calcNextFailTimestamp failTsRel curTime fc1) (\<lambda>fc2. Inr (fc2, isFailed1)))"

text \<open>Result: the controller, \<open>isFailed\<close>, the time of the next operation and whether it moved.\<close>

definition FailureCtrl_OnTimeAdvanced ::
    "u64 \<Rightarrow> u64 \<Rightarrow> bool \<Rightarrow> FailureCtrl \<Rightarrow> u64 \<Rightarrow> (FailureCtrl \<times> bool \<times> u64 \<times> bool) res" where
  "FailureCtrl_OnTimeAdvanced failTsRel curTime isFailed fc oldTime =
    (if \<not> FailTime_CanFail (fcFailTime fc) then Inr (fc, isFailed, 0x7fffffffffffffff, False)
     else assertr (curTime > oldTime)
      (if isFailed then
         assertr (fcFailTs fc = 0)
          (if curTime \<ge> fcRecoverTs fc then
             bindr (FailureCtrl_calcNextFailTimestamp failTsRel curTime (fc\<lparr>fcRecoverTs := 0\<rparr>)) (\<lambda>fc1.
               Inr (fc1\<lparr>fcPrevOpTimestamp := fcFailTs fc1\<rparr>, False, fcFailTs fc1, True))
           else Inr (fc\<lparr>fcPrevOpTimestamp := fcRecoverTs fc\<rparr>, isFailed, fcRecoverTs fc,
                     fcRecoverTs fc > fcPrevOpTimestamp fc))
       else
         assertr (fcRecoverTs fc = 0)
          (if curTime \<ge> fcFailTs fc then
             let fc1 = fc\<lparr>fcRecoverTs := curTime + FailDuration (fcFailTime fc), fcFailTs := 0\<rparr>
             in Inr (fc1\<lparr>fcPrevOpTimestamp := fcRecoverTs fc1\<rparr>, True, fcRecoverTs fc1, True)
           else Inr (fc\<lparr>fcPrevOpTimestamp := fcFailTs fc\<rparr>, isFailed, fcFailTs fc,
                     fcFailTs fc > fcPrevOpTimestamp fc))))"

section \<open>Invariant\<close>

text \<open>A schedule the code accepts, and a random draw within the bound given to \<^verbatim>\<open>Intn\<close>.\<close>

definition ft_ok :: "FailTime \<Rightarrow> bool" where
  "ft_ok ft \<longleftrightarrow> FailDuration ft < FailInterval ft"

definition draw_ok :: "FailTime \<Rightarrow> u64 \<Rightarrow> bool" where
  "draw_ok ft rel \<longleftrightarrow> rel < FailInterval ft - FailDuration ft"

definition fc_inv :: "bool \<Rightarrow> FailureCtrl \<Rightarrow> bool" where
  "fc_inv isFailed fc \<longleftrightarrow> (FailTime_CanFail (fcFailTime fc) \<longrightarrow>
     ft_ok (fcFailTime fc) \<and> fcRemainTm fc < FailInterval (fcFailTime fc) \<and>
     (if isFailed then fcFailTs fc = 0 else fcRecoverTs fc = 0))"

lemma remain_less:
  assumes "ft_ok ft" "draw_ok ft rel"
  shows "FailInterval ft - FailDuration ft - rel < FailInterval ft \<or> FailDuration ft = 0 \<and> rel = 0"
proof -
  have "unat (FailInterval ft - FailDuration ft) = unat (FailInterval ft) - unat (FailDuration ft)"
    using assms(1) by (simp add: ft_ok_def unat_sub order_less_imp_le)
  moreover from this assms have "unat (FailInterval ft - FailDuration ft - rel) =
      unat (FailInterval ft) - unat (FailDuration ft) - unat rel"
    by (simp add: draw_ok_def unat_sub order_less_imp_le)
  ultimately show ?thesis
    using assms(1) by (auto simp: ft_ok_def word_less_nat_alt unat_eq_0 simp flip: unat_0_iff)
qed

lemma calcNext_result:
  assumes "FailTime_CanFail (fcFailTime fc)" "ft_ok (fcFailTime fc)" "draw_ok (fcFailTime fc) rel"
  shows "FailureCtrl_calcNextFailTimestamp rel cur fc =
      Inr (fc\<lparr>fcFailTs := rel + cur + fcRemainTm fc,
              fcRemainTm := FailInterval (fcFailTime fc) - FailDuration (fcFailTime fc) - rel\<rparr>)"
    and "FailInterval (fcFailTime fc) - FailDuration (fcFailTime fc) - rel < FailInterval (fcFailTime fc)"
  using assms remain_less [OF assms(2,3)]
  by (auto simp: FailureCtrl_calcNextFailTimestamp_def Let_def ft_ok_def FailTime_CanFail_def)

text \<open>Every case of \<open>OnTimeAdvanced\<close> from a state that satisfies the invariant.\<close>

lemma OnTimeAdvanced_result:
  assumes "fc_inv isFailed fc" "FailTime_CanFail (fcFailTime fc)" "oldTime < cur" "draw_ok (fcFailTime fc) rel"
  shows "FailureCtrl_OnTimeAdvanced rel cur isFailed fc oldTime = Inr
    (if isFailed then
       if fcRecoverTs fc \<le> cur then
         (fc\<lparr>fcRecoverTs := 0, fcFailTs := rel + cur + fcRemainTm fc,
            fcRemainTm := FailInterval (fcFailTime fc) - FailDuration (fcFailTime fc) - rel,
            fcPrevOpTimestamp := rel + cur + fcRemainTm fc\<rparr>, False, rel + cur + fcRemainTm fc, True)
       else (fc\<lparr>fcPrevOpTimestamp := fcRecoverTs fc\<rparr>, True, fcRecoverTs fc, fcPrevOpTimestamp fc < fcRecoverTs fc)
     else if fcFailTs fc \<le> cur then
       (fc\<lparr>fcRecoverTs := cur + FailDuration (fcFailTime fc), fcFailTs := 0,
          fcPrevOpTimestamp := cur + FailDuration (fcFailTime fc)\<rparr>, True, cur + FailDuration (fcFailTime fc), True)
     else (fc\<lparr>fcPrevOpTimestamp := fcFailTs fc\<rparr>, False, fcFailTs fc, fcPrevOpTimestamp fc < fcFailTs fc))"
  using assms calcNext_result(1) [of "fc\<lparr>fcRecoverTs := 0\<rparr>" rel cur]
  by (auto simp: FailureCtrl_OnTimeAdvanced_def fc_inv_def Let_def)

lemma OnTimeAdvanced_inv:
  assumes "fc_inv isFailed fc" "oldTime < cur" "draw_ok (fcFailTime fc) rel"
  shows "\<exists>fc' f' ts u. FailureCtrl_OnTimeAdvanced rel cur isFailed fc oldTime = Inr (fc', f', ts, u) \<and>
    fc_inv f' fc' \<and> fcFailTime fc' = fcFailTime fc"
proof (cases "FailTime_CanFail (fcFailTime fc)")
  case True
  then show ?thesis
    using OnTimeAdvanced_result [OF assms(1) True assms(2,3)] calcNext_result(2) [OF True _ assms(3)] assms(1)
    by (auto simp: fc_inv_def)
next
  case False
  then show ?thesis using assms(1) by (intro exI [of _ False] exI) (auto simp: FailureCtrl_OnTimeAdvanced_def)
qed

lemma SetFailTime_inv:
  assumes "ft_ok ft \<or> \<not> FailTime_CanFail ft" "FailTime_CanFail ft \<Longrightarrow> draw_ok ft rel \<and> \<not> isFailed"
  shows "\<exists>fc'. FailureCtrl_SetFailTime rel cur isFailed fc ft = Inr (fc', isFailed \<and> FailTime_CanFail ft) \<and>
    fc_inv (isFailed \<and> FailTime_CanFail ft) fc' \<and> fcFailTime fc' = ft"
proof (cases "FailTime_CanFail ft")
  case True
  then show ?thesis
    using assms calcNext_result(1) [of "fc\<lparr>fcFailTime := ft, fcRecoverTs := 0, fcFailTs := 0, fcRemainTm := 0\<rparr>" rel cur]
      calcNext_result(2) [of "fc\<lparr>fcFailTime := ft\<rparr>" rel]
    by (auto simp: FailureCtrl_SetFailTime_def fc_inv_def)
next
  case False
  then show ?thesis
    by (auto simp: FailureCtrl_SetFailTime_def FailureCtrl_calcNextFailTimestamp_def fc_inv_def)
qed

section \<open>Runs of the controller\<close>

text \<open>
  A run: the node's clock is moved forward to the given times, with the number drawn by the generator
  each time. The result is the list of the times at which the flag was switched, and to what.
\<close>

fun fc_run :: "u64 \<Rightarrow> bool \<Rightarrow> FailureCtrl \<Rightarrow> (u64 \<times> u64) list \<Rightarrow> (bool \<times> FailureCtrl \<times> (u64 \<times> bool) list) res" where
  "fc_run cur isFailed fc [] = Inr (isFailed, fc, [])"
| "fc_run cur isFailed fc ((t, rel) # steps) =
     bindr (FailureCtrl_OnTimeAdvanced rel t isFailed fc cur) (\<lambda>(fc', isFailed', _, _).
     bindr (fc_run t isFailed' fc' steps) (\<lambda>(f, c, log).
       Inr (f, c, (if isFailed' \<noteq> isFailed then [(t, isFailed')] else []) @ log)))"

fun steps_ok :: "FailTime \<Rightarrow> u64 \<Rightarrow> (u64 \<times> u64) list \<Rightarrow> bool" where
  "steps_ok ft cur [] = True"
| "steps_ok ft cur ((t, rel) # steps) = (cur < t \<and> draw_ok ft rel \<and> steps_ok ft t steps)"

fun alternates :: "bool \<Rightarrow> (u64 \<times> bool) list \<Rightarrow> bool" where
  "alternates b [] = True"
| "alternates b ((t, c) # log) = (c = (\<not> b) \<and> alternates c log)"

lemma fc_run_ok:
  assumes "fc_inv isFailed fc" "steps_ok (fcFailTime fc) cur steps"
  shows "\<exists>f c log. fc_run cur isFailed fc steps = Inr (f, c, log) \<and> fc_inv f c \<and> alternates isFailed log"
  using assms
proof (induction steps arbitrary: cur isFailed fc)
  case (Cons st steps)
  obtain t rel where st: "st = (t, rel)" by (cases st)
  obtain fc' f' ts u where one: "FailureCtrl_OnTimeAdvanced rel t isFailed fc cur = Inr (fc', f', ts, u)"
    "fc_inv f' fc'" "fcFailTime fc' = fcFailTime fc"
    using OnTimeAdvanced_inv [of isFailed fc cur t rel] Cons.prems st by auto
  obtain f c log where "fc_run t f' fc' steps = Inr (f, c, log)" "fc_inv f c" "alternates f' log"
    using Cons.IH [of f' fc' t] one Cons.prems(2) st by auto
  with one st show ?case by auto
qed simp

section \<open>Properties\<close>



text \<open>
  One failure per interval. When a failed node is advanced to exactly its recovery time
  \<open>failTs + FailDuration\<close>, the next failure is scheduled one interval after the current one, shifted
  only by the difference of the two random draws: the offset of a failure inside its interval is
  the draw, and the intervals do not drift (in 64-bit arithmetic).
\<close>

theorem FailureCtrl_interval:
  assumes "FailTime_CanFail ft" "ft_ok ft" "draw_ok ft rel" "draw_ok ft rel'" "fcFailTime fc = ft"
    and "fcRecoverTs fc = 0" "fcRemainTm fc = FailInterval ft - FailDuration ft - rel" "oldTime < fcFailTs fc"
    and "fcFailTs fc < fcFailTs fc + FailDuration ft"
  shows "\<exists>fc1 fc2 ts2. FailureCtrl_OnTimeAdvanced rel'' (fcFailTs fc) False fc oldTime =
      Inr (fc1, True, fcFailTs fc + FailDuration ft, True) \<and>
    FailureCtrl_OnTimeAdvanced rel' (fcFailTs fc + FailDuration ft) True fc1 (fcFailTs fc) = Inr (fc2, False, ts2, True) \<and>
    fcFailTs fc2 = ts2 \<and> ts2 - rel' = fcFailTs fc - rel + FailInterval ft \<and>
    fcRemainTm fc2 = FailInterval ft - FailDuration ft - rel'"
proof -
  let ?T = "fcFailTs fc"
  let ?fc1 = "fc\<lparr>fcRecoverTs := ?T + FailDuration ft, fcFailTs := 0, fcPrevOpTimestamp := ?T + FailDuration ft\<rparr>"
  have one: "FailureCtrl_OnTimeAdvanced rel'' ?T False fc oldTime = Inr (?fc1, True, ?T + FailDuration ft, True)"
    using assms(1,5,6,8) by (simp add: FailureCtrl_OnTimeAdvanced_def)
  have "fc_inv True ?fc1"
    using assms(1,2,5,7) calcNext_result(2) [of "fc\<lparr>fcFailTime := ft\<rparr>" rel] assms(3) by (simp add: fc_inv_def)
  from OnTimeAdvanced_result [OF this _ assms(9), of rel'] assms(1,4,5,7)
  show ?thesis using one by (simp add: algebra_simps)
qed

theorem FailureCtrl_interval_witness:
  "\<exists>fc1 fc2 ts2. FailureCtrl_OnTimeAdvanced 7 120 False
      \<lparr>fcFailTime = \<lparr>FailDuration = 10, FailInterval = 60\<rparr>, fcRecoverTs = 0, fcFailTs = 120, fcRemainTm = 30, fcPrevOpTimestamp = 0\<rparr> 100 =
      Inr (fc1, True, 120 + 10, True) \<and>
    FailureCtrl_OnTimeAdvanced 45 (120 + 10) True fc1 120 = Inr (fc2, False, ts2, True) \<and>
    fcFailTs fc2 = ts2 \<and> ts2 - 45 = 120 - 20 + 60 \<and> fcRemainTm fc2 = 60 - 10 - 45"
  using FailureCtrl_interval [of "\<lparr>FailDuration = 10, FailInterval = 60\<rparr>" 20 45
      "\<lparr>fcFailTime = \<lparr>FailDuration = 10, FailInterval = 60\<rparr>, fcRecoverTs = 0, fcFailTs = 120, fcRemainTm = 30, fcPrevOpTimestamp = 0\<rparr>"
      100 7]
  by (simp add: FailTime_CanFail_def ft_ok_def draw_ok_def)

text \<open>
  A fail time that is set on a node whose radio is already off (by \<open>SetNodeFailed\<close>, or during a
  scheduled failure) leads to an assertion failure: the node stays failed with a failure scheduled,
  and the next advance of its clock stops the simulator.
\<close>

theorem SetFailTime_on_failed_node:
  assumes "FailTime_CanFail ft" "ft_ok ft" "draw_ok ft rel" "rel + cur \<noteq> 0" "cur < t"
  shows "\<exists>fc'. FailureCtrl_SetFailTime rel cur True fc ft = Inr (fc', True) \<and>
    FailureCtrl_OnTimeAdvanced rel' t True fc' cur = Inl AssertFailed"
  using assms calcNext_result(1) [of "fc\<lparr>fcFailTime := ft, fcRecoverTs := 0, fcFailTs := 0, fcRemainTm := 0\<rparr>" rel cur]
  by (simp add: FailureCtrl_SetFailTime_def FailureCtrl_OnTimeAdvanced_def)

theorem SetFailTime_on_failed_node_witness:
  "\<exists>fc'. FailureCtrl_SetFailTime 5 1000 True (newFailureCtrl NonFailTime) \<lparr>FailDuration = 10, FailInterval = 60\<rparr> = Inr (fc', True) \<and>
    FailureCtrl_OnTimeAdvanced 9 1001 True fc' 1000 = Inl AssertFailed"
  by (rule SetFailTime_on_failed_node) (simp_all add: FailTime_CanFail_def ft_ok_def draw_ok_def)

end
