(* ===== verification/Coaps.thy ===== *)
theory Coaps
  imports Types Go_Strings
begin

text \<open>
  The collection of CoAP messages (\<^verbatim>\<open>src/dispatcher/coaps.go\<close>) and the parser of the status pushes that
  feed it (\<^verbatim>\<open>handleCoapEvent\<close>, \<^verbatim>\<open>EnableCoaps\<close> and \<^verbatim>\<open>CollectCoapMessages\<close> in \<^verbatim>\<open>src/dispatcher/dispatcher.go\<close>).
  The messages are updated in place through the pointer that \<open>findMessage\<close> returns; the pointer is
  the index of the message here. The lemmas show which message an incoming report is attributed to,
  and that reports never change any other message.
\<close>

section \<open>The code\<close>

type_synonym CoapType = int
type_synonym CoapCode = int

record CoapMessageRecvInfo =
  criTimestamp :: u64
  criDstNode :: NodeId
  criSrcAddr :: string
  criSrcPort :: int

record CoapMessage =
  cmTimestamp :: u64
  cmSrcNode :: NodeId
  cmID :: int
  cmType :: CoapType
  cmCode :: CoapCode
  cmURI :: string
  cmDstAddr :: string
  cmDstPort :: int
  cmError :: string
  cmReceivers :: "CoapMessageRecvInfo list"

type_synonym coapsHandler = "CoapMessage list"

definition coaps_OnSend ::
    "coapsHandler \<Rightarrow> u64 \<Rightarrow> NodeId \<Rightarrow> int \<Rightarrow> CoapType \<Rightarrow> CoapCode \<Rightarrow> string \<Rightarrow> string \<Rightarrow> int \<Rightarrow> coapsHandler" where
  "coaps_OnSend coaps curTime nodeId messageId coapType coapCode uri peerAddr peerPort =
     coaps @ [\<lparr>cmTimestamp = curTime, cmSrcNode = nodeId, cmID = messageId, cmType = coapType,
       cmCode = coapCode, cmURI = uri, cmDstAddr = peerAddr, cmDstPort = peerPort, cmError = [],
       cmReceivers = []\<rparr>]"

text \<open>The loop of \<open>findMessage\<close> with \<open>i\<close> messages left to look at, from the last one down.\<close>

fun coaps_findLoop :: "coapsHandler \<Rightarrow> nat \<Rightarrow> int \<Rightarrow> CoapType \<Rightarrow> CoapCode \<Rightarrow> string \<Rightarrow> nat option" where
  "coaps_findLoop coaps 0 mid coapType coapCode uri = None"
| "coaps_findLoop coaps (Suc i) mid coapType coapCode uri =
     (if cmID (coaps ! i) = mid \<and> cmType (coaps ! i) = coapType \<and> cmCode (coaps ! i) = coapCode \<and>
         cmURI (coaps ! i) = uri
      then Some i else coaps_findLoop coaps i mid coapType coapCode uri)"

definition coaps_findMessage :: "coapsHandler \<Rightarrow> int \<Rightarrow> CoapType \<Rightarrow> CoapCode \<Rightarrow> string \<Rightarrow> nat option" where
  "coaps_findMessage coaps mid coapType coapCode uri =
     coaps_findLoop coaps (length coaps) mid coapType coapCode uri"

definition coaps_OnRecv ::
    "coapsHandler \<Rightarrow> u64 \<Rightarrow> NodeId \<Rightarrow> int \<Rightarrow> CoapType \<Rightarrow> CoapCode \<Rightarrow> string \<Rightarrow> string \<Rightarrow> int \<Rightarrow> coapsHandler" where
  "coaps_OnRecv coaps curTime nodeId messageId coapType coapCode uri peerAddr peerPort =
     (case coaps_findMessage coaps messageId coapType coapCode uri of
        None \<Rightarrow> coaps
      | Some i \<Rightarrow> coaps[i := (coaps ! i)\<lparr>cmReceivers := cmReceivers (coaps ! i) @
          [\<lparr>criTimestamp = curTime, criDstNode = nodeId, criSrcAddr = peerAddr, criSrcPort = peerPort\<rparr>]\<rparr>])"

definition coaps_OnSendError ::
    "coapsHandler \<Rightarrow> NodeId \<Rightarrow> int \<Rightarrow> CoapType \<Rightarrow> CoapCode \<Rightarrow> string \<Rightarrow> string \<Rightarrow> int \<Rightarrow> string \<Rightarrow> coapsHandler" where
  "coaps_OnSendError coaps nodeId messageId coapType coapCode uri peerAddr peerPort err =
     (case coaps_findMessage coaps messageId coapType coapCode uri of
        None \<Rightarrow> coaps
      | Some i \<Rightarrow> coaps[i := (coaps ! i)\<lparr>cmError := err\<rparr>])"

definition coaps_DumpMessages :: "coapsHandler \<Rightarrow> bool \<Rightarrow> coapsHandler \<times> CoapMessage list" where
  "coaps_DumpMessages coaps clearCollectedMessages = (if clearCollectedMessages then [] else coaps, coaps)"

definition newCoapsHandler :: coapsHandler where
  "newCoapsHandler = []"

text \<open>
  \<open>handleCoapEvent\<close>: the handler is \<open>None\<close> until CoAP tracking is enabled. \<open>indexr\<close> marks the accesses
  to \<open>args\<close>; an unknown action is only logged.
\<close>

definition handleCoapEvent :: "u64 \<Rightarrow> NodeId \<Rightarrow> coapsHandler option \<Rightarrow> string \<Rightarrow> coapsHandler option res" where
  "handleCoapEvent curTime nodeId coaps argsStr =
    (case coaps of
       None \<Rightarrow> Inr None
     | Some ch \<Rightarrow>
        (let args = go_Split argsStr (CHR '','') in
         assertr (length args > 0)
        (let action = args ! 0 in
         if action = ''send'' \<or> action = ''recv'' \<or> action = ''send_error'' then
           assertr (length args \<ge> 7)
          (bindr (panicIfError (go_Atoi (args ! 1))) (\<lambda>messageId.
           bindr (panicIfError (go_Atoi (args ! 2))) (\<lambda>coapType.
           bindr (panicIfError (go_Atoi (args ! 3))) (\<lambda>coapCode.
             let uri = args ! 4; ip = args ! 5 in
           bindr (panicIfError (go_Atoi (args ! 6))) (\<lambda>port.
             if action = ''send'' then
               Inr (Some (coaps_OnSend ch curTime nodeId messageId coapType coapCode uri ip port))
             else if action = ''recv'' then
               Inr (Some (coaps_OnRecv ch curTime nodeId messageId coapType coapCode uri ip port))
             else
               assertr (length args \<ge> 7)
              (let threadError = args ! 6 in
               Inr (Some (coaps_OnSendError ch nodeId messageId coapType coapCode uri ip port threadError))))))))
         else Inr (Some ch))))"

definition EnableCoaps :: "coapsHandler option \<Rightarrow> coapsHandler option" where
  "EnableCoaps coaps = (if coaps = None then Some newCoapsHandler else coaps)"

definition CollectCoapMessages :: "coapsHandler option \<Rightarrow> bool \<Rightarrow> coapsHandler option \<times> CoapMessage list" where
  "CollectCoapMessages coaps clearCollectedMessages =
     (case coaps of
        Some ch \<Rightarrow> (let (ch', ret) = coaps_DumpMessages ch clearCollectedMessages in (Some ch', ret))
      | None \<Rightarrow> (None, []))"

section \<open>Which message is found\<close>

definition matches :: "int \<Rightarrow> CoapType \<Rightarrow> CoapCode \<Rightarrow> string \<Rightarrow> CoapMessage \<Rightarrow> bool" where
  "matches mid t c uri msg \<longleftrightarrow> cmID msg = mid \<and> cmType msg = t \<and> cmCode msg = c \<and> cmURI msg = uri"

lemma findLoop_Some:
  "coaps_findLoop coaps n mid t c uri = Some i \<longleftrightarrow>
     i < n \<and> matches mid t c uri (coaps ! i) \<and> (\<forall>j. i < j \<and> j < n \<longrightarrow> \<not> matches mid t c uri (coaps ! j))"
  by (induction n) (auto simp: matches_def less_Suc_eq)

lemma findLoop_None:
  "coaps_findLoop coaps n mid t c uri = None \<longleftrightarrow> (\<forall>j < n. \<not> matches mid t c uri (coaps ! j))"
  by (induction n) (auto simp: matches_def less_Suc_eq)

lemma findMessage_latest:
  "coaps_findMessage coaps mid t c uri = Some i \<longleftrightarrow>
     i < length coaps \<and> matches mid t c uri (coaps ! i) \<and>
     (\<forall>j. i < j \<and> j < length coaps \<longrightarrow> \<not> matches mid t c uri (coaps ! j))"
  by (simp add: coaps_findMessage_def findLoop_Some)

lemma findMessage_none:
  "coaps_findMessage coaps mid t c uri = None \<longleftrightarrow> (\<forall>msg \<in> set coaps. \<not> matches mid t c uri msg)"
  by (auto simp: coaps_findMessage_def findLoop_None all_set_conv_all_nth)

lemma findMessage_split:
  assumes "matches mid t c uri msg" "\<forall>m \<in> set after. \<not> matches mid t c uri m"
  shows "coaps_findMessage (before @ msg # after) mid t c uri = Some (length before)"
  unfolding findMessage_latest
  using assms nth_mem by (auto simp: nth_append nth_Cons' all_set_conv_all_nth)

section \<open>Properties\<close>

text \<open>
  A receive report is attributed to the latest message with its id, type, code and URI: the
  receiver is appended there, every other message is unchanged; without such a message the
  collection is unchanged (the message came from outside the simulated mesh).
\<close>

theorem OnRecv_latest:
  "if list_ex (matches mid t c uri) coaps then
     \<exists>before msg after. coaps = before @ msg # after \<and> matches mid t c uri msg \<and>
       \<not> list_ex (matches mid t c uri) after \<and>
       coaps_OnRecv coaps cur node mid t c uri addr port = before @ msg\<lparr>cmReceivers := cmReceivers msg @
         [\<lparr>criTimestamp = cur, criDstNode = node, criSrcAddr = addr, criSrcPort = port\<rparr>]\<rparr> # after
   else coaps_OnRecv coaps cur node mid t c uri addr port = coaps"
proof (cases "list_ex (matches mid t c uri) coaps")
  case True
  then obtain before msg after where split: "coaps = before @ msg # after" "matches mid t c uri msg"
    "\<forall>m \<in> set after. \<not> matches mid t c uri m"
    using split_list_last_prop [of coaps "matches mid t c uri"] by (auto simp: list_ex_iff)
  then have "coaps_findMessage coaps mid t c uri = Some (length before)"
    using findMessage_split by simp
  with split show ?thesis
    by (intro if_P [THEN iffD2, OF True] exI [of _ before] exI [of _ msg] exI [of _ after])
      (simp_all add: coaps_OnRecv_def list_ex_iff)
next
  case False
  then show ?thesis
    using findMessage_none [of coaps mid t c uri] by (simp add: coaps_OnRecv_def list_ex_iff)
qed

text \<open>
  The error text of a \<open>send_error\<close> report is not read: \<open>handleCoapEvent\<close> takes the seventh
  argument both as the port and as the error, so that either it is not a number and the simulator
  panics, or the text recorded as the error of the message is the port number, whatever error
  text follows it.
\<close>

theorem send_error_records_port:
  assumes "go_Split argsStr (CHR '','') = ''send_error'' # mid # ty # code # uri # ip # port # rest"
    and "go_Atoi mid = Some m" "go_Atoi ty = Some t" "go_Atoi code = Some c"
    and "coaps_findMessage ch m t c uri = Some i"
  shows "handleCoapEvent cur node (Some ch) argsStr =
    (if go_Atoi port = None then Inl ErrorPanic else Inr (Some (ch[i := (ch ! i)\<lparr>cmError := port\<rparr>])))"
  using assms by (cases "go_Atoi port") (simp_all add: handleCoapEvent_def Let_def coaps_OnSendError_def)

definition exampleMessage :: CoapMessage where
  "exampleMessage = \<lparr>cmTimestamp = 100, cmSrcNode = 1, cmID = 12, cmType = 0, cmCode = 1, cmURI = ''a/b'',
     cmDstAddr = ''fd00::1'', cmDstPort = 5683, cmError = [], cmReceivers = []\<rparr>"

theorem send_error_records_port_witness:
  "handleCoapEvent 200 1 (Some [exampleMessage]) ''send_error,12,0,1,a/b,fd00::1,5683,ResponseTimeout'' =
    (if go_Atoi ''5683'' = None then Inl ErrorPanic else Inr (Some ([exampleMessage][0 := ([exampleMessage] ! 0)\<lparr>cmError := ''5683''\<rparr>])))"
  by (rule send_error_records_port [where mid = "''12''" and ty = "''0''" and code = "''1''" and uri = "''a/b''"
        and ip = "''fd00::1''" and rest = "[''ResponseTimeout'']" and m = 12 and t = 0 and c = 1])
    (simp_all add: go_Atoi_def digit_val_def coaps_findMessage_def exampleMessage_def)


end
