(* ===== verification/Energy.thy ===== *)
theory Energy
  imports Types Complex_Main
begin

text \<open>
  Package \<^verbatim>\<open>energy\<close>: per-node accounting of the time spent in each radio state (\<^verbatim>\<open>src/energy/node.go\<close>) and
  the periodic snapshots of the network's energy (\<^verbatim>\<open>src/energy/core.go\<close>). The times are 64-bit words;
  the energies are \<^verbatim>\<open>float64\<close> in the code and real numbers here. \<open>StoreNetworkEnergy\<close> iterates over a Go
  map; the order of the iteration is its argument \<open>order\<close>.
\<close>

section \<open>types.go and node.go\<close>

definition RadioDisabledConsumption :: real where "RadioDisabledConsumption = 11 / 10 ^ 8"
definition RadioTxConsumption :: real where "RadioTxConsumption = 1716 / 10 ^ 8"
definition RadioRxConsumption :: real where "RadioRxConsumption = 1485 / 10 ^ 8"
definition RadioSleepConsumption :: real where "RadioSleepConsumption = 1485 / 10 ^ 8"

definition ComputePeriod :: u64 where "ComputePeriod = 30000000"

record RadioStatus =
  rstState :: RadioStates
  rstSpentDisabled :: u64
  rstSpentSleep :: u64
  rstSpentTx :: u64
  rstSpentRx :: u64
  rstTimestamp :: u64

record NetworkConsumption =
  ncTimestamp :: u64
  ncDisabled :: real
  ncSleep :: real
  ncTx :: real
  ncRx :: real

record NodeEnergy =
  neNodeId :: NodeId
  neRadio :: RadioStatus
  neDisabled :: real
  neSleep :: real
  neTx :: real
  neRx :: real

definition zeroRadioStatus :: RadioStatus where
  "zeroRadioStatus = \<lparr>rstState = 0, rstSpentDisabled = 0, rstSpentSleep = 0, rstSpentTx = 0,
     rstSpentRx = 0, rstTimestamp = 0\<rparr>"

definition RadioStatus_spend :: "RadioStatus \<Rightarrow> u64 \<Rightarrow> RadioStatus res" where
  "RadioStatus_spend r delta =
    (if rstState r = RadioDisabled then Inr (r\<lparr>rstSpentDisabled := rstSpentDisabled r + delta\<rparr>)
     else if rstState r = RadioSleep then Inr (r\<lparr>rstSpentSleep := rstSpentSleep r + delta\<rparr>)
     else if rstState r = RadioTx then Inr (r\<lparr>rstSpentTx := rstSpentTx r + delta\<rparr>)
     else if rstState r = RadioRx then Inr (r\<lparr>rstSpentRx := rstSpentRx r + delta\<rparr>)
     else if rstState r = RadioInvalid then Inr r
     else Inl ExplicitPanic)"

definition NodeEnergy_ComputeRadioState :: "NodeEnergy \<Rightarrow> u64 \<Rightarrow> NodeEnergy res" where
  "NodeEnergy_ComputeRadioState node timestamp =
     bindr (RadioStatus_spend (neRadio node) (timestamp - rstTimestamp (neRadio node))) (\<lambda>r.
       Inr (node\<lparr>neRadio := r\<lparr>rstTimestamp := timestamp\<rparr>\<rparr>))"

definition NodeEnergy_SetRadioState :: "NodeEnergy \<Rightarrow> RadioStates \<Rightarrow> u64 \<Rightarrow> NodeEnergy res" where
  "NodeEnergy_SetRadioState node state timestamp =
     bindr (NodeEnergy_ComputeRadioState node timestamp) (\<lambda>node1.
       Inr (node1\<lparr>neRadio := (neRadio node1)\<lparr>rstState := state\<rparr>\<rparr>))"

definition newNodeEnergy :: "NodeId \<Rightarrow> u64 \<Rightarrow> NodeEnergy" where
  "newNodeEnergy nodeID timestamp = \<lparr>neNodeId = nodeID,
     neRadio = zeroRadioStatus\<lparr>rstState := RadioDisabled, rstTimestamp := timestamp\<rparr>,
     neDisabled = 0, neSleep = 0, neTx = 0, neRx = 0\<rparr>"

section \<open>core.go\<close>

record EnergyAnalyser =
  eaNodes :: "NodeId \<rightharpoonup> NodeEnergy"
  eaNetworkHistory :: "NetworkConsumption list"
  eaEnergyHistoryByNodes :: "NodeEnergy list list"
  eaTitle :: string
  eaOutputDir :: string
  eaSimulationId :: int

definition NewEnergyAnalyser :: "string \<Rightarrow> int \<Rightarrow> EnergyAnalyser" where
  "NewEnergyAnalyser outputDir simulationId =
    \<lparr>eaNodes = Map.empty, eaNetworkHistory = [], eaEnergyHistoryByNodes = [], eaTitle = [],
     eaOutputDir = outputDir, eaSimulationId = simulationId\<rparr>"

definition EnergyAnalyser_AddNode :: "EnergyAnalyser \<Rightarrow> NodeId \<Rightarrow> u64 \<Rightarrow> EnergyAnalyser" where
  "EnergyAnalyser_AddNode e nodeID timestamp =
    (if eaNodes e nodeID \<noteq> None then e
     else e\<lparr>eaNodes := (eaNodes e)(nodeID \<mapsto> newNodeEnergy nodeID timestamp)\<rparr>)"

definition EnergyAnalyser_ClearEnergyData :: "EnergyAnalyser \<Rightarrow> EnergyAnalyser" where
  "EnergyAnalyser_ClearEnergyData e = e\<lparr>eaNetworkHistory := [], eaEnergyHistoryByNodes := []\<rparr>"

definition EnergyAnalyser_DeleteNode :: "EnergyAnalyser \<Rightarrow> NodeId \<Rightarrow> EnergyAnalyser" where
  "EnergyAnalyser_DeleteNode e nodeID =
    (let e1 = e\<lparr>eaNodes := (eaNodes e)(nodeID := None)\<rparr>
     in if eaNodes e1 = Map.empty then EnergyAnalyser_ClearEnergyData e1 else e1)"

definition EnergyAnalyser_GetNode :: "EnergyAnalyser \<Rightarrow> NodeId \<Rightarrow> NodeEnergy option" where
  "EnergyAnalyser_GetNode e nodeID = eaNodes e nodeID"

definition EnergyAnalyser_SetTitle :: "EnergyAnalyser \<Rightarrow> string \<Rightarrow> EnergyAnalyser" where
  "EnergyAnalyser_SetTitle e title = e\<lparr>eaTitle := title\<rparr>"

definition EnergyAnalyser_GetNetworkEnergyHistory :: "EnergyAnalyser \<Rightarrow> NetworkConsumption list" where
  "EnergyAnalyser_GetNetworkEnergyHistory e = eaNetworkHistory e"

definition EnergyAnalyser_GetEnergyHistoryByNodes :: "EnergyAnalyser \<Rightarrow> NodeEnergy list list" where
  "EnergyAnalyser_GetEnergyHistoryByNodes e = eaEnergyHistoryByNodes e"

definition EnergyAnalyser_GetLatestEnergyOfNodes :: "EnergyAnalyser \<Rightarrow> NodeEnergy list res" where
  "EnergyAnalyser_GetLatestEnergyOfNodes e =
    (if eaEnergyHistoryByNodes e = [] then Inl IndexOutOfRange else Inr (last (eaEnergyHistoryByNodes e)))"

definition snapshotNode :: "NodeEnergy \<Rightarrow> NodeEnergy" where
  "snapshotNode node = \<lparr>neNodeId = neNodeId node, neRadio = zeroRadioStatus,
     neDisabled = real (unat (rstSpentDisabled (neRadio node))) * RadioDisabledConsumption,
     neSleep = real (unat (rstSpentSleep (neRadio node))) * RadioSleepConsumption,
     neTx = real (unat (rstSpentTx (neRadio node))) * RadioTxConsumption,
     neRx = real (unat (rstSpentRx (neRadio node))) * RadioRxConsumption\<rparr>"

text \<open>The body of the loop of \<open>StoreNetworkEnergy\<close> for the node \<open>id\<close>.\<close>

definition StoreNetworkEnergy_step ::
    "u64 \<Rightarrow> real \<Rightarrow> NodeId \<Rightarrow> (NodeId \<rightharpoonup> NodeEnergy) \<times> NetworkConsumption \<times> NodeEnergy list \<Rightarrow>
      ((NodeId \<rightharpoonup> NodeEnergy) \<times> NetworkConsumption \<times> NodeEnergy list) res" where
  "StoreNetworkEnergy_step timestamp netSize nid s =
    (case s of (nodes, net, snap) \<Rightarrow>
      bindr (derefr (nodes nid)) (\<lambda>node.
      bindr (NodeEnergy_ComputeRadioState node timestamp) (\<lambda>node1.
        let e = snapshotNode node1 in
        Inr (nodes(nid \<mapsto> node1),
             net\<lparr>ncDisabled := ncDisabled net + neDisabled e / netSize,
                 ncSleep := ncSleep net + neSleep e / netSize,
                 ncTx := ncTx net + neTx e / netSize,
                 ncRx := ncRx net + neRx e / netSize\<rparr>,
             snap @ [e]))))"

definition EnergyAnalyser_StoreNetworkEnergy :: "NodeId list \<Rightarrow> EnergyAnalyser \<Rightarrow> u64 \<Rightarrow> EnergyAnalyser res" where
  "EnergyAnalyser_StoreNetworkEnergy order e timestamp =
     bindr (foldr_res (StoreNetworkEnergy_step timestamp (real (card (dom (eaNodes e))))) order
       (eaNodes e, \<lparr>ncTimestamp = timestamp, ncDisabled = 0, ncSleep = 0, ncTx = 0, ncRx = 0\<rparr>, []))
     (\<lambda>(nodes, net, snap).
       Inr (e\<lparr>eaNodes := nodes, eaNetworkHistory := eaNetworkHistory e @ [net],
              eaEnergyHistoryByNodes := eaEnergyHistoryByNodes e @ [snap]\<rparr>))"

text \<open>The file name check of \<open>SaveEnergyDataToFile\<close>: the base name that is used, or \<open>None\<close> when it is rejected.\<close>

definition SaveEnergyData_baseName :: "EnergyAnalyser \<Rightarrow> string \<Rightarrow> string option" where
  "SaveEnergyData_baseName e name =
    (let name1 = (if name = [] then (if eaTitle e = [] then ''energy'' else eaTitle e) else name)
     in if name1 = ''.'' \<or> name1 = ''..'' \<or> list_ex (\<lambda>c. c = CHR ''/'' \<or> c = CHR 0x5C) name1
        then None else Some name1)"

text \<open>
  The contents of the result files: the duration in milliseconds and one row per node in the order of
  the ids, or one row per snapshot. The printing of the numbers is left out. A file that was created
  and left empty is \<open>EmptyFile\<close>.
\<close>

datatype energyFile =
    EmptyFile
  | NodesFile u64 "(NodeId \<times> real \<times> real \<times> real \<times> real) list"
  | NetworkFile u64 "(u64 \<times> real \<times> real \<times> real \<times> real) list"

definition writeEnergyByNodes :: "EnergyAnalyser \<Rightarrow> u64 \<Rightarrow> energyFile" where
  "writeEnergyByNodes e timestamp =
     (let sortedNodes = sorted_list_of_set (dom (eaNodes e)) in
      NodesFile (timestamp div 1000)
        (map (\<lambda>nid. let node = the (eaNodes e nid) in
            (nid, real (unat (rstSpentDisabled (neRadio node))) * RadioDisabledConsumption,
             real (unat (rstSpentSleep (neRadio node))) * RadioSleepConsumption,
             real (unat (rstSpentTx (neRadio node))) * RadioTxConsumption,
             real (unat (rstSpentRx (neRadio node))) * RadioRxConsumption)) sortedNodes))"

definition writeNetworkEnergy :: "EnergyAnalyser \<Rightarrow> u64 \<Rightarrow> energyFile" where
  "writeNetworkEnergy e timestamp =
     NetworkFile (timestamp div 1000)
       (map (\<lambda>snapshot. (ncTimestamp snapshot div 1000, ncDisabled snapshot, ncSleep snapshot,
          ncTx snapshot, ncRx snapshot)) (eaNetworkHistory e))"

text \<open>\<open>createOk\<close> says which paths \<^verbatim>\<open>os.Create\<close> succeeds for; the result is the list of files left behind.\<close>

definition SaveEnergyDataToFile ::
    "(string \<Rightarrow> bool) \<Rightarrow> EnergyAnalyser \<Rightarrow> string \<Rightarrow> u64 \<Rightarrow> (string \<times> energyFile) list" where
  "SaveEnergyDataToFile createOk e name timestamp =
     (case SaveEnergyData_baseName e name of
        None \<Rightarrow> []
      | Some name1 \<Rightarrow>
        (let path = eaOutputDir e @ ''/'' @ go_Itoa (eaSimulationId e) @ ''_'' @ name1 in
         if \<not> createOk (path @ ''_nodes.txt'') then []
         else if \<not> createOk (path @ ''.txt'') then [(path @ ''_nodes.txt'', EmptyFile)]
         else [(path @ ''_nodes.txt'', writeEnergyByNodes e timestamp),
               (path @ ''.txt'', writeNetworkEnergy e timestamp)]))"

section \<open>Accounting\<close>

definition known_state :: "RadioStates \<Rightarrow> bool" where
  "known_state s \<longleftrightarrow> s \<in> {RadioDisabled, RadioSleep, RadioRx, RadioTx}"

definition spent_total :: "RadioStatus \<Rightarrow> u64" where
  "spent_total r = rstSpentDisabled r + rstSpentSleep r + rstSpentTx r + rstSpentRx r"

lemma spend_total:
  assumes "known_state (rstState r)"
  shows "\<exists>r'. RadioStatus_spend r d = Inr r' \<and> spent_total r' = spent_total r + d \<and>
    rstState r' = rstState r \<and> rstTimestamp r' = rstTimestamp r"
  using assms by (auto simp: known_state_def RadioStatus_spend_def spent_total_def)

lemma Compute_total:
  assumes "known_state (rstState (neRadio n))"
  shows "\<exists>n'. NodeEnergy_ComputeRadioState n ts = Inr n' \<and> rstState (neRadio n') = rstState (neRadio n) \<and>
    rstTimestamp (neRadio n') = ts \<and> neNodeId n' = neNodeId n \<and>
    spent_total (neRadio n') = spent_total (neRadio n) + (ts - rstTimestamp (neRadio n))"
proof -
  obtain r where "RadioStatus_spend (neRadio n) (ts - rstTimestamp (neRadio n)) = Inr r"
    "spent_total r = spent_total (neRadio n) + (ts - rstTimestamp (neRadio n))" "rstState r = rstState (neRadio n)"
    using spend_total [OF assms] by blast
  then show ?thesis by (simp add: NodeEnergy_ComputeRadioState_def spent_total_def)
qed

fun energy_run :: "NodeEnergy \<Rightarrow> (RadioStates \<times> u64) list \<Rightarrow> NodeEnergy res" where
  "energy_run n [] = Inr n"
| "energy_run n ((s, ts) # steps) = bindr (NodeEnergy_SetRadioState n s ts) (\<lambda>n'. energy_run n' steps)"

lemma diff_chain: "a' - a1 = t' - t1 \<Longrightarrow> a1 = a + (t1 - t) \<Longrightarrow> a' - a = t' - t" for a a' a1 t t' t1 :: u64
  by (simp add: algebra_simps)

lemma energy_run_total:
  assumes "known_state (rstState (neRadio n))" "list_all (\<lambda>(s, _). known_state s) steps"
  shows "\<exists>n'. energy_run n steps = Inr n' \<and> known_state (rstState (neRadio n')) \<and>
    spent_total (neRadio n') - spent_total (neRadio n) = rstTimestamp (neRadio n') - rstTimestamp (neRadio n) \<and>
    rstTimestamp (neRadio n') = last (rstTimestamp (neRadio n) # map snd steps)"
  using assms
proof (induction steps arbitrary: n)
  case (Cons x steps)
  obtain s ts where x: "x = (s, ts)" by (cases x)
  obtain n1 where n1: "NodeEnergy_ComputeRadioState n ts = Inr n1" "rstTimestamp (neRadio n1) = ts"
    "spent_total (neRadio n1) = spent_total (neRadio n) + (ts - rstTimestamp (neRadio n))"
    using Compute_total [OF Cons.prems(1)] by blast
  let ?n2 = "n1\<lparr>neRadio := (neRadio n1)\<lparr>rstState := s\<rparr>\<rparr>"
  have set: "NodeEnergy_SetRadioState n s ts = Inr ?n2"
    using n1(1) by (simp add: NodeEnergy_SetRadioState_def)
  have tot: "spent_total (neRadio ?n2) = spent_total (neRadio n1)" by (simp add: spent_total_def)
  obtain n' where n': "energy_run ?n2 steps = Inr n'" "known_state (rstState (neRadio n'))"
    "spent_total (neRadio n') - spent_total (neRadio n1) = rstTimestamp (neRadio n') - ts"
    "rstTimestamp (neRadio n') = last (ts # map snd steps)"
    using Cons.IH [of ?n2] Cons.prems(2) x tot n1(2) by auto
  from diff_chain [OF n'(3) n1(3)] show ?case using n'(1,2,4) set x by simp
qed simp

section \<open>Snapshots\<close>

definition all_known :: "(NodeId \<rightharpoonup> NodeEnergy) \<Rightarrow> bool" where
  "all_known nodes \<longleftrightarrow> (\<forall>nid n. nodes nid = Some n \<longrightarrow> known_state (rstState (neRadio n)))"

definition add_net :: "real \<Rightarrow> NetworkConsumption \<Rightarrow> NodeEnergy list \<Rightarrow> NetworkConsumption" where
  "add_net sz net es = net\<lparr>ncDisabled := ncDisabled net + (\<Sum>e\<leftarrow>es. neDisabled e / sz),
     ncSleep := ncSleep net + (\<Sum>e\<leftarrow>es. neSleep e / sz),
     ncTx := ncTx net + (\<Sum>e\<leftarrow>es. neTx e / sz), ncRx := ncRx net + (\<Sum>e\<leftarrow>es. neRx e / sz)\<rparr>"

lemma add_net_Nil [simp]: "add_net sz net [] = net"
  by (simp add: add_net_def)

lemma add_net_Cons: "add_net sz net (e # es) = add_net sz (add_net sz net [e]) es"
  by (simp add: add_net_def add.assoc)

lemma Store_step:
  assumes "nodes nid = Some n" "NodeEnergy_ComputeRadioState n ts = Inr n1"
  shows "StoreNetworkEnergy_step ts sz nid (nodes, net, snap) =
    Inr (nodes(nid \<mapsto> n1), add_net sz net [snapshotNode n1], snap @ [snapshotNode n1])"
  using assms by (simp add: StoreNetworkEnergy_step_def Let_def add_net_def)

lemma sum_list_div: "(\<Sum>x\<leftarrow>xs. f x / r) = (\<Sum>x\<leftarrow>xs. f x) / r" for f :: "'a \<Rightarrow> real"
  by (induction xs) (simp_all add: add_divide_distrib)

lemma snapshot_id: "neNodeId (snapshotNode n) = neNodeId n"
  by (simp add: snapshotNode_def)

text \<open>What one round of the loop over the keys \<open>order\<close> computes.\<close>

lemma Store_loop:
  assumes "all_known nodes" "set order \<subseteq> dom nodes" "distinct order"
  shows "\<exists>nodes'. foldr_res (StoreNetworkEnergy_step ts sz) order (nodes, net, snap) =
      Inr (nodes', add_net sz net (map (\<lambda>i. snapshotNode (the (nodes' i))) order),
           snap @ map (\<lambda>i. snapshotNode (the (nodes' i))) order) \<and>
    dom nodes' = dom nodes \<and> (\<forall>i. i \<notin> set order \<longrightarrow> nodes' i = nodes i) \<and>
    (\<forall>i \<in> set order. rstTimestamp (neRadio (the (nodes' i))) = ts)"
  using assms
proof (induction order arbitrary: nodes net snap)
  case (Cons nid order)
  obtain n where n: "nodes nid = Some n" using Cons.prems(2) by auto
  obtain n1 where n1: "NodeEnergy_ComputeRadioState n ts = Inr n1" "rstState (neRadio n1) = rstState (neRadio n)"
    "rstTimestamp (neRadio n1) = ts"
    using Compute_total [of n ts] Cons.prems(1) n unfolding all_known_def by blast
  have known: "all_known (nodes(nid \<mapsto> n1))" using Cons.prems(1) n n1(2) by (auto simp: all_known_def)
  have sub: "set order \<subseteq> dom (nodes(nid \<mapsto> n1))" and dist: "distinct order" using Cons.prems(2,3) by auto
  obtain nodes' where r:
    "foldr_res (StoreNetworkEnergy_step ts sz) order
       (nodes(nid \<mapsto> n1), add_net sz net [snapshotNode n1], snap @ [snapshotNode n1]) =
      Inr (nodes', add_net sz (add_net sz net [snapshotNode n1]) (map (\<lambda>i. snapshotNode (the (nodes' i))) order),
           (snap @ [snapshotNode n1]) @ map (\<lambda>i. snapshotNode (the (nodes' i))) order)"
    "dom nodes' = dom (nodes(nid \<mapsto> n1))" "\<forall>i. i \<notin> set order \<longrightarrow> nodes' i = (nodes(nid \<mapsto> n1)) i"
    "\<forall>i \<in> set order. rstTimestamp (neRadio (the (nodes' i))) = ts"
    using Cons.IH [OF known sub dist] by blast
  have nid: "nodes' nid = Some n1" using r(3) Cons.prems(3) by simp
  show ?case
  proof (intro exI [of _ nodes'] conjI)
    show "foldr_res (StoreNetworkEnergy_step ts sz) (nid # order) (nodes, net, snap) =
      Inr (nodes', add_net sz net (map (\<lambda>i. snapshotNode (the (nodes' i))) (nid # order)),
           snap @ map (\<lambda>i. snapshotNode (the (nodes' i))) (nid # order))"
      using r(1) by (simp add: Store_step [of nodes nid n, OF n n1(1)] nid add_net_Cons [symmetric])
    show "dom nodes' = dom nodes" using r(2) n by auto
    show "\<forall>i. i \<notin> set (nid # order) \<longrightarrow> nodes' i = nodes i" using r(3) by simp
    show "\<forall>i \<in> set (nid # order). rstTimestamp (neRadio (the (nodes' i))) = ts" using r(4) n1(3) nid by simp
  qed
qed simp

section \<open>Properties\<close>

text \<open>
  C37. Conservation of time: after any sequence of radio state changes of a node, the times spent in
  the four radio states add up to the time since the node was added (in 64-bit arithmetic), so no
  interval is lost or counted twice.
\<close>

theorem energy_time_conserved:
  assumes "list_all (\<lambda>(s, _). known_state s) steps"
  shows "\<exists>n. energy_run (newNodeEnergy nodeID t0) steps = Inr n \<and>
    spent_total (neRadio n) = last (t0 # map snd steps) - t0"
  using energy_run_total [of "newNodeEnergy nodeID t0" steps] assms
  by (auto simp: newNodeEnergy_def known_state_def spent_total_def zeroRadioStatus_def)

theorem energy_time_conserved_witness:
  "\<exists>n. energy_run (newNodeEnergy 1 100) [(RadioRx, 150), (RadioTx, 160), (RadioSleep, 163), (RadioRx, 900)] = Inr n \<and>
    spent_total (neRadio n) = last (100 # map snd [(RadioRx, 150), (RadioTx, 160), (RadioSleep, 163), (RadioRx, 900)]) - 100"
  by (rule energy_time_conserved) (simp add: known_state_def)

text \<open>
  A snapshot of the network's energy is the average over the nodes: whatever the order in which
  the map of nodes is iterated, \<open>StoreNetworkEnergy\<close> does not panic, brings every node's accounting
  up to the given time, appends one snapshot of every node and a network entry whose values are the
  means of the node values.
\<close>

theorem StoreNetworkEnergy_average:
  assumes "all_known (eaNodes e)" "set order = dom (eaNodes e)" "distinct order"
  shows "\<exists>e' net snap. EnergyAnalyser_StoreNetworkEnergy order e ts = Inr e' \<and>
    eaNetworkHistory e' = eaNetworkHistory e @ [net] \<and> eaEnergyHistoryByNodes e' = eaEnergyHistoryByNodes e @ [snap] \<and>
    map neNodeId snap = map (\<lambda>i. neNodeId (the (eaNodes e' i))) order \<and> dom (eaNodes e') = dom (eaNodes e) \<and>
    list_all (\<lambda>i. rstTimestamp (neRadio (the (eaNodes e' i))) = ts) order \<and>
    ncDisabled net = sum_list (map neDisabled snap) / length order \<and>
    ncSleep net = sum_list (map neSleep snap) / length order \<and>
    ncTx net = sum_list (map neTx snap) / length order \<and> ncRx net = sum_list (map neRx snap) / length order"
proof -
  have card: "card (dom (eaNodes e)) = length order"
    using assms(2,3) by (metis distinct_card)
  let ?net = "\<lparr>ncTimestamp = ts, ncDisabled = 0, ncSleep = 0, ncTx = 0, ncRx = 0\<rparr>"
  obtain nodes' where r: "foldr_res (StoreNetworkEnergy_step ts (real (length order))) order (eaNodes e, ?net, []) =
      Inr (nodes', add_net (real (length order)) ?net (map (\<lambda>i. snapshotNode (the (nodes' i))) order),
           map (\<lambda>i. snapshotNode (the (nodes' i))) order)" "dom nodes' = dom (eaNodes e)"
    "\<forall>i \<in> set order. rstTimestamp (neRadio (the (nodes' i))) = ts"
    using Store_loop [OF assms(1) equalityD1 [OF assms(2)] assms(3), of ts "real (length order)" ?net "[]"] by auto
  let ?snap = "map (\<lambda>i. snapshotNode (the (nodes' i))) order"
  let ?net' = "add_net (real (length order)) ?net ?snap"
  let ?e' = "e\<lparr>eaNodes := nodes', eaNetworkHistory := eaNetworkHistory e @ [?net'],
      eaEnergyHistoryByNodes := eaEnergyHistoryByNodes e @ [?snap]\<rparr>"
  have "EnergyAnalyser_StoreNetworkEnergy order e ts = Inr ?e'"
    by (simp add: EnergyAnalyser_StoreNetworkEnergy_def card r(1))
  moreover have "ncDisabled ?net' = sum_list (map neDisabled ?snap) / length order"
    "ncSleep ?net' = sum_list (map neSleep ?snap) / length order"
    "ncTx ?net' = sum_list (map neTx ?snap) / length order"
    "ncRx ?net' = sum_list (map neRx ?snap) / length order"
    by (simp_all add: add_net_def sum_list_div comp_def)
  moreover have "map neNodeId ?snap = map (\<lambda>i. neNodeId (the (eaNodes ?e' i))) order"
    by (simp add: snapshot_id)
  moreover have "list_all (\<lambda>i. rstTimestamp (neRadio (the (eaNodes ?e' i))) = ts) order"
    using r(3) by (simp add: list_all_iff)
  ultimately show ?thesis
    using r(2) by (intro exI [of _ ?e'] exI [of _ ?net'] exI [of _ ?snap] conjI) simp_all
qed

theorem StoreNetworkEnergy_average_witness:
  "\<exists>e' net snap. EnergyAnalyser_StoreNetworkEnergy [2, 1]
      (EnergyAnalyser_AddNode (EnergyAnalyser_AddNode (NewEnergyAnalyser ''tmp'' 0) 1 0) 2 10) 1000 = Inr e' \<and>
    eaNetworkHistory e' = eaNetworkHistory (EnergyAnalyser_AddNode (EnergyAnalyser_AddNode (NewEnergyAnalyser ''tmp'' 0) 1 0) 2 10) @ [net] \<and>
    eaEnergyHistoryByNodes e' = eaEnergyHistoryByNodes (EnergyAnalyser_AddNode (EnergyAnalyser_AddNode (NewEnergyAnalyser ''tmp'' 0) 1 0) 2 10) @ [snap] \<and>
    map neNodeId snap = map (\<lambda>i. neNodeId (the (eaNodes e' i))) [2, 1] \<and>
    dom (eaNodes e') = dom (eaNodes (EnergyAnalyser_AddNode (EnergyAnalyser_AddNode (NewEnergyAnalyser ''tmp'' 0) 1 0) 2 10)) \<and>
    list_all (\<lambda>i. rstTimestamp (neRadio (the (eaNodes e' i))) = 1000) [2, 1] \<and>
    ncDisabled net = sum_list (map neDisabled snap) / length [2, 1 :: NodeId] \<and>
    ncSleep net = sum_list (map neSleep snap) / length [2, 1 :: NodeId] \<and>
    ncTx net = sum_list (map neTx snap) / length [2, 1 :: NodeId] \<and> ncRx net = sum_list (map neRx snap) / length [2, 1 :: NodeId]"
  by (rule StoreNetworkEnergy_average)
    (auto simp: EnergyAnalyser_AddNode_def NewEnergyAnalyser_def newNodeEnergy_def zeroRadioStatus_def all_known_def known_state_def)

text \<open>
  Energy results stay inside the output directory: whatever the given name, the title and the
  outcome of the file creations, every file that \<open>SaveEnergyDataToFile\<close> leaves behind is the output
  directory followed by one separator and a file name without separators that is not a dot directory.
\<close>

theorem SaveEnergyData_no_traversal:
  "list_all (\<lambda>(path, _). \<exists>file. path = eaOutputDir e @ ''/'' @ file \<and> file \<notin> {[], ''.'', ''..''} \<and>
     CHR ''/'' \<notin> set file \<and> CHR 0x5C \<notin> set file) (SaveEnergyDataToFile createOk e name timestamp)"
proof (cases "SaveEnergyData_baseName e name")
  case (Some b)
  let ?p = "eaOutputDir e @ ''/'' @ go_Itoa (eaSimulationId e) @ ''_'' @ b"
  have sep: "CHR ''/'' \<notin> set b" "CHR 0x5C \<notin> set b"
    using Some by (auto simp: SaveEnergyData_baseName_def Let_def list_ex_iff split: if_splits)
  have "\<exists>file. ?p @ suffix = eaOutputDir e @ ''/'' @ file \<and> file \<notin> {[], ''.'', ''..''} \<and>
     CHR ''/'' \<notin> set file \<and> CHR 0x5C \<notin> set file"
    if "suffix \<in> {''_nodes.txt'', ''.txt''}" for suffix
    by (rule exI [of _ "go_Itoa (eaSimulationId e) @ ''_'' @ b @ suffix"])
      (use sep that go_Itoa_no_separator in \<open>auto simp: append_eq_Cons_conv\<close>)
  then show ?thesis using Some by (auto simp: SaveEnergyDataToFile_def Let_def)
qed (simp add: SaveEnergyDataToFile_def)

end
