(* ===== verification/Radio_Node.thy ===== *)
theory Radio_Node
  imports Types Complex_Main
begin

text \<open>
  The parts shared by the radio models: \<^verbatim>\<open>src/radiomodel/radionode.go\<close>, \<^verbatim>\<open>utils.go\<close>, \<^verbatim>\<open>pathloss_model.go\<close> and
  \<^verbatim>\<open>model_params.go\<close>. A \<^verbatim>\<open>float64\<close> is a real number here: powers, distances and losses are exact, and the
  functions of package \<^verbatim>\<open>math\<close> are the mathematical ones. The conversion of a power to the \<open>int8\<close> that is
  sent to a node keeps its width.
\<close>

section \<open>radionode.go\<close>

type_synonym DbValue = real

definition RssiInvalid :: DbValue where "RssiInvalid = 127"
definition RssiMax :: DbValue where "RssiMax = 126"
definition RssiMin :: DbValue where "RssiMin = -126"
definition RssiMinusInfinity :: DbValue where "RssiMinusInfinity = -127"

record RadioNode =
  rnId :: NodeId
  rnTxPower :: DbValue
  rnRxSensitivity :: DbValue
  rnRadioRange :: real
  rnRadioState :: RadioStates
  rnRadioSubState :: RadioSubStates
  rnRadioChannel :: ChannelId
  rnX :: real
  rnY :: real
  rnZ :: real
  rnRssiSampleMax :: DbValue
  rnStats :: PhyStats

record RadioNodeConfig =
  rcfX :: int
  rcfY :: int
  rcfZ :: int
  rcfRadioRange :: int

definition NewRadioNode :: "NodeId \<Rightarrow> RadioNodeConfig \<Rightarrow> RadioNode" where
  "NewRadioNode nodeid cfg = \<lparr>rnId = nodeid, rnTxPower = RssiInvalid, rnRxSensitivity = RssiInvalid,
     rnRadioRange = of_int (rcfRadioRange cfg), rnRadioState = 0, rnRadioSubState = 0,
     rnRadioChannel = InvalidChannel, rnX = of_int (rcfX cfg), rnY = of_int (rcfY cfg), rnZ = of_int (rcfZ cfg),
     rnRssiSampleMax = RssiMinusInfinity, rnStats = zeroPhyStats\<rparr>"

definition RadioNode_SetChannel :: "RadioNode \<Rightarrow> ChannelId \<Rightarrow> RadioNode res" where
  "RadioNode_SetChannel rn ch =
     assertr (ch \<ge> MinChannelNumber \<and> ch \<le> MaxChannelNumber) (Inr (rn\<lparr>rnRadioChannel := ch\<rparr>))"

definition RadioNode_SetTxDone :: "RadioNode \<Rightarrow> RadioNode" where
  "RadioNode_SetTxDone rn = (if rnRadioState rn = RadioTx then rn\<lparr>rnRadioState := RadioRx\<rparr> else rn)"

definition RadioNode_SetRadioState :: "RadioNode \<Rightarrow> RadioStates \<Rightarrow> RadioSubStates \<Rightarrow> RadioNode" where
  "RadioNode_SetRadioState rn state subState = rn\<lparr>rnRadioState := state, rnRadioSubState := subState\<rparr>"

definition RadioNode_SetRxSensitivity :: "RadioNode \<Rightarrow> DbValue \<Rightarrow> RadioNode" where
  "RadioNode_SetRxSensitivity rn rxSens = rn\<lparr>rnRxSensitivity := rxSens\<rparr>"

definition RadioNode_SetNodePos :: "RadioNode \<Rightarrow> int \<Rightarrow> int \<Rightarrow> int \<Rightarrow> RadioNode" where
  "RadioNode_SetNodePos rn x y z = rn\<lparr>rnX := of_int x, rnY := of_int y, rnZ := of_int z\<rparr>"

definition RadioNode_GetDistanceTo :: "RadioNode \<Rightarrow> RadioNode \<Rightarrow> real" where
  "RadioNode_GetDistanceTo rn other =
    (let dx = rnX other - rnX rn; dy = rnY other - rnY rn; dz = rnZ other - rnZ rn
     in sqrt (dx * dx + dy * dy + dz * dz))"

section \<open>utils.go\<close>

text \<open>\<^verbatim>\<open>math.Round\<close> rounds half away from zero.\<close>

definition go_Round :: "real \<Rightarrow> int" where
  "go_Round x = (if x \<ge> 0 then \<lfloor>x + 1 / 2\<rfloor> else - \<lfloor>- x + 1 / 2\<rfloor>)"

definition paround :: "real \<Rightarrow> real" where
  "paround param = of_int (go_Round (param * 100)) / 100"

definition addSignalPowersDbm :: "DbValue \<Rightarrow> DbValue \<Rightarrow> DbValue" where
  "addSignalPowersDbm p1 p2 =
    (if p1 > p2 + 15 then p1
     else if p2 > p1 + 15 then p2
     else 10 * log 10 (10 powr (p1 / 10) + 10 powr (p2 / 10)))"

definition clipRssi :: "DbValue \<Rightarrow> u8" where
  "clipRssi rssi =
    (let rssi1 = (if rssi > RssiMax then RssiMax else if rssi < RssiMin then RssiMinusInfinity else rssi)
     in word_of_int (go_Round rssi1))"

section \<open>model_params.go and pathloss_model.go\<close>

definition UndefinedValue :: real where
  "UndefinedValue = (2 - 1 / 2 ^ 52) * 2 ^ 1023"

record RadioModelParams =
  pMeterPerUnit :: real
  pIsDiscLimit :: bool
  pRssiMinDbm :: DbValue
  pRssiMaxDbm :: DbValue
  pExponentDb :: DbValue
  pFixedLossDb :: DbValue
  pNlosExponentDb :: DbValue
  pNlosFixedLossDb :: DbValue
  pNoiseFloorDbm :: DbValue
  pSnrMinThresholdDb :: DbValue
  pShadowFadingSigmaDb :: DbValue
  pTimeFadingSigmaMaxDb :: DbValue
  pMeanTimeFadingChange :: real

definition newRadioModelParams :: RadioModelParams where
  "newRadioModelParams = \<lparr>pMeterPerUnit = 1 / 10, pIsDiscLimit = False, pRssiMinDbm = RssiMin, pRssiMaxDbm = RssiMax,
     pExponentDb = UndefinedValue, pFixedLossDb = UndefinedValue, pNlosExponentDb = UndefinedValue,
     pNlosFixedLossDb = UndefinedValue, pNoiseFloorDbm = UndefinedValue, pSnrMinThresholdDb = UndefinedValue,
     pShadowFadingSigmaDb = UndefinedValue, pTimeFadingSigmaMaxDb = UndefinedValue,
     pMeanTimeFadingChange = UndefinedValue\<rparr>"

definition setIndoorModelParamsItu :: "RadioModelParams \<Rightarrow> RadioModelParams" where
  "setIndoorModelParamsItu p = p\<lparr>pExponentDb := 30, pFixedLossDb := paround (20 * log 10 2400 - 28)\<rparr>"

definition setIndoorModelParams3gpp :: "RadioModelParams \<Rightarrow> RadioModelParams" where
  "setIndoorModelParams3gpp p = p\<lparr>pExponentDb := 173 / 10, pFixedLossDb := paround (324 / 10 + 20 * log 10 (24 / 10)),
     pNlosExponentDb := 383 / 10, pNlosFixedLossDb := paround (173 / 10 + 249 / 10 * log 10 (24 / 10)),
     pNoiseFloorDbm := -95, pSnrMinThresholdDb := -4, pShadowFadingSigmaDb := 803 / 100,
     pTimeFadingSigmaMaxDb := 4, pMeanTimeFadingChange := 150\<rparr>"

definition setOutdoorModelParams :: "RadioModelParams \<Rightarrow> RadioModelParams" where
  "setOutdoorModelParams p = p\<lparr>pMeterPerUnit := 1 / 2,
     pExponentDb := 173 / 10, pFixedLossDb := paround (324 / 10 + 20 * log 10 (24 / 10)),
     pNlosExponentDb := 0, pNlosFixedLossDb := 0,
     pNoiseFloorDbm := -95, pSnrMinThresholdDb := -4, pShadowFadingSigmaDb := 3,
     pTimeFadingSigmaMaxDb := 1, pMeanTimeFadingChange := 150\<rparr>"

definition computeIndoorRssiItu :: "real \<Rightarrow> DbValue \<Rightarrow> RadioModelParams \<Rightarrow> DbValue" where
  "computeIndoorRssiItu distUnits txPower p =
    (let distMeters = distUnits * pMeterPerUnit p;
         pathloss = (if distMeters \<ge> 1 / 100 then
             (let pl = pExponentDb p * log 10 distMeters + pFixedLossDb p in if pl < 0 then 0 else pl)
           else 0)
     in txPower - pathloss)"

definition computeIndoorRssi3gpp :: "real \<Rightarrow> DbValue \<Rightarrow> RadioModelParams \<Rightarrow> DbValue" where
  "computeIndoorRssi3gpp distUnits txPower p =
    (let distMeters = distUnits * pMeterPerUnit p;
         pathloss = (if distMeters \<ge> 1 / 100 then
             (let pl = pExponentDb p * log 10 distMeters + pFixedLossDb p;
                  pl1 = (if pl < 0 then 0 else pl)
              in if pNlosExponentDb p > 0
                 then max pl1 (pNlosExponentDb p * log 10 distMeters + pNlosFixedLossDb p)
                 else pl1)
           else 0)
     in txPower - pathloss)"

section \<open>Lemmas\<close>

lemma distance_sym: "RadioNode_GetDistanceTo a b = RadioNode_GetDistanceTo b a"
  by (simp add: RadioNode_GetDistanceTo_def Let_def power2_eq_square [symmetric] power2_commute)

lemma go_Round_bounds:
  "x - 1 / 2 \<le> of_int (go_Round x)" "of_int (go_Round x) \<le> x + 1 / 2"
  by (auto simp: go_Round_def) linarith+

lemma go_Round_mono: "x \<le> y \<Longrightarrow> go_Round x \<le> go_Round y"
  by (auto simp: go_Round_def floor_mono intro: order_trans [of _ 0])

lemma go_Round_of_int [simp]: "go_Round (of_int n) = n"
  by (simp add: go_Round_def floor_eq_iff)

lemma clipRssi_sint:
  "sint (clipRssi r) = (if r > 126 then 126 else if r < -126 then -127 else go_Round r)"
proof -
  have small: "sint (word_of_int n :: u8) = n" if "-128 \<le> n" "n < 128" for n
    using that by (simp add: sint_word_ariths signed_take_bit_int_eq_self_iff sint_sbintrunc')
  have "go_Round (126 :: real) = 126" "go_Round (-127 :: real) = -127"
    using go_Round_of_int [of 126] go_Round_of_int [of "-127"] by simp_all
  moreover have "-126 \<le> go_Round r" "go_Round r \<le> 126" if "-126 \<le> r" "r \<le> 126"
    using go_Round_mono [OF that(1)] go_Round_mono [OF that(2)] go_Round_of_int [of "-126"] go_Round_of_int [of 126]
    by simp_all
  ultimately show ?thesis
    by (auto simp: clipRssi_def Let_def RssiMax_def RssiMin_def RssiMinusInfinity_def small)
qed

text \<open>Adding signal powers: the sum is never below either signal, and the shortcut costs less than 0.14 dB.\<close>

lemma addSignal_exact_ge:
  "p1 \<le> 10 * log 10 (10 powr (p1 / 10) + 10 powr (p2 / 10))" for p1 p2 :: real
proof -
  have "p1 / 10 = log 10 (10 powr (p1 / 10))" by simp
  also have "\<dots> \<le> log 10 (10 powr (p1 / 10) + 10 powr (p2 / 10))"
    by (subst log_le_cancel_iff) (auto intro: add_pos_pos)
  finally show ?thesis by simp
qed

lemma addSignal_ge: "max p1 p2 \<le> addSignalPowersDbm p1 p2"
  using addSignal_exact_ge [of p1 p2] addSignal_exact_ge [of p2 p1]
  by (auto simp: addSignalPowersDbm_def add.commute)

lemma addSignal_comm: "addSignalPowersDbm p1 p2 = addSignalPowersDbm p2 p1"
  by (auto simp: addSignalPowersDbm_def add.commute)

lemma pathloss_le_txPower: "computeIndoorRssiItu d tx p \<le> tx" "computeIndoorRssi3gpp d tx p \<le> tx"
  by (auto simp: computeIndoorRssiItu_def computeIndoorRssi3gpp_def Let_def)

lemma log_mono_from_cut:
  assumes "1 / 100 \<le> x" "x \<le> y" "0 \<le> k"
  shows "k * log 10 x \<le> k * log 10 (y :: real)"
  using assms by (intro mult_left_mono) (auto simp: log_le_cancel_iff)

lemma ln_10_ge_2: "2 \<le> ln (10 :: real)"
proof -
  have "exp (2 :: real) = exp 1 * exp 1" by (simp flip: exp_add)
  also have "\<dots> \<le> 3 * 3" using exp_le by (intro mult_mono) auto
  finally have "exp (2 :: real) \<le> 10" by simp
  then show ?thesis by (subst ln_ge_iff) simp_all
qed

lemma powr_15_dB: "10 powr (-3 / 2) \<le> (32 / 1000 :: real)"
proof -
  have "(10 powr (-3 / 2)) ^ 2 = 10 powr (-3 :: real)" by (simp add: powr_power)
  also have "\<dots> = 1 / 1000" by (simp add: powr_minus powr_numeral)
  also have "\<dots> \<le> (32 / 1000) ^ 2" by (simp add: power2_eq_square)
  finally show ?thesis by (rule power2_le_imp_le) simp
qed

lemma exact_minus_max:
  assumes "p2 + 15 \<le> p1"
  shows "10 * log 10 (10 powr (p1 / 10) + 10 powr (p2 / 10)) - p1 \<le> 16 / 100"
proof -
  have "10 powr (p1 / 10) + 10 powr (p2 / 10) = 10 powr (p1 / 10) * (1 + 10 powr ((p2 - p1) / 10))"
    by (simp add: distrib_left powr_add [symmetric] diff_divide_distrib)
  moreover have "1 + 10 powr ((p2 - p1) / 10) \<noteq> 0"
    using add_pos_nonneg [OF zero_less_one powr_ge_zero, of 10 "(p2 - p1) / 10"] by simp
  ultimately have "10 * log 10 (10 powr (p1 / 10) + 10 powr (p2 / 10)) - p1 = 10 * log 10 (1 + 10 powr ((p2 - p1) / 10))"
    by (simp add: log_mult)
  also have "\<dots> = 10 * ln (1 + 10 powr ((p2 - p1) / 10)) / ln 10" by (simp add: log_def)
  also have "\<dots> \<le> 10 * 10 powr ((p2 - p1) / 10) / ln 10"
    by (intro divide_right_mono mult_left_mono ln_add_one_self_le_self) auto
  also have "10 * 10 powr ((p2 - p1) / 10) / ln 10 \<le> 10 * (32 / 1000) / 2"
  proof (rule frac_le)
    have "10 powr ((p2 - p1) / 10) \<le> (10 :: real) powr (-3 / 2)"
      using assms by (intro powr_mono) auto
    then show "10 * 10 powr ((p2 - p1) / 10) \<le> 10 * (32 / 1000 :: real)"
      using order_trans [OF _ powr_15_dB] by (intro mult_left_mono) auto
  qed (use ln_10_ge_2 in auto)
  finally show ?thesis by simp
qed

section \<open>Properties\<close>

text \<open>
  The signal strength reported to a node fits the \<open>int8\<close> of the event and is the rounded value
  (ties away from zero) inside the valid range, 126 above it and \<open>RssiMinusInfinity\<close> below it; it is
  never the code for "invalid" (127), and a stronger signal is never reported as weaker.
\<close>

theorem clipRssi_range:
  "sint (clipRssi r) = (if r > 126 then 126 else if r < -126 then -127 else go_Round r) \<and>
   -127 \<le> sint (clipRssi r) \<and> sint (clipRssi r) \<le> 126 \<and>
   sint (clipRssi (min r r')) \<le> sint (clipRssi (max r r'))"
proof -
  have r126: "-126 \<le> go_Round x" if "-126 \<le> x" for x using go_Round_mono [OF that] go_Round_of_int [of "-126"] by simp
  have r126': "go_Round x \<le> 126" if "x \<le> 126" for x using go_Round_mono [OF that] go_Round_of_int [of 126] by simp
  have m: "sint (clipRssi a) \<le> sint (clipRssi b)" if "a \<le> b" for a b
    using that r126 [of b] r126' [of a] go_Round_mono [OF that] by (auto simp: clipRssi_sint)
  have "min r r' \<le> max r r'" by simp
  with m [of "min r r'" "max r r'"] r126 [of r] r126' [of r] show ?thesis by (auto simp: clipRssi_sint)
qed

text \<open>
  Both path loss models are monotone: for a non-negative exponent and a positive scale, a
  receiver farther away never sees a stronger signal, and no receiver sees more than the
  transmitted power.
\<close>

theorem pathloss_monotone:
  assumes "0 \<le> d" "d \<le> d'" "0 < pMeterPerUnit p" "0 \<le> pExponentDb p"
  shows "computeIndoorRssiItu d' tx p \<le> computeIndoorRssiItu d tx p \<and>
    computeIndoorRssi3gpp d' tx p \<le> computeIndoorRssi3gpp d tx p \<and>
    computeIndoorRssiItu d tx p \<le> tx \<and> computeIndoorRssi3gpp d tx p \<le> tx"
proof -
  have m: "d * pMeterPerUnit p \<le> d' * pMeterPerUnit p" using assms by (simp add: mult_right_mono)
  have e: "pExponentDb p * log 10 (d * pMeterPerUnit p) \<le> pExponentDb p * log 10 (d' * pMeterPerUnit p)"
    if "1 / 100 \<le> d * pMeterPerUnit p"
    using log_mono_from_cut [OF that m assms(4)] .
  have n: "pNlosExponentDb p * log 10 (d * pMeterPerUnit p) \<le> pNlosExponentDb p * log 10 (d' * pMeterPerUnit p)"
    if "1 / 100 \<le> d * pMeterPerUnit p" "0 < pNlosExponentDb p"
    using log_mono_from_cut [OF that(1) m] that(2) by simp
  have "computeIndoorRssiItu d' tx p \<le> computeIndoorRssiItu d tx p"
    using m e by (auto simp: computeIndoorRssiItu_def Let_def)
  moreover have "computeIndoorRssi3gpp d' tx p \<le> computeIndoorRssi3gpp d tx p"
  proof (cases "1 / 100 \<le> d * pMeterPerUnit p")
    case True
    have cut: "(if a < 0 then 0 else a) = max 0 a" for a :: real by auto
    from True m have "1 / 100 \<le> d' * pMeterPerUnit p" by linarith
    moreover have base: "max 0 (pExponentDb p * log 10 (d * pMeterPerUnit p) + pFixedLossDb p)
        \<le> max 0 (pExponentDb p * log 10 (d' * pMeterPerUnit p) + pFixedLossDb p)"
      by (intro max.mono order_refl add_right_mono e [OF True])
    moreover have "max (max 0 (pExponentDb p * log 10 (d * pMeterPerUnit p) + pFixedLossDb p))
          (pNlosExponentDb p * log 10 (d * pMeterPerUnit p) + pNlosFixedLossDb p)
        \<le> max (max 0 (pExponentDb p * log 10 (d' * pMeterPerUnit p) + pFixedLossDb p))
          (pNlosExponentDb p * log 10 (d' * pMeterPerUnit p) + pNlosFixedLossDb p)" if "0 < pNlosExponentDb p"
      by (intro max.mono base add_right_mono n [OF True that])
    ultimately show ?thesis
      using True unfolding computeIndoorRssi3gpp_def Let_def cut if_P [OF True] by (simp only: if_True split: if_split) auto
  next
    case False
    then show ?thesis using pathloss_le_txPower(2) [of d' tx p] by (simp add: computeIndoorRssi3gpp_def)
  qed
  ultimately show ?thesis using pathloss_le_txPower by simp
qed

theorem pathloss_monotone_witness:
  "computeIndoorRssiItu 200 0 (setIndoorModelParamsItu newRadioModelParams) \<le> computeIndoorRssiItu 100 0 (setIndoorModelParamsItu newRadioModelParams) \<and>
    computeIndoorRssi3gpp 200 0 (setIndoorModelParamsItu newRadioModelParams) \<le> computeIndoorRssi3gpp 100 0 (setIndoorModelParamsItu newRadioModelParams) \<and>
    computeIndoorRssiItu 100 0 (setIndoorModelParamsItu newRadioModelParams) \<le> 0 \<and> computeIndoorRssi3gpp 100 0 (setIndoorModelParamsItu newRadioModelParams) \<le> 0"
  by (rule pathloss_monotone) (simp_all add: setIndoorModelParamsItu_def newRadioModelParams_def)

text \<open>
  The shortcut in \<open>addSignalPowersDbm\<close>, which returns the stronger of two signals that differ by
  more than 15 dB, is within 0.16 dB of the exact sum, and the result is never below either signal.
\<close>

theorem addSignalPowersDbm_accuracy:
  "max p1 p2 \<le> addSignalPowersDbm p1 p2 \<and>
   \<bar>10 * log 10 (10 powr (p1 / 10) + 10 powr (p2 / 10)) - addSignalPowersDbm p1 p2\<bar> \<le> 16 / 100"
  using addSignal_ge [of p1 p2] exact_minus_max [of p2 p1] exact_minus_max [of p1 p2]
    addSignal_exact_ge [of p1 p2] addSignal_exact_ge [of p2 p1]
  by (auto simp: addSignalPowersDbm_def add.commute)

end
