(* ===== verification/Radio_Fading.thy ===== *)
theory Radio_Fading
  imports Radio_Node
begin

text \<open>
  Shadow fading and time-variant fading of a radio link (\<^verbatim>\<open>src/radiomodel/fading_model.go\<close>). The random
  generator of \<^verbatim>\<open>math/rand\<close> is a parameter: a generator is its seed with the draws made so far, and
  \<open>rnd seed draws\<close> is the number that the last of these draws returns. Converting a float that is out
  of range of the unsigned type is left to the implementation by the language; the model wraps.

  The lemmas show that a link is identified by the unordered pair of the 5 m grid cells of its ends,
  that \<open>computeFading\<close> never uses a missing generator, and that a link fades equally in both directions.
\<close>

section \<open>The code\<close>

datatype draw = NormFloat64 | Float64 | ExpFloat64

type_synonym randFun = "u64 \<Rightarrow> draw list \<Rightarrow> real"

record fadingModel =
  fmRndSeed :: u64
  fmRng :: "(u64 \<times> draw list) option"
  fmTs :: u64
  fmShFadeMap :: "u64 \<rightharpoonup> DbValue"
  fmTvFadeMap :: "u64 \<rightharpoonup> DbValue"
  fmTvFadeSigmaMap :: "u64 \<rightharpoonup> DbValue"
  fmChangeTvfTimeMap :: "u64 \<rightharpoonup> u64"

definition newFadingModel :: "u64 \<Rightarrow> fadingModel" where
  "newFadingModel rndSeed = \<lparr>fmRndSeed = rndSeed, fmRng = None, fmTs = 0, fmShFadeMap = Map.empty,
     fmTvFadeMap = Map.empty, fmTvFadeSigmaMap = Map.empty, fmChangeTvfTimeMap = Map.empty\<rparr>"

definition gridCell :: "RadioNode \<Rightarrow> real \<Rightarrow> u16 \<times> u16 \<times> u16" where
  "gridCell rn meterPerUnit =
     (word_of_int (go_Round (rnX rn * meterPerUnit * (2 / 10)) + 2048),
      word_of_int (go_Round (rnY rn * meterPerUnit * (2 / 10)) + 2048),
      word_of_int (go_Round (rnZ rn * meterPerUnit * (2 / 10)) + 128))"

definition linkSeed :: "u16 \<times> u16 \<times> u16 \<Rightarrow> u16 \<times> u16 \<times> u16 \<Rightarrow> u64" where
  "linkSeed l r = (case l of (xL, yL, zL) \<Rightarrow> case r of (xR, yR, zR) \<Rightarrow>
     ucast xL + push_bit 12 (ucast yL) + push_bit 24 (ucast xR) + push_bit 36 (ucast yR) +
     push_bit 48 (ucast zL) + push_bit 56 (ucast zR))"

definition calcLinkUID :: "RadioNode \<Rightarrow> RadioNode \<Rightarrow> real \<Rightarrow> u64" where
  "calcLinkUID src dst meterPerUnit =
    (let (x1, y1, z1) = gridCell src meterPerUnit; (x2, y2, z2) = gridCell dst meterPerUnit in
     if x1 < x2 \<or> (x1 = x2 \<and> y1 < y2) \<or> (x1 = x2 \<and> y1 = y2 \<and> z1 < z2)
     then linkSeed (x1, y1, z1) (x2, y2, z2)
     else linkSeed (x2, y2, z2) (x1, y1, z1))"

text \<open>A draw from the current generator; a missing generator is a nil pointer.\<close>

definition fm_draw :: "randFun \<Rightarrow> draw \<Rightarrow> fadingModel \<Rightarrow> (real \<times> fadingModel) res" where
  "fm_draw rnd k sf =
     bindr (derefr (fmRng sf)) (\<lambda>(seed, ds).
       Inr (rnd seed (ds @ [k]), sf\<lparr>fmRng := Some (seed, ds @ [k])\<rparr>))"

definition map_zero :: "('k \<rightharpoonup> 'v::zero) \<Rightarrow> 'k \<Rightarrow> 'v" where
  "map_zero m k = (case m k of None \<Rightarrow> 0 | Some v \<Rightarrow> v)"

definition uint64_float :: "real \<Rightarrow> u64" where
  "uint64_float x = word_of_int (if x \<ge> 0 then \<lfloor>x\<rfloor> else \<lceil>x\<rceil>)"

text \<open>The next change time of the time-variant fading, drawn in both branches of \<open>computeFading\<close>.\<close>

definition fm_nextChange :: "randFun \<Rightarrow> RadioModelParams \<Rightarrow> u64 \<Rightarrow> fadingModel \<Rightarrow> fadingModel res" where
  "fm_nextChange rnd params seed sf =
     bindr (fm_draw rnd ExpFloat64 sf) (\<lambda>(e, sf1).
       let nextChangeDeltaSec = e * pMeanTimeFadingChange params in
       Inr (sf1\<lparr>fmChangeTvfTimeMap := (fmChangeTvfTimeMap sf1)(seed \<mapsto>
          fmTs sf1 + uint64_float (nextChangeDeltaSec * 10 ^ 6))\<rparr>))"

definition computeFading ::
    "randFun \<Rightarrow> fadingModel \<Rightarrow> RadioNode \<Rightarrow> RadioNode \<Rightarrow> RadioModelParams \<Rightarrow> (DbValue \<times> fadingModel) res" where
  "computeFading rnd sf src dst params =
    (let seed = fmRndSeed sf + calcLinkUID src dst (pMeterPerUnit params) in
     case fmShFadeMap sf seed of
       Some vSF \<Rightarrow>
        (if pMeanTimeFadingChange params > 0 \<and> fmTs sf > map_zero (fmChangeTvfTimeMap sf) seed then
           let sigmaTVF = map_zero (fmTvFadeSigmaMap sf) seed in
           bindr (fm_draw rnd NormFloat64 sf) (\<lambda>(n, sf1).
             let vTVF = n * sigmaTVF; sf2 = sf1\<lparr>fmTvFadeMap := (fmTvFadeMap sf1)(seed \<mapsto> vTVF)\<rparr> in
           bindr (fm_nextChange rnd params seed sf2) (\<lambda>sf3.
             Inr (vSF + vTVF, sf3)))
         else Inr (vSF + map_zero (fmTvFadeMap sf) seed, sf))
     | None \<Rightarrow>
         bindr (fm_draw rnd NormFloat64 (sf\<lparr>fmRng := Some (seed, [])\<rparr>)) (\<lambda>(n1, sf1).
           let vSF = n1 * pShadowFadingSigmaDb params;
               sf2 = sf1\<lparr>fmShFadeMap := (fmShFadeMap sf1)(seed \<mapsto> vSF)\<rparr> in
         bindr (fm_draw rnd Float64 sf2) (\<lambda>(u, sf3).
           let sigmaTVF = u * pTimeFadingSigmaMaxDb params;
               sf4 = sf3\<lparr>fmTvFadeSigmaMap := (fmTvFadeSigmaMap sf3)(seed \<mapsto> sigmaTVF)\<rparr> in
         bindr (fm_draw rnd NormFloat64 sf4) (\<lambda>(n2, sf5).
           let vTVF = n2 * sigmaTVF; sf6 = sf5\<lparr>fmTvFadeMap := (fmTvFadeMap sf5)(seed \<mapsto> vTVF)\<rparr> in
         bindr (fm_nextChange rnd params seed sf6) (\<lambda>sf7.
           Inr (vSF + vTVF, sf7))))))"

definition fadingModel_clearCaches :: "fadingModel \<Rightarrow> fadingModel" where
  "fadingModel_clearCaches sf = sf\<lparr>fmShFadeMap := Map.empty, fmTvFadeSigmaMap := Map.empty,
     fmTvFadeMap := Map.empty, fmChangeTvfTimeMap := Map.empty\<rparr>"

definition fadingModel_onAdvanceTime :: "fadingModel \<Rightarrow> u64 \<Rightarrow> fadingModel" where
  "fadingModel_onAdvanceTime sf ts =
    (let sf1 = (if card (dom (fmShFadeMap sf)) > 5000000 then fadingModel_clearCaches sf else sf)
     in sf1\<lparr>fmTs := ts\<rparr>)"

section \<open>Links\<close>

definition cell_less :: "u16 \<times> u16 \<times> u16 \<Rightarrow> u16 \<times> u16 \<times> u16 \<Rightarrow> bool" where
  "cell_less a b = (case a of (x1, y1, z1) \<Rightarrow> case b of (x2, y2, z2) \<Rightarrow>
     x1 < x2 \<or> (x1 = x2 \<and> y1 < y2) \<or> (x1 = x2 \<and> y1 = y2 \<and> z1 < z2))"

lemma cell_less_total: "\<not> cell_less a b \<Longrightarrow> \<not> cell_less b a \<Longrightarrow> a = b"
  by (auto simp: cell_less_def split: prod.splits)

lemma cell_less_asym: "cell_less a b \<Longrightarrow> \<not> cell_less b a"
  by (auto simp: cell_less_def split: prod.splits)

lemma calcLinkUID_cells:
  "calcLinkUID src dst m = (if cell_less (gridCell src m) (gridCell dst m)
     then linkSeed (gridCell src m) (gridCell dst m) else linkSeed (gridCell dst m) (gridCell src m))"
  by (simp add: calcLinkUID_def cell_less_def split: prod.split)

lemma calcLinkUID_sym: "calcLinkUID src dst m = calcLinkUID dst src m"
  using cell_less_asym [of "gridCell src m" "gridCell dst m"] cell_less_total [of "gridCell src m" "gridCell dst m"]
  unfolding calcLinkUID_cells by metis

lemma computeFading_sym: "computeFading rnd sf src dst params = computeFading rnd sf dst src params"
  unfolding computeFading_def using calcLinkUID_sym [of src dst] by simp

text \<open>Inside 4096 by 4096 by 256 cells the fields of the seed do not overlap.\<close>

definition in_grid :: "u16 \<times> u16 \<times> u16 \<Rightarrow> bool" where
  "in_grid c = (case c of (x, y, z) \<Rightarrow> x < 4096 \<and> y < 4096 \<and> z < 256)"

definition seed_nat :: "nat \<Rightarrow> nat \<Rightarrow> nat \<Rightarrow> nat \<Rightarrow> nat \<Rightarrow> nat \<Rightarrow> nat" where
  "seed_nat xl yl xr yr zl zr = xl + 2 ^ 12 * (yl + 2 ^ 12 * (xr + 2 ^ 12 * (yr + 2 ^ 12 * (zl + 2 ^ 8 * zr))))"

lemma field_unique: "a < m \<Longrightarrow> a' < m \<Longrightarrow> a + m * b = a' + m * b' \<Longrightarrow> a = a' \<and> b = b'" for a m :: nat
proof -
  assume "a < m" "a' < m" "a + m * b = a' + m * b'"
  then have "(a + m * b) mod m = (a' + m * b') mod m" "(a + m * b) div m = (a' + m * b') div m" by simp_all
  with \<open>a < m\<close> \<open>a' < m\<close> show ?thesis by simp
qed

lemma field_bound: "a < m \<Longrightarrow> b < n \<Longrightarrow> a + m * b < m * n" for a m :: nat
proof -
  assume "a < m" "b < n"
  then have "a + m * b < m * Suc b" "m * Suc b \<le> m * n" by (simp, intro mult_le_mono2) simp
  then show ?thesis by linarith
qed

lemma seed_nat_bound:
  assumes "xl < 2 ^ 12" "yl < 2 ^ 12" "zl < 2 ^ 8" "zr < 2 ^ 8" "xr < 2 ^ 12" "yr < 2 ^ 12"
  shows "seed_nat xl yl xr yr zl zr < 2 ^ 64"
  using field_bound [OF assms(1) field_bound [OF assms(2) field_bound [OF assms(5)
    field_bound [OF assms(6) field_bound [OF assms(3,4)]]]]]
  unfolding seed_nat_def by simp

lemma seed_nat_inj:
  assumes "xl < 2 ^ 12" "yl < 2 ^ 12" "xr < 2 ^ 12" "yr < 2 ^ 12" "zl < 2 ^ 8"
    and "xl' < 2 ^ 12" "yl' < 2 ^ 12" "xr' < 2 ^ 12" "yr' < 2 ^ 12" "zl' < 2 ^ 8"
    and "seed_nat xl yl xr yr zl zr = seed_nat xl' yl' xr' yr' zl' zr'"
  shows "xl = xl' \<and> yl = yl' \<and> xr = xr' \<and> yr = yr' \<and> zl = zl' \<and> zr = zr'"
proof -
  note e = assms(11) [unfolded seed_nat_def]
  note 1 = field_unique [OF assms(1,6) e]
  note 2 = field_unique [OF assms(2,7) conjunct2 [OF 1]]
  note 3 = field_unique [OF assms(3,8) conjunct2 [OF 2]]
  note 4 = field_unique [OF assms(4,9) conjunct2 [OF 3]]
  note 5 = field_unique [OF assms(5,10) conjunct2 [OF 4]]
  from 1 2 3 4 5 show ?thesis by simp
qed

lemma linkSeed_nat:
  assumes "in_grid (xl, yl, zl)" "in_grid (xr, yr, zr)"
  shows "linkSeed (xl, yl, zl) (xr, yr, zr) =
     of_nat (seed_nat (unat xl) (unat yl) (unat xr) (unat yr) (unat zl) (unat zr))"
    "seed_nat (unat xl) (unat yl) (unat xr) (unat yr) (unat zl) (unat zr) < 2 ^ 64"
    "unat xl < 2 ^ 12" "unat yl < 2 ^ 12" "unat zl < 2 ^ 8" "unat zr < 2 ^ 8"
proof -
  have u: "(ucast w :: u64) = of_nat (unat w)" for w :: u16
    by (metis of_nat_unat)
  show "linkSeed (xl, yl, zl) (xr, yr, zr) =
     of_nat (seed_nat (unat xl) (unat yl) (unat xr) (unat yr) (unat zl) (unat zr))"
    unfolding linkSeed_def u seed_nat_def by (simp add: push_bit_eq_mult algebra_simps)
  show b: "unat xl < 2 ^ 12" "unat yl < 2 ^ 12" "unat zl < 2 ^ 8" "unat zr < 2 ^ 8"
    using assms by (auto simp: in_grid_def word_less_nat_alt)
  have "unat xr < 2 ^ 12" "unat yr < 2 ^ 12" using assms by (auto simp: in_grid_def word_less_nat_alt)
  with b show "seed_nat (unat xl) (unat yl) (unat xr) (unat yr) (unat zl) (unat zr) < 2 ^ 64"
    by (intro seed_nat_bound)
qed

lemma linkSeed_inj:
  assumes "in_grid l" "in_grid r" "in_grid l'" "in_grid r'" "linkSeed l r = linkSeed l' r'"
  shows "l = l' \<and> r = r'"
proof -
  obtain xl yl zl xr yr zr where c: "l = (xl, yl, zl)" "r = (xr, yr, zr)" by (cases l, cases r) auto
  obtain xl' yl' zl' xr' yr' zr' where c': "l' = (xl', yl', zl')" "r' = (xr', yr', zr')" by (cases l', cases r') auto
  note n = linkSeed_nat [OF assms(1,2) [unfolded c]] and n' = linkSeed_nat [OF assms(3,4) [unfolded c']]
  have b: "unat xr < 2 ^ 12" "unat yr < 2 ^ 12" "unat xr' < 2 ^ 12" "unat yr' < 2 ^ 12"
    using assms c c' by (auto simp: in_grid_def word_less_nat_alt)
  have "unat (of_nat (seed_nat (unat xl) (unat yl) (unat xr) (unat yr) (unat zl) (unat zr)) :: u64) =
      unat (of_nat (seed_nat (unat xl') (unat yl') (unat xr') (unat yr') (unat zl') (unat zr')) :: u64)"
    using assms(5) n(1) n'(1) unfolding c c' by simp
  then have e: "seed_nat (unat xl) (unat yl) (unat xr) (unat yr) (unat zl) (unat zr) =
      seed_nat (unat xl') (unat yl') (unat xr') (unat yr') (unat zl') (unat zr')"
    using n(2) n'(2) by (simp add: unat_of_nat)
  show ?thesis
    using seed_nat_inj [OF n(3,4) b(1,2) n(5) n'(3,4) b(3,4) n'(5) e] unfolding c c' by (simp add: word_unat_eq_iff)
qed

section \<open>The generator is there when it is needed\<close>

definition fading_inv :: "fadingModel \<Rightarrow> bool" where
  "fading_inv sf \<longleftrightarrow> (fmShFadeMap sf \<noteq> Map.empty \<longrightarrow> fmRng sf \<noteq> None)"

lemma fading_inv_new: "fading_inv (newFadingModel seed)"
  by (simp add: fading_inv_def newFadingModel_def)

lemma fading_inv_advance: "fading_inv sf \<Longrightarrow> fading_inv (fadingModel_onAdvanceTime sf ts)"
  by (simp add: fading_inv_def fadingModel_onAdvanceTime_def fadingModel_clearCaches_def Let_def)

lemma fading_inv_clear: "fading_inv (fadingModel_clearCaches sf)"
  by (simp add: fading_inv_def fadingModel_clearCaches_def)

lemma computeFading_total:
  assumes "fading_inv sf"
  shows "\<exists>v sf'. computeFading rnd sf src dst params = Inr (v, sf') \<and> fading_inv sf' \<and> fmTs sf' = fmTs sf"
proof (cases "fmShFadeMap sf (fmRndSeed sf + calcLinkUID src dst (pMeterPerUnit params))")
  case None
  then show ?thesis by (simp add: computeFading_def Let_def fm_draw_def fm_nextChange_def fading_inv_def)
next
  case (Some v)
  with assms obtain s ds where "fmRng sf = Some (s, ds)" by (auto simp: fading_inv_def)
  with Some show ?thesis
    by (simp add: computeFading_def Let_def fm_draw_def fm_nextChange_def fading_inv_def)
qed

text \<open>
  A change time that lies in the future is not reached before the time advances.
\<close>

lemma map_zero_upd [simp]: "map_zero (m(k \<mapsto> v)) k = v"
  by (simp add: map_zero_def)

lemma nextChange_not_before:
  assumes "0 \<le> e * p" "real (unat ts) + e * p * 10 ^ 6 < 2 ^ 64"
  shows "\<not> ts + uint64_float (e * p * 10 ^ 6) < ts"
proof -
  define d where "d = e * p * 10 ^ 6"
  have d: "0 \<le> d" "real (unat ts) + d < 2 ^ 64" using assms by (simp_all add: d_def)
  then have "nat \<lfloor>d\<rfloor> + unat ts < 2 ^ 64"
  proof -
    have "real (nat \<lfloor>d\<rfloor> + unat ts) < 2 ^ 64" using d by (simp add: of_nat_nat) linarith
    then show ?thesis by (metis of_nat_less_numeral_power_cancel_iff)
  qed
  moreover have "uint64_float d = of_nat (nat \<lfloor>d\<rfloor>)"
    using d(1) by (simp add: uint64_float_def)
  ultimately have "unat (ts + uint64_float d) = unat ts + nat \<lfloor>d\<rfloor>"
    by (simp add: unat_word_ariths unat_of_nat)
  then show ?thesis by (simp add: word_less_nat_alt d_def)
qed

text \<open>The seed under which a link is cached.\<close>

definition link_seed :: "fadingModel \<Rightarrow> RadioNode \<Rightarrow> RadioNode \<Rightarrow> RadioModelParams \<Rightarrow> u64" where
  "link_seed sf src dst params = fmRndSeed sf + calcLinkUID src dst (pMeterPerUnit params)"

text \<open>After \<open>computeFading\<close> the value is cached and not due for a change.\<close>

definition exp_draws_ok :: "randFun \<Rightarrow> fadingModel \<Rightarrow> RadioModelParams \<Rightarrow> bool" where
  "exp_draws_ok rnd sf params \<longleftrightarrow> (\<forall>seed ds. 0 \<le> rnd seed (ds @ [ExpFloat64]) * pMeanTimeFadingChange params \<and>
     real (unat (fmTs sf)) + rnd seed (ds @ [ExpFloat64]) * pMeanTimeFadingChange params * 10 ^ 6 < 2 ^ 64)"

lemma computeFading_cached:
  assumes "computeFading rnd sf src dst params = Inr (v, sf')" "exp_draws_ok rnd sf params"
  shows "\<exists>vSF. fmShFadeMap sf' (link_seed sf src dst params) = Some vSF \<and>
    v = vSF + map_zero (fmTvFadeMap sf') (link_seed sf src dst params) \<and> fmRndSeed sf' = fmRndSeed sf \<and>
    \<not> (pMeanTimeFadingChange params > 0 \<and> fmTs sf' > map_zero (fmChangeTvfTimeMap sf') (link_seed sf src dst params))"
proof -
  have nc: "\<not> fmTs sf + uint64_float (rnd seed (ds @ [ExpFloat64]) * pMeanTimeFadingChange params * 10 ^ 6) < fmTs sf" for seed ds
    using assms(2) by (intro nextChange_not_before) (auto simp: exp_draws_ok_def)
  show ?thesis
  proof (cases "fmShFadeMap sf (link_seed sf src dst params)")
    case None
    with assms(1) nc [of "link_seed sf src dst params" "[NormFloat64, Float64, NormFloat64]"] show ?thesis
      by (auto simp: computeFading_def link_seed_def Let_def fm_draw_def fm_nextChange_def)
  next
    case (Some vSF)
    with assms(1) nc show ?thesis
      by (auto simp: computeFading_def link_seed_def Let_def fm_draw_def fm_nextChange_def bindr_eq_Inr_iff
          derefr_eq_Inr_iff split: if_splits)
  qed
qed

section \<open>Properties\<close>

text \<open>
  A radio link is identified by the unordered pair of the grid cells of its two ends: the
  identifier that \<open>calcLinkUID\<close> computes does not depend on the direction and, for coordinates inside
  the 4096 by 4096 by 256 cells that its bit fields hold, two links have the same identifier exactly
  when they connect the same two cells.
\<close>

theorem calcLinkUID_identifies:
  assumes "list_all (\<lambda>rn. in_grid (gridCell rn m)) [a, b, c, d]"
  shows "calcLinkUID a b m = calcLinkUID b a m \<and>
    (calcLinkUID a b m = calcLinkUID c d m \<longleftrightarrow>
      {gridCell a m, gridCell b m} = {gridCell c m, gridCell d m})"
proof -
  have s: "{gridCell a m, gridCell b m} = {gridCell c m, gridCell d m}" if "calcLinkUID a b m = calcLinkUID c d m"
  proof -
    have "linkSeed (gridCell a m) (gridCell b m) = linkSeed (gridCell c m) (gridCell d m) \<or>
      linkSeed (gridCell a m) (gridCell b m) = linkSeed (gridCell d m) (gridCell c m) \<or>
      linkSeed (gridCell b m) (gridCell a m) = linkSeed (gridCell c m) (gridCell d m) \<or>
      linkSeed (gridCell b m) (gridCell a m) = linkSeed (gridCell d m) (gridCell c m)"
      using that unfolding calcLinkUID_cells by (simp split: if_splits)
    then show ?thesis
      using assms by (elim disjE) (drule linkSeed_inj [rotated 4], simp_all add: insert_commute)+
  qed
  have "calcLinkUID a b m = calcLinkUID c d m" if "{gridCell a m, gridCell b m} = {gridCell c m, gridCell d m}"
  proof -
    have "gridCell a m = gridCell c m \<and> gridCell b m = gridCell d m \<or> gridCell a m = gridCell d m \<and> gridCell b m = gridCell c m"
      using that by (auto simp: doubleton_eq_iff)
    then show ?thesis
      using calcLinkUID_sym [of c d m] calcLinkUID_cells [of a b m] calcLinkUID_cells [of c d m]
        calcLinkUID_cells [of d c m] by auto
  qed
  with s show ?thesis using calcLinkUID_sym by blast
qed

definition exampleRadioNode :: "NodeId \<Rightarrow> int \<Rightarrow> RadioNode" where
  "exampleRadioNode nid x = NewRadioNode nid \<lparr>rcfX = x, rcfY = 0, rcfZ = 0, rcfRadioRange = 160\<rparr>"

theorem calcLinkUID_identifies_witness:
  "calcLinkUID (exampleRadioNode 1 0) (exampleRadioNode 2 50) 1 = calcLinkUID (exampleRadioNode 2 50) (exampleRadioNode 1 0) 1 \<and>
    (calcLinkUID (exampleRadioNode 1 0) (exampleRadioNode 2 50) 1 = calcLinkUID (exampleRadioNode 1 0) (exampleRadioNode 3 500) 1 \<longleftrightarrow>
      {gridCell (exampleRadioNode 1 0) 1, gridCell (exampleRadioNode 2 50) 1} =
      {gridCell (exampleRadioNode 1 0) 1, gridCell (exampleRadioNode 3 500) 1})"
  by (rule calcLinkUID_identifies) (simp add: exampleRadioNode_def NewRadioNode_def gridCell_def in_grid_def go_Round_def)

text \<open>
  Fading is reciprocal: at one moment, the value of the reverse link is the value of the link, and
  asking for it changes nothing, neither the cached values nor the generator. The draws of the
  exponential distribution are not negative and small enough for the 64-bit clock. The code never
  uses a generator that has not been created.
\<close>

theorem computeFading_reciprocal:
  assumes "fading_inv sf" "exp_draws_ok rnd sf params"
  shows "\<exists>v sf'. computeFading rnd sf src dst params = Inr (v, sf') \<and> fading_inv sf' \<and>
    computeFading rnd sf' dst src params = Inr (v, sf') \<and> computeFading rnd sf' src dst params = Inr (v, sf')"
proof -
  obtain v sf' where c: "computeFading rnd sf src dst params = Inr (v, sf')" "fading_inv sf'"
    using computeFading_total [OF assms(1)] by blast
  have "computeFading rnd sf' src dst params = Inr (v, sf')"
    using computeFading_cached [OF c(1) assms(2)] by (auto simp: computeFading_def link_seed_def Let_def)
  with c computeFading_sym [of rnd sf' dst src params] show ?thesis by auto
qed

theorem computeFading_reciprocal_witness:
  "\<exists>v sf'. computeFading (\<lambda>seed ds. real (length ds)) (newFadingModel 7) (exampleRadioNode 1 0) (exampleRadioNode 2 50)
      (setIndoorModelParams3gpp newRadioModelParams\<lparr>pMeanTimeFadingChange := 0\<rparr>) = Inr (v, sf') \<and> fading_inv sf' \<and>
    computeFading (\<lambda>seed ds. real (length ds)) sf' (exampleRadioNode 2 50) (exampleRadioNode 1 0)
      (setIndoorModelParams3gpp newRadioModelParams\<lparr>pMeanTimeFadingChange := 0\<rparr>) = Inr (v, sf') \<and>
    computeFading (\<lambda>seed ds. real (length ds)) sf' (exampleRadioNode 1 0) (exampleRadioNode 2 50)
      (setIndoorModelParams3gpp newRadioModelParams\<lparr>pMeanTimeFadingChange := 0\<rparr>) = Inr (v, sf')"
  by (rule computeFading_reciprocal) (rule fading_inv_new, simp add: exp_draws_ok_def newFadingModel_def)

end
