(* ===== verification/Radio_Model.thy ===== *)
theory Radio_Model
  imports Events Radio_Fading
begin

text \<open>
  The radio models (\<^verbatim>\<open>src/radiomodel/radiomodel.go\<close>, \<^verbatim>\<open>radiomodelIdeal.go\<close>,
  \<^verbatim>\<open>radiomodelMutualInterference.go\<close>, \<^verbatim>\<open>ber_model.go\<close>). A \<open>*RadioNode\<close> is an address of type \<open>rptr\<close> in a
  memory \<open>rmem\<close>, because the dispatcher, the maps of the model and its bookkeeping of transmitters share
  the objects. The embedding of the ideal model in the mutual interference model is record extension,
  and the methods that the latter inherits are polymorphic in the extension.

  The methods that put events on the dispatcher's queue return these events in the order of the calls
  of \<^verbatim>\<open>eventQ.Add\<close>; \<open>rmEventQ\<close> says whether the queue has been set. Random numbers, the order of an
  iteration over a Go map and the text of a formatted log message are arguments.

  The locale \<open>radio_model\<close> is the interface \<^verbatim>\<open>RadioModel\<close> as the dispatcher uses it; both models are
  interpretations of it.
\<close>

section \<open>State\<close>

type_synonym rptr = nat
type_synonym rmem = "rptr \<Rightarrow> RadioNode"
type_synonym iterOrder = "NodeId set \<Rightarrow> NodeId list"

record ChannelStats =
  csChannel :: ChannelId
  csTxTimeUs :: u64
  csNumFrames :: u64
  csNumTransmitters :: "NodeId set"
  csTxStartTime :: u64

record RadioModelIdeal =
  rmName :: string
  rmParams :: RadioModelParams
  rmNodes :: "NodeId \<rightharpoonup> rptr"
  rmEventQ :: bool
  rmChannelStats :: "ChannelId \<rightharpoonup> ChannelStats"
  rmTs :: u64

record RadioModelMutualInterference = RadioModelIdeal +
  miPrevParams :: RadioModelParams
  miFading :: fadingModel
  miActiveTransmitters :: "ChannelId \<rightharpoonup> (NodeId \<rightharpoonup> rptr)"
  miActiveChannelSamplers :: "ChannelId \<rightharpoonup> (NodeId \<rightharpoonup> rptr)"
  miInterferedBy :: "NodeId \<rightharpoonup> (NodeId \<rightharpoonup> rptr)"

section \<open>Statistics (radiomodelIdeal.go)\<close>

definition newChannelStats :: "ChannelId \<Rightarrow> ChannelStats" where
  "newChannelStats ch = \<lparr>csChannel = ch, csTxTimeUs = 0, csNumFrames = 0, csNumTransmitters = {}, csTxStartTime = 0\<rparr>"

definition statsTxStart :: "'a RadioModelIdeal_scheme \<Rightarrow> rmem \<Rightarrow> rptr \<Rightarrow> Event \<Rightarrow> 'a RadioModelIdeal_scheme \<times> rmem" where
  "statsTxStart rm mem node evt =
    (let ch = rcChannel (evRadioCommData evt);
         cs0 = (case rmChannelStats rm ch of None \<Rightarrow> newChannelStats ch | Some cs \<Rightarrow> cs);
         cs1 = (if csNumTransmitters cs0 = {} then cs0\<lparr>csTxStartTime := evTimestamp evt\<rparr> else cs0);
         cs2 = cs1\<lparr>csNumTransmitters := insert (rnId (mem node)) (csNumTransmitters cs1),
                   csNumFrames := csNumFrames cs1 + 1\<rparr>;
         st = rnStats (mem node);
         st1 = st\<lparr>TxBytes := TxBytes st + word_of_int (int (length (evData evt)) - 1 + int PhyHeaderLenBytes),
                  TxTimeUs := TxTimeUs st + rcDuration (evRadioCommData evt)\<rparr>
     in (rm\<lparr>rmChannelStats := (rmChannelStats rm)(ch \<mapsto> cs2)\<rparr>, mem(node := (mem node)\<lparr>rnStats := st1\<rparr>)))"

definition statsTxStop :: "'a RadioModelIdeal_scheme \<Rightarrow> rmem \<Rightarrow> rptr \<Rightarrow> Event \<Rightarrow> 'a RadioModelIdeal_scheme res" where
  "statsTxStop rm mem node evt =
    (let ch = rcChannel (evRadioCommData evt) in
     case rmChannelStats rm ch of
       None \<Rightarrow> Inl AssertFailed
     | Some cs \<Rightarrow>
         assertr (csNumTransmitters cs \<noteq> {})
        (let cs1 = cs\<lparr>csNumTransmitters := csNumTransmitters cs - {rnId (mem node)}\<rparr>;
             cs2 = (if csNumTransmitters cs1 = {}
                    then cs1\<lparr>csTxTimeUs := csTxTimeUs cs1 + (evTimestamp evt - csTxStartTime cs1)\<rparr> else cs1)
         in Inr (rm\<lparr>rmChannelStats := (rmChannelStats rm)(ch \<mapsto> cs2)\<rparr>)))"

definition statsDeleteNode :: "'a RadioModelIdeal_scheme \<Rightarrow> RadioNode \<Rightarrow> 'a RadioModelIdeal_scheme" where
  "statsDeleteNode rm node =
    (let ch = rnRadioChannel node in
     case rmChannelStats rm ch of
       None \<Rightarrow> rm
     | Some cs \<Rightarrow>
        (if csNumTransmitters cs = {} then rm
         else let cs1 = cs\<lparr>csNumTransmitters := csNumTransmitters cs - {rnId node}\<rparr>;
                  cs2 = (if csNumTransmitters cs1 = {}
                         then cs1\<lparr>csTxTimeUs := csTxTimeUs cs1 + (rmTs rm - csTxStartTime cs1)\<rparr> else cs1)
              in rm\<lparr>rmChannelStats := (rmChannelStats rm)(ch \<mapsto> cs2)\<rparr>))"

definition statsChannelSampleStart :: "rmem \<Rightarrow> rptr \<Rightarrow> rmem" where
  "statsChannelSampleStart mem node =
     mem(node := (mem node)\<lparr>rnStats := (rnStats (mem node))\<lparr>ChanSampleCount := ChanSampleCount (rnStats (mem node)) + 1\<rparr>\<rparr>)"

definition RadioModel_GetChannelStats ::
    "'a RadioModelIdeal_scheme \<Rightarrow> ChannelId \<Rightarrow> 'a RadioModelIdeal_scheme \<times> ChannelStats option" where
  "RadioModel_GetChannelStats rm channel =
    (case rmChannelStats rm channel of
       None \<Rightarrow> (rm, None)
     | Some cs \<Rightarrow>
        (if csNumTransmitters cs \<noteq> {} \<and> rmTs rm > csTxStartTime cs then
           let cs1 = cs\<lparr>csTxTimeUs := csTxTimeUs cs + (rmTs rm - csTxStartTime cs), csTxStartTime := rmTs rm\<rparr>
           in (rm\<lparr>rmChannelStats := (rmChannelStats rm)(channel \<mapsto> cs1)\<rparr>, Some cs1)
         else (rm, Some cs)))"

definition RadioModel_ResetChannelStats :: "'a RadioModelIdeal_scheme \<Rightarrow> ChannelId \<Rightarrow> 'a RadioModelIdeal_scheme" where
  "RadioModel_ResetChannelStats rm channel = rm\<lparr>rmChannelStats := (rmChannelStats rm)(channel := None)\<rparr>"

definition RadioModel_GetNodePhyStats :: "'a RadioModelIdeal_scheme \<Rightarrow> rmem \<Rightarrow> NodeId \<Rightarrow> PhyStats res" where
  "RadioModel_GetNodePhyStats rm mem nid = bindr (derefr (rmNodes rm nid)) (\<lambda>p. Inr (rnStats (mem p)))"

definition RadioModel_GetPhyStats :: "'a RadioModelIdeal_scheme \<Rightarrow> rmem \<Rightarrow> (NodeId \<rightharpoonup> PhyStats)" where
  "RadioModel_GetPhyStats rm mem = (\<lambda>nid. map_option (\<lambda>p. rnStats (mem p)) (rmNodes rm nid))"

section \<open>The ideal model (radiomodelIdeal.go)\<close>

definition Ideal_init :: "'a RadioModelIdeal_scheme \<Rightarrow> 'a RadioModelIdeal_scheme" where
  "Ideal_init rm = rm\<lparr>rmNodes := Map.empty, rmChannelStats := Map.empty\<rparr>"

definition Ideal_AddNode :: "RadioModelIdeal \<Rightarrow> rmem \<Rightarrow> rptr \<Rightarrow> RadioModelIdeal" where
  "Ideal_AddNode rm mem radioNode = rm\<lparr>rmNodes := (rmNodes rm)(rnId (mem radioNode) \<mapsto> radioNode)\<rparr>"

definition Ideal_DeleteNode :: "RadioModelIdeal \<Rightarrow> rmem \<Rightarrow> NodeId \<Rightarrow> RadioModelIdeal res" where
  "Ideal_DeleteNode rm mem nodeid =
     bindr (derefr (rmNodes rm nodeid)) (\<lambda>p.
       let rm1 = statsDeleteNode rm (mem p) in
       Inr (rm1\<lparr>rmNodes := (rmNodes rm1)(nodeid := None)\<rparr>))"

definition Ideal_CheckRadioReachable :: "rmem \<Rightarrow> rptr \<Rightarrow> rptr \<Rightarrow> bool" where
  "Ideal_CheckRadioReachable mem src dst =
    (if src \<noteq> dst \<and> rnRadioState (mem dst) = RadioRx \<and> rnRadioChannel (mem src) = rnRadioChannel (mem dst)
     then let d = RadioNode_GetDistanceTo (mem src) (mem dst) in
          if d \<le> rnRadioRange (mem src) then True else False
     else False)"

definition Ideal_GetTxRssi :: "RadioModelIdeal \<Rightarrow> RadioNode \<Rightarrow> RadioNode \<Rightarrow> DbValue" where
  "Ideal_GetTxRssi rm srcNode dstNode =
    (let p = rmParams rm in
     if pRssiMinDbm p < pRssiMaxDbm p then
       let rssi = computeIndoorRssiItu (RadioNode_GetDistanceTo srcNode dstNode) (rnTxPower srcNode) p in
       if rssi < pRssiMinDbm p then pRssiMinDbm p
       else if rssi > pRssiMaxDbm p then pRssiMaxDbm p else rssi
     else pRssiMaxDbm p)"

definition set_PowerDbm :: "Event \<Rightarrow> u8 \<Rightarrow> Event" where
  "set_PowerDbm evt p = evt\<lparr>evRadioCommData := (evRadioCommData evt)\<lparr>rcPowerDbm := p\<rparr>\<rparr>"

definition set_Error :: "Event \<Rightarrow> u8 \<Rightarrow> Event" where
  "set_Error evt e = evt\<lparr>evRadioCommData := (evRadioCommData evt)\<lparr>rcError := e\<rparr>\<rparr>"

definition Ideal_OnEventDispatch :: "RadioModelIdeal \<Rightarrow> rmem \<Rightarrow> rptr \<Rightarrow> rptr \<Rightarrow> Event \<Rightarrow> Event \<times> bool" where
  "Ideal_OnEventDispatch rm mem src dst evt =
    (if evType evt = EventTypeRadioCommStart \<or> evType evt = EventTypeRadioRxDone then
       (set_PowerDbm evt (clipRssi (Ideal_GetTxRssi rm (mem src) (mem dst))), True)
     else if evType evt = EventTypeRadioChannelSample then
       (set_PowerDbm evt (clipRssi (rnRssiSampleMax (mem src))), True)
     else (evt, True))"

definition Ideal_OnNextEventTime :: "RadioModelIdeal \<Rightarrow> u64 \<Rightarrow> RadioModelIdeal" where
  "Ideal_OnNextEventTime rm ts = rm\<lparr>rmTs := ts\<rparr>"

text \<open>\<open>node.SetChannel\<close> through the pointer.\<close>

definition mem_SetChannel :: "rmem \<Rightarrow> rptr \<Rightarrow> ChannelId \<Rightarrow> rmem res" where
  "mem_SetChannel mem p ch = bindr (RadioNode_SetChannel (mem p) ch) (\<lambda>rn. Inr (mem(p := rn)))"

definition rxStartEvent :: "Event \<Rightarrow> Event" where
  "rxStartEvent evt = set_Error ((Event_Copy evt)\<lparr>evType := EventTypeRadioCommStart, evMustDispatch := True\<rparr>) OT_ERROR_NONE"

definition txDoneInternalEvent :: "Event \<Rightarrow> Event" where
  "txDoneInternalEvent evt = (Event_Copy evt)\<lparr>evType := EventTypeRadioTxDone, evMustDispatch := False,
     evTimestamp := evTimestamp evt + rcDuration (evRadioCommData evt)\<rparr>"

definition txDoneDispatchEvent :: "Event \<Rightarrow> Event" where
  "txDoneDispatchEvent evt = (Event_Copy evt)\<lparr>evType := EventTypeRadioTxDone, evMustDispatch := True\<rparr>"

definition rxDoneEvent :: "Event \<Rightarrow> Event" where
  "rxDoneEvent evt = (Event_Copy evt)\<lparr>evType := EventTypeRadioRxDone, evMustDispatch := True\<rparr>"

definition sampleDoneEvent :: "Event \<Rightarrow> Event" where
  "sampleDoneEvent evt = (Event_Copy evt)\<lparr>evType := EventTypeRadioChannelSample,
     evTimestamp := evTimestamp evt + rcDuration (evRadioCommData evt), evMustDispatch := True\<rparr>"

definition Ideal_txStart :: "rmem \<Rightarrow> rptr \<Rightarrow> Event \<Rightarrow> (rmem \<times> Event list) res" where
  "Ideal_txStart mem srcNode evt =
    (let mem1 = mem(srcNode := (mem srcNode)\<lparr>rnTxPower := of_int (sint (rcPowerDbm (evRadioCommData evt)))\<rparr>) in
     bindr (mem_SetChannel mem1 srcNode (rcChannel (evRadioCommData evt))) (\<lambda>mem2.
       Inr (mem2, (if rcError (evRadioCommData evt) = OT_ERROR_NONE then [rxStartEvent evt] else []) @
         [txDoneInternalEvent evt])))"

definition Ideal_txStop :: "rmem \<Rightarrow> rptr \<Rightarrow> Event \<Rightarrow> rmem \<times> Event list" where
  "Ideal_txStop mem node evt =
     (mem(node := RadioNode_SetTxDone (mem node)),
      [txDoneDispatchEvent evt] @ (if rcError (evRadioCommData evt) = OT_ERROR_NONE then [rxDoneEvent evt] else []))"

definition Ideal_channelSampleStart :: "rmem \<Rightarrow> rptr \<Rightarrow> Event \<Rightarrow> (rmem \<times> Event list) res" where
  "Ideal_channelSampleStart mem node evt =
    (let mem1 = mem(node := (mem node)\<lparr>rnRssiSampleMax := RssiMinusInfinity\<rparr>) in
     bindr (mem_SetChannel mem1 node (rcChannel (evRadioCommData evt))) (\<lambda>mem2.
       Inr (mem2, [sampleDoneEvent evt])))"

text \<open>The \<open>EventTypeRadioState\<close> case, the same in both models.\<close>

definition handleRadioStateEvent :: "rmem \<Rightarrow> rptr \<Rightarrow> Event \<Rightarrow> rmem res" where
  "handleRadioStateEvent mem node evt =
    (let d = evRadioStateData evt; mem1 = mem(node := RadioNode_SetRadioState (mem node) (rsEnergyState d) (rsSubState d)) in
     bindr (mem_SetChannel mem1 node (rsChannel d)) (\<lambda>mem2.
       Inr (mem2(node := RadioNode_SetRxSensitivity (mem2 node) (of_int (sint (rsRxSensDbm d)))))))"

definition Ideal_HandleEvent ::
    "RadioModelIdeal \<Rightarrow> rmem \<Rightarrow> rptr \<Rightarrow> Event \<Rightarrow> (RadioModelIdeal \<times> rmem \<times> Event list) res" where
  "Ideal_HandleEvent rm0 mem node evt =
    (let rm = rm0\<lparr>rmEventQ := True\<rparr> in
     if evType evt = EventTypeRadioCommStart then
       bindr (Ideal_txStart mem node evt) (\<lambda>(mem1, evs).
         let (rm1, mem2) = statsTxStart rm mem1 node evt in Inr (rm1, mem2, evs))
     else if evType evt = EventTypeRadioTxDone then
       let (mem1, evs) = Ideal_txStop mem node evt in
       bindr (statsTxStop rm mem1 node evt) (\<lambda>rm1. Inr (rm1, mem1, evs))
     else if evType evt = EventTypeRadioChannelSample then
       bindr (Ideal_channelSampleStart mem node evt) (\<lambda>(mem1, evs).
         Inr (rm, statsChannelSampleStart mem1 node, evs))
     else if evType evt = EventTypeRadioState then
       bindr (handleRadioStateEvent mem node evt) (\<lambda>mem1. Inr (rm, mem1, []))
     else Inr (rm, mem, []))"

section \<open>Bit errors (ber\_model.go)\<close>

definition binomialCoeff :: "real list" where
  "binomialCoeff = [120, -560, 1820, -4368, 8008, -11440, 12870, -11440, 8008, -4368, 1820, -560, 120, -16, 1]"

text \<open>The loop over \<open>binomialCoeff\<close> from index \<open>idx\<close>.\<close>

fun berLoop :: "real \<Rightarrow> nat \<Rightarrow> real list \<Rightarrow> real \<Rightarrow> real" where
  "berLoop snr idx [] ber = ber"
| "berLoop snr idx (coeff # cs) ber =
    (let k = real (idx + 2) in berLoop snr (Suc idx) cs (ber + coeff * exp (20 * snr * (1 / (k + 1) - 1))))"

definition computePacketSuccessRate :: "DbValue \<Rightarrow> u64 \<Rightarrow> real \<times> nat" where
  "computePacketSuccessRate sirDb frameDurationUs =
    (let nbits = unat (frameDurationUs div 4);
         snr = 10 powr (sirDb / 10);
         ber = berLoop snr 0 binomialCoeff 0 * 8 / 15 / 16;
         ber1 = min ber 1
     in ((1 - ber1) ^ nbits, nbits))"

definition interferePsduData :: "bytes \<Rightarrow> bytes res" where
  "interferePsduData data =
     assertr (length data \<ge> 2)
    (let dl = length data; fcs = get_le (drop (dl - 2) data) :: u16
     in Inr (take (dl - 2) data @ put_le 2 (fcs + 42)))"

text \<open>\<open>unitRnd\<close> is what \<^verbatim>\<open>prng.NewUnitRandom\<close> returns. Result: the event and whether there is a log message.\<close>

definition applyBerModel :: "real \<Rightarrow> DbValue \<Rightarrow> Event \<Rightarrow> (Event \<times> bool) res" where
  "applyBerModel unitRnd sirDb evt =
    (let (pSuccess, rnd) =
       (if sirDb < -10 then (0, 1 / 2)
        else if sirDb < 6 then (fst (computePacketSuccessRate sirDb (rcDuration (evRadioCommData evt))), unitRnd)
        else (1, 1 / 2)) in
     if pSuccess < 1 \<and> rnd > pSuccess then
       bindr (interferePsduData (evData evt)) (\<lambda>d. Inr (set_Error (evt\<lparr>evData := d\<rparr>) OT_ERROR_FCS, True))
     else Inr (evt, False))"

section \<open>The mutual interference model (radiomodelMutualInterference.go)\<close>

type_synonym MI = RadioModelMutualInterference

definition allChannels :: "ChannelId list" where
  "allChannels = map of_nat [0..<40]"

definition MI_init :: "MI \<Rightarrow> MI" where
  "MI_init rm = (Ideal_init rm)\<lparr>
     miActiveTransmitters := fold (\<lambda>c m. m(c \<mapsto> Map.empty)) allChannels Map.empty,
     miActiveChannelSamplers := fold (\<lambda>c m. m(c \<mapsto> Map.empty)) allChannels Map.empty,
     miInterferedBy := Map.empty\<rparr>"

definition MI_AddNode :: "MI \<Rightarrow> rmem \<Rightarrow> rptr \<Rightarrow> MI" where
  "MI_AddNode rm mem radioNode =
     rm\<lparr>rmNodes := (rmNodes rm)(rnId (mem radioNode) \<mapsto> radioNode),
        miInterferedBy := (miInterferedBy rm)(rnId (mem radioNode) \<mapsto> Map.empty)\<rparr>"

definition MI_DeleteNode :: "MI \<Rightarrow> rmem \<Rightarrow> NodeId \<Rightarrow> MI res" where
  "MI_DeleteNode rm mem nodeid =
     bindr (derefr (rmNodes rm nodeid)) (\<lambda>p.
       let rm1 = statsDeleteNode rm (mem p);
           rm2 = rm1\<lparr>rmNodes := (rmNodes rm1)(nodeid := None)\<rparr>
       in Inr (rm2\<lparr>miActiveTransmitters := fold (\<lambda>c m. ndel m c nodeid) allChannels (miActiveTransmitters rm2),
                   miActiveChannelSamplers := fold (\<lambda>c m. ndel m c nodeid) allChannels (miActiveChannelSamplers rm2),
                   miInterferedBy := (miInterferedBy rm2)(nodeid \<mapsto> Map.empty)\<rparr>))"

definition MI_GetTxRssi :: "randFun \<Rightarrow> MI \<Rightarrow> RadioNode \<Rightarrow> RadioNode \<Rightarrow> (DbValue \<times> MI) res" where
  "MI_GetTxRssi rnd rm src dst =
    (let p = rmParams rm; d = RadioNode_GetDistanceTo src dst in
     if pIsDiscLimit p \<and> d > rnRadioRange src then Inr (RssiMinusInfinity, rm)
     else if pRssiMinDbm p < pRssiMaxDbm p then
       bindr (if pShadowFadingSigmaDb p > 0 \<or> pTimeFadingSigmaMaxDb p > 0
              then bindr (computeFading rnd (miFading rm) src dst p) (\<lambda>(f, fm).
                Inr (computeIndoorRssi3gpp d (rnTxPower src) p - f, rm\<lparr>miFading := fm\<rparr>))
              else Inr (computeIndoorRssi3gpp d (rnTxPower src) p, rm))
       (\<lambda>(rssi, rm1).
         Inr (if rssi < pRssiMinDbm p then pRssiMinDbm p
              else if rssi > pRssiMaxDbm p then pRssiMaxDbm p else rssi, rm1))
     else Inr (pRssiMaxDbm p, rm))"

definition MI_CheckRadioReachable :: "randFun \<Rightarrow> MI \<Rightarrow> rmem \<Rightarrow> rptr \<Rightarrow> rptr \<Rightarrow> (bool \<times> MI) res" where
  "MI_CheckRadioReachable rnd rm mem src dst =
    (if src = dst \<or> rnRadioState (mem dst) \<noteq> RadioRx \<or> rnRadioChannel (mem src) \<noteq> rnRadioChannel (mem dst)
     then Inr (False, rm)
     else if pIsDiscLimit (rmParams rm) \<and> RadioNode_GetDistanceTo (mem src) (mem dst) > rnRadioRange (mem src)
     then Inr (False, rm)
     else bindr (MI_GetTxRssi rnd rm (mem src) (mem dst)) (\<lambda>(rssi, rm1).
       let floorDbm = max (rnRxSensitivity (mem dst)) (pNoiseFloorDbm (rmParams rm)) + pSnrMinThresholdDb (rmParams rm)
       in Inr (rssi \<ge> RssiMin \<and> rssi \<le> RssiMax \<and> rssi \<ge> floorDbm, rm1)))"

definition MI_getRssiAmbientNoise :: "MI \<Rightarrow> DbValue" where
  "MI_getRssiAmbientNoise rm = pNoiseFloorDbm (rmParams rm)"

definition MI_getRssiOnChannel :: "randFun \<Rightarrow> iterOrder \<Rightarrow> MI \<Rightarrow> rmem \<Rightarrow> rptr \<Rightarrow> ChannelId \<Rightarrow> (DbValue \<times> MI) res" where
  "MI_getRssiOnChannel rnd ord rm mem node channel =
    (let tx = nget (miActiveTransmitters rm) channel in
     foldr_res (\<lambda>i (rssiMax, rm1).
         bindr (derefr (tx i)) (\<lambda>v.
         bindr (MI_GetTxRssi rnd rm1 (mem v) (mem node)) (\<lambda>(rssi, rm2).
           Inr (if rssi = RssiInvalid then rssiMax else addSignalPowersDbm rssi rssiMax, rm2))))
       (ord (dom tx)) (MI_getRssiAmbientNoise rm, rm))"

text \<open>\<open>log\<close> calls \<^verbatim>\<open>eventQ.Add\<close> and panics when the queue has not been set.\<close>

definition MI_log :: "MI \<Rightarrow> u64 \<Rightarrow> NodeId \<Rightarrow> string \<Rightarrow> Event list res" where
  "MI_log rm ts nid msg =
    (if rmEventQ rm
     then Inr [zeroEvent\<lparr>evTimestamp := ts, evType := EventTypeRadioLog, evNodeId := nid,
       evData := string_bytes (''(OTNS)       [T] RadioModelMI--: '' @ msg)\<rparr>]
     else Inl NilDeref)"

text \<open>The loop of \<open>applyInterference\<close>; \<open>None\<close> is the early return when the receiver itself was transmitting.\<close>

fun MI_interfereLoop ::
    "randFun \<Rightarrow> (NodeId \<rightharpoonup> rptr) \<Rightarrow> rmem \<Rightarrow> rptr \<Rightarrow> NodeId list \<Rightarrow> DbValue \<Rightarrow> MI \<Rightarrow> (DbValue option \<times> MI) res" where
  "MI_interfereLoop rnd intf mem dst [] powIntfMax rm = Inr (Some powIntfMax, rm)"
| "MI_interfereLoop rnd intf mem dst (i # is) powIntfMax rm =
     bindr (derefr (intf i)) (\<lambda>interferer.
       if interferer = dst then Inr (None, rm)
       else bindr (MI_GetTxRssi rnd rm (mem interferer) (mem dst)) (\<lambda>(powIntf, rm1).
         MI_interfereLoop rnd intf mem dst is (addSignalPowersDbm powIntf powIntfMax) rm1))"

definition MI_applyInterference ::
    "randFun \<Rightarrow> real \<Rightarrow> string \<Rightarrow> iterOrder \<Rightarrow> MI \<Rightarrow> rmem \<Rightarrow> rptr \<Rightarrow> rptr \<Rightarrow> Event \<Rightarrow> (MI \<times> Event \<times> Event list) res" where
  "MI_applyInterference rnd unitRnd logMsg ord rm mem src dst evt =
    (let intf = nget (miInterferedBy rm) (rnId (mem src)) in
     bindr (MI_interfereLoop rnd intf mem dst (ord (dom intf)) (MI_getRssiAmbientNoise rm) rm) (\<lambda>(pow, rm1).
       case pow of
         None \<Rightarrow>
           bindr (MI_log rm1 (evTimestamp evt) (rnId (mem dst))
             ''Detected self-transmission of Node, set Rx OT_ERROR_ABORT'') (\<lambda>evs.
             Inr (rm1, set_Error evt OT_ERROR_ABORT, evs))
       | Some powIntfMax \<Rightarrow>
           bindr (MI_GetTxRssi rnd rm1 (mem src) (mem dst)) (\<lambda>(rssi, rm2).
             let sirDb = rssi - powIntfMax in
           bindr (applyBerModel unitRnd sirDb evt) (\<lambda>(evt1, isLogMsg).
             if isLogMsg then
               bindr (MI_log rm2 (evTimestamp evt) (rnId (mem dst)) logMsg) (\<lambda>evs. Inr (rm2, evt1, evs))
             else Inr (rm2, evt1, [])))))"

definition MI_OnEventDispatch ::
    "randFun \<Rightarrow> real \<Rightarrow> string \<Rightarrow> iterOrder \<Rightarrow> MI \<Rightarrow> rmem \<Rightarrow> rptr \<Rightarrow> rptr \<Rightarrow> Event \<Rightarrow>
      (MI \<times> rmem \<times> Event \<times> bool \<times> Event list) res" where
  "MI_OnEventDispatch rnd unitRnd logMsg ord rm mem src dst evt =
    (if evType evt = EventTypeRadioCommStart then
       bindr (MI_GetTxRssi rnd rm (mem src) (mem dst)) (\<lambda>(rssi, rm1).
         Inr (rm1, mem, set_PowerDbm evt (clipRssi rssi), True, []))
     else if evType evt = EventTypeRadioRxDone then
       bindr (MI_GetTxRssi rnd rm (mem src) (mem dst)) (\<lambda>(rssi, rm1).
       bindr (MI_applyInterference rnd unitRnd logMsg ord rm1 mem src dst (set_PowerDbm evt (clipRssi rssi)))
         (\<lambda>(rm2, evt1, evs). Inr (rm2, mem, evt1, True, evs)))
     else if evType evt = EventTypeRadioChannelSample then
       if rcError (evRadioCommData evt) = OT_ERROR_NONE then
         bindr (MI_getRssiOnChannel rnd ord rm mem src (rcChannel (evRadioCommData evt))) (\<lambda>(r, rm1).
           let mem1 = (if r > rnRssiSampleMax (mem src) then mem(src := (mem src)\<lparr>rnRssiSampleMax := r\<rparr>) else mem)
           in Inr (rm1, mem1, set_PowerDbm evt (clipRssi (rnRssiSampleMax (mem1 src))), True, []))
       else Inr (rm, mem, set_PowerDbm evt 127, True, [])
     else Inr (rm, mem, evt, True, []))"

definition MI_OnNextEventTime :: "MI \<Rightarrow> u64 \<Rightarrow> MI" where
  "MI_OnNextEventTime rm ts = rm\<lparr>rmTs := ts, miFading := fadingModel_onAdvanceTime (miFading rm) ts\<rparr>"

definition MI_OnParametersModified :: "MI \<Rightarrow> MI" where
  "MI_OnParametersModified rm =
    (let rm1 = (if pTimeFadingSigmaMaxDb (miPrevParams rm) \<noteq> pTimeFadingSigmaMaxDb (rmParams rm) \<or>
                   pShadowFadingSigmaDb (miPrevParams rm) \<noteq> pShadowFadingSigmaDb (rmParams rm) \<or>
                   pMeterPerUnit (miPrevParams rm) \<noteq> pMeterPerUnit (rmParams rm) \<or>
                   pMeanTimeFadingChange (miPrevParams rm) \<noteq> pMeanTimeFadingChange (rmParams rm)
                then rm\<lparr>miFading := fadingModel_clearCaches (miFading rm)\<rparr> else rm)
     in rm1\<lparr>miPrevParams := rmParams rm1\<rparr>)"

text \<open>The body of the loop of \<open>txStart\<close> that records mutual interference.\<close>

definition MI_markInterference :: "(NodeId \<rightharpoonup> rptr) \<Rightarrow> NodeId \<Rightarrow> rptr \<Rightarrow> NodeId \<Rightarrow>
    (NodeId \<rightharpoonup> (NodeId \<rightharpoonup> rptr)) \<Rightarrow> (NodeId \<rightharpoonup> (NodeId \<rightharpoonup> rptr)) res" where
  "MI_markInterference tx nid node i m =
     bindr (derefr (tx i)) (\<lambda>interferingTransmitter.
     assertr (i \<noteq> nid)
    (bindr (nput m nid i interferingTransmitter) (\<lambda>m1. nput m1 i nid node)))"

definition MI_txStart :: "iterOrder \<Rightarrow> MI \<Rightarrow> rmem \<Rightarrow> rptr \<Rightarrow> Event \<Rightarrow> (MI \<times> rmem \<times> Event list) res" where
  "MI_txStart ord rm mem node evt =
    (let ch = rcChannel (evRadioCommData evt); nid = rnId (mem node);
         nodeTransmits = (nget (miActiveTransmitters rm) ch nid \<noteq> None);
         nodeSamples = (nget (miActiveChannelSamplers rm) ch nid \<noteq> None) in
     if nodeTransmits \<or> nodeSamples then
       Inr (rm, mem, [set_Error ((Event_Copy evt)\<lparr>evType := EventTypeRadioTxDone, evMustDispatch := True,
         evTimestamp := evTimestamp evt + 1\<rparr>) OT_ERROR_ABORT])
     else
      (let mem1 = mem(node := (mem node)\<lparr>rnTxPower := of_int (sint (rcPowerDbm (evRadioCommData evt)))\<rparr>) in
       bindr (mem_SetChannel mem1 node ch) (\<lambda>mem2.
         let m0 = (miInterferedBy rm)(nid \<mapsto> Map.empty); tx = nget (miActiveTransmitters rm) ch in
       bindr (foldr_res (MI_markInterference tx nid node) (ord (dom tx)) m0) (\<lambda>m1.
       bindr (nput (miActiveTransmitters rm) ch nid node) (\<lambda>act.
         Inr (rm\<lparr>miInterferedBy := m1, miActiveTransmitters := act\<rparr>, mem2,
           (if rcError (evRadioCommData evt) = OT_ERROR_NONE then [rxStartEvent evt] else []) @
           [txDoneInternalEvent evt]))))))"

definition MI_txStop :: "MI \<Rightarrow> rmem \<Rightarrow> rptr \<Rightarrow> Event \<Rightarrow> MI \<times> rmem \<times> Event list" where
  "MI_txStop rm mem node evt =
    (let mem1 = mem(node := RadioNode_SetTxDone (mem node));
         ch = rcChannel (evRadioCommData evt); nid = rnId (mem1 node);
         isChannelChangedDuringTx = (ch \<noteq> rnRadioChannel (mem1 node));
         at1 = (if isChannelChangedDuringTx then ndel (miActiveTransmitters rm) (rnRadioChannel (mem1 node)) nid
                else miActiveTransmitters rm);
         at2 = ndel at1 ch nid
     in (rm\<lparr>miActiveTransmitters := at2\<rparr>, mem1,
         [txDoneDispatchEvent evt] @
         (if rcError (evRadioCommData evt) = OT_ERROR_NONE
          then [set_Error (rxDoneEvent evt) (if isChannelChangedDuringTx then OT_ERROR_FCS else OT_ERROR_NONE)] else [])))"

definition MI_updateChannelSamplingNodes ::
    "randFun \<Rightarrow> iterOrder \<Rightarrow> MI \<Rightarrow> rmem \<Rightarrow> rptr \<Rightarrow> Event \<Rightarrow> (MI \<times> rmem) res" where
  "MI_updateChannelSamplingNodes rnd ord rm mem src evt =
     assertr (evType evt = EventTypeRadioCommStart)
    (let samplers = nget (miActiveChannelSamplers rm) (rcChannel (evRadioCommData evt)) in
     foldr_res (\<lambda>i (rm1, mem1).
         bindr (derefr (samplers i)) (\<lambda>samplingNode.
         bindr (MI_GetTxRssi rnd rm1 (mem1 src) (mem1 samplingNode)) (\<lambda>(r, rm2).
           Inr (rm2, if r \<noteq> RssiInvalid
             then mem1(samplingNode := (mem1 samplingNode)\<lparr>rnRssiSampleMax :=
               addSignalPowersDbm r (rnRssiSampleMax (mem1 samplingNode))\<rparr>)
             else mem1))))
       (ord (dom samplers)) (rm, mem))"

definition MI_channelSampleStart ::
    "randFun \<Rightarrow> iterOrder \<Rightarrow> MI \<Rightarrow> rmem \<Rightarrow> rptr \<Rightarrow> Event \<Rightarrow> (MI \<times> rmem \<times> Event list) res" where
  "MI_channelSampleStart rnd ord rm mem srcNode evt =
    (let ch = rcChannel (evRadioCommData evt); nid = rnId (mem srcNode) in
     if nget (miActiveTransmitters rm) ch nid \<noteq> None \<or> nget (miActiveChannelSamplers rm) ch nid \<noteq> None then
       Inr (rm, mem, [sampleDoneEvent (set_Error evt OT_ERROR_ABORT)])
     else
       bindr (mem_SetChannel mem srcNode ch) (\<lambda>mem1.
       bindr (MI_getRssiOnChannel rnd ord rm mem1 srcNode ch) (\<lambda>(r, rm1).
         Inr (rm1, mem1(srcNode := (mem1 srcNode)\<lparr>rnRssiSampleMax := r\<rparr>), [sampleDoneEvent evt]))))"

definition MI_HandleEvent ::
    "randFun \<Rightarrow> iterOrder \<Rightarrow> MI \<Rightarrow> rmem \<Rightarrow> rptr \<Rightarrow> Event \<Rightarrow> (MI \<times> rmem \<times> Event list) res" where
  "MI_HandleEvent rnd ord rm0 mem node evt =
    (let rm = rm0\<lparr>rmEventQ := True\<rparr> in
     if evType evt = EventTypeRadioCommStart then
       bindr (MI_txStart ord rm mem node evt) (\<lambda>(rm1, mem1, evs).
         let (rm2, mem2) = statsTxStart rm1 mem1 node evt in
       bindr (MI_updateChannelSamplingNodes rnd ord rm2 mem2 node evt) (\<lambda>(rm3, mem3).
         Inr (rm3, mem3, evs)))
     else if evType evt = EventTypeRadioTxDone then
       let (rm1, mem1, evs) = MI_txStop rm mem node evt in
       bindr (statsTxStop rm1 mem1 node evt) (\<lambda>rm2. Inr (rm2, mem1, evs))
     else if evType evt = EventTypeRadioChannelSample then
       bindr (MI_channelSampleStart rnd ord rm mem node evt) (\<lambda>(rm1, mem1, evs).
         Inr (rm1, statsChannelSampleStart mem1 node, evs))
     else if evType evt = EventTypeRadioState then
       bindr (handleRadioStateEvent mem node evt) (\<lambda>mem1. Inr (rm, mem1, []))
     else Inr (rm, mem, []))"

section \<open>radiomodel.go\<close>

datatype RadioModel = RMIdeal RadioModelIdeal | RMMutual RadioModelMutualInterference

definition zeroRadioModelParams :: RadioModelParams where
  "zeroRadioModelParams = \<lparr>pMeterPerUnit = 0, pIsDiscLimit = False, pRssiMinDbm = 0, pRssiMaxDbm = 0,
     pExponentDb = 0, pFixedLossDb = 0, pNlosExponentDb = 0, pNlosFixedLossDb = 0, pNoiseFloorDbm = 0,
     pSnrMinThresholdDb = 0, pShadowFadingSigmaDb = 0, pTimeFadingSigmaMaxDb = 0, pMeanTimeFadingChange = 0\<rparr>"

text \<open>The struct literals before \<open>init\<close>.\<close>

definition rawIdeal :: "string \<Rightarrow> RadioModelParams \<Rightarrow> RadioModelIdeal" where
  "rawIdeal name params = \<lparr>rmName = name, rmParams = params, rmNodes = Map.empty, rmEventQ = False,
     rmChannelStats = Map.empty, rmTs = 0\<rparr>"

definition rawMutual :: "string \<Rightarrow> RadioModelParams \<Rightarrow> RadioModelParams \<Rightarrow> u64 \<Rightarrow> MI" where
  "rawMutual name params prevParams rndSeed = \<lparr>rmName = name, rmParams = params, rmNodes = Map.empty, rmEventQ = False,
     rmChannelStats = Map.empty, rmTs = 0, miPrevParams = prevParams, miFading = newFadingModel rndSeed,
     miActiveTransmitters = Map.empty, miActiveChannelSamplers = Map.empty, miInterferedBy = Map.empty\<rparr>"

definition NewRadioModel :: "u64 \<Rightarrow> string \<Rightarrow> RadioModel option" where
  "NewRadioModel rndSeed modelName =
    (if modelName \<in> {''Ideal'', ''I'', ''1''} then
       Some (RMIdeal (Ideal_init (rawIdeal ''Ideal'' (newRadioModelParams\<lparr>pIsDiscLimit := True, pRssiMinDbm := -60, pRssiMaxDbm := -60\<rparr>))))
     else if modelName \<in> {''Ideal_Rssi'', ''IR'', ''2'', ''default''} then
       Some (RMIdeal (Ideal_init (rawIdeal ''Ideal_Rssi'' ((setIndoorModelParamsItu newRadioModelParams)\<lparr>pIsDiscLimit := True\<rparr>))))
     else if modelName \<in> {''MutualInterference'', ''MI'', ''M'', ''3''} then
       Some (RMMutual (MI_init (rawMutual ''MutualInterference'' (setIndoorModelParams3gpp newRadioModelParams)
         newRadioModelParams rndSeed)))
     else if modelName \<in> {''MIDisc'', ''MID'', ''4''} then
       Some (RMMutual (MI_init (rawMutual ''MIDisc'' ((setIndoorModelParams3gpp newRadioModelParams)\<lparr>pIsDiscLimit := True\<rparr>)
         zeroRadioModelParams rndSeed)))
     else if modelName \<in> {''Outdoor'', ''5''} then
       Some (RMMutual (MI_init (rawMutual ''Outdoor'' (setOutdoorModelParams newRadioModelParams)
         zeroRadioModelParams rndSeed)))
     else None)"

text \<open>The methods of the interface \<^verbatim>\<open>RadioModel\<close>, by the dynamic type.\<close>

fun RadioModel_AddNode :: "RadioModel \<Rightarrow> rmem \<Rightarrow> rptr \<Rightarrow> RadioModel" where
  "RadioModel_AddNode (RMIdeal rm) mem p = RMIdeal (Ideal_AddNode rm mem p)"
| "RadioModel_AddNode (RMMutual rm) mem p = RMMutual (MI_AddNode rm mem p)"

fun RadioModel_DeleteNode :: "RadioModel \<Rightarrow> rmem \<Rightarrow> NodeId \<Rightarrow> RadioModel res" where
  "RadioModel_DeleteNode (RMIdeal rm) mem nid = bindr (Ideal_DeleteNode rm mem nid) (\<lambda>rm'. Inr (RMIdeal rm'))"
| "RadioModel_DeleteNode (RMMutual rm) mem nid = bindr (MI_DeleteNode rm mem nid) (\<lambda>rm'. Inr (RMMutual rm'))"

fun RadioModel_CheckRadioReachable :: "randFun \<Rightarrow> RadioModel \<Rightarrow> rmem \<Rightarrow> rptr \<Rightarrow> rptr \<Rightarrow> (bool \<times> RadioModel) res" where
  "RadioModel_CheckRadioReachable rnd (RMIdeal rm) mem src dst = Inr (Ideal_CheckRadioReachable mem src dst, RMIdeal rm)"
| "RadioModel_CheckRadioReachable rnd (RMMutual rm) mem src dst =
     bindr (MI_CheckRadioReachable rnd rm mem src dst) (\<lambda>(b, rm'). Inr (b, RMMutual rm'))"

fun RadioModel_OnEventDispatch ::
    "randFun \<Rightarrow> real \<Rightarrow> string \<Rightarrow> iterOrder \<Rightarrow> RadioModel \<Rightarrow> rmem \<Rightarrow> rptr \<Rightarrow> rptr \<Rightarrow> Event \<Rightarrow>
      (RadioModel \<times> rmem \<times> Event \<times> bool \<times> Event list) res" where
  "RadioModel_OnEventDispatch rnd unitRnd logMsg ord (RMIdeal rm) mem src dst evt =
    (let (evt', ok) = Ideal_OnEventDispatch rm mem src dst evt in Inr (RMIdeal rm, mem, evt', ok, []))"
| "RadioModel_OnEventDispatch rnd unitRnd logMsg ord (RMMutual rm) mem src dst evt =
     bindr (MI_OnEventDispatch rnd unitRnd logMsg ord rm mem src dst evt) (\<lambda>(rm', mem', evt', ok, evs).
       Inr (RMMutual rm', mem', evt', ok, evs))"

fun RadioModel_OnNextEventTime :: "RadioModel \<Rightarrow> u64 \<Rightarrow> RadioModel" where
  "RadioModel_OnNextEventTime (RMIdeal rm) ts = RMIdeal (Ideal_OnNextEventTime rm ts)"
| "RadioModel_OnNextEventTime (RMMutual rm) ts = RMMutual (MI_OnNextEventTime rm ts)"

fun RadioModel_HandleEvent ::
    "randFun \<Rightarrow> iterOrder \<Rightarrow> RadioModel \<Rightarrow> rmem \<Rightarrow> rptr \<Rightarrow> Event \<Rightarrow> (RadioModel \<times> rmem \<times> Event list) res" where
  "RadioModel_HandleEvent rnd ord (RMIdeal rm) mem node evt =
     bindr (Ideal_HandleEvent rm mem node evt) (\<lambda>(rm', mem', evs). Inr (RMIdeal rm', mem', evs))"
| "RadioModel_HandleEvent rnd ord (RMMutual rm) mem node evt =
     bindr (MI_HandleEvent rnd ord rm mem node evt) (\<lambda>(rm', mem', evs). Inr (RMMutual rm', mem', evs))"

fun RadioModel_OnParametersModified :: "RadioModel \<Rightarrow> RadioModel" where
  "RadioModel_OnParametersModified (RMIdeal rm) = RMIdeal rm"
| "RadioModel_OnParametersModified (RMMutual rm) = RMMutual (MI_OnParametersModified rm)"

fun RadioModel_PhyStats :: "RadioModel \<Rightarrow> rmem \<Rightarrow> (NodeId \<rightharpoonup> PhyStats)" where
  "RadioModel_PhyStats (RMIdeal rm) mem = RadioModel_GetPhyStats rm mem"
| "RadioModel_PhyStats (RMMutual rm) mem = RadioModel_GetPhyStats rm mem"
end
