(* ===== verification/Radio_Laws.thy ===== *)
theory Radio_Laws
  imports Radio_Model
begin

text \<open>
  The interface of the radio models and what the dispatcher relies on. The locale \<open>radio_model\<close> has the
  methods that the dispatcher calls and their laws; its client lemma says that any sequence of calls
  that follows the transmission protocol runs without a panic and never schedules an event in the past.
  The protocol is tracked by the set of transmissions in flight: the pairs of a node and a channel for
  which an internal \<open>RadioTxDone\<close> event is on the queue. The ideal model, the mutual interference model
  and the dynamic dispatch between them are interpretations.
\<close>

section \<open>The protocol\<close>

type_synonym flights = "(NodeId \<times> ChannelId) set"

definition chan_ok :: "ChannelId \<Rightarrow> bool" where
  "chan_ok ch \<longleftrightarrow> ch \<le> MaxChannelNumber"

definition order_ok :: "iterOrder \<Rightarrow> bool" where
  "order_ok ord \<longleftrightarrow> (\<forall>S. finite S \<longrightarrow> set (ord S) = S \<and> distinct (ord S))"

abbreviation evChannel :: "Event \<Rightarrow> ChannelId" where
  "evChannel e \<equiv> rcChannel (evRadioCommData e)"

abbreviation evFlight :: "Event \<Rightarrow> NodeId \<times> ChannelId" where
  "evFlight e \<equiv> (evNodeId e, evChannel e)"

text \<open>An event that the dispatcher may pass to \<open>HandleEvent\<close>, and the flights after it.\<close>

definition handle_ok :: "flights \<Rightarrow> Event \<Rightarrow> bool" where
  "handle_ok F e \<longleftrightarrow>
    (evType e = EventTypeRadioCommStart \<longrightarrow> chan_ok (evChannel e) \<and> evFlight e \<notin> F) \<and>
    (evType e = EventTypeRadioTxDone \<longrightarrow> evFlight e \<in> F) \<and>
    (evType e = EventTypeRadioChannelSample \<longrightarrow> chan_ok (evChannel e)) \<and>
    (evType e = EventTypeRadioState \<longrightarrow> chan_ok (rsChannel (evRadioStateData e)))"

definition flights_after :: "flights \<Rightarrow> Event \<Rightarrow> flights" where
  "flights_after F e =
    (if evType e = EventTypeRadioCommStart then insert (evFlight e) F
     else if evType e = EventTypeRadioTxDone then F - {evFlight e} else F)"

text \<open>The events that \<open>HandleEvent\<close> may put on the queue for \<open>e\<close>.\<close>

definition scheduled_by :: "Event \<Rightarrow> Event list \<Rightarrow> bool" where
  "scheduled_by e evs \<longleftrightarrow>
    list_all (\<lambda>e'. evNodeId e' = evNodeId e \<and>
      evTimestamp e' \<in> {evTimestamp e, evTimestamp e + rcDuration (evRadioCommData e)}) evs \<and>
    filter (\<lambda>e'. \<not> evMustDispatch e') evs =
      (if evType e = EventTypeRadioCommStart then [txDoneInternalEvent e] else [])"

definition dispatch_ok :: "Event \<Rightarrow> bool" where
  "dispatch_ok e \<longleftrightarrow> (evType e = EventTypeRadioRxDone \<longrightarrow> length (evData e) \<ge> 2)"

datatype radio_call =
    CAdd rptr
  | CDelete NodeId
  | CTime u64
  | CHandle Event
  | CDispatch rptr rptr Event

text \<open>The protocol of a sequence of calls; \<open>ids\<close> are the ids of the radio nodes and \<open>ready\<close> says whether an event was handled before.\<close>

fun protocol :: "(rptr \<Rightarrow> NodeId) \<Rightarrow> (NodeId \<rightharpoonup> rptr) \<Rightarrow> bool \<Rightarrow> flights \<Rightarrow> radio_call list \<Rightarrow> bool" where
  "protocol ids N ready F [] = True"
| "protocol ids N ready F (CAdd p # cs) \<longleftrightarrow> N (ids p) = None \<and> protocol ids (N(ids p \<mapsto> p)) ready F cs"
| "protocol ids N ready F (CDelete i # cs) \<longleftrightarrow>
     N i \<noteq> None \<and> protocol ids (N(i := None)) ready {x \<in> F. fst x \<noteq> i} cs"
| "protocol ids N ready F (CTime ts # cs) \<longleftrightarrow> protocol ids N ready F cs"
| "protocol ids N ready F (CHandle e # cs) \<longleftrightarrow>
     N (evNodeId e) \<noteq> None \<and> handle_ok F e \<and> protocol ids N True (flights_after F e) cs"
| "protocol ids N ready F (CDispatch src dst e # cs) \<longleftrightarrow>
     ready \<and> dispatch_ok e \<and> protocol ids N ready F cs"

definition same_ids :: "rmem \<Rightarrow> rmem \<Rightarrow> bool" where
  "same_ids mem mem' \<longleftrightarrow> (\<forall>p. rnId (mem' p) = rnId (mem p))"

lemma same_ids_refl [simp]: "same_ids mem mem"
  by (simp add: same_ids_def)

lemma same_ids_trans: "same_ids a b \<Longrightarrow> same_ids b c \<Longrightarrow> same_ids a c"
  by (simp add: same_ids_def)

lemma same_ids_upd: "rnId rn = rnId (mem p) \<Longrightarrow> same_ids mem (mem(p := rn))"
  by (simp add: same_ids_def)

section \<open>The interface\<close>

locale radio_model =
  fixes nodes_of :: "'m \<Rightarrow> NodeId \<rightharpoonup> rptr"
    and queue_set :: "'m \<Rightarrow> bool"
    and add_node :: "'m \<Rightarrow> rmem \<Rightarrow> rptr \<Rightarrow> 'm"
    and delete_node :: "'m \<Rightarrow> rmem \<Rightarrow> NodeId \<Rightarrow> 'm res"
    and next_time :: "'m \<Rightarrow> u64 \<Rightarrow> 'm"
    and handle :: "randFun \<Rightarrow> iterOrder \<Rightarrow> 'm \<Rightarrow> rmem \<Rightarrow> rptr \<Rightarrow> Event \<Rightarrow> ('m \<times> rmem \<times> Event list) res"
    and dispatch :: "randFun \<Rightarrow> real \<Rightarrow> string \<Rightarrow> iterOrder \<Rightarrow> 'm \<Rightarrow> rmem \<Rightarrow> rptr \<Rightarrow> rptr \<Rightarrow> Event \<Rightarrow>
      ('m \<times> rmem \<times> Event \<times> bool \<times> Event list) res"
    and inv :: "'m \<Rightarrow> rmem \<Rightarrow> flights \<Rightarrow> bool"
  assumes inv_nodes: "inv rm mem F \<Longrightarrow> nodes_of rm i = Some p \<Longrightarrow> rnId (mem p) = i"
    and add_law: "inv rm mem F \<Longrightarrow> inv (add_node rm mem p) mem F \<and>
      nodes_of (add_node rm mem p) = (nodes_of rm)(rnId (mem p) \<mapsto> p) \<and> queue_set (add_node rm mem p) = queue_set rm"
    and delete_law: "inv rm mem F \<Longrightarrow> nodes_of rm i = Some p \<Longrightarrow>
      \<exists>rm'. delete_node rm mem i = Inr rm' \<and> inv rm' mem {x \<in> F. fst x \<noteq> i} \<and>
        nodes_of rm' = (nodes_of rm)(i := None) \<and> queue_set rm' = queue_set rm"
    and time_law: "inv rm mem F \<Longrightarrow> inv (next_time rm ts) mem F \<and> nodes_of (next_time rm ts) = nodes_of rm \<and>
      queue_set (next_time rm ts) = queue_set rm"
    and handle_law: "inv rm mem F \<Longrightarrow> order_ok ord \<Longrightarrow> nodes_of rm (evNodeId e) = Some p \<Longrightarrow> handle_ok F e \<Longrightarrow>
      \<exists>rm' mem' evs. handle rnd ord rm mem p e = Inr (rm', mem', evs) \<and> inv rm' mem' (flights_after F e) \<and>
        nodes_of rm' = nodes_of rm \<and> queue_set rm' \<and> same_ids mem mem' \<and> scheduled_by e evs"
    and dispatch_law: "inv rm mem F \<Longrightarrow> order_ok ord \<Longrightarrow> queue_set rm \<Longrightarrow> dispatch_ok e \<Longrightarrow>
      \<exists>rm' mem' e' ok evs. dispatch rnd u msg ord rm mem src dst e = Inr (rm', mem', e', ok, evs) \<and> inv rm' mem' F \<and>
        nodes_of rm' = nodes_of rm \<and> queue_set rm' \<and> same_ids mem mem' \<and>
        list_all (\<lambda>l. evTimestamp l = evTimestamp e \<and> evType l = EventTypeRadioLog) evs"
begin

text \<open>A run of calls returns the events that each call puts on the queue.\<close>

fun call :: "randFun \<Rightarrow> real \<Rightarrow> string \<Rightarrow> iterOrder \<Rightarrow> radio_call \<Rightarrow> 'm \<times> rmem \<Rightarrow> ('m \<times> rmem \<times> Event list) res" where
  "call rnd u msg ord (CAdd p) (rm, mem) = Inr (add_node rm mem p, mem, [])"
| "call rnd u msg ord (CDelete i) (rm, mem) = bindr (delete_node rm mem i) (\<lambda>rm'. Inr (rm', mem, []))"
| "call rnd u msg ord (CTime ts) (rm, mem) = Inr (next_time rm ts, mem, [])"
| "call rnd u msg ord (CHandle e) (rm, mem) =
     bindr (derefr (nodes_of rm (evNodeId e))) (\<lambda>p. handle rnd ord rm mem p e)"
| "call rnd u msg ord (CDispatch src dst e) (rm, mem) =
     bindr (dispatch rnd u msg ord rm mem src dst e) (\<lambda>(rm', mem', _, _, evs). Inr (rm', mem', evs))"

fun run :: "randFun \<Rightarrow> real \<Rightarrow> string \<Rightarrow> iterOrder \<Rightarrow> radio_call list \<Rightarrow> 'm \<times> rmem \<Rightarrow> ('m \<times> rmem \<times> Event list list) res" where
  "run rnd u msg ord [] (rm, mem) = Inr (rm, mem, [])"
| "run rnd u msg ord (c # cs) (rm, mem) =
     bindr (call rnd u msg ord c (rm, mem)) (\<lambda>(rm', mem', evs).
     bindr (run rnd u msg ord cs (rm', mem')) (\<lambda>(rm'', mem'', evss). Inr (rm'', mem'', evs # evss)))"

definition in_time :: "radio_call \<Rightarrow> Event list \<Rightarrow> bool" where
  "in_time c evs = (case c of
      CHandle e \<Rightarrow> scheduled_by e evs
    | CDispatch src dst e \<Rightarrow> list_all (\<lambda>l. evTimestamp l = evTimestamp e \<and> evType l = EventTypeRadioLog) evs
    | _ \<Rightarrow> evs = [])"

lemma run_safe:
  assumes "inv rm mem F" "order_ok ord" "ready \<Longrightarrow> queue_set rm"
    and "protocol (\<lambda>p. rnId (mem p)) (nodes_of rm) ready F cs"
  shows "\<exists>rm' mem' evss F'. run rnd u msg ord cs (rm, mem) = Inr (rm', mem', evss) \<and> inv rm' mem' F' \<and> list_all2 in_time cs evss"
  using assms
proof (induction cs arbitrary: rm mem F ready)
  case (Cons c cs)
  have ids: "(\<lambda>p. rnId (mem' p)) = (\<lambda>p. rnId (mem p))" if "same_ids mem mem'" for mem'
    using that by (simp add: same_ids_def)
  have step: ?case
    if "call rnd u msg ord c (rm, mem) = Inr (rm1, mem1, evs)" "inv rm1 mem1 F1" "ready1 \<Longrightarrow> queue_set rm1"
      "same_ids mem mem1" "protocol (\<lambda>p. rnId (mem p)) (nodes_of rm1) ready1 F1 cs" "in_time c evs"
    for rm1 mem1 evs F1 ready1
  proof -
    from that(5) have "protocol (\<lambda>p. rnId (mem1 p)) (nodes_of rm1) ready1 F1 cs" by (simp add: ids [OF that(4)])
    from Cons.IH [OF that(2) Cons.prems(2) that(3) this] obtain rm' mem' evss F' where
      "run rnd u msg ord cs (rm1, mem1) = Inr (rm', mem', evss)" "inv rm' mem' F'" "list_all2 in_time cs evss" by blast
    with that(1,6) show ?thesis by (intro exI [of _ rm'] exI [of _ mem'] exI [of _ "evs # evss"] exI [of _ F']) simp
  qed
  show ?case
  proof (cases c)
    case (CAdd p)
    with Cons.prems add_law [OF Cons.prems(1), of p] show ?thesis
      by (intro step [of "add_node rm mem p" mem "[]" F ready]) (auto simp: in_time_def)
  next
    case (CDelete i)
    with Cons.prems obtain p where "nodes_of rm i = Some p" by auto
    from delete_law [OF Cons.prems(1) this] obtain rm' where
      r: "delete_node rm mem i = Inr rm'" "inv rm' mem {x \<in> F. fst x \<noteq> i}" "nodes_of rm' = (nodes_of rm)(i := None)"
        "queue_set rm' = queue_set rm" by blast
    with Cons.prems CDelete show ?thesis
      by (intro step [of rm' mem "[]" "{x \<in> F. fst x \<noteq> i}" ready]) (auto simp: in_time_def)
  next
    case (CTime ts)
    with Cons.prems time_law [OF Cons.prems(1), of ts] show ?thesis
      by (intro step [of "next_time rm ts" mem "[]" F ready]) (auto simp: in_time_def)
  next
    case (CHandle e)
    with Cons.prems obtain p where p: "nodes_of rm (evNodeId e) = Some p" by auto
    from CHandle Cons.prems(4) have h: "handle_ok F e" by simp
    from handle_law [OF Cons.prems(1,2) p h, of rnd] obtain rm' mem' evs where
      r: "handle rnd ord rm mem p e = Inr (rm', mem', evs)" "inv rm' mem' (flights_after F e)"
        "nodes_of rm' = nodes_of rm" "queue_set rm'" "same_ids mem mem'" "scheduled_by e evs" by blast
    with Cons.prems CHandle p show ?thesis
      by (intro step [of rm' mem' evs "flights_after F e" True]) (auto simp: in_time_def)
  next
    case (CDispatch src dst e)
    with Cons.prems have q: "queue_set rm" and d: "dispatch_ok e" by auto
    from dispatch_law [OF Cons.prems(1,2) q d, of rnd u msg src dst] obtain rm' mem' e' ok evs where
      r: "dispatch rnd u msg ord rm mem src dst e = Inr (rm', mem', e', ok, evs)" "inv rm' mem' F"
        "nodes_of rm' = nodes_of rm" "queue_set rm'" "same_ids mem mem'"
        "list_all (\<lambda>l. evTimestamp l = evTimestamp e \<and> evType l = EventTypeRadioLog) evs" by blast
    with Cons.prems CDispatch show ?thesis
      by (intro step [of rm' mem' evs F ready]) (auto simp: in_time_def)
  qed
qed auto

end

section \<open>Statistics and the set of flights\<close>

definition base_inv :: "'a RadioModelIdeal_scheme \<Rightarrow> rmem \<Rightarrow> flights \<Rightarrow> bool" where
  "base_inv rm mem F \<longleftrightarrow>
    (\<forall>i p. rmNodes rm i = Some p \<longrightarrow> rnId (mem p) = i) \<and>
    (\<forall>i ch. (i, ch) \<in> F \<longrightarrow> (\<exists>cs. rmChannelStats rm ch = Some cs \<and> i \<in> csNumTransmitters cs))"

lemma base_inv_node: "base_inv rm mem F \<Longrightarrow> rmNodes rm i = Some p \<Longrightarrow> rnId (mem p) = i"
  by (simp add: base_inv_def)

lemma base_inv_flight:
  "base_inv rm mem F \<Longrightarrow> (i, ch) \<in> F \<Longrightarrow> \<exists>cs. rmChannelStats rm ch = Some cs \<and> i \<in> csNumTransmitters cs"
  by (simp add: base_inv_def)

lemma base_inv_mem: "base_inv rm mem F \<Longrightarrow> same_ids mem mem' \<Longrightarrow> base_inv rm mem' F"
  by (auto simp: base_inv_def same_ids_def)

lemma base_inv_cong: "base_inv rm mem F \<Longrightarrow> rmNodes rm' = rmNodes rm \<Longrightarrow> rmChannelStats rm' = rmChannelStats rm \<Longrightarrow>
  base_inv rm' mem F"
  by (simp add: base_inv_def)

lemma base_inv_add: "base_inv rm mem F \<Longrightarrow> rmNodes rm' = (rmNodes rm)(rnId (mem p) \<mapsto> p) \<Longrightarrow>
  rmChannelStats rm' = rmChannelStats rm \<Longrightarrow> base_inv rm' mem F"
  by (auto simp: base_inv_def)

lemma base_inv_TxStart:
  assumes "base_inv rm mem F" "rnId (mem p) = evNodeId e" "statsTxStart rm mem p e = (rm', mem')"
  shows "base_inv rm' mem' (insert (evFlight e) F) \<and> rmNodes rm' = rmNodes rm \<and> same_ids mem mem' \<and>
    rm' = rm\<lparr>rmChannelStats := rmChannelStats rm'\<rparr>"
proof -
  have "same_ids mem mem'" using assms(3) by (auto simp: statsTxStart_def Let_def same_ids_def)
  then show ?thesis
    using base_inv_flight [OF assms(1)] base_inv_node [OF assms(1)] assms(2,3)
    by (fastforce simp: base_inv_def statsTxStart_def Let_def same_ids_def split: if_splits option.splits)
qed

lemma base_inv_TxStop:
  assumes "base_inv rm mem F" "rnId (mem p) = evNodeId e" "evFlight e \<in> F"
  shows "\<exists>cs. statsTxStop rm mem p e = Inr (rm\<lparr>rmChannelStats := (rmChannelStats rm)(evChannel e \<mapsto> cs)\<rparr>) \<and>
    base_inv (rm\<lparr>rmChannelStats := (rmChannelStats rm)(evChannel e \<mapsto> cs)\<rparr>) mem (F - {evFlight e})"
proof -
  obtain cs where cs: "rmChannelStats rm (evChannel e) = Some cs" "evNodeId e \<in> csNumTransmitters cs"
    using base_inv_flight [OF assms(1,3)] by blast
  define cs' where "cs' = (let cs1 = cs\<lparr>csNumTransmitters := csNumTransmitters cs - {evNodeId e}\<rparr> in
    if csNumTransmitters cs1 = {} then cs1\<lparr>csTxTimeUs := csTxTimeUs cs1 + (evTimestamp e - csTxStartTime cs1)\<rparr> else cs1)"
  have "csNumTransmitters cs' = csNumTransmitters cs - {evNodeId e}" by (simp add: cs'_def Let_def)
  then have "base_inv (rm\<lparr>rmChannelStats := (rmChannelStats rm)(evChannel e \<mapsto> cs')\<rparr>) mem (F - {evFlight e})"
    using base_inv_flight [OF assms(1)] base_inv_node [OF assms(1)] cs by (fastforce simp: base_inv_def)
  moreover have "statsTxStop rm mem p e = Inr (rm\<lparr>rmChannelStats := (rmChannelStats rm)(evChannel e \<mapsto> cs')\<rparr>)"
    using cs assms(2) by (auto simp: statsTxStop_def Let_def cs'_def assertr_def)
  ultimately show ?thesis by blast
qed

lemma statsDeleteNode_cases:
  obtains "statsDeleteNode rm node = rm"
  | cs cs' where "rmChannelStats rm (rnRadioChannel node) = Some cs"
      "csNumTransmitters cs' = csNumTransmitters cs - {rnId node}"
      "statsDeleteNode rm node = rm\<lparr>rmChannelStats := (rmChannelStats rm)(rnRadioChannel node \<mapsto> cs')\<rparr>"
proof (cases "rmChannelStats rm (rnRadioChannel node)")
  case None
  with that(1) show ?thesis by (simp add: statsDeleteNode_def)
next
  case (Some cs)
  show ?thesis
  proof (cases "csNumTransmitters cs = {}")
    case True
    with Some that(1) show ?thesis by (simp add: statsDeleteNode_def)
  next
    case False
    with Some show ?thesis by (intro that(2) [OF Some]) (auto simp: statsDeleteNode_def Let_def)
  qed
qed

lemma base_inv_DeleteNode:
  assumes "base_inv rm mem F" "rmNodes rm i = Some p"
  shows "base_inv ((statsDeleteNode rm (mem p))\<lparr>rmNodes := (rmNodes rm)(i := None)\<rparr>) mem {x \<in> F. fst x \<noteq> i}"
    "rmNodes (statsDeleteNode rm (mem p)) = rmNodes rm" "rmEventQ (statsDeleteNode rm (mem p)) = rmEventQ rm"
proof -
  have i: "rnId (mem p) = i" using base_inv_node [OF assms] .
  show "base_inv ((statsDeleteNode rm (mem p))\<lparr>rmNodes := (rmNodes rm)(i := None)\<rparr>) mem {x \<in> F. fst x \<noteq> i}"
    by (rule statsDeleteNode_cases [where rm = rm and node = "mem p"])
      (use base_inv_flight [OF assms(1)] base_inv_node [OF assms(1)] i in \<open>fastforce simp: base_inv_def\<close>)+
  show "rmNodes (statsDeleteNode rm (mem p)) = rmNodes rm" "rmEventQ (statsDeleteNode rm (mem p)) = rmEventQ rm"
    by (rule statsDeleteNode_cases [where rm = rm and node = "mem p"]; simp)+
qed

lemma mem_SetChannel_ok: "chan_ok ch \<Longrightarrow> mem_SetChannel mem p ch = Inr (mem(p := (mem p)\<lparr>rnRadioChannel := ch\<rparr>))"
  by (simp add: mem_SetChannel_def RadioNode_SetChannel_def chan_ok_def)

lemma statsChannelSample_ids: "same_ids mem (statsChannelSampleStart mem p)"
  by (simp add: same_ids_def statsChannelSampleStart_def)

lemma handleRadioState_ok:
  "chan_ok (rsChannel (evRadioStateData e)) \<Longrightarrow> \<exists>mem'. handleRadioStateEvent mem p e = Inr mem' \<and> same_ids mem mem'"
  by (simp add: handleRadioStateEvent_def Let_def mem_SetChannel_ok same_ids_def RadioNode_SetRadioState_def
      RadioNode_SetRxSensitivity_def)

lemmas scheduled_simps = scheduled_by_def rxStartEvent_def txDoneInternalEvent_def txDoneDispatchEvent_def
  rxDoneEvent_def sampleDoneEvent_def set_Error_def Event_Copy_def

section \<open>The ideal model\<close>

lemma Ideal_txStart_ok:
  "chan_ok (evChannel e) \<Longrightarrow> \<exists>mem1. Ideal_txStart mem p e = Inr (mem1,
     (if rcError (evRadioCommData e) = OT_ERROR_NONE then [rxStartEvent e] else []) @ [txDoneInternalEvent e]) \<and>
     same_ids mem mem1"
  by (simp add: Ideal_txStart_def Let_def mem_SetChannel_ok same_ids_def)

lemma Ideal_sample_ok:
  "chan_ok (evChannel e) \<Longrightarrow> \<exists>mem1. Ideal_channelSampleStart mem p e = Inr (mem1, [sampleDoneEvent e]) \<and> same_ids mem mem1"
  by (simp add: Ideal_channelSampleStart_def Let_def mem_SetChannel_ok same_ids_def)

lemma Ideal_handle_law:
  assumes "base_inv rm mem F" "rmNodes rm (evNodeId e) = Some p" "handle_ok F e"
  shows "\<exists>rm' mem' evs. Ideal_HandleEvent rm mem p e = Inr (rm', mem', evs) \<and> base_inv rm' mem' (flights_after F e) \<and>
    rmNodes rm' = rmNodes rm \<and> rmEventQ rm' \<and> same_ids mem mem' \<and> scheduled_by e evs"
proof -
  let ?rm = "rm\<lparr>rmEventQ := True\<rparr>"
  have b: "base_inv ?rm mem F" using assms(1) by (rule base_inv_cong) simp_all
  have i: "rnId (mem p) = evNodeId e" using base_inv_node [OF assms(1,2)] .
  consider (start) "evType e = EventTypeRadioCommStart" | (stop) "evType e = EventTypeRadioTxDone"
    | (sample) "evType e = EventTypeRadioChannelSample" | (state) "evType e = EventTypeRadioState"
    | (other) "evType e \<notin> {EventTypeRadioCommStart, EventTypeRadioTxDone, EventTypeRadioChannelSample, EventTypeRadioState}"
    by blast
  then show ?thesis
  proof cases
    case start
    then have ch: "chan_ok (evChannel e)" using assms(3) by (simp add: handle_ok_def)
    obtain mem1 where tx: "Ideal_txStart mem p e = Inr (mem1,
        (if rcError (evRadioCommData e) = OT_ERROR_NONE then [rxStartEvent e] else []) @ [txDoneInternalEvent e])"
      and s1: "same_ids mem mem1" using Ideal_txStart_ok [OF ch] by blast
    obtain rm' mem' where st: "statsTxStart ?rm mem1 p e = (rm', mem')" by fastforce
    have "rnId (mem1 p) = evNodeId e" using i s1 by (simp add: same_ids_def)
    from base_inv_TxStart [OF base_inv_mem [OF b s1] this st] have
      r: "base_inv rm' mem' (insert (evFlight e) F)" "rmNodes rm' = rmNodes rm" "same_ids mem1 mem'"
        and eq: "rm' = ?rm\<lparr>rmChannelStats := rmChannelStats rm'\<rparr>"
      by simp_all
    have "rmEventQ rm'" by (subst eq) simp
    show ?thesis
      using start st r tx \<open>rmEventQ rm'\<close> same_ids_trans [OF s1]
      by (simp add: Ideal_HandleEvent_def Let_def flights_after_def scheduled_simps)
  next
    case stop
    then have fl: "evFlight e \<in> F" using assms(3) by (simp add: handle_ok_def)
    define mem1 where "mem1 = mem(p := RadioNode_SetTxDone (mem p))"
    have s1: "same_ids mem mem1" by (simp add: mem1_def same_ids_def RadioNode_SetTxDone_def)
    then have "rnId (mem1 p) = evNodeId e" using i by (simp add: same_ids_def)
    from base_inv_TxStop [OF base_inv_mem [OF b s1] this fl] stop s1 show ?thesis
      by (auto simp: Ideal_HandleEvent_def Ideal_txStop_def Let_def mem1_def [symmetric] flights_after_def scheduled_simps)
  next
    case sample
    then have ch: "chan_ok (evChannel e)" using assms(3) by (simp add: handle_ok_def)
    obtain mem1 where sa: "Ideal_channelSampleStart mem p e = Inr (mem1, [sampleDoneEvent e])"
      and s1: "same_ids mem mem1" using Ideal_sample_ok [OF ch] by blast
    note s2 = same_ids_trans [OF s1 statsChannelSample_ids [of mem1 p]]
    from sample base_inv_mem [OF b s2] s2 sa show ?thesis
      by (simp add: Ideal_HandleEvent_def Let_def flights_after_def scheduled_simps)
  next
    case state
    then have "chan_ok (rsChannel (evRadioStateData e))" using assms(3) by (simp add: handle_ok_def)
    from handleRadioState_ok [OF this] obtain mem1 where "handleRadioStateEvent mem p e = Inr mem1" "same_ids mem mem1" by blast
    with state base_inv_mem [OF b] show ?thesis
      by (simp add: Ideal_HandleEvent_def Let_def flights_after_def scheduled_by_def)
  next
    case other
    with b show ?thesis
      by (simp add: Ideal_HandleEvent_def Let_def flights_after_def scheduled_by_def)
  qed
qed

definition Ideal_dispatch :: "randFun \<Rightarrow> real \<Rightarrow> string \<Rightarrow> iterOrder \<Rightarrow> RadioModelIdeal \<Rightarrow> rmem \<Rightarrow> rptr \<Rightarrow> rptr \<Rightarrow> Event \<Rightarrow>
    (RadioModelIdeal \<times> rmem \<times> Event \<times> bool \<times> Event list) res" where
  "Ideal_dispatch rnd u msg ord rm mem src dst e =
    (let (e', ok) = Ideal_OnEventDispatch rm mem src dst e in Inr (rm, mem, e', ok, []))"

interpretation ideal: radio_model rmNodes rmEventQ Ideal_AddNode Ideal_DeleteNode Ideal_OnNextEventTime
  "\<lambda>rnd ord. Ideal_HandleEvent" Ideal_dispatch base_inv
proof (unfold_locales, goal_cases)
  case (1 rm mem F i p)
  then show ?case by (rule base_inv_node)
next
  case (2 rm mem F p)
  then show ?case by (simp add: Ideal_AddNode_def base_inv_add)
next
  case (3 rm mem F i p)
  with base_inv_DeleteNode [OF 3] show ?case by (simp add: Ideal_DeleteNode_def Let_def)
next
  case (4 rm mem F ts)
  then show ?case by (simp add: Ideal_OnNextEventTime_def base_inv_def)
next
  case (5 rm mem F ord e p rnd)
  then show ?case by (intro Ideal_handle_law)
next
  case (6 rm mem F ord e rnd u msg src dst)
  then show ?case by (simp add: Ideal_dispatch_def split: prod.split)
qed

section \<open>The mutual interference model\<close>

definition mi_core :: "MI \<Rightarrow> flights \<Rightarrow> bool" where
  "mi_core rm F \<longleftrightarrow> fading_inv (miFading rm) \<and>
    (\<forall>ch. chan_ok ch \<longrightarrow> ch \<in> dom (miActiveTransmitters rm)) \<and>
    (\<forall>ch i. nget (miActiveTransmitters rm) ch i \<noteq> None \<longrightarrow> chan_ok ch \<and> (i, ch) \<in> F \<and> i \<in> dom (miInterferedBy rm)) \<and>
    (\<forall>ch. finite (dom (nget (miActiveTransmitters rm) ch))) \<and>
    (\<forall>i. finite (dom (nget (miInterferedBy rm) i))) \<and>
    (\<forall>ch. nget (miActiveChannelSamplers rm) ch = Map.empty)"

definition mi_inv :: "MI \<Rightarrow> rmem \<Rightarrow> flights \<Rightarrow> bool" where
  "mi_inv rm mem F \<longleftrightarrow> base_inv rm mem F \<and> mi_core rm F"

lemma mi_inv_base: "mi_inv rm mem F \<Longrightarrow> base_inv rm mem F"
  by (simp add: mi_inv_def)

lemma mi_inv_samplers: "mi_inv rm mem F \<Longrightarrow> nget (miActiveChannelSamplers rm) ch = Map.empty"
  by (simp add: mi_inv_def mi_core_def)

lemma mi_inv_active: "mi_inv rm mem F \<Longrightarrow> nget (miActiveTransmitters rm) ch i = Some p \<Longrightarrow> (i, ch) \<in> F \<and> i \<in> dom (miInterferedBy rm)"
  unfolding mi_inv_def mi_core_def by blast

lemma mi_inv_finite: "mi_inv rm mem F \<Longrightarrow> finite (dom (nget (miActiveTransmitters rm) ch))"
  "mi_inv rm mem F \<Longrightarrow> finite (dom (nget (miInterferedBy rm) i))"
  by (simp_all add: mi_inv_def mi_core_def)

lemma mi_inv_chan: "mi_inv rm mem F \<Longrightarrow> chan_ok ch \<Longrightarrow> ch \<in> dom (miActiveTransmitters rm)"
  by (simp add: mi_inv_def mi_core_def)

lemma mi_inv_mem: "mi_inv rm mem F \<Longrightarrow> same_ids mem mem' \<Longrightarrow> mi_inv rm mem' F"
  by (auto simp: mi_inv_def intro: base_inv_mem)

lemma base_inv_miFading [simp]: "base_inv (rm\<lparr>miFading := fm\<rparr>) mem F = base_inv rm mem F"
  by (simp add: base_inv_def)

lemma base_inv_miActive [simp]: "base_inv (rm\<lparr>miActiveTransmitters := a\<rparr>) mem F = base_inv rm mem F"
  by (simp add: base_inv_def)

lemma base_inv_miInterferedBy [simp]: "base_inv (rm\<lparr>miInterferedBy := a\<rparr>) mem F = base_inv rm mem F"
  by (simp add: base_inv_def)

lemma base_inv_EventQ [simp]: "base_inv (rm\<lparr>rmEventQ := q\<rparr>) mem F = base_inv rm mem F"
  by (simp add: base_inv_def)

lemma mi_inv_fading: "mi_inv rm mem F \<Longrightarrow> fading_inv fm \<Longrightarrow> mi_inv (rm\<lparr>miFading := fm\<rparr>) mem F"
  by (simp add: mi_inv_def mi_core_def)

lemma mi_inv_EventQ: "mi_inv rm mem F \<Longrightarrow> mi_inv (rm\<lparr>rmEventQ := q\<rparr>) mem F"
  by (simp add: mi_inv_def mi_core_def)

text \<open>Computing a signal strength changes nothing but the caches of the fading model.\<close>

definition faded :: "MI \<Rightarrow> MI \<Rightarrow> bool" where
  "faded rm rm' \<longleftrightarrow> (\<exists>fm. rm' = rm\<lparr>miFading := fm\<rparr> \<and> fading_inv fm)"

lemma faded_refl: "fading_inv (miFading rm) \<Longrightarrow> faded rm rm"
  unfolding faded_def by (intro exI [of _ "miFading rm"]) simp

lemma faded_trans: "faded a b \<Longrightarrow> faded b c \<Longrightarrow> faded a c"
  unfolding faded_def by auto

lemma faded_inv: "faded rm rm' \<Longrightarrow> fading_inv (miFading rm')"
  by (auto simp: faded_def)

lemma faded_mi_inv: "faded rm rm' \<Longrightarrow> mi_inv rm mem F \<Longrightarrow> mi_inv rm' mem F"
  by (auto simp: faded_def mi_inv_fading)

lemma faded_simps: "faded rm rm' \<Longrightarrow> rmNodes rm' = rmNodes rm" "faded rm rm' \<Longrightarrow> rmEventQ rm' = rmEventQ rm"
  "faded rm rm' \<Longrightarrow> miInterferedBy rm' = miInterferedBy rm"
  by (auto simp: faded_def)

lemma MI_GetTxRssi_total:
  assumes "fading_inv (miFading rm)"
  shows "\<exists>r rm'. MI_GetTxRssi rnd rm src dst = Inr (r, rm') \<and> faded rm rm'"
proof -
  obtain f fm where "computeFading rnd (miFading rm) src dst (rmParams rm) = Inr (f, fm)" "fading_inv fm"
    using computeFading_total [OF assms] by blast
  then show ?thesis using faded_refl [OF assms] by (auto simp: MI_GetTxRssi_def Let_def faded_def)
qed

lemma MI_getRssiOnChannel_total:
  assumes "mi_inv rm mem F" "order_ok ord"
  shows "\<exists>r rm'. MI_getRssiOnChannel rnd ord rm mem' node ch = Inr (r, rm') \<and> faded rm rm'"
proof -
  let ?tx = "nget (miActiveTransmitters rm) ch"
  let ?f = "\<lambda>i (rssiMax, rm1). bindr (derefr (?tx i)) (\<lambda>v. bindr (MI_GetTxRssi rnd rm1 (mem' v) (mem' node)) (\<lambda>(rssi, rm2).
      Inr (if rssi = RssiInvalid then rssiMax else addSignalPowersDbm rssi rssiMax, rm2)))"
  have fi: "fading_inv (miFading rm)" using assms(1) by (simp add: mi_inv_def mi_core_def)
  have "\<exists>s'. foldr_res ?f (ord (dom ?tx)) (MI_getRssiAmbientNoise rm, rm) = Inr s' \<and> faded rm (snd s')"
  proof (rule foldr_res_total)
    show "faded rm (snd (MI_getRssiAmbientNoise rm, rm))" using fi by (simp add: faded_refl)
  next
    fix i :: NodeId and s :: "DbValue \<times> MI"
    assume "i \<in> set (ord (dom ?tx))" "faded rm (snd s)"
    then have "i \<in> dom ?tx" using assms(2) mi_inv_finite(1) [OF assms(1)] by (simp add: order_ok_def)
    then obtain v where "?tx i = Some v" by auto
    moreover from MI_GetTxRssi_total [OF faded_inv [OF \<open>faded rm (snd s)\<close>], of rnd "mem' v" "mem' node"]
    obtain r rm2 where "MI_GetTxRssi rnd (snd s) (mem' v) (mem' node) = Inr (r, rm2)" "faded (snd s) rm2" by blast
    ultimately show "\<exists>s'. ?f i s = Inr s' \<and> faded rm (snd s')"
      using faded_trans [OF \<open>faded rm (snd s)\<close>] by (cases s) simp
  qed
  then show ?thesis by (auto simp: MI_getRssiOnChannel_def Let_def)
qed

lemma MI_interfereLoop_total:
  assumes "set is \<subseteq> dom intf" "fading_inv (miFading rm)"
  shows "\<exists>pow rm'. MI_interfereLoop rnd intf mem dst is p0 rm = Inr (pow, rm') \<and> faded rm rm'"
  using assms
proof (induction "is" arbitrary: p0 rm)
  case Nil
  then show ?case by (simp add: faded_refl)
next
  case (Cons i "is")
  from Cons.prems(1) obtain v where v: "intf i = Some v" by auto
  from MI_GetTxRssi_total [OF Cons.prems(2)] obtain r rm1 where
    g: "MI_GetTxRssi rnd rm (mem v) (mem dst) = Inr (r, rm1)" "faded rm rm1" by blast
  show ?case
  proof (cases "v = dst")
    case True
    with v Cons.prems(2) show ?thesis by (simp add: faded_refl)
  next
    case False
    from Cons.IH [OF _ faded_inv [OF g(2)], of "addSignalPowersDbm r p0"] Cons.prems(1) obtain pow rm' where
      "MI_interfereLoop rnd intf mem dst is (addSignalPowersDbm r p0) rm1 = Inr (pow, rm')" "faded rm1 rm'" by auto
    with v g False faded_trans [OF g(2)] show ?thesis by auto
  qed
qed

lemma applyBerModel_total:
  assumes "length (evData e) \<ge> 2"
  shows "\<exists>e' b. applyBerModel u sir e = Inr (e', b)"
  using assms by (auto simp: applyBerModel_def interferePsduData_def Let_def split: prod.split)

lemma MI_log_total: "rmEventQ rm \<Longrightarrow> \<exists>evs. MI_log rm ts i msg = Inr evs \<and> list_all (\<lambda>l. evTimestamp l = ts \<and> evType l = EventTypeRadioLog) evs"
  by (simp add: MI_log_def)

lemma MI_applyInterference_total:
  assumes "mi_inv rm mem F" "order_ok ord" "rmEventQ rm" "length (evData e) \<ge> 2"
  shows "\<exists>rm' e' evs. MI_applyInterference rnd u msg ord rm mem src dst e = Inr (rm', e', evs) \<and> faded rm rm' \<and>
    list_all (\<lambda>l. evTimestamp l = evTimestamp e \<and> evType l = EventTypeRadioLog) evs"
proof -
  let ?intf = "nget (miInterferedBy rm) (rnId (mem src))"
  have fi: "fading_inv (miFading rm)" using assms(1) by (simp add: mi_inv_def mi_core_def)
  have "set (ord (dom ?intf)) \<subseteq> dom ?intf" using assms(2) mi_inv_finite(2) [OF assms(1)] by (simp add: order_ok_def)
  from MI_interfereLoop_total [OF this fi] obtain pow rm1 where
    l: "MI_interfereLoop rnd ?intf mem dst (ord (dom ?intf)) (MI_getRssiAmbientNoise rm) rm = Inr (pow, rm1)" "faded rm rm1"
    by blast
  have q1: "rmEventQ rm1" using faded_simps(2) [OF l(2)] assms(3) by simp
  show ?thesis
  proof (cases pow)
    case None
    with l MI_log_total [OF q1, of "evTimestamp e" "rnId (mem dst)" "''Detected self-transmission of Node, set Rx OT_ERROR_ABORT''"]
    show ?thesis by (auto simp: MI_applyInterference_def Let_def)
  next
    case (Some p)
    obtain r rm2 where g: "MI_GetTxRssi rnd rm1 (mem src) (mem dst) = Inr (r, rm2)" "faded rm1 rm2"
      using MI_GetTxRssi_total [OF faded_inv [OF l(2)]] by blast
    have q2: "rmEventQ rm2" using faded_simps(2) [OF g(2)] q1 by simp
    obtain e' b where b: "applyBerModel u (r - p) e = Inr (e', b)" using applyBerModel_total [OF assms(4)] by blast
    obtain evs where lg: "MI_log rm2 (evTimestamp e) (rnId (mem dst)) msg = Inr evs"
      "list_all (\<lambda>l. evTimestamp l = evTimestamp e \<and> evType l = EventTypeRadioLog) evs" using MI_log_total [OF q2] by blast
    from l(1) Some g(1) b lg faded_trans [OF l(2) g(2)] show ?thesis by (cases b) (auto simp: MI_applyInterference_def Let_def)
  qed
qed

lemma MI_dispatch_faded:
  assumes "mi_inv rm mem F" "order_ok ord" "rmEventQ rm" "dispatch_ok e"
  shows "\<exists>rm' mem' e' ok evs. MI_OnEventDispatch rnd u msg ord rm mem src dst e = Inr (rm', mem', e', ok, evs) \<and>
    faded rm rm' \<and> same_ids mem mem' \<and>
    list_all (\<lambda>l. evTimestamp l = evTimestamp e \<and> evType l = EventTypeRadioLog) evs"
proof -
  have fi: "fading_inv (miFading rm)" using assms(1) by (simp add: mi_inv_def mi_core_def)
  obtain r rm1 where g: "MI_GetTxRssi rnd rm (mem src) (mem dst) = Inr (r, rm1)" "faded rm rm1"
    using MI_GetTxRssi_total [OF fi] by blast
  note i1 = faded_mi_inv [OF g(2) assms(1)]
  have q1: "rmEventQ rm1" using faded_simps(2) [OF g(2)] assms(3) by simp
  consider (start) "evType e = EventTypeRadioCommStart" | (rxdone) "evType e = EventTypeRadioRxDone"
    | (sample) "evType e = EventTypeRadioChannelSample" "rcError (evRadioCommData e) = OT_ERROR_NONE"
    | (other) "evType e \<noteq> EventTypeRadioCommStart" "evType e \<noteq> EventTypeRadioRxDone"
        "evType e = EventTypeRadioChannelSample \<longrightarrow> rcError (evRadioCommData e) \<noteq> OT_ERROR_NONE"
    by blast
  then show ?thesis
  proof cases
    case start
    with g show ?thesis by (auto simp: MI_OnEventDispatch_def)
  next
    case rxdone
    let ?e = "set_PowerDbm e (clipRssi r)"
    have "length (evData ?e) \<ge> 2" using rxdone assms(4) by (simp add: dispatch_ok_def set_PowerDbm_def)
    from MI_applyInterference_total [OF i1 assms(2) q1 this, of rnd u msg src dst] obtain rm2 e2 evs where
      a: "MI_applyInterference rnd u msg ord rm1 mem src dst ?e = Inr (rm2, e2, evs)" "faded rm1 rm2"
        "list_all (\<lambda>l. evTimestamp l = evTimestamp e \<and> evType l = EventTypeRadioLog) evs"
      by (auto simp: set_PowerDbm_def)
    with rxdone g faded_trans [OF g(2) a(2)] show ?thesis by (auto simp: MI_OnEventDispatch_def)
  next
    case sample
    from MI_getRssiOnChannel_total [OF assms(1,2)] obtain r2 rm2 where
      s: "MI_getRssiOnChannel rnd ord rm mem src (evChannel e) = Inr (r2, rm2)" "faded rm rm2" by blast
    let ?mem = "if r2 > rnRssiSampleMax (mem src) then mem(src := (mem src)\<lparr>rnRssiSampleMax := r2\<rparr>) else mem"
    have "same_ids mem ?mem" by (simp add: same_ids_def)
    with sample s show ?thesis by (auto simp: MI_OnEventDispatch_def Let_def)
  next
    case other
    with faded_refl [OF fi] show ?thesis by (auto simp: MI_OnEventDispatch_def)
  qed
qed

lemma MI_dispatch_law:
  assumes "mi_inv rm mem F" "order_ok ord" "rmEventQ rm" "dispatch_ok e"
  shows "\<exists>rm' mem' e' ok evs. MI_OnEventDispatch rnd u msg ord rm mem src dst e = Inr (rm', mem', e', ok, evs) \<and> mi_inv rm' mem' F \<and>
    rmNodes rm' = rmNodes rm \<and> rmEventQ rm' \<and> same_ids mem mem' \<and>
    list_all (\<lambda>l. evTimestamp l = evTimestamp e \<and> evType l = EventTypeRadioLog) evs"
proof -
  obtain rm' mem' e' ok evs where
    d: "MI_OnEventDispatch rnd u msg ord rm mem src dst e = Inr (rm', mem', e', ok, evs)" "faded rm rm'" "same_ids mem mem'"
      "list_all (\<lambda>l. evTimestamp l = evTimestamp e \<and> evType l = EventTypeRadioLog) evs"
    using MI_dispatch_faded [OF assms] by blast
  with mi_inv_mem [OF faded_mi_inv [OF d(2) assms(1)] d(3)] faded_simps [OF d(2)] assms(3) show ?thesis by auto
qed

lemma mi_core_stats: "mi_core (rm\<lparr>rmChannelStats := s\<rparr>) F = mi_core rm F"
  by (simp add: mi_core_def)

lemma order_ok_set: "order_ok ord \<Longrightarrow> finite S \<Longrightarrow> set (ord S) = S"
  by (simp add: order_ok_def)

lemma marks_total:
  assumes "set is \<subseteq> dom tx" "nid \<notin> set is" "nid \<in> dom m" "set is \<subseteq> dom m" "\<And>i. finite (dom (nget m i))"
  shows "\<exists>m'. foldr_res (MI_markInterference tx nid node) is m = Inr m' \<and> dom m' = dom m \<and> (\<forall>i. finite (dom (nget m' i)))"
proof (rule foldr_res_total [where P = "\<lambda>m'. dom m' = dom m \<and> (\<forall>i. finite (dom (nget m' i)))"])
  fix i and m' :: "NodeId \<rightharpoonup> (NodeId \<rightharpoonup> rptr)"
  assume i: "i \<in> set is" and m': "dom m' = dom m \<and> (\<forall>i. finite (dom (nget m' i)))"
  with assms obtain v where v: "tx i = Some v" by auto
  have "i \<noteq> nid" "nid \<in> dom m'" "i \<in> dom m'" using assms i m' by auto
  with v m' show "\<exists>s'. MI_markInterference tx nid node i m' = Inr s' \<and> dom s' = dom m \<and> (\<forall>i. finite (dom (nget s' i)))"
    by (simp add: MI_markInterference_def nput_dom) (auto simp: insert_absorb)
qed (use assms(5) in simp)

lemma MI_txStart_total:
  assumes "mi_inv rm mem F" "order_ok ord" "chan_ok (evChannel e)" "rnId (mem p) = evNodeId e" "evFlight e \<notin> F"
  shows "\<exists>rm' mem'. MI_txStart ord rm mem p e = Inr (rm', mem',
      (if rcError (evRadioCommData e) = OT_ERROR_NONE then [rxStartEvent e] else []) @ [txDoneInternalEvent e]) \<and>
    base_inv rm' mem' F \<and> mi_core rm' (insert (evFlight e) F) \<and> same_ids mem mem' \<and>
    rmNodes rm' = rmNodes rm \<and> rmEventQ rm' = rmEventQ rm"
proof -
  let ?tx = "nget (miActiveTransmitters rm) (evChannel e)"
  let ?nid = "evNodeId e"
  have no: "?tx ?nid = None" using mi_inv_active [OF assms(1)] assms(5) by (cases "?tx ?nid") auto
  have os: "set (ord (dom ?tx)) = dom ?tx" using assms(2) mi_inv_finite(1) [OF assms(1)] by (simp add: order_ok_def)
  define m0 where "m0 = (miInterferedBy rm)(?nid \<mapsto> Map.empty)"
  have "\<exists>m'. foldr_res (MI_markInterference ?tx ?nid p) (ord (dom ?tx)) m0 = Inr m' \<and> dom m' = dom m0 \<and> (\<forall>i. finite (dom (nget m' i)))"
  proof (rule marks_total)
    show "set (ord (dom ?tx)) \<subseteq> dom m0" using os mi_inv_active [OF assms(1)] by (fastforce simp: m0_def)
  qed (use os no mi_inv_finite(2) [OF assms(1)] in \<open>auto simp: m0_def\<close>)
  then obtain m' where m': "foldr_res (MI_markInterference ?tx ?nid p) (ord (dom ?tx)) m0 = Inr m'" "dom m' = dom m0"
    "\<forall>i. finite (dom (nget m' i))" by blast
  define rm' where "rm' = rm\<lparr>miInterferedBy := m', miActiveTransmitters := (miActiveTransmitters rm)(evChannel e \<mapsto> ?tx(?nid \<mapsto> p))\<rparr>"
  define mem1 where "mem1 = mem(p := (mem p)\<lparr>rnTxPower := of_int (sint (rcPowerDbm (evRadioCommData e)))\<rparr>)"
  define mem' where "mem' = mem1(p := (mem1 p)\<lparr>rnRadioChannel := evChannel e\<rparr>)"
  have ids: "same_ids mem mem'" by (simp add: mem'_def mem1_def same_ids_def)
  have "nput (miActiveTransmitters rm) (evChannel e) ?nid p = Inr ((miActiveTransmitters rm)(evChannel e \<mapsto> ?tx(?nid \<mapsto> p)))"
    using mi_inv_chan [OF assms(1,3)] by (rule nput_dom)
  then have "MI_txStart ord rm mem p e = Inr (rm', mem',
      (if rcError (evRadioCommData e) = OT_ERROR_NONE then [rxStartEvent e] else []) @ [txDoneInternalEvent e])"
    using no assms(4) m'(1) mem_SetChannel_ok [OF assms(3)] mi_inv_samplers [OF assms(1)]
    by (simp add: MI_txStart_def Let_def m0_def [symmetric] mem1_def mem'_def rm'_def)
  moreover have "base_inv rm' mem' F" using base_inv_mem [OF mi_inv_base [OF assms(1)] ids] by (simp add: rm'_def)
  moreover have "mi_core rm' (insert (evFlight e) F)"
    using assms(1,3) m'(2,3) by (auto simp: mi_inv_def mi_core_def rm'_def m0_def)
  ultimately show ?thesis using ids by (auto simp: rm'_def)
qed

lemma MI_update_none:
  "order_ok ord \<Longrightarrow> mi_core rm F \<Longrightarrow> evType e = EventTypeRadioCommStart \<Longrightarrow>
    MI_updateChannelSamplingNodes rnd ord rm mem p e = Inr (rm, mem)"
  using order_ok_set [of ord "{}"]
  by (simp add: MI_updateChannelSamplingNodes_def Let_def mi_core_def)

lemma MI_txStop_inv:
  assumes "mi_inv rm mem F" "rnId (mem p) = evNodeId e" "MI_txStop rm mem p e = (rm', mem', evs)"
  shows "base_inv rm' mem' F \<and> mi_core rm' (F - {evFlight e}) \<and> same_ids mem mem' \<and> rmNodes rm' = rmNodes rm \<and>
    rmEventQ rm' = rmEventQ rm \<and>
    evs = [txDoneDispatchEvent e] @ (if rcError (evRadioCommData e) = OT_ERROR_NONE
      then [set_Error (rxDoneEvent e) (if evChannel e \<noteq> rnRadioChannel (mem p) then OT_ERROR_FCS else OT_ERROR_NONE)] else [])"
proof -
  let ?mem = "mem(p := RadioNode_SetTxDone (mem p))"
  have m: "mem' = ?mem" using assms(3) by (simp add: MI_txStop_def Let_def)
  have ids: "same_ids mem ?mem" by (simp add: same_ids_def RadioNode_SetTxDone_def)
  have ch: "rnRadioChannel (RadioNode_SetTxDone (mem p)) = rnRadioChannel (mem p)"
    "rnId (RadioNode_SetTxDone (mem p)) = evNodeId e" using assms(2) by (simp_all add: RadioNode_SetTxDone_def)
  define act where "act = ndel (if evChannel e \<noteq> rnRadioChannel (mem p)
    then ndel (miActiveTransmitters rm) (rnRadioChannel (mem p)) (evNodeId e) else miActiveTransmitters rm) (evChannel e) (evNodeId e)"
  have rm': "rm' = rm\<lparr>miActiveTransmitters := act\<rparr>"
    using assms(3) ch by (auto simp: MI_txStop_def Let_def act_def)
  have act: "nget act c i = Some q \<Longrightarrow> nget (miActiveTransmitters rm) c i = Some q \<and> (i, c) \<noteq> evFlight e" for c i q
    by (auto simp: act_def split: if_splits)
  have fin: "finite (dom (nget act c))" for c
    using mi_inv_finite(1) [OF assms(1), of c] act
    by (elim rev_finite_subset) auto
  have dm: "dom act = dom (miActiveTransmitters rm)" by (simp add: act_def)
  have "mi_core rm' (F - {evFlight e})"
    using assms(1) act fin dm unfolding mi_inv_def mi_core_def rm' by fastforce
  then show ?thesis
    using base_inv_mem [OF mi_inv_base [OF assms(1)] ids] ids assms(3) ch by (auto simp: m rm' MI_txStop_def Let_def)
qed

lemma MI_sample_total:
  assumes "mi_inv rm mem F" "order_ok ord" "chan_ok (evChannel e)"
  shows "\<exists>rm' mem' e'. MI_channelSampleStart rnd ord rm mem p e = Inr (rm', mem', [sampleDoneEvent (set_Error e e')]) \<and>
    faded rm rm' \<and> same_ids mem mem'"
proof -
  have fi: "fading_inv (miFading rm)" using assms(1) by (simp add: mi_inv_def mi_core_def)
  have self: "set_Error e (rcError (evRadioCommData e)) = e" by (simp add: set_Error_def)
  show ?thesis
  proof (cases "nget (miActiveTransmitters rm) (evChannel e) (rnId (mem p)) \<noteq> None \<or>
      nget (miActiveChannelSamplers rm) (evChannel e) (rnId (mem p)) \<noteq> None")
    case True
    with fi show ?thesis by (auto simp: MI_channelSampleStart_def Let_def faded_refl)
  next
    case False
    define mem1 where "mem1 = mem(p := (mem p)\<lparr>rnRadioChannel := evChannel e\<rparr>)"
    obtain r rm' where r: "MI_getRssiOnChannel rnd ord rm mem1 p (evChannel e) = Inr (r, rm')" "faded rm rm'"
      using MI_getRssiOnChannel_total [OF assms(1,2)] by blast
    have "same_ids mem (mem1(p := (mem1 p)\<lparr>rnRssiSampleMax := r\<rparr>))" by (simp add: mem1_def same_ids_def)
    with False r mem_SetChannel_ok [OF assms(3)] self show ?thesis
      by (intro exI [of _ rm'] exI [of _ "mem1(p := (mem1 p)\<lparr>rnRssiSampleMax := r\<rparr>)"] exI [of _ "rcError (evRadioCommData e)"])
        (auto simp: MI_channelSampleStart_def Let_def mem1_def)
  qed
qed

lemma MI_handle_law:
  assumes "mi_inv rm mem F" "order_ok ord" "rmNodes rm (evNodeId e) = Some p" "handle_ok F e"
  shows "\<exists>rm' mem' evs. MI_HandleEvent rnd ord rm mem p e = Inr (rm', mem', evs) \<and> mi_inv rm' mem' (flights_after F e) \<and>
    rmNodes rm' = rmNodes rm \<and> rmEventQ rm' \<and> same_ids mem mem' \<and> scheduled_by e evs"
proof -
  let ?rm = "rm\<lparr>rmEventQ := True\<rparr>"
  have b: "mi_inv ?rm mem F" using assms(1) by (rule mi_inv_EventQ)
  have i: "rnId (mem p) = evNodeId e" using base_inv_node [OF mi_inv_base [OF assms(1)] assms(3)] .
  consider (start) "evType e = EventTypeRadioCommStart" | (stop) "evType e = EventTypeRadioTxDone"
    | (sample) "evType e = EventTypeRadioChannelSample" | (state) "evType e = EventTypeRadioState"
    | (other) "evType e \<notin> {EventTypeRadioCommStart, EventTypeRadioTxDone, EventTypeRadioChannelSample, EventTypeRadioState}"
    by blast
  then show ?thesis
  proof cases
    case start
    then have ch: "chan_ok (evChannel e)" "evFlight e \<notin> F" using assms(4) by (simp_all add: handle_ok_def)
    obtain rm1 mem1 where tx: "MI_txStart ord ?rm mem p e = Inr (rm1, mem1,
        (if rcError (evRadioCommData e) = OT_ERROR_NONE then [rxStartEvent e] else []) @ [txDoneInternalEvent e])"
      and r1: "base_inv rm1 mem1 F" "mi_core rm1 (insert (evFlight e) F)" "same_ids mem mem1" "rmNodes rm1 = rmNodes rm" "rmEventQ rm1"
      using MI_txStart_total [OF b assms(2) ch(1) i ch(2)] by auto
    obtain rm' mem' where st: "statsTxStart rm1 mem1 p e = (rm', mem')" by fastforce
    have "rnId (mem1 p) = evNodeId e" using i r1(3) by (simp add: same_ids_def)
    from base_inv_TxStart [OF r1(1) this st] have
      r: "base_inv rm' mem' (insert (evFlight e) F)" "rmNodes rm' = rmNodes rm" "same_ids mem1 mem'"
        and eq: "rm' = rm1\<lparr>rmChannelStats := rmChannelStats rm'\<rparr>"
      using r1(4) by simp_all
    have q: "rmEventQ rm'" by (subst eq) (simp add: r1(5))
    have c: "mi_core rm' (insert (evFlight e) F)" by (subst eq) (simp add: mi_core_stats r1(2))
    show ?thesis
      using start st r tx q c same_ids_trans [OF r1(3)] MI_update_none [OF assms(2) c start]
      by (simp add: MI_HandleEvent_def Let_def flights_after_def scheduled_simps mi_inv_def)
  next
    case stop
    then have fl: "evFlight e \<in> F" using assms(4) by (simp add: handle_ok_def)
    obtain rm1 mem1 evs where tx: "MI_txStop ?rm mem p e = (rm1, mem1, evs)" by (cases "MI_txStop ?rm mem p e") auto
    note r = MI_txStop_inv [OF b i tx]
    have "rnId (mem1 p) = evNodeId e" using i r by (simp add: same_ids_def)
    from base_inv_TxStop [of rm1 mem1 F p e, OF _ this fl] r obtain cs where
      "statsTxStop rm1 mem1 p e = Inr (rm1\<lparr>rmChannelStats := (rmChannelStats rm1)(evChannel e \<mapsto> cs)\<rparr>)"
      "base_inv (rm1\<lparr>rmChannelStats := (rmChannelStats rm1)(evChannel e \<mapsto> cs)\<rparr>) mem1 (F - {evFlight e})" by auto
    with stop tx r show ?thesis
      by (simp add: MI_HandleEvent_def Let_def flights_after_def scheduled_simps mi_inv_def mi_core_stats)
  next
    case sample
    then have ch: "chan_ok (evChannel e)" using assms(4) by (simp add: handle_ok_def)
    from MI_sample_total [OF b assms(2) ch] obtain rm1 mem1 e' where
      s: "MI_channelSampleStart rnd ord ?rm mem p e = Inr (rm1, mem1, [sampleDoneEvent (set_Error e e')])"
        "faded ?rm rm1" "same_ids mem mem1" by blast
    note s2 = same_ids_trans [OF s(3) statsChannelSample_ids [of mem1 p]]
    from sample mi_inv_mem [OF faded_mi_inv [OF s(2) b] s2] s2 s faded_simps [OF s(2)] show ?thesis
      by (simp add: MI_HandleEvent_def Let_def flights_after_def scheduled_simps)
  next
    case state
    then have "chan_ok (rsChannel (evRadioStateData e))" using assms(4) by (simp add: handle_ok_def)
    from handleRadioState_ok [OF this] obtain mem1 where "handleRadioStateEvent mem p e = Inr mem1" "same_ids mem mem1" by blast
    with state mi_inv_mem [OF b] show ?thesis
      by (simp add: MI_HandleEvent_def Let_def flights_after_def scheduled_by_def)
  next
    case other
    with b show ?thesis
      by (simp add: MI_HandleEvent_def Let_def flights_after_def scheduled_by_def)
  qed
qed

lemma fold_ndel_nget: "nget (fold (\<lambda>c m. ndel m c i) cs m) ch = (if ch \<in> set cs then (nget m ch)(i := None) else nget m ch)"
  by (induction cs arbitrary: m) auto

lemma fold_ndel_dom [simp]: "dom (fold (\<lambda>c m. ndel m c i) cs m) = dom m"
  by (induction cs arbitrary: m) auto

lemma chan_ok_all: "chan_ok ch \<longleftrightarrow> ch \<in> set allChannels"
proof
  assume "chan_ok ch"
  then have "unat ch < 40" by (simp add: chan_ok_def word_le_nat_alt)
  then show "ch \<in> set allChannels" unfolding allChannels_def by (auto intro!: image_eqI [of _ _ "unat ch"])
next
  assume "ch \<in> set allChannels"
  then obtain n where "ch = of_nat n" "n < 40" by (auto simp: allChannels_def)
  then show "chan_ok ch" by (simp add: chan_ok_def word_le_nat_alt unat_of_nat)
qed

lemma MI_delete_law:
  assumes "mi_inv rm mem F" "rmNodes rm i = Some p"
  shows "\<exists>rm'. MI_DeleteNode rm mem i = Inr rm' \<and> mi_inv rm' mem {x \<in> F. fst x \<noteq> i} \<and>
    rmNodes rm' = (rmNodes rm)(i := None) \<and> rmEventQ rm' = rmEventQ rm"
proof -
  let ?s = "statsDeleteNode rm (mem p)"
  note d = base_inv_DeleteNode [OF mi_inv_base [OF assms(1)] assms(2)]
  have mi: "miFading ?s = miFading rm" "miActiveTransmitters ?s = miActiveTransmitters rm"
    "miActiveChannelSamplers ?s = miActiveChannelSamplers rm" "miInterferedBy ?s = miInterferedBy rm"
    by (rule statsDeleteNode_cases [where rm = rm and node = "mem p"]; simp)+
  define rm' where "rm' = ?s\<lparr>rmNodes := (rmNodes ?s)(i := None),
      miActiveTransmitters := fold (\<lambda>c m. ndel m c i) allChannels (miActiveTransmitters rm),
      miActiveChannelSamplers := fold (\<lambda>c m. ndel m c i) allChannels (miActiveChannelSamplers rm),
      miInterferedBy := (miInterferedBy rm)(i \<mapsto> Map.empty)\<rparr>"
  have e: "MI_DeleteNode rm mem i = Inr rm'" using assms(2) mi by (simp add: MI_DeleteNode_def Let_def rm'_def)
  have b: "base_inv rm' mem {x \<in> F. fst x \<noteq> i}" using d(1,2) by (simp add: rm'_def base_inv_def)
  have ch: "chan_ok ch" if "nget (miActiveTransmitters rm) ch j = Some q" for ch j q
    using assms(1) that unfolding mi_inv_def mi_core_def by blast
  have act: "nget (miActiveTransmitters rm') ch = (nget (miActiveTransmitters rm) ch)(i := None)" for ch
  proof (cases "chan_ok ch")
    case False
    then have "nget (miActiveTransmitters rm) ch i = None" using ch [of ch i] by (cases "nget (miActiveTransmitters rm) ch i") auto
    with False show ?thesis by (auto simp: rm'_def fold_ndel_nget chan_ok_all)
  qed (auto simp: rm'_def fold_ndel_nget chan_ok_all)
  have "mi_core rm' {x \<in> F. fst x \<noteq> i}"
    unfolding mi_core_def
  proof (intro conjI allI impI)
    fix ch j assume "nget (miActiveTransmitters rm') ch j \<noteq> None"
    then obtain q where q: "nget (miActiveTransmitters rm) ch j = Some q" "j \<noteq> i" by (auto simp: act split: if_splits)
    from mi_inv_active [OF assms(1) q(1)] q ch show "chan_ok ch" "(j, ch) \<in> {x \<in> F. fst x \<noteq> i}" "j \<in> dom (miInterferedBy rm')"
      by (auto simp: rm'_def)
  next
    fix j show "finite (dom (nget (miInterferedBy rm') j))" using mi_inv_finite(2) [OF assms(1)] by (simp add: rm'_def)
  next
    fix ch show "finite (dom (nget (miActiveTransmitters rm') ch))" using mi_inv_finite(1) [OF assms(1)] by (simp add: act)
  next
    fix ch show "nget (miActiveChannelSamplers rm') ch = Map.empty"
      using mi_inv_samplers [OF assms(1)] by (simp add: rm'_def fold_ndel_nget)
  qed (use assms(1) mi(1) in \<open>simp_all add: rm'_def mi_inv_def mi_core_def\<close>)
  with e b d(2,3) show ?thesis by (simp add: mi_inv_def rm'_def)
qed

interpretation mutual: radio_model rmNodes rmEventQ MI_AddNode MI_DeleteNode MI_OnNextEventTime
  MI_HandleEvent MI_OnEventDispatch mi_inv
proof (unfold_locales, goal_cases)
  case (1 rm mem F i p)
  then show ?case by (blast intro: base_inv_node mi_inv_base)
next
  case (2 rm mem F p)
  then have "base_inv (MI_AddNode rm mem p) mem F" by (intro base_inv_add [OF mi_inv_base]) (simp_all add: MI_AddNode_def)
  moreover have "mi_core (MI_AddNode rm mem p) F" using 2 by (auto simp: MI_AddNode_def mi_inv_def mi_core_def)
  ultimately show ?case by (simp add: mi_inv_def MI_AddNode_def)
next
  case (3 rm mem F i p)
  then show ?case by (rule MI_delete_law)
next
  case (4 rm mem F ts)
  then show ?case by (simp add: MI_OnNextEventTime_def mi_inv_def base_inv_def mi_core_def fading_inv_advance)
next
  case (5 rm mem F ord e p rnd)
  then show ?case by (rule MI_handle_law)
next
  case (6 rm mem F ord e rnd u msg src dst)
  then show ?case by (rule MI_dispatch_law)
qed

section \<open>Dynamic dispatch\<close>

fun RadioModel_nodes :: "RadioModel \<Rightarrow> NodeId \<rightharpoonup> rptr" where
  "RadioModel_nodes (RMIdeal rm) = rmNodes rm"
| "RadioModel_nodes (RMMutual rm) = rmNodes rm"

fun RadioModel_queueSet :: "RadioModel \<Rightarrow> bool" where
  "RadioModel_queueSet (RMIdeal rm) = rmEventQ rm"
| "RadioModel_queueSet (RMMutual rm) = rmEventQ rm"

fun rmodel_inv :: "RadioModel \<Rightarrow> rmem \<Rightarrow> flights \<Rightarrow> bool" where
  "rmodel_inv (RMIdeal rm) mem F = base_inv rm mem F"
| "rmodel_inv (RMMutual rm) mem F = mi_inv rm mem F"

interpretation anyrm: radio_model RadioModel_nodes RadioModel_queueSet RadioModel_AddNode RadioModel_DeleteNode
  RadioModel_OnNextEventTime RadioModel_HandleEvent RadioModel_OnEventDispatch rmodel_inv
proof (unfold_locales, goal_cases)
  case (1 rm mem F i p)
  then show ?case by (cases rm) (auto dest: ideal.inv_nodes mutual.inv_nodes)
next
  case (2 rm mem F p)
  then show ?case by (cases rm) (simp_all add: ideal.add_law mutual.add_law)
next
  case (3 rm mem F i p)
  show ?case
  proof (cases rm)
    case (RMIdeal x)
    with 3 ideal.delete_law [of x mem F i p] show ?thesis by auto
  next
    case (RMMutual x)
    with 3 mutual.delete_law [of x mem F i p] show ?thesis by auto
  qed
next
  case (4 rm mem F ts)
  then show ?case by (cases rm) (simp_all add: ideal.time_law mutual.time_law)
next
  case (5 rm mem F ord e p rnd)
  show ?case
  proof (cases rm)
    case (RMIdeal x)
    with 5 have "base_inv x mem F" "rmNodes x (evNodeId e) = Some p" by simp_all
    from ideal.handle_law [OF this(1) 5(2) this(2) 5(4)] RMIdeal show ?thesis by auto
  next
    case (RMMutual x)
    with 5 have "mi_inv x mem F" "rmNodes x (evNodeId e) = Some p" by simp_all
    from mutual.handle_law [OF this(1) 5(2) this(2) 5(4), of rnd] RMMutual show ?thesis by auto
  qed
next
  case (6 rm mem F ord e rnd u msg src dst)
  show ?case
  proof (cases rm)
    case (RMIdeal x)
    with 6 have "base_inv x mem F" "rmEventQ x" by simp_all
    from ideal.dispatch_law [OF this(1) 6(2) this(2) 6(4), of rnd u msg src dst] RMIdeal show ?thesis
      by (auto simp: Ideal_dispatch_def split: prod.splits)
  next
    case (RMMutual x)
    with 6 have "mi_inv x mem F" "rmEventQ x" by simp_all
    from mutual.dispatch_law [OF this(1) 6(2) this(2) 6(4), of rnd u msg src dst] RMMutual show ?thesis by auto
  qed
qed

text \<open>The new models satisfy the invariant, with no transmission in flight.\<close>

lemma fold_init_map: "fold (\<lambda>c m. m(c \<mapsto> Map.empty)) cs m = (\<lambda>c. if c \<in> set cs then Some Map.empty else m c)"
  by (induction cs arbitrary: m) auto

definition fresh_model :: "RadioModel \<Rightarrow> bool" where
  "fresh_model rm \<longleftrightarrow> (\<forall>mem. rmodel_inv rm mem {}) \<and> RadioModel_nodes rm = Map.empty \<and> \<not> RadioModel_queueSet rm"

lemma fresh_ideal: "fresh_model (RMIdeal (Ideal_init (rawIdeal name params)))"
  by (simp add: fresh_model_def Ideal_init_def rawIdeal_def base_inv_def)

lemma fresh_mutual: "fresh_model (RMMutual (MI_init (rawMutual name params prev seed)))"
  by (auto simp: fresh_model_def MI_init_def Ideal_init_def rawMutual_def base_inv_def mi_inv_def
      mi_core_def fading_inv_new chan_ok_all fold_init_map nget_def)

lemma NewRadioModel_pred: "pred_option fresh_model (NewRadioModel seed name)"
  unfolding NewRadioModel_def if_distrib [of "pred_option fresh_model"] option.pred_inject
  by (simp only: fresh_ideal fresh_mutual if_cancel option.pred_inject(1))

lemma NewRadioModel_fresh: "NewRadioModel seed name = Some rm \<Longrightarrow> fresh_model rm"
  using NewRadioModel_pred [of seed name] by simp

text \<open>A sequence of calls of the interface, with the events that each puts on the queue.\<close>

fun RadioModel_call :: "randFun \<Rightarrow> real \<Rightarrow> string \<Rightarrow> iterOrder \<Rightarrow> radio_call \<Rightarrow> RadioModel \<times> rmem \<Rightarrow>
    (RadioModel \<times> rmem \<times> Event list) res" where
  "RadioModel_call rnd u msg ord (CAdd p) (rm, mem) = Inr (RadioModel_AddNode rm mem p, mem, [])"
| "RadioModel_call rnd u msg ord (CDelete i) (rm, mem) = bindr (RadioModel_DeleteNode rm mem i) (\<lambda>rm'. Inr (rm', mem, []))"
| "RadioModel_call rnd u msg ord (CTime ts) (rm, mem) = Inr (RadioModel_OnNextEventTime rm ts, mem, [])"
| "RadioModel_call rnd u msg ord (CHandle e) (rm, mem) =
     bindr (derefr (RadioModel_nodes rm (evNodeId e))) (\<lambda>p. RadioModel_HandleEvent rnd ord rm mem p e)"
| "RadioModel_call rnd u msg ord (CDispatch src dst e) (rm, mem) =
     bindr (RadioModel_OnEventDispatch rnd u msg ord rm mem src dst e) (\<lambda>(rm', mem', _, _, evs). Inr (rm', mem', evs))"

fun RadioModel_run :: "randFun \<Rightarrow> real \<Rightarrow> string \<Rightarrow> iterOrder \<Rightarrow> radio_call list \<Rightarrow> RadioModel \<times> rmem \<Rightarrow>
    (RadioModel \<times> rmem \<times> Event list list) res" where
  "RadioModel_run rnd u msg ord [] (rm, mem) = Inr (rm, mem, [])"
| "RadioModel_run rnd u msg ord (c # cs) (rm, mem) =
     bindr (RadioModel_call rnd u msg ord c (rm, mem)) (\<lambda>(rm', mem', evs).
     bindr (RadioModel_run rnd u msg ord cs (rm', mem')) (\<lambda>(rm'', mem'', evss). Inr (rm'', mem'', evs # evss)))"

lemma RadioModel_call_eq: "RadioModel_call rnd u msg ord c s = anyrm.call rnd u msg ord c s"
  by (cases c; cases s) simp_all

lemma RadioModel_run_eq: "RadioModel_run rnd u msg ord cs s = anyrm.run rnd u msg ord cs s"
proof (induction cs arbitrary: s)
  case Nil
  then show ?case by (cases s) simp
next
  case (Cons c cs)
  then show ?case by (cases s) (simp add: RadioModel_call_eq)
qed

text \<open>The events that a call may put on the queue: nothing is scheduled in the past.\<close>

definition call_in_time :: "radio_call \<Rightarrow> Event list \<Rightarrow> bool" where
  "call_in_time c evs = (case c of
      CHandle e \<Rightarrow> scheduled_by e evs
    | CDispatch src dst e \<Rightarrow> list_all (\<lambda>l. evTimestamp l = evTimestamp e \<and> evType l = EventTypeRadioLog) evs
    | _ \<Rightarrow> evs = [])"

lemma call_in_time_eq: "call_in_time = anyrm.in_time"
  by (intro ext) (simp add: call_in_time_def anyrm.in_time_def)

section \<open>Properties\<close>

text \<open>
  C4. Every radio model is safe for the dispatcher: for each model that \<open>NewRadioModel\<close> creates, any
  sequence of \<open>AddNode\<close>, \<open>DeleteNode\<close>, \<open>OnNextEventTime\<close>, \<open>HandleEvent\<close> and \<open>OnEventDispatch\<close> calls that
  follows the transmission protocol runs without a panic, whatever the random numbers and the order of
  the map iterations. \<open>HandleEvent\<close> schedules for the start of a transmission exactly one internal event,
  its end at the end of the frame, and no other internal event; every event it schedules is for the same
  node and for now or the end of the frame; \<open>OnEventDispatch\<close> only adds log events, for now.
\<close>

theorem RadioModel_safe:
  assumes "NewRadioModel seed name = Some rm" "order_ok ord"
    and "protocol (\<lambda>p. rnId (mem p)) Map.empty False {} calls"
  shows "\<exists>rm' mem' evss. RadioModel_run rnd u msg ord calls (rm, mem) = Inr (rm', mem', evss) \<and>
    list_all2 call_in_time calls evss"
proof -
  have "rmodel_inv rm mem {}" "protocol (\<lambda>p. rnId (mem p)) (RadioModel_nodes rm) False {} calls"
    using NewRadioModel_fresh [OF assms(1)] assms(3) by (simp_all add: fresh_model_def)
  from anyrm.run_safe [OF this(1) assms(2) _ this(2), of rnd u msg] show ?thesis
    by (auto simp: RadioModel_run_eq call_in_time_eq)
qed

definition exampleFrame :: "EventType \<Rightarrow> NodeId \<Rightarrow> u64 \<Rightarrow> Event" where
  "exampleFrame t i ts = zeroEvent\<lparr>evType := t, evNodeId := i, evTimestamp := ts, evData := [11, 1, 2, 3],
     evRadioCommData := \<lparr>rcChannel = 11, rcPowerDbm = 10, rcError = 0, rcDuration = 300\<rparr>\<rparr>"

definition exampleCalls :: "radio_call list" where
  "exampleCalls = [CAdd 0, CAdd 1, CHandle (exampleFrame EventTypeRadioCommStart 1 100), CTime 150,
     CHandle (exampleFrame EventTypeRadioCommStart 2 150), CDelete 2,
     CHandle (exampleFrame EventTypeRadioTxDone 1 400), CDispatch 0 1 (exampleFrame EventTypeRadioRxDone 1 400)]"

definition exampleMem :: rmem where
  "exampleMem p = (if p = 0 then exampleRadioNode 1 0 else exampleRadioNode 2 50)"

lemma order_ok_sorted: "order_ok (sorted_list_of_set :: NodeId set \<Rightarrow> NodeId list)"
  by (simp add: order_ok_def)

theorem RadioModel_safe_witness:
  "\<exists>rm' mem' evss. RadioModel_run (\<lambda>seed ds. 1) (1 / 2) [] sorted_list_of_set exampleCalls
      (RMMutual (MI_init (rawMutual ''MutualInterference'' (setIndoorModelParams3gpp newRadioModelParams) newRadioModelParams 7)),
       exampleMem) = Inr (rm', mem', evss) \<and> list_all2 call_in_time exampleCalls evss"
  by (rule RadioModel_safe [of 7 "''MI''"])
    (auto simp: NewRadioModel_def order_ok_sorted exampleCalls_def exampleMem_def exampleRadioNode_def NewRadioNode_def
      exampleFrame_def handle_ok_def flights_after_def chan_ok_def dispatch_ok_def zeroEvent_def)

end
