(* ===== verification/Radio_Channel.thy ===== *)
theory Radio_Channel
  imports Radio_Laws
begin

text \<open>
  Functional correctness of the channel statistics, of the interference bookkeeping and of the bit
  error model: what \<open>statsTxStart\<close> and \<open>statsTxStop\<close> measure, which transmissions are recorded as
  interfering with each other, and what a receiver gets of a frame that collided.
\<close>

section \<open>Channel statistics\<close>

text \<open>The transmissions of one channel: who starts or stops when.\<close>

fun chan_run :: "'a RadioModelIdeal_scheme \<Rightarrow> rmem \<Rightarrow> (rptr \<times> Event) list \<Rightarrow> ('a RadioModelIdeal_scheme \<times> rmem) res" where
  "chan_run rm mem [] = Inr (rm, mem)"
| "chan_run rm mem ((p, e) # es) =
    (if evType e = EventTypeRadioCommStart
     then let (rm1, mem1) = statsTxStart rm mem p e in chan_run rm1 mem1 es
     else bindr (statsTxStop rm mem p e) (\<lambda>rm1. chan_run rm1 mem es))"

text \<open>The reference: the set of active transmitters and the time during which it was not empty.\<close>

definition active_after :: "NodeId set \<Rightarrow> NodeId \<times> bool \<times> u64 \<Rightarrow> NodeId set" where
  "active_after A x = (case x of (i, start, _) \<Rightarrow> if start then insert i A else A - {i})"

fun active_set :: "NodeId set \<Rightarrow> (NodeId \<times> bool \<times> u64) list \<Rightarrow> NodeId set" where
  "active_set A [] = A"
| "active_set A (x # xs) = active_set (active_after A x) xs"

fun busy :: "NodeId set \<Rightarrow> u64 \<Rightarrow> (NodeId \<times> bool \<times> u64) list \<Rightarrow> u64" where
  "busy A t [] = 0"
| "busy A t (x # xs) = (if A = {} then 0 else snd (snd x) - t) + busy (active_after A x) (snd (snd x)) xs"

fun stops_ok :: "NodeId set \<Rightarrow> (NodeId \<times> bool \<times> u64) list \<Rightarrow> bool" where
  "stops_ok A [] = True"
| "stops_ok A (x # xs) = ((fst (snd x) \<or> A \<noteq> {}) \<and> stops_ok (active_after A x) xs)"

definition tx_view :: "(rptr \<Rightarrow> NodeId) \<Rightarrow> rptr \<times> Event \<Rightarrow> NodeId \<times> bool \<times> u64" where
  "tx_view ids x = (ids (fst x), evType (snd x) = EventTypeRadioCommStart, evTimestamp (snd x))"

text \<open>The time counted at the moment \<open>t\<close>, the running transmission included.\<close>

definition counted :: "ChannelStats \<Rightarrow> u64 \<Rightarrow> u64" where
  "counted cs t = csTxTimeUs cs + (if csNumTransmitters cs = {} then 0 else t - csTxStartTime cs)"

definition chan_stats :: "'a RadioModelIdeal_scheme \<Rightarrow> ChannelId \<Rightarrow> ChannelStats" where
  "chan_stats rm ch = (case rmChannelStats rm ch of None \<Rightarrow> newChannelStats ch | Some cs \<Rightarrow> cs)"

lemma tx_view_pair: "tx_view ids (p, e) = (ids p, evType e = EventTypeRadioCommStart, evTimestamp e)"
  by (simp add: tx_view_def)

lemma statsTxStart_step:
  assumes "statsTxStart rm mem p e = (rm', mem')" "evChannel e = ch"
  shows "csNumTransmitters (chan_stats rm' ch) = insert (rnId (mem p)) (csNumTransmitters (chan_stats rm ch))"
    "counted (chan_stats rm' ch) (evTimestamp e) = counted (chan_stats rm ch) t +
       (if csNumTransmitters (chan_stats rm ch) = {} then 0 else evTimestamp e - t)"
    "csNumFrames (chan_stats rm' ch) = csNumFrames (chan_stats rm ch) + 1"
    "rnId (mem' q) = rnId (mem q)"
  using assms by (auto simp: statsTxStart_def Let_def chan_stats_def counted_def split: if_splits option.splits)

lemma statsTxStop_step:
  assumes "csNumTransmitters (chan_stats rm ch) \<noteq> {}" "evChannel e = ch"
  shows "\<exists>rm'. statsTxStop rm mem p e = Inr rm' \<and>
    csNumTransmitters (chan_stats rm' ch) = csNumTransmitters (chan_stats rm ch) - {rnId (mem p)} \<and>
    counted (chan_stats rm' ch) (evTimestamp e) = counted (chan_stats rm ch) t + (evTimestamp e - t) \<and>
    csNumFrames (chan_stats rm' ch) = csNumFrames (chan_stats rm ch)"
proof -
  obtain cs where "rmChannelStats rm ch = Some cs"
    using assms(1) by (auto simp: chan_stats_def newChannelStats_def split: option.splits)
  with assms show ?thesis by (auto simp: statsTxStop_def Let_def chan_stats_def counted_def)
qed

lemma chan_run_counts:
  assumes "list_all (\<lambda>x. evChannel (snd x) = ch) es"
    and "stops_ok (csNumTransmitters (chan_stats rm ch)) (map (tx_view (\<lambda>p. rnId (mem p))) es)"
  shows "\<exists>rm' mem'. chan_run rm mem es = Inr (rm', mem') \<and>
    csNumTransmitters (chan_stats rm' ch) = active_set (csNumTransmitters (chan_stats rm ch)) (map (tx_view (\<lambda>p. rnId (mem p))) es) \<and>
    counted (chan_stats rm' ch) (last (t # map (evTimestamp \<circ> snd) es)) =
      counted (chan_stats rm ch) t + busy (csNumTransmitters (chan_stats rm ch)) t (map (tx_view (\<lambda>p. rnId (mem p))) es) \<and>
    csNumFrames (chan_stats rm' ch) = csNumFrames (chan_stats rm ch) + of_nat (length (filter (\<lambda>x. evType (snd x) = EventTypeRadioCommStart) es))"
  using assms
proof (induction es arbitrary: rm mem t)
  case (Cons x es)
  obtain p e where x: "x = (p, e)" by (cases x)
  have ch: "evChannel e = ch" using Cons.prems(1) x by simp
  show ?case
  proof (cases "evType e = EventTypeRadioCommStart")
    case True
    obtain rm1 mem1 where s: "statsTxStart rm mem p e = (rm1, mem1)" by fastforce
    note st = statsTxStart_step [OF s ch]
    have ids: "(\<lambda>q. rnId (mem1 q)) = (\<lambda>q. rnId (mem q))" using st(4) by auto
    have "list_all (\<lambda>x. evChannel (snd x) = ch) es"
      "stops_ok (csNumTransmitters (chan_stats rm1 ch)) (map (tx_view (\<lambda>p. rnId (mem1 p))) es)"
      using Cons.prems True by (simp_all add: x st(1) ids active_after_def tx_view_pair)
    from Cons.IH [OF this, of "evTimestamp e"] True s show ?thesis
      by (auto simp: x st(1) st(2) [of t] st(3) ids active_after_def tx_view_pair add.assoc split: if_splits)
  next
    case False
    then have ne: "csNumTransmitters (chan_stats rm ch) \<noteq> {}" using Cons.prems(2) by (simp add: x tx_view_pair)
    obtain rm1 where s: "statsTxStop rm mem p e = Inr rm1"
      "csNumTransmitters (chan_stats rm1 ch) = csNumTransmitters (chan_stats rm ch) - {rnId (mem p)}"
      "counted (chan_stats rm1 ch) (evTimestamp e) = counted (chan_stats rm ch) t + (evTimestamp e - t)"
      "csNumFrames (chan_stats rm1 ch) = csNumFrames (chan_stats rm ch)"
      using statsTxStop_step [OF ne ch, of mem p t] by blast
    have "list_all (\<lambda>x. evChannel (snd x) = ch) es"
      "stops_ok (csNumTransmitters (chan_stats rm1 ch)) (map (tx_view (\<lambda>p. rnId (mem p))) es)"
      using Cons.prems False by (simp_all add: x s(2) active_after_def tx_view_pair)
    from Cons.IH [OF this, of "evTimestamp e"] False s ne show ?thesis
      by (auto simp: x active_after_def tx_view_pair add.assoc split: if_splits)
  qed
qed simp

lemma GetChannelStats_counted:
  assumes "rmChannelStats rm ch \<noteq> None" "csTxStartTime (chan_stats rm ch) \<le> rmTs rm"
  shows "\<exists>cs. snd (RadioModel_GetChannelStats rm ch) = Some cs \<and> csTxTimeUs cs = counted (chan_stats rm ch) (rmTs rm) \<and>
    csNumFrames cs = csNumFrames (chan_stats rm ch) \<and> counted (chan_stats (fst (RadioModel_GetChannelStats rm ch)) ch) t = counted (chan_stats rm ch) t"
  using assms by (auto simp: RadioModel_GetChannelStats_def chan_stats_def counted_def Let_def split: option.splits)

section \<open>Interference bookkeeping\<close>

definition recorded :: "MI \<Rightarrow> bool" where
  "recorded rm \<longleftrightarrow> (\<forall>ch i j p q. nget (miActiveTransmitters rm) ch i = Some p \<longrightarrow>
     nget (miActiveTransmitters rm) ch j = Some q \<longrightarrow> i \<noteq> j \<longrightarrow> nget (miInterferedBy rm) i j = Some q)"

lemma marks_effect:
  assumes "foldr_res (MI_markInterference tx nid node) is m = Inr m'" "nid \<notin> set is"
  shows "nget m' i j = (if i = nid \<and> j \<in> set is then tx j else if i \<in> set is \<and> j = nid then Some node else nget m i j)"
  using assms
proof (induction "is" arbitrary: m)
  case (Cons a "is")
  then obtain m1 where m1: "MI_markInterference tx nid node a m = Inr m1" "foldr_res (MI_markInterference tx nid node) is m1 = Inr m'"
    by (auto simp: bindr_eq_Inr_iff)
  have "nget m1 i j = (if i = nid \<and> j = a then tx j else if i = a \<and> j = nid then Some node else nget m i j)"
    using m1(1) Cons.prems(2) by (auto simp: MI_markInterference_def res_simps split: if_splits)
  with Cons.IH [OF m1(2)] Cons.prems(2) show ?case by auto
qed simp

lemma MI_txStart_recorded:
  assumes "recorded rm" "mi_inv rm mem F" "order_ok ord" "MI_txStart ord rm mem p e = Inr (rm', mem', evs)"
    and "\<forall>ch. nget (miActiveTransmitters rm) ch (rnId (mem p)) = None"
  shows "recorded rm'"
proof -
  let ?nid = "rnId (mem p)" and ?tx = "nget (miActiveTransmitters rm) (evChannel e)"
  have os: "set (ord (dom ?tx)) = dom ?tx" using assms(3) mi_inv_finite(1) [OF assms(2)] by (simp add: order_ok_set)
  have no: "?nid \<notin> set (ord (dom ?tx))" using assms(5) os by auto
  obtain m' where m': "foldr_res (MI_markInterference ?tx ?nid p) (ord (dom ?tx)) ((miInterferedBy rm)(?nid \<mapsto> Map.empty)) = Inr m'"
    and rm': "rm' = rm\<lparr>miInterferedBy := m', miActiveTransmitters := (miActiveTransmitters rm)(evChannel e \<mapsto> ?tx(?nid \<mapsto> p))\<rparr>"
    using assms(4,5) mi_inv_samplers [OF assms(2)] by (auto simp: MI_txStart_def Let_def res_simps)
  note me = marks_effect [OF m' no, unfolded os]
  show ?thesis
    unfolding recorded_def rm'
  proof (intro allI impI)
    fix ch i j q r
    assume "nget (miActiveTransmitters (rm\<lparr>miInterferedBy := m', miActiveTransmitters := (miActiveTransmitters rm)(evChannel e \<mapsto> ?tx(?nid \<mapsto> p))\<rparr>)) ch i = Some q"
      "nget (miActiveTransmitters (rm\<lparr>miInterferedBy := m', miActiveTransmitters := (miActiveTransmitters rm)(evChannel e \<mapsto> ?tx(?nid \<mapsto> p))\<rparr>)) ch j = Some r"
      "i \<noteq> j"
    then have a: "(if ch = evChannel e \<and> i = ?nid then Some p else nget (miActiveTransmitters rm) ch i) = Some q"
      "(if ch = evChannel e \<and> j = ?nid then Some p else nget (miActiveTransmitters rm) ch j) = Some r" and "i \<noteq> j"
      by (auto split: if_splits)
    show "nget (miInterferedBy (rm\<lparr>miInterferedBy := m', miActiveTransmitters := (miActiveTransmitters rm)(evChannel e \<mapsto> ?tx(?nid \<mapsto> p))\<rparr>)) i j = Some r"
      using a \<open>i \<noteq> j\<close> assms(1,5) me [of i j] unfolding recorded_def by (auto split: if_splits)
  qed
qed

lemma recorded_mono:
  assumes "recorded rm" "miInterferedBy rm' = miInterferedBy rm"
    and "\<And>ch i q. nget (miActiveTransmitters rm') ch i = Some q \<Longrightarrow> nget (miActiveTransmitters rm) ch i = Some q"
  shows "recorded rm'"
  using assms unfolding recorded_def by metis

lemma recorded_same: "recorded rm \<Longrightarrow> miInterferedBy rm' = miInterferedBy rm \<Longrightarrow>
    miActiveTransmitters rm' = miActiveTransmitters rm \<Longrightarrow> recorded rm'"
  by (simp add: recorded_def)

lemma faded_recorded: "faded rm rm' \<Longrightarrow> recorded rm \<Longrightarrow> recorded rm'"
  unfolding faded_def by (elim exE conjE, rule recorded_same) simp_all

lemma MI_handle_recorded:
  assumes "mi_inv rm mem F" "recorded rm" "order_ok ord" "handle_ok F e" "rnId (mem p) = evNodeId e"
    and "evType e = EventTypeRadioCommStart \<longrightarrow> evNodeId e \<notin> fst ` F"
    and "MI_HandleEvent rnd ord rm mem p e = Inr (rm', mem', evs)"
  shows "recorded rm'"
proof -
  let ?rm = "rm\<lparr>rmEventQ := True\<rparr>"
  have b: "mi_inv ?rm mem F" "recorded ?rm" using assms(1,2) by (simp_all add: mi_inv_EventQ recorded_def)
  consider (start) "evType e = EventTypeRadioCommStart" | (stop) "evType e = EventTypeRadioTxDone"
    | (sample) "evType e = EventTypeRadioChannelSample"
    | (other) "evType e \<notin> {EventTypeRadioCommStart, EventTypeRadioTxDone, EventTypeRadioChannelSample}"
    by blast
  then show ?thesis
  proof cases
    case start
    then have ch: "chan_ok (evChannel e)" "evFlight e \<notin> F" using assms(4) by (simp_all add: handle_ok_def)
    obtain rm1 mem1 evs1 where tx: "MI_txStart ord ?rm mem p e = Inr (rm1, mem1, evs1)" and c: "mi_core rm1 (insert (evFlight e) F)"
      using MI_txStart_total [OF b(1) assms(3) ch(1) assms(5) ch(2)] by blast
    have "\<forall>ch. nget (miActiveTransmitters ?rm) ch (rnId (mem p)) = None"
    proof
      fix ch show "nget (miActiveTransmitters ?rm) ch (rnId (mem p)) = None"
        using mi_inv_active [OF b(1), of ch "rnId (mem p)"] assms(5,6) start
        by (cases "nget (miActiveTransmitters ?rm) ch (rnId (mem p))") force+
    qed
    from MI_txStart_recorded [OF b(2,1) assms(3) tx this] have r1: "recorded rm1" .
    obtain rm2 mem2 where st: "statsTxStart rm1 mem1 p e = (rm2, mem2)" by fastforce
    have eq: "rm2 = rm1\<lparr>rmChannelStats := rmChannelStats rm2\<rparr>"
      using st by (auto simp: statsTxStart_def Let_def)
    have c2: "mi_core rm2 (insert (evFlight e) F)" by (subst eq) (simp add: mi_core_stats c)
    have "rm' = rm2"
      using assms(7) start tx st MI_update_none [OF assms(3) c2 start] by (simp add: MI_HandleEvent_def Let_def)
    then show ?thesis using recorded_same [OF r1, of rm2] eq by (metis RadioModelMutualInterference.select_convs(3,5)
      RadioModelIdeal.update_convs(5) RadioModelMutualInterference.surjective)
  next
    case stop
    obtain rm1 mem1 evs1 where tx: "MI_txStop ?rm mem p e = (rm1, mem1, evs1)" by (cases "MI_txStop ?rm mem p e") auto
    have "recorded rm1"
      by (rule recorded_mono [OF b(2)]) (use tx in \<open>auto simp: MI_txStop_def Let_def split: if_splits\<close>)
    moreover obtain cs where "rm' = rm1\<lparr>rmChannelStats := cs\<rparr>"
      using assms(7) stop tx by (auto simp: MI_HandleEvent_def Let_def statsTxStop_def res_simps split: option.splits)
    ultimately show ?thesis by (simp add: recorded_def)
  next
    case sample
    then have ch: "chan_ok (evChannel e)" using assms(4) by (simp add: handle_ok_def)
    from MI_sample_total [OF b(1) assms(3) ch, of rnd p] obtain rm1 mem1 e' where
      "MI_channelSampleStart rnd ord ?rm mem p e = Inr (rm1, mem1, [sampleDoneEvent (set_Error e e')])" "faded ?rm rm1" by blast
    with sample assms(7) faded_recorded [OF _ b(2)] show ?thesis by (simp add: MI_HandleEvent_def Let_def)
  next
    case other
    then have "rm' = ?rm" using assms(7) by (auto simp: MI_HandleEvent_def Let_def res_simps split: if_splits)
    with b(2) show ?thesis by simp
  qed
qed

lemma MI_dispatch_recorded:
  assumes "mi_inv rm mem F" "recorded rm" "MI_OnEventDispatch rnd u msg ord rm mem src dst e = Inr (rm', mem', e', ok, evs)"
    and "order_ok ord" "rmEventQ rm" "dispatch_ok e"
  shows "recorded rm'"
  using MI_dispatch_faded [OF assms(1,4,5,6), of rnd u msg src dst] assms(2,3) faded_recorded by fastforce

text \<open>No node starts to transmit while one of its transmissions is in flight, on any channel.\<close>

fun single_flight :: "flights \<Rightarrow> radio_call list \<Rightarrow> bool" where
  "single_flight F [] = True"
| "single_flight F (CHandle e # cs) \<longleftrightarrow>
     (evType e = EventTypeRadioCommStart \<longrightarrow> evNodeId e \<notin> fst ` F) \<and> single_flight (flights_after F e) cs"
| "single_flight F (CDelete i # cs) \<longleftrightarrow> single_flight {x \<in> F. fst x \<noteq> i} cs"
| "single_flight F (c # cs) \<longleftrightarrow> single_flight F cs"

definition mrec_inv :: "MI \<Rightarrow> rmem \<Rightarrow> flights \<Rightarrow> bool" where
  "mrec_inv rm mem F \<longleftrightarrow> mi_inv rm mem F \<and> recorded rm \<and> fst ` F \<subseteq> dom (rmNodes rm)"

lemma MI_AddNode_recorded:
  assumes "mrec_inv rm mem F" "rmNodes rm (rnId (mem p)) = None"
  shows "recorded (MI_AddNode rm mem p)"
proof -
  have "nget (miActiveTransmitters rm) ch (rnId (mem p)) = None" for ch
    using assms mi_inv_active [of rm mem F ch "rnId (mem p)"] unfolding mrec_inv_def
    by (cases "nget (miActiveTransmitters rm) ch (rnId (mem p))") force+
  then show ?thesis using assms(1) unfolding mrec_inv_def recorded_def by (auto simp: MI_AddNode_def)
qed

lemma mi_inv_active_chan: "mi_inv rm mem F \<Longrightarrow> nget (miActiveTransmitters rm) ch i = Some p \<Longrightarrow> chan_ok ch"
  unfolding mi_inv_def mi_core_def by blast

lemma MI_DeleteNode_recorded:
  assumes "recorded rm" "mi_inv rm mem F" "MI_DeleteNode rm mem i = Inr rm'"
  shows "recorded rm'"
proof -
  obtain p where p: "rmNodes rm i = Some p" using assms(3) by (auto simp: MI_DeleteNode_def res_simps)
  let ?s = "statsDeleteNode rm (mem p)"
  have mi: "miActiveTransmitters ?s = miActiveTransmitters rm" "miInterferedBy ?s = miInterferedBy rm"
    by (rule statsDeleteNode_cases [where rm = rm and node = "mem p"]; simp)+
  have act: "nget (miActiveTransmitters rm') ch j = Some q \<Longrightarrow> nget (miActiveTransmitters rm) ch j = Some q \<and> j \<noteq> i" for ch j q
    using assms(3) p mi(1) mi_inv_active_chan [OF assms(2), of ch i]
    by (auto simp: MI_DeleteNode_def Let_def fold_ndel_nget chan_ok_all split: if_splits)
  have "miInterferedBy rm' = (miInterferedBy rm)(i \<mapsto> Map.empty)" using assms(3) p mi by (auto simp: MI_DeleteNode_def Let_def)
  with assms(1) act show ?thesis unfolding recorded_def by (metis nget_upd)
qed

lemma mrec_call:
  assumes "mrec_inv rm mem F" "order_ok ord" "ready \<Longrightarrow> rmEventQ rm"
    and "protocol (\<lambda>p. rnId (mem p)) (rmNodes rm) ready F (c # cs)" "single_flight F (c # cs)"
  shows "\<exists>rm' mem' evs F' ready'. RadioModel_call rnd u msg ord c (RMMutual rm, mem) = Inr (RMMutual rm', mem', evs) \<and>
    mrec_inv rm' mem' F' \<and> (ready' \<longrightarrow> rmEventQ rm') \<and> same_ids mem mem' \<and>
    protocol (\<lambda>p. rnId (mem p)) (rmNodes rm') ready' F' cs \<and> single_flight F' cs"
proof -
  have mi: "mi_inv rm mem F" "recorded rm" "fst ` F \<subseteq> dom (rmNodes rm)" using assms(1) by (simp_all add: mrec_inv_def)
  show ?thesis
  proof (cases c)
    case (CAdd p)
    with assms mutual.add_law [OF mi(1), of p] MI_AddNode_recorded [OF assms(1), of p] mi(3) show ?thesis
      by (intro exI [of _ "MI_AddNode rm mem p"] exI [of _ mem] exI [of _ "[]"] exI [of _ F] exI [of _ ready])
        (auto simp: mrec_inv_def)
  next
    case (CDelete i)
    with assms(4) obtain p where p: "rmNodes rm i = Some p" by auto
    from mutual.delete_law [OF mi(1) p] obtain rm' where r: "MI_DeleteNode rm mem i = Inr rm'" "mi_inv rm' mem {x \<in> F. fst x \<noteq> i}"
      "rmNodes rm' = (rmNodes rm)(i := None)" "rmEventQ rm' = rmEventQ rm" by blast
    with CDelete assms MI_DeleteNode_recorded [OF mi(2,1) r(1)] mi(3) show ?thesis
      by (intro exI [of _ rm'] exI [of _ mem] exI [of _ "[]"] exI [of _ "{x \<in> F. fst x \<noteq> i}"] exI [of _ ready])
        (auto simp: mrec_inv_def)
  next
    case (CTime ts)
    have "recorded (MI_OnNextEventTime rm ts)" using mi(2) by (simp add: recorded_def MI_OnNextEventTime_def)
    with CTime assms mutual.time_law [OF mi(1), of ts] mi(3) show ?thesis
      by (intro exI [of _ "MI_OnNextEventTime rm ts"] exI [of _ mem] exI [of _ "[]"] exI [of _ F] exI [of _ ready])
        (auto simp: mrec_inv_def)
  next
    case (CHandle e)
    with assms(4) obtain p where p: "rmNodes rm (evNodeId e) = Some p" and h: "handle_ok F e" by auto
    from mutual.handle_law [OF mi(1) assms(2) p h, of rnd] obtain rm' mem' evs where
      r: "MI_HandleEvent rnd ord rm mem p e = Inr (rm', mem', evs)" "mi_inv rm' mem' (flights_after F e)"
        "rmNodes rm' = rmNodes rm" "rmEventQ rm'" "same_ids mem mem'" by blast
    have "recorded rm'"
      using MI_handle_recorded [OF mi(1,2) assms(2) h mutual.inv_nodes [OF mi(1) p] _ r(1)] assms(5) CHandle by simp
    moreover have "fst ` flights_after F e \<subseteq> dom (rmNodes rm)" using mi(3) p by (auto simp: flights_after_def)
    ultimately show ?thesis
      using CHandle assms(4,5) r p
      by (intro exI [of _ rm'] exI [of _ mem'] exI [of _ evs] exI [of _ "flights_after F e"] exI [of _ True])
        (simp add: mrec_inv_def)
  next
    case (CDispatch src dst e)
    with assms have q: "rmEventQ rm" and d: "dispatch_ok e" by auto
    from MI_dispatch_faded [OF mi(1) assms(2) q d, of rnd u msg src dst] obtain rm' mem' e' ok evs where
      r: "MI_OnEventDispatch rnd u msg ord rm mem src dst e = Inr (rm', mem', e', ok, evs)" "faded rm rm'" "same_ids mem mem'" by blast
    have "mrec_inv rm' mem' F"
      using mi_inv_mem [OF faded_mi_inv [OF r(2) mi(1)] r(3)] faded_recorded [OF r(2) mi(2)] mi(3) faded_simps(1) [OF r(2)]
      by (simp add: mrec_inv_def)
    moreover from CDispatch assms(4) have "ready" by simp
    ultimately show ?thesis using CDispatch assms(4,5) r faded_simps [OF r(2)] q
      by (intro exI [of _ rm'] exI [of _ mem'] exI [of _ evs] exI [of _ F] exI [of _ ready]) simp
  qed
qed

lemma mrec_run:
  assumes "mrec_inv rm mem F" "order_ok ord" "ready \<Longrightarrow> rmEventQ rm"
    and "protocol (\<lambda>p. rnId (mem p)) (rmNodes rm) ready F cs" "single_flight F cs"
  shows "\<exists>rm' mem' evss. RadioModel_run rnd u msg ord cs (RMMutual rm, mem) = Inr (RMMutual rm', mem', evss) \<and> recorded rm'"
  using assms
proof (induction cs arbitrary: rm mem F ready)
  case Nil
  then show ?case by (simp add: mrec_inv_def)
next
  case (Cons c cs)
  from mrec_call [OF Cons.prems, of rnd u msg] obtain rm' mem' evs F' ready' where
    c: "RadioModel_call rnd u msg ord c (RMMutual rm, mem) = Inr (RMMutual rm', mem', evs)" "mrec_inv rm' mem' F'"
      "ready' \<longrightarrow> rmEventQ rm'" "same_ids mem mem'" "protocol (\<lambda>p. rnId (mem p)) (rmNodes rm') ready' F' cs" "single_flight F' cs"
    by blast
  have "(\<lambda>p. rnId (mem' p)) = (\<lambda>p. rnId (mem p))" using c(4) by (simp add: same_ids_def)
  with Cons.IH [of rm' mem' F' ready'] c Cons.prems(2) show ?case by auto
qed

section \<open>Collisions at a receiver\<close>

lemma interfereLoop_self:
  assumes "set is \<subseteq> dom intf" "fading_inv (miFading rm)" "j \<in> set is" "intf j = Some dst"
  shows "\<exists>rm'. MI_interfereLoop rnd intf mem dst is p0 rm = Inr (None, rm') \<and> faded rm rm'"
  using assms
proof (induction "is" arbitrary: p0 rm)
  case (Cons i "is")
  from Cons.prems(1) obtain v where v: "intf i = Some v" by auto
  show ?case
  proof (cases "v = dst")
    case True
    with v Cons.prems(2) show ?thesis by (simp add: faded_refl)
  next
    case False
    from MI_GetTxRssi_total [OF Cons.prems(2)] obtain r rm1 where
      g: "MI_GetTxRssi rnd rm (mem v) (mem dst) = Inr (r, rm1)" "faded rm rm1" by blast
    have "j \<in> set is" using False v Cons.prems(3,4) by auto
    with Cons.IH [of rm1 "addSignalPowersDbm r p0"] Cons.prems(1,4) faded_inv [OF g(2)] obtain rm' where
      "MI_interfereLoop rnd intf mem dst is (addSignalPowersDbm r p0) rm1 = Inr (None, rm')" "faded rm1 rm'" by auto
    with v g False faded_trans [OF g(2)] show ?thesis by auto
  qed
qed simp

lemma interferePsduData_changes:
  assumes "length d \<ge> 2"
  shows "\<exists>d'. interferePsduData d = Inr d' \<and> length d' = length d \<and> take (length d - 2) d' = take (length d - 2) d \<and> d' \<noteq> d"
proof -
  let ?f = "get_le (drop (length d - 2) d) :: u16"
  have len: "length (drop (length d - 2) d) = 2" using assms by simp
  have "put_le 2 (?f + 42) \<noteq> drop (length d - 2) d"
  proof
    assume "put_le 2 (?f + 42) = drop (length d - 2) d"
    then have "(get_le (put_le 2 (?f + 42)) :: u16) = ?f" by simp
    then have "?f + 42 = ?f" by simp
    then show False by simp
  qed
  then have "take (length d - 2) d @ put_le 2 (?f + 42) \<noteq> d"
    by (metis append_take_drop_id same_append_eq)
  then show ?thesis using assms by (simp add: interferePsduData_def Let_def)
qed

section \<open>Properties\<close>

text \<open>
  C30. The channel statistics measure what they say. For any sequence of starts and ends of transmissions
  on a channel, in which an end is only seen while somebody transmits, no assertion fails, the set of
  transmitters is the set of nodes that started and did not end, the frame count is the number of
  starts, and the transmit time, including the part of the running transmission up to the last event,
  grows by exactly the time during which at least one node was transmitting.
\<close>

theorem channel_busy_time:
  assumes "list_all (\<lambda>x. evChannel (snd x) = ch) es"
    and "stops_ok (csNumTransmitters (chan_stats rm ch)) (map (tx_view (\<lambda>p. rnId (mem p))) es)"
  shows "\<exists>rm' mem'. chan_run rm mem es = Inr (rm', mem') \<and>
    csNumTransmitters (chan_stats rm' ch) = active_set (csNumTransmitters (chan_stats rm ch)) (map (tx_view (\<lambda>p. rnId (mem p))) es) \<and>
    counted (chan_stats rm' ch) (last (t # map (evTimestamp \<circ> snd) es)) =
      counted (chan_stats rm ch) t + busy (csNumTransmitters (chan_stats rm ch)) t (map (tx_view (\<lambda>p. rnId (mem p))) es) \<and>
    csNumFrames (chan_stats rm' ch) = csNumFrames (chan_stats rm ch) + of_nat (length (filter (\<lambda>x. evType (snd x) = EventTypeRadioCommStart) es))"
  using assms by (rule chan_run_counts)

definition exampleTraffic :: "(rptr \<times> Event) list" where
  "exampleTraffic = [(0, exampleFrame EventTypeRadioCommStart 1 100), (1, exampleFrame EventTypeRadioCommStart 2 150),
     (0, exampleFrame EventTypeRadioTxDone 1 400), (1, exampleFrame EventTypeRadioTxDone 2 450),
     (1, exampleFrame EventTypeRadioCommStart 2 1000)]"

lemma exampleTraffic_view:
  "map (tx_view (\<lambda>p. rnId (exampleMem p))) exampleTraffic = [(1, True, 100), (2, True, 150), (1, False, 400), (2, False, 450), (2, True, 1000)]"
  by (simp add: exampleTraffic_def tx_view_def exampleMem_def exampleRadioNode_def NewRadioNode_def exampleFrame_def zeroEvent_def)

theorem channel_busy_time_witness:
  "\<exists>rm' mem'. chan_run (rawIdeal ''Ideal'' newRadioModelParams) exampleMem exampleTraffic = Inr (rm', mem') \<and>
    csNumTransmitters (chan_stats rm' 11) = {2} \<and> counted (chan_stats rm' 11) 1000 = 350 \<and> csNumFrames (chan_stats rm' 11) = 3"
proof -
  have c: "list_all (\<lambda>x. evChannel (snd x) = 11) exampleTraffic"
    by (simp add: exampleTraffic_def exampleFrame_def)
  have n: "chan_stats (rawIdeal ''Ideal'' newRadioModelParams) 11 = newChannelStats 11"
    by (simp add: chan_stats_def rawIdeal_def)
  have s: "stops_ok (csNumTransmitters (chan_stats (rawIdeal ''Ideal'' newRadioModelParams) 11)) (map (tx_view (\<lambda>p. rnId (exampleMem p))) exampleTraffic)"
    by (simp add: n exampleTraffic_view newChannelStats_def active_after_def)
  have l: "last (0 # map (evTimestamp \<circ> snd) exampleTraffic) = 1000"
    "length (filter (\<lambda>x. evType (snd x) = EventTypeRadioCommStart) exampleTraffic) = 3"
    by (simp_all add: exampleTraffic_def exampleFrame_def zeroEvent_def)
  have a: "active_set (csNumTransmitters (chan_stats (rawIdeal ''Ideal'' newRadioModelParams) 11))
      (map (tx_view (\<lambda>p. rnId (exampleMem p))) exampleTraffic) = {2}"
    by (auto simp: n exampleTraffic_view newChannelStats_def active_after_def)
  have b: "counted (chan_stats (rawIdeal ''Ideal'' newRadioModelParams) 11) 0 +
      busy (csNumTransmitters (chan_stats (rawIdeal ''Ideal'' newRadioModelParams) 11)) 0
        (map (tx_view (\<lambda>p. rnId (exampleMem p))) exampleTraffic) = 350"
    by (auto simp: n exampleTraffic_view newChannelStats_def active_after_def counted_def)
  have f: "csNumFrames (chan_stats (rawIdeal ''Ideal'' newRadioModelParams) 11) = 0" by (simp add: n newChannelStats_def)
  obtain rm' mem' where "chan_run (rawIdeal ''Ideal'' newRadioModelParams) exampleMem exampleTraffic = Inr (rm', mem')"
    "csNumTransmitters (chan_stats rm' 11) = {2}" "counted (chan_stats rm' 11) 1000 = 350" "csNumFrames (chan_stats rm' 11) = 0 + of_nat 3"
    using channel_busy_time [OF c s, of 0] unfolding a b f l by blast
  then show ?thesis by auto
qed

text \<open>
  Clearing the statistics of a channel on which a frame is in flight makes the simulator panic
  when that frame ends, in both models: \<open>statsTxStop\<close> asserts that the statistics exist. \<open>ResetChannelStats\<close>
  is called for every channel when the collection of performance indicators starts.
\<close>

theorem ResetChannelStats_in_flight:
  assumes "evType e = EventTypeRadioTxDone"
  shows "Ideal_HandleEvent (RadioModel_ResetChannelStats rm (evChannel e)) mem p e = Inl AssertFailed \<and>
    MI_HandleEvent rnd ord (RadioModel_ResetChannelStats rm2 (evChannel e)) mem p e = Inl AssertFailed"
  using assms by (simp add: Ideal_HandleEvent_def MI_HandleEvent_def Ideal_txStop_def MI_txStop_def statsTxStop_def
      RadioModel_ResetChannelStats_def Let_def)

theorem ResetChannelStats_in_flight_witness:
  "Ideal_HandleEvent (RadioModel_ResetChannelStats (rawIdeal ''Ideal'' newRadioModelParams) (evChannel (exampleFrame EventTypeRadioTxDone 1 400)))
      exampleMem 0 (exampleFrame EventTypeRadioTxDone 1 400) = Inl AssertFailed \<and>
    MI_HandleEvent (\<lambda>seed ds. 1) sorted_list_of_set
      (RadioModel_ResetChannelStats (MI_init (rawMutual ''MI'' newRadioModelParams newRadioModelParams 7)) (evChannel (exampleFrame EventTypeRadioTxDone 1 400)))
      exampleMem 0 (exampleFrame EventTypeRadioTxDone 1 400) = Inl AssertFailed"
  by (rule ResetChannelStats_in_flight) (simp add: exampleFrame_def)



text \<open>
  Half duplex: a node that was itself transmitting during a frame does not receive it. If the
  receiver is among the nodes that interfered with the sender, the frame is delivered to it with the error
  \<open>OT_ERROR_ABORT\<close> and unchanged data, whatever the signal strengths, the random numbers and the order
  in which the interferers are visited.
\<close>

theorem half_duplex:
  assumes "mi_inv rm mem F" "order_ok ord" "rmEventQ rm" "evType e = EventTypeRadioRxDone"
    and "nget (miInterferedBy rm) (rnId (mem src)) j = Some dst"
  shows "\<exists>rm' mem' e' evs. MI_OnEventDispatch rnd u msg ord rm mem src dst e = Inr (rm', mem', e', True, evs) \<and>
    rcError (evRadioCommData e') = OT_ERROR_ABORT \<and> evData e' = evData e \<and> mem' = mem"
proof -
  have fi: "fading_inv (miFading rm)" using assms(1) by (simp add: mi_inv_def mi_core_def)
  obtain r rm1 where g: "MI_GetTxRssi rnd rm (mem src) (mem dst) = Inr (r, rm1)" "faded rm rm1"
    using MI_GetTxRssi_total [OF fi] by blast
  let ?intf = "nget (miInterferedBy rm) (rnId (mem src))"
  have i1: "nget (miInterferedBy rm1) (rnId (mem src)) = ?intf" using faded_simps(3) [OF g(2)] by simp
  have os: "set (ord (dom ?intf)) = dom ?intf" using order_ok_set [OF assms(2) mi_inv_finite(2) [OF assms(1)]] .
  obtain rm2 where l: "MI_interfereLoop rnd ?intf mem dst (ord (dom ?intf)) (MI_getRssiAmbientNoise rm1) rm1 = Inr (None, rm2)" "faded rm1 rm2"
    using interfereLoop_self [of "ord (dom ?intf)" ?intf rm1 j dst, OF _ faded_inv [OF g(2)] _ assms(5)] os assms(5) by blast
  have "rmEventQ rm2" using faded_simps(2) [OF g(2)] faded_simps(2) [OF l(2)] assms(3) by simp
  with g(1) l(1) assms(4) i1 show ?thesis
    by (simp add: MI_OnEventDispatch_def MI_applyInterference_def MI_log_def set_Error_def set_PowerDbm_def)
qed

definition exampleMI :: MI where
  "exampleMI = (MI_init (rawMutual ''MI'' (setIndoorModelParams3gpp newRadioModelParams) newRadioModelParams 7))
     \<lparr>rmEventQ := True, miInterferedBy := [1 \<mapsto> [2 \<mapsto> 1], 2 \<mapsto> [1 \<mapsto> 0]]\<rparr>"

lemma exampleMI_inv: "mi_inv exampleMI exampleMem {}"
  by (auto simp: exampleMI_def MI_init_def Ideal_init_def rawMutual_def base_inv_def mi_inv_def
      mi_core_def fading_inv_new chan_ok_all fold_init_map nget_def)

theorem half_duplex_witness:
  "\<exists>rm' mem' e' evs. MI_OnEventDispatch (\<lambda>seed ds. 1) (1 / 2) [] sorted_list_of_set exampleMI exampleMem 0 1
      (exampleFrame EventTypeRadioRxDone 1 400) = Inr (rm', mem', e', True, evs) \<and>
    rcError (evRadioCommData e') = OT_ERROR_ABORT \<and> evData e' = evData (exampleFrame EventTypeRadioRxDone 1 400) \<and> mem' = exampleMem"
  by (rule half_duplex [OF exampleMI_inv order_ok_sorted, of _ _ 2])
    (simp_all add: exampleMI_def exampleFrame_def exampleMem_def exampleRadioNode_def NewRadioNode_def)

text \<open>
  The bit error model corrupts a frame exactly when it reports an error, and only its checksum: if
  the frame has at least the two bytes of the checksum, then either the event is unchanged, or it has the
  error \<open>OT_ERROR_FCS\<close>, the same length, the same bytes before the checksum and a different checksum. A
  frame at a signal to interference ratio of 6 dB or more is never corrupted, and one below -10 dB always.
\<close>

theorem applyBerModel_corrupts:
  assumes "length (evData e) \<ge> 2"
  shows "\<exists>e' failed. applyBerModel u sir e = Inr (e', failed) \<and>
    (if failed then rcError (evRadioCommData e') = OT_ERROR_FCS \<and> length (evData e') = length (evData e) \<and>
       take (length (evData e) - 2) (evData e') = take (length (evData e) - 2) (evData e) \<and> evData e' \<noteq> evData e
     else e' = e) \<and> (sir \<ge> 6 \<longrightarrow> \<not> failed) \<and> (sir < -10 \<longrightarrow> failed)"
proof -
  obtain d' where d': "interferePsduData (evData e) = Inr d'" "length d' = length (evData e)"
    "take (length (evData e) - 2) d' = take (length (evData e) - 2) (evData e)" "d' \<noteq> evData e"
    using interferePsduData_changes [OF assms] by blast
  then show ?thesis
    by (auto simp: applyBerModel_def set_Error_def Let_def split: prod.splits if_splits)
qed

theorem applyBerModel_corrupts_witness:
  "\<exists>e' failed. applyBerModel (1 / 2) (-20) (exampleFrame EventTypeRadioRxDone 1 400) = Inr (e', failed) \<and> failed"
  using applyBerModel_corrupts [of "exampleFrame EventTypeRadioRxDone 1 400" "1 / 2" "-20"]
  by (auto simp: exampleFrame_def)

lemma choose_div: "k \<le> n \<Longrightarrow> n choose k = fact n div (fact k * fact (n - k))"
proof -
  assume "k \<le> n"
  then have "fact n = (fact k * fact (n - k)) * (n choose k)" using binomial_fact_lemma by metis
  then show ?thesis by simp
qed

lemma binomialCoeff_binomial: "binomialCoeff = map (\<lambda>k. (-1) ^ k * real (16 choose k)) [2..<17]"
proof -
  have u: "[2..<17] = [2, 3, 4, 5, 6, 7, 8, 9, 10, 11, 12, 13, 14, 15, 16 :: nat]" by code_simp
  have "map (\<lambda>k. 16 choose k) [2..<17] = [120, 560, 1820, 4368, 8008, 11440, 12870, 11440, 8008, 4368, 1820, 560, 120, 16, 1 :: nat]"
    unfolding u by (simp add: choose_div fact_numeral)
  from this [unfolded u] show ?thesis unfolding u by (simp add: binomialCoeff_def)
qed

lemma berLoop_zip:
  "berLoop snr i cs b = b + (\<Sum>(c, k)\<leftarrow>zip cs [i + 2..<i + 2 + length cs]. c * exp (20 * snr * (1 / (real k + 1) - 1)))"
proof (induction cs arbitrary: i b)
  case (Cons c cs)
  have "[i + 2..<i + 2 + length (c # cs)] = (i + 2) # [Suc i + 2..<Suc i + 2 + length cs]"
    by (subst upt_conv_Cons) simp_all
  then show ?case by (simp only: berLoop.simps Let_def Cons.IH zip_Cons_Cons list.map sum_list.Cons prod.case add.assoc)
qed simp

lemma zip_map_self: "zip (map f xs) xs = map (\<lambda>x. (f x, x)) xs"
  by (induction xs) simp_all

text \<open>
  The bit error rate of the code: with the signal to interference ratio as a power ratio \<open>snr\<close>, the
  sum of the loop is the alternating sum over the binomial coefficients of 16 from 2 to 16, in which the
  term \<open>k\<close> has the exponent \<open>20 snr (1/(k+1) - 1)\<close>. In the standard that the code cites it is \<open>20 snr (1/k - 1)\<close>.
\<close>

theorem berLoop_sum:
  "berLoop snr 0 binomialCoeff 0 = (\<Sum>k\<leftarrow>[2..<17]. (-1) ^ k * real (16 choose k) * exp (20 * snr * (1 / (real k + 1) - 1)))"
proof -
  have "length binomialCoeff = 15" by (simp add: binomialCoeff_def)
  then have e: "2 + length binomialCoeff = 17" by simp
  have "berLoop snr 0 binomialCoeff 0 = (\<Sum>(c, k)\<leftarrow>zip binomialCoeff [2..<17]. c * exp (20 * snr * (1 / (real k + 1) - 1)))"
    unfolding berLoop_zip add_0 e ..
  then show ?thesis by (simp only: binomialCoeff_binomial zip_map_self map_map comp_def prod.case)
qed

end
