(* ===== verification/Log_Level.thy ===== *)
theory Log_Level
  imports Prelude
begin

text \<open>
  The names of log levels (\<^verbatim>\<open>src/logger/logger.go\<close>, \<^verbatim>\<open>src/logger/parse.go\<close>), which the dispatcher parses for the
  nodes it watches. The lemmas relate the parser and the printer.
\<close>

type_synonym Level = int

abbreviation MicroLevel :: Level where "MicroLevel \<equiv> 7"
abbreviation TraceLevel :: Level where "TraceLevel \<equiv> 6"
abbreviation DebugLevel :: Level where "DebugLevel \<equiv> 5"
abbreviation InfoLevel :: Level where "InfoLevel \<equiv> 4"
abbreviation NoteLevel :: Level where "NoteLevel \<equiv> 3"
abbreviation WarnLevel :: Level where "WarnLevel \<equiv> 2"
abbreviation ErrorLevel :: Level where "ErrorLevel \<equiv> 1"
abbreviation PanicLevel :: Level where "PanicLevel \<equiv> 0"
abbreviation DefaultLevel :: Level where "DefaultLevel \<equiv> InfoLevel"
abbreviation OffLevel :: Level where "OffLevel \<equiv> PanicLevel"

text \<open>The error is \<open>None\<close>; the level that the code returns with the error is \<open>DefaultLevel\<close>, and no caller uses it.\<close>

definition ParseLevelString :: "string \<Rightarrow> Level option" where
  "ParseLevelString level =
    (if level = ''micro'' then Some MicroLevel
     else if level \<in> {''trace'', ''T''} then Some TraceLevel
     else if level \<in> {''debug'', ''D''} then Some DebugLevel
     else if level \<in> {''info'', ''I''} then Some InfoLevel
     else if level \<in> {''note'', ''N''} then Some NoteLevel
     else if level \<in> {''warn'', ''warning'', ''W''} then Some WarnLevel
     else if level \<in> {''crit'', ''critical'', ''error'', ''err'', ''C'', ''E''} then Some ErrorLevel
     else if level \<in> {''off'', ''none''} then Some PanicLevel
     else if level \<in> {''default'', ''def''} then Some DefaultLevel
     else None)"

definition parseOtLevelChar :: "char \<Rightarrow> Level" where
  "parseOtLevelChar level =
    (if level = CHR ''T'' then TraceLevel
     else if level = CHR ''D'' then DebugLevel
     else if level = CHR ''I'' then InfoLevel
     else if level = CHR ''N'' then NoteLevel
     else if level = CHR ''W'' then WarnLevel
     else if level = CHR ''C'' then ErrorLevel
     else DefaultLevel)"

definition GetLevelString :: "Level \<Rightarrow> string res" where
  "GetLevelString level =
    (if level = MicroLevel then Inr ''micro''
     else if level = TraceLevel then Inr ''trace''
     else if level = DebugLevel then Inr ''debug''
     else if level = InfoLevel then Inr ''info''
     else if level = NoteLevel then Inr ''note''
     else if level = WarnLevel then Inr ''warn''
     else if level = ErrorLevel then Inr ''crit''
     else if level = OffLevel then Inr ''off''
     else Inl ExplicitPanic)"

text \<open>Every level that a user can enter has a name that parses to it again, so printing it does not panic.\<close>

lemma ParseLevelString_range: "ParseLevelString s = Some l \<Longrightarrow> 0 \<le> l \<and> l \<le> 7"
  unfolding ParseLevelString_def by (simp only: option.inject option.distinct split: if_split_asm) simp_all

lemma GetLevelString_parse: "0 \<le> l \<Longrightarrow> l \<le> 7 \<Longrightarrow> \<exists>s. GetLevelString l = Inr s \<and> ParseLevelString s = Some l"
proof -
  assume "0 \<le> l" "l \<le> 7"
  then have "l \<in> {0, 1, 2, 3, 4, 5, 6, 7}" by auto
  then show ?thesis by (auto simp: GetLevelString_def ParseLevelString_def)
qed

end
