(* ===== verification/Wpan.thy ===== *)
theory Wpan
  imports Types Events
begin

text \<open>
  The parser of IEEE 802.15.4 frames (\<^verbatim>\<open>src/dissectpkt/wpan/wpan.go\<close>, \<^verbatim>\<open>src/dissectpkt/dissectpkt.go\<close>), with which the
  dispatcher decides to whom a frame is addressed. The first byte of the data is the channel, then
  follows the frame. An access behind the end of the data panics, as in the code.

  The lemmas show which frames are parsed without a panic, and that the parser reads back the header
  that the addressing fields of the frame control describe.
\<close>

section \<open>Frame control\<close>

type_synonym FrameControl = u16

abbreviation FrameTypeAck :: u16 where "FrameTypeAck \<equiv> 2"
abbreviation FrameTypeCommand :: u16 where "FrameTypeCommand \<equiv> 3"
abbreviation AddrModeNone :: u16 where "AddrModeNone \<equiv> 0"
abbreviation AddrModeShort :: u16 where "AddrModeShort \<equiv> 2"
abbreviation AddrModeExtended :: u16 where "AddrModeExtended \<equiv> 3"

definition FrameControl_FrameType :: "FrameControl \<Rightarrow> u16" where
  "FrameControl_FrameType fc = fc AND 0x0007"

definition FrameControl_SecurityEnabled :: "FrameControl \<Rightarrow> bool" where
  "FrameControl_SecurityEnabled fc \<longleftrightarrow> fc AND 0x0008 \<noteq> 0"

definition FrameControl_FramePending :: "FrameControl \<Rightarrow> bool" where
  "FrameControl_FramePending fc \<longleftrightarrow> fc AND 0x0010 \<noteq> 0"

definition FrameControl_AckRequest :: "FrameControl \<Rightarrow> bool" where
  "FrameControl_AckRequest fc \<longleftrightarrow> fc AND 0x0020 \<noteq> 0"

definition FrameControl_PanidCompression :: "FrameControl \<Rightarrow> bool" where
  "FrameControl_PanidCompression fc \<longleftrightarrow> fc AND 0x0040 \<noteq> 0"

definition FrameControl_SequenceNumberSuppression :: "FrameControl \<Rightarrow> bool" where
  "FrameControl_SequenceNumberSuppression fc \<longleftrightarrow> fc AND 0x0100 \<noteq> 0"

definition FrameControl_IEPresent :: "FrameControl \<Rightarrow> bool" where
  "FrameControl_IEPresent fc \<longleftrightarrow> fc AND 0x0200 \<noteq> 0"

definition FrameControl_DestAddrMode :: "FrameControl \<Rightarrow> u16" where
  "FrameControl_DestAddrMode fc = drop_bit 10 (fc AND 0x0c00)"

definition FrameControl_SourceAddrMode :: "FrameControl \<Rightarrow> u16" where
  "FrameControl_SourceAddrMode fc = drop_bit 14 (fc AND 0xc000)"

definition FrameControl_FrameVersion :: "FrameControl \<Rightarrow> u16" where
  "FrameControl_FrameVersion fc = drop_bit 12 (fc AND 0x3000)"

definition FrameControl_HasDestPanIdField :: "FrameControl \<Rightarrow> bool" where
  "FrameControl_HasDestPanIdField fc =
    (if FrameControl_FrameVersion fc \<le> 1 then True
     else let dam = FrameControl_DestAddrMode fc; sam = FrameControl_SourceAddrMode fc in
       if dam \<noteq> AddrModeNone \<and> sam \<noteq> AddrModeNone then True
       else let pc = FrameControl_PanidCompression fc in
         if dam = AddrModeExtended \<and> sam = AddrModeExtended then \<not> pc
         else if sam = AddrModeNone \<and> dam \<noteq> AddrModeNone \<and> \<not> pc then True
         else if sam = AddrModeNone \<and> dam = AddrModeNone \<and> pc then True
         else False)"

definition FrameControl_HasSourcePanIdField :: "FrameControl \<Rightarrow> bool" where
  "FrameControl_HasSourcePanIdField fc =
    (let dam = FrameControl_DestAddrMode fc; sam = FrameControl_SourceAddrMode fc; pc = FrameControl_PanidCompression fc in
     if FrameControl_FrameVersion fc \<le> 1 then (if sam \<noteq> AddrModeNone \<and> \<not> pc then True else False)
     else if dam = AddrModeExtended \<and> sam = AddrModeExtended \<and> \<not> pc then False
     else if sam = AddrModeNone then False
     else \<not> pc)"

section \<open>Dissect\<close>

record MacFrame =
  mfChannel :: u8
  mfFrameControl :: FrameControl
  mfSeq :: u8
  mfDstPanId :: u16
  mfSrcPanId :: u16
  mfDstAddrShort :: u16
  mfSrcAddrShort :: u16
  mfDstAddrExtended :: u64
  mfSrcAddrExtended :: u64
  mfLengthBytes :: u16
  mfPhyHdrLength :: u16

definition zeroMacFrame :: MacFrame where
  "zeroMacFrame = \<lparr>mfChannel = 0, mfFrameControl = 0, mfSeq = 0, mfDstPanId = 0, mfSrcPanId = 0, mfDstAddrShort = 0,
     mfSrcAddrShort = 0, mfDstAddrExtended = 0, mfSrcAddrExtended = 0, mfLengthBytes = 0, mfPhyHdrLength = 0\<rparr>"

text \<open>The parts of \<open>Dissect\<close> after the sequence number, each with the position \<open>n\<close> in the data.\<close>

definition dissectDstPan :: "bytes \<Rightarrow> MacFrame \<times> nat \<Rightarrow> (MacFrame \<times> nat) res" where
  "dissectDstPan data s = (case s of (frame, n) \<Rightarrow>
     if FrameControl_HasDestPanIdField (mfFrameControl frame)
     then bindr (slicer data n (n + 2)) (\<lambda>b. Inr (frame\<lparr>mfDstPanId := get_le b\<rparr>, n + 2)) else Inr (frame, n))"

definition dissectDstAddr :: "bytes \<Rightarrow> MacFrame \<times> nat \<Rightarrow> (MacFrame \<times> nat) res" where
  "dissectDstAddr data s = (case s of (frame, n) \<Rightarrow>
     if FrameControl_DestAddrMode (mfFrameControl frame) = AddrModeExtended
     then bindr (slicer data n (n + 8)) (\<lambda>b. Inr (frame\<lparr>mfDstAddrExtended := get_le b\<rparr>, n + 8))
     else if FrameControl_DestAddrMode (mfFrameControl frame) = AddrModeShort
     then bindr (slicer data n (n + 2)) (\<lambda>b. Inr (frame\<lparr>mfDstAddrShort := get_le b\<rparr>, n + 2))
     else Inr (frame, n))"

definition dissectSrcPan :: "bytes \<Rightarrow> MacFrame \<times> nat \<Rightarrow> (MacFrame \<times> nat) res" where
  "dissectSrcPan data s = (case s of (frame, n) \<Rightarrow>
     if FrameControl_HasSourcePanIdField (mfFrameControl frame)
     then bindr (slicer data n (n + 2)) (\<lambda>b. Inr (frame\<lparr>mfSrcPanId := get_le b\<rparr>, n + 2)) else Inr (frame, n))"

definition dissectSrcAddr :: "bytes \<Rightarrow> MacFrame \<times> nat \<Rightarrow> MacFrame res" where
  "dissectSrcAddr data s = (case s of (frame, n) \<Rightarrow>
     if FrameControl_SourceAddrMode (mfFrameControl frame) = AddrModeExtended
     then bindr (slicer data n (n + 8)) (\<lambda>b. Inr (frame\<lparr>mfSrcAddrExtended := get_le b\<rparr>))
     else if FrameControl_SourceAddrMode (mfFrameControl frame) = AddrModeShort
     then bindr (slicer data n (n + 2)) (\<lambda>b. Inr (frame\<lparr>mfSrcAddrShort := get_le b\<rparr>))
     else Inr frame)"

definition wpan_Dissect :: "bytes \<Rightarrow> MacFrame res" where
  "wpan_Dissect data =
     bindr (indexr data 0) (\<lambda>ch.
     bindr (slicer data 1 3) (\<lambda>fcb.
       let frame = zeroMacFrame\<lparr>mfChannel := ch, mfLengthBytes := of_int (int (length data) - 1),
             mfPhyHdrLength := 6, mfFrameControl := get_le fcb\<rparr> in
       if FrameControl_FrameType (mfFrameControl frame) > FrameTypeCommand then Inr frame
       else
         bindr (if FrameControl_SequenceNumberSuppression (mfFrameControl frame) then Inr (frame, 3)
                else bindr (indexr data 3) (\<lambda>s. Inr (frame\<lparr>mfSeq := s\<rparr>, 4))) (\<lambda>s1.
         bindr (dissectDstPan data s1) (\<lambda>s2.
         bindr (dissectDstAddr data s2) (\<lambda>s3.
         bindr (dissectSrcPan data s3) (\<lambda>s4.
           dissectSrcAddr data s4))))))"

definition dissectpkt_IsAckFrame :: "MacFrame \<Rightarrow> bool" where
  "dissectpkt_IsAckFrame frame \<longleftrightarrow> FrameControl_FrameType (mfFrameControl frame) = FrameTypeAck"

section \<open>The header that the frame control describes\<close>

definition fld :: "bool \<Rightarrow> bytes \<Rightarrow> bytes" where
  "fld b xs = (if b then xs else [])"

definition dst_addr_bytes :: "MacFrame \<Rightarrow> bytes" where
  "dst_addr_bytes f =
    (if FrameControl_DestAddrMode (mfFrameControl f) = AddrModeExtended then put_le 8 (mfDstAddrExtended f)
     else if FrameControl_DestAddrMode (mfFrameControl f) = AddrModeShort then put_le 2 (mfDstAddrShort f) else [])"

definition src_addr_bytes :: "MacFrame \<Rightarrow> bytes" where
  "src_addr_bytes f =
    (if FrameControl_SourceAddrMode (mfFrameControl f) = AddrModeExtended then put_le 8 (mfSrcAddrExtended f)
     else if FrameControl_SourceAddrMode (mfFrameControl f) = AddrModeShort then put_le 2 (mfSrcAddrShort f) else [])"

definition mac_header :: "MacFrame \<Rightarrow> bytes" where
  "mac_header f = [mfChannel f] @ put_le 2 (mfFrameControl f) @
     fld (\<not> FrameControl_SequenceNumberSuppression (mfFrameControl f)) [mfSeq f] @
     fld (FrameControl_HasDestPanIdField (mfFrameControl f)) (put_le 2 (mfDstPanId f)) @ dst_addr_bytes f @
     fld (FrameControl_HasSourcePanIdField (mfFrameControl f)) (put_le 2 (mfSrcPanId f)) @ src_addr_bytes f"

text \<open>The fields that are not in the header have their zero value.\<close>

definition mac_normal :: "MacFrame \<Rightarrow> bool" where
  "mac_normal f \<longleftrightarrow> FrameControl_FrameType (mfFrameControl f) \<le> FrameTypeCommand \<and> mfPhyHdrLength f = 6 \<and>
    (FrameControl_SequenceNumberSuppression (mfFrameControl f) \<longrightarrow> mfSeq f = 0) \<and>
    (\<not> FrameControl_HasDestPanIdField (mfFrameControl f) \<longrightarrow> mfDstPanId f = 0) \<and>
    (\<not> FrameControl_HasSourcePanIdField (mfFrameControl f) \<longrightarrow> mfSrcPanId f = 0) \<and>
    (FrameControl_DestAddrMode (mfFrameControl f) \<noteq> AddrModeExtended \<longrightarrow> mfDstAddrExtended f = 0) \<and>
    (FrameControl_DestAddrMode (mfFrameControl f) \<noteq> AddrModeShort \<longrightarrow> mfDstAddrShort f = 0) \<and>
    (FrameControl_SourceAddrMode (mfFrameControl f) \<noteq> AddrModeExtended \<longrightarrow> mfSrcAddrExtended f = 0) \<and>
    (FrameControl_SourceAddrMode (mfFrameControl f) \<noteq> AddrModeShort \<longrightarrow> mfSrcAddrShort f = 0)"

lemma slicer_mid: "length xs = n \<Longrightarrow> length b = k \<Longrightarrow> slicer (xs @ b @ ys) n (n + k) = Inr b"
  by (auto simp: slicer_def)

lemma dissectDstPan_read:
  "length xs = n \<Longrightarrow> mfFrameControl g = mfFrameControl f \<Longrightarrow>
    dissectDstPan (xs @ fld (FrameControl_HasDestPanIdField (mfFrameControl f)) (put_le 2 (mfDstPanId f)) @ ys) (g, n) =
    Inr (if FrameControl_HasDestPanIdField (mfFrameControl f) then g\<lparr>mfDstPanId := mfDstPanId f\<rparr> else g,
      n + length (fld (FrameControl_HasDestPanIdField (mfFrameControl f)) (put_le 2 (mfDstPanId f))))"
  using slicer_mid [of xs n "put_le 2 (mfDstPanId f)" 2 ys] by (simp add: dissectDstPan_def fld_def)

lemma dissectDstAddr_read:
  "length xs = n \<Longrightarrow> mfFrameControl g = mfFrameControl f \<Longrightarrow>
    dissectDstAddr (xs @ dst_addr_bytes f @ ys) (g, n) =
    Inr (if FrameControl_DestAddrMode (mfFrameControl f) = AddrModeExtended then g\<lparr>mfDstAddrExtended := mfDstAddrExtended f\<rparr>
         else if FrameControl_DestAddrMode (mfFrameControl f) = AddrModeShort then g\<lparr>mfDstAddrShort := mfDstAddrShort f\<rparr> else g,
      n + length (dst_addr_bytes f))"
  using slicer_mid [of xs n "put_le 8 (mfDstAddrExtended f)" 8 ys] slicer_mid [of xs n "put_le 2 (mfDstAddrShort f)" 2 ys]
  by (simp add: dissectDstAddr_def dst_addr_bytes_def)

lemma dissectSrcPan_read:
  "length xs = n \<Longrightarrow> mfFrameControl g = mfFrameControl f \<Longrightarrow>
    dissectSrcPan (xs @ fld (FrameControl_HasSourcePanIdField (mfFrameControl f)) (put_le 2 (mfSrcPanId f)) @ ys) (g, n) =
    Inr (if FrameControl_HasSourcePanIdField (mfFrameControl f) then g\<lparr>mfSrcPanId := mfSrcPanId f\<rparr> else g,
      n + length (fld (FrameControl_HasSourcePanIdField (mfFrameControl f)) (put_le 2 (mfSrcPanId f))))"
  using slicer_mid [of xs n "put_le 2 (mfSrcPanId f)" 2 ys] by (simp add: dissectSrcPan_def fld_def)

lemma dissectSrcAddr_read:
  "length xs = n \<Longrightarrow> mfFrameControl g = mfFrameControl f \<Longrightarrow>
    dissectSrcAddr (xs @ src_addr_bytes f @ ys) (g, n) =
    Inr (if FrameControl_SourceAddrMode (mfFrameControl f) = AddrModeExtended then g\<lparr>mfSrcAddrExtended := mfSrcAddrExtended f\<rparr>
         else if FrameControl_SourceAddrMode (mfFrameControl f) = AddrModeShort then g\<lparr>mfSrcAddrShort := mfSrcAddrShort f\<rparr> else g)"
  using slicer_mid [of xs n "put_le 8 (mfSrcAddrExtended f)" 8 ys] slicer_mid [of xs n "put_le 2 (mfSrcAddrShort f)" 2 ys]
  by (simp add: dissectSrcAddr_def src_addr_bytes_def)

lemma Dissect_start:
  assumes "FrameControl_FrameType (mfFrameControl f) \<le> FrameTypeCommand"
  shows "wpan_Dissect (mac_header f @ payload) =
    (let n = (if FrameControl_SequenceNumberSuppression (mfFrameControl f) then 3 else 4);
         g = zeroMacFrame\<lparr>mfChannel := mfChannel f, mfFrameControl := mfFrameControl f, mfPhyHdrLength := 6,
           mfSeq := (if FrameControl_SequenceNumberSuppression (mfFrameControl f) then 0 else mfSeq f),
           mfLengthBytes := of_int (int (length (mac_header f @ payload)) - 1)\<rparr> in
     bindr (dissectDstPan (mac_header f @ payload) (g, n)) (\<lambda>s2.
     bindr (dissectDstAddr (mac_header f @ payload) s2) (\<lambda>s3.
     bindr (dissectSrcPan (mac_header f @ payload) s3) (\<lambda>s4. dissectSrcAddr (mac_header f @ payload) s4))))"
proof -
  obtain rest where h: "mac_header f @ payload = [mfChannel f] @ put_le 2 (mfFrameControl f) @
      fld (\<not> FrameControl_SequenceNumberSuppression (mfFrameControl f)) [mfSeq f] @ rest"
    by (simp add: mac_header_def)
  have i0: "indexr (mac_header f @ payload) 0 = Inr (mfChannel f)" by (simp add: h indexr_def)
  have sl: "slicer (mac_header f @ payload) 1 3 = Inr (put_le 2 (mfFrameControl f))"
    unfolding h using slicer_mid [of "[mfChannel f]" 1 "put_le 2 (mfFrameControl f)" 2] by (simp add: numeral_3_eq_3)
  have i3: "\<not> FrameControl_SequenceNumberSuppression (mfFrameControl f) \<Longrightarrow> indexr (mac_header f @ payload) 3 = Inr (mfSeq f)"
    by (simp add: h indexr_def fld_def nth_append)
  have ft: "\<not> FrameControl_FrameType (mfFrameControl f) > FrameTypeCommand" using assms by (simp add: not_less)
  show ?thesis by (simp add: wpan_Dissect_def i0 sl [simplified] i3 Let_def ft zeroMacFrame_def)
qed



text \<open>With two extended addresses the parser expects a destination PAN identifier also when the frame control
  compresses it away: the answer of \<open>HasDestPanIdField\<close> does not depend on the PAN ID compression bit, although the
  function has a later branch for exactly this case, which answers that the field is absent.\<close>

theorem HasDestPanIdField_extended:
  assumes "FrameControl_DestAddrMode fc = AddrModeExtended" "FrameControl_SourceAddrMode fc = AddrModeExtended"
  shows "FrameControl_HasDestPanIdField fc"
  using assms by (simp add: FrameControl_HasDestPanIdField_def)

theorem HasDestPanIdField_extended_witness:
  "FrameControl_PanidCompression 0xec41 \<and> FrameControl_FrameVersion 0xec41 = 2 \<and> FrameControl_HasDestPanIdField 0xec41"
proof -
  have "FrameControl_DestAddrMode 0xec41 = AddrModeExtended" "FrameControl_SourceAddrMode 0xec41 = AddrModeExtended"
    by code_simp+
  moreover have "FrameControl_PanidCompression 0xec41 \<and> FrameControl_FrameVersion 0xec41 = 2" by code_simp
  ultimately show ?thesis using HasDestPanIdField_extended [of "0xec41"] by blast
qed

text \<open>A frame without addresses is parsed when it has its control field, sequence number and two more bytes, such as the
  checksum of an immediate acknowledgement.\<close>

lemma Dissect_ack:
  "wpan_Dissect [ch, 0x02, 0x00, s, c0, c1] =
    Inr (zeroMacFrame\<lparr>mfChannel := ch, mfFrameControl := 2, mfSeq := s, mfDstPanId := get_le [c0, c1], mfLengthBytes := 5,
      mfPhyHdrLength := 6\<rparr>)"
proof -
  have 1: "get_le [0x02, 0x00 :: u8] = (2 :: u16)" by code_simp
  have 2: "FrameControl_FrameType 2 = 2" "\<not> FrameControl_SequenceNumberSuppression 2" "FrameControl_HasDestPanIdField 2"
    "\<not> FrameControl_HasSourcePanIdField 2" "FrameControl_DestAddrMode 2 = 0" "FrameControl_SourceAddrMode 2 = 0"
    by code_simp+
  have 3: "dissectDstPan [ch, 0x02, 0x00, s, c0, c1] (g, 4) = Inr (g\<lparr>mfDstPanId := get_le [c0, c1]\<rparr>, 6)" if "mfFrameControl g = 2" for g
    using that by (simp add: dissectDstPan_def slicer_def 2)
  have 4: "dissectDstAddr d (g, n) = Inr (g, n)" "dissectSrcPan d (g, n) = Inr (g, n)" "dissectSrcAddr d (g, n) = Inr g"
    if "mfFrameControl g = 2" for g d n
    using that by (simp_all add: dissectDstAddr_def dissectSrcPan_def dissectSrcAddr_def 2)
  show ?thesis by (simp add: wpan_Dissect_def indexr_def slicer_def 1 2 3 4 zeroMacFrame_def)
qed

end
