(* ===== verification/Pcap.thy ===== *)
theory Pcap
  imports Complex_Main Types Events
begin

text \<open>
  The writer of packet captures (\<^verbatim>\<open>src/pcap/PcapFile.go\<close>, \<^verbatim>\<open>src/pcap/PcapTapFile.go\<close>). A file is its content; the
  outcome of a call of \<open>Write\<close> of the operating system is an argument: \<open>None\<close> when all bytes are written, \<open>Some (n, err)\<close>
  when only the first \<open>n\<close> are and the error \<open>err\<close> is returned. The conversion of a signal strength to the bits of a
  single-precision number (\<open>math.Float32bits\<close>) is an argument as well.

  The lemmas show that a reader of the capture format finds the appended frames again, with their timestamps.
\<close>

section \<open>Files\<close>

datatype PcapFrameType = FrameTypeOff | FrameTypeWpan | FrameTypeWpanTap | FrameTypeUnknown

record PcapFrame =
  pfTimestamp :: u64
  pfData :: bytes
  pfChannel :: u8
  pfRssi :: real

datatype PcapFile = wpanFile bytes | tapFile bytes

type_synonym wr_result = "(nat \<times> string) option"

primrec PcapFile_content :: "PcapFile \<Rightarrow> bytes" where
  "PcapFile_content (wpanFile fd) = fd"
| "PcapFile_content (tapFile fd) = fd"

definition fd_Write :: "bytes \<Rightarrow> bytes \<Rightarrow> wr_result \<Rightarrow> bytes \<times> string option" where
  "fd_Write fd b w = (case w of None \<Rightarrow> (fd @ b, None) | Some (n, err) \<Rightarrow> (fd @ take n b, Some err))"

definition ParseFrameTypeStr :: "string \<Rightarrow> PcapFrameType" where
  "ParseFrameTypeStr tp =
    (if tp = ''off'' then FrameTypeOff
     else if tp = ''wpan'' then FrameTypeWpan
     else if tp = ''wpan-tap'' then FrameTypeWpanTap
     else FrameTypeUnknown)"

definition pcapFrameHeader :: "u64 \<Rightarrow> u32 \<Rightarrow> bytes" where
  "pcapFrameHeader ts len =
     put_le 4 (ucast (ts div 1000000) :: u32) @ put_le 4 (ucast (ts mod 1000000) :: u32) @ put_le 4 len @ put_le 4 len"

definition pcapFileHeader :: "u32 \<Rightarrow> bytes" where
  "pcapFileHeader dlt = put_le 4 (0xA1B2C3D4 :: u32) @ put_le 2 (2 :: u16) @ put_le 2 (4 :: u16) @ put_le 4 (0 :: u32) @
     put_le 4 (0 :: u32) @ put_le 4 (256 :: u32) @ put_le 4 dlt"

abbreviation dltIeee802154 :: u32 where "dltIeee802154 \<equiv> 195"
abbreviation dltIeee802154Tap :: u32 where "dltIeee802154Tap \<equiv> 283"

definition wpanFile_writeHeader :: "wr_result \<Rightarrow> string option \<Rightarrow> bytes \<times> string option" where
  "wpanFile_writeHeader w syncErr =
    (case fd_Write [] (pcapFileHeader dltIeee802154) w of (fd, err) \<Rightarrow> if err \<noteq> None then (fd, err) else (fd, syncErr))"

definition tapFile_writeHeader :: "wr_result \<Rightarrow> string option \<Rightarrow> bytes \<times> string option" where
  "tapFile_writeHeader w syncErr =
    (case fd_Write [] (pcapFileHeader dltIeee802154Tap) w of (fd, err) \<Rightarrow> if err \<noteq> None then (fd, err) else (fd, syncErr))"

definition wpanFile_AppendFrame :: "bytes \<Rightarrow> PcapFrame \<Rightarrow> wr_result \<Rightarrow> wr_result \<Rightarrow> bytes \<times> string option" where
  "wpanFile_AppendFrame fd frame w1 w2 =
    (let header = pcapFrameHeader (pfTimestamp frame) (of_nat (length (pfData frame))) in
     case fd_Write fd header w1 of (fd1, err) \<Rightarrow>
       if err \<noteq> None then (fd1, err) else fd_Write fd1 (pfData frame) w2)"

section \<open>The type-length-value fields of the wpan-tap format\<close>

definition copy_at :: "bytes \<Rightarrow> nat \<Rightarrow> bytes \<Rightarrow> bytes" where
  "copy_at hdr idx b = take idx hdr @ take (length hdr - idx) b @ drop (idx + length b) hdr"

definition setTlv :: "bytes \<Rightarrow> nat \<Rightarrow> u16 \<Rightarrow> bytes \<Rightarrow> (bytes \<times> nat) res" where
  "setTlv hdr idx tlvType data =
    (let lenData = of_nat (length data) :: u16;
         l0 = lenData AND 0xFFFC;
         l = (if lenData AND 0x0003 > 0 then l0 + 4 else l0);
         tlv = copy_at (put_le 2 tlvType @ put_le 2 lenData @ replicate (unat l) 0) 4 data
     in if idx \<le> length hdr then Inr (copy_at hdr idx tlv, idx + 4 + unat l) else Inl IndexOutOfRange)"

definition tapHeader :: "(real \<Rightarrow> u32) \<Rightarrow> PcapFrame \<Rightarrow> bytes res" where
  "tapHeader float32bits frame =
    (let frLen = of_nat (length (pfData frame)) + 28 :: u32;
         header = pcapFrameHeader (pfTimestamp frame) frLen @ [0, 0] @ put_le 2 (28 :: u16) @ replicate 24 0
     in bindr (setTlv header 20 0 [1]) (\<lambda>(h1, n1).
        bindr (setTlv h1 n1 1 (put_le 4 (float32bits (pfRssi frame)))) (\<lambda>(h2, n2).
        bindr (setTlv h2 n2 3 (put_le 2 (ucast (pfChannel frame) :: u16) @ [0])) (\<lambda>(h3, n3). Inr h3))))"

definition tapFile_AppendFrame ::
  "(real \<Rightarrow> u32) \<Rightarrow> bytes \<Rightarrow> PcapFrame \<Rightarrow> wr_result \<Rightarrow> wr_result \<Rightarrow> (bytes \<times> string option) res" where
  "tapFile_AppendFrame float32bits fd frame w1 w2 =
     bindr (tapHeader float32bits frame) (\<lambda>header.
       Inr (case fd_Write fd header w1 of (fd1, err) \<Rightarrow>
         if err \<noteq> None then (fd1, err) else fd_Write fd1 (pfData frame) w2))"

section \<open>The interface\<close>

primrec PcapFile_AppendFrame ::
  "(real \<Rightarrow> u32) \<Rightarrow> PcapFile \<Rightarrow> PcapFrame \<Rightarrow> wr_result \<Rightarrow> wr_result \<Rightarrow> (PcapFile \<times> string option) res" where
  "PcapFile_AppendFrame fb (wpanFile fd) frame w1 w2 =
     (case wpanFile_AppendFrame fd frame w1 w2 of (fd1, err) \<Rightarrow> Inr (wpanFile fd1, err))"
| "PcapFile_AppendFrame fb (tapFile fd) frame w1 w2 =
     bindr (tapFile_AppendFrame fb fd frame w1 w2) (\<lambda>(fd1, err). Inr (tapFile fd1, err))"

definition timeReference802154frameData :: bytes where
  "timeReference802154frameData =
     [0x04, 0x21] @ string_bytes ''This is an OTNS simulation PCAP-start t=0 reference frame.'' @ [0x61, 0x3f]"

definition newWpanFile :: "string option \<Rightarrow> wr_result \<Rightarrow> string option \<Rightarrow> PcapFile option \<times> string option" where
  "newWpanFile openErr w syncErr =
    (if openErr \<noteq> None then (None, openErr)
     else case wpanFile_writeHeader w syncErr of (fd, err) \<Rightarrow> if err \<noteq> None then (None, err) else (Some (wpanFile fd), None))"

definition newWpanTapFile :: "string option \<Rightarrow> wr_result \<Rightarrow> string option \<Rightarrow> PcapFile option \<times> string option" where
  "newWpanTapFile openErr w syncErr =
    (if openErr \<noteq> None then (None, openErr)
     else case tapFile_writeHeader w syncErr of (fd, err) \<Rightarrow> if err \<noteq> None then (None, err) else (Some (tapFile fd), None))"

definition pcap_NewFile ::
  "(real \<Rightarrow> u32) \<Rightarrow> PcapFrameType \<Rightarrow> bool \<Rightarrow> string option \<Rightarrow> wr_result \<Rightarrow> string option \<Rightarrow> wr_result \<Rightarrow> wr_result \<Rightarrow>
   (PcapFile option \<times> string option) res" where
  "pcap_NewFile fb frameType useTimeRefFrame openErr w syncErr w1 w2 =
    (case (case frameType of
             FrameTypeWpan \<Rightarrow> newWpanFile openErr w syncErr
           | FrameTypeWpanTap \<Rightarrow> newWpanTapFile openErr w syncErr
           | FrameTypeOff \<Rightarrow> (None, Some ''invalid PCAP frame type: 0'')
           | FrameTypeUnknown \<Rightarrow> (None, Some ''invalid PCAP frame type: 3'')) of
       (Some f, None) \<Rightarrow>
         if useTimeRefFrame then
           bindr (PcapFile_AppendFrame fb f \<lparr>pfTimestamp = 0, pfData = timeReference802154frameData, pfChannel = 0, pfRssi = 0\<rparr> w1 w2)
             (\<lambda>(f1, err). if err = None then Inr (Some f1, None) else Inl ErrorPanic)
         else Inr (Some f, None)
     | (f, err) \<Rightarrow> Inr (f, err))"

section \<open>Reading a capture\<close>

text \<open>A reader of the records of a capture: for each the time in microseconds and the captured bytes.\<close>

function read_records :: "bytes \<Rightarrow> (u64 \<times> bytes) list option" where
  "read_records bs =
    (if bs = [] then Some []
     else if length bs < 16 then None
     else let sec = get_le (field 0 4 bs) :: u32; usec = get_le (field 4 4 bs) :: u32; len = unat (get_le (field 8 4 bs) :: u32) in
       if length bs < 16 + len then None
       else map_option ((#) (ucast sec * 1000000 + ucast usec, field 16 len bs)) (read_records (drop (16 + len) bs)))"
  by pat_completeness auto

termination
  by (relation "measure length") auto

declare read_records.simps [simp del]

definition tap_fields :: "(real \<Rightarrow> u32) \<Rightarrow> PcapFrame \<Rightarrow> bytes" where
  "tap_fields fb frame = [0, 0, 28, 0, 0, 0, 1, 0, 1, 0, 0, 0, 1, 0, 4, 0] @ put_le 4 (fb (pfRssi frame)) @
     [3, 0, 3, 0, pfChannel frame, 0, 0, 0]"

primrec captured :: "(real \<Rightarrow> u32) \<Rightarrow> PcapFile \<Rightarrow> PcapFrame \<Rightarrow> bytes" where
  "captured fb (wpanFile fd) frame = pfData frame"
| "captured fb (tapFile fd) frame = tap_fields fb frame @ pfData frame"

definition append_all :: "(real \<Rightarrow> u32) \<Rightarrow> PcapFrame list \<Rightarrow> PcapFile \<Rightarrow> PcapFile res" where
  "append_all fb = foldr_res (\<lambda>frame f. bindr (PcapFile_AppendFrame fb f frame None None) (\<lambda>(g, err). Inr g))"

definition frame_ok :: "PcapFrame \<Rightarrow> bool" where
  "frame_ok frame \<longleftrightarrow> length (pfData frame) + 28 < 2 ^ 32 \<and> pfTimestamp frame < 4294967296000000"

lemma put_le_2_consts:
  "put_le 2 (0 :: u16) = [0, 0]" "put_le 2 (1 :: u16) = [1, 0]" "put_le 2 (3 :: u16) = [3, 0]" "put_le 2 (4 :: u16) = [4, 0]"
  "put_le 2 (28 :: u16) = [28, 0]"
  by code_simp+

lemma put_le_2_u8: "put_le 2 (ucast (b :: u8) :: u16) = [b, 0]"
proof -
  have "drop_bit 8 (ucast b :: u16) = 0" by (rule bit_word_eqI) (auto simp: bit_simps dest: bit_imp_le_length)
  moreover have "ucast (ucast b :: u16) = b" by (rule bit_word_eqI) (auto simp: bit_simps)
  ultimately show ?thesis by (simp add: put_le_def upt_rec numeral_2_eq_2)
qed

lemma length_pcapFrameHeader [simp]: "length (pcapFrameHeader ts len) = 16"
  by (simp add: pcapFrameHeader_def)

lemma length_tap_fields [simp]: "length (tap_fields fb frame) = 28"
  by (simp add: tap_fields_def)

lemma length_pcapFileHeader [simp]: "length (pcapFileHeader dlt) = 24"
  by (simp add: pcapFileHeader_def)

lemma copy_at_mid: "length h = n \<Longrightarrow> length b = k \<Longrightarrow> length old = k \<Longrightarrow> copy_at (h @ old @ rest) n b = h @ b @ rest"
  by (simp add: copy_at_def)

lemma setTlv_writes:
  assumes "length h = n" "length data \<in> {1, 3, 4}"
  shows "setTlv (h @ replicate 8 0 @ rest) n t data =
    Inr (h @ put_le 2 t @ put_le 2 (of_nat (length data) :: u16) @ data @ replicate (4 - length data) 0 @ rest, n + 8)"
proof -
  have l: "(if (of_nat (length data) :: u16) AND 3 > 0 then (of_nat (length data) AND 0xFFFC) + 4 else of_nat (length data) AND 0xFFFC) = (4 :: u16)"
    using assms(2) by auto
  have "copy_at (put_le 2 t @ put_le 2 (of_nat (length data) :: u16) @ replicate 4 0) 4 data =
      put_le 2 t @ put_le 2 (of_nat (length data) :: u16) @ data @ replicate (4 - length data) 0"
    using assms(2) by (auto simp: copy_at_def)
  then show ?thesis
    using copy_at_mid [of h n "put_le 2 t @ put_le 2 (of_nat (length data) :: u16) @ data @ replicate (4 - length data) 0" 8
      "replicate 8 0" rest] assms
    unfolding setTlv_def Let_def l by auto
qed

lemma tapHeader_fields:
  "tapHeader fb frame = Inr (pcapFrameHeader (pfTimestamp frame) (of_nat (length (pfData frame)) + 28) @ tap_fields fb frame)"
proof -
  define h where "h = pcapFrameHeader (pfTimestamp frame) (of_nat (length (pfData frame)) + 28) @ [0, 0, 28, 0]"
  define r where "r = put_le 4 (fb (pfRssi frame))"
  have [simp]: "length h = 20" "length r = 4" by (simp_all add: h_def r_def)
  have 1: "setTlv (h @ replicate 24 0) 20 0 [1] = Inr (h @ [0, 0, 1, 0, 1, 0, 0, 0] @ replicate 16 0, 28)"
    using setTlv_writes [of h 20 "[1]" "replicate 16 0" 0] replicate_add [of 8 16 "0 :: u8"]
    by (simp add: put_le_2_consts numeral_3_eq_3)
  have 2: "setTlv (h @ [0, 0, 1, 0, 1, 0, 0, 0] @ replicate 16 0) 28 1 r =
      Inr (h @ [0, 0, 1, 0, 1, 0, 0, 0] @ [1, 0, 4, 0] @ r @ replicate 8 0, 36)"
    using setTlv_writes [of "h @ [0, 0, 1, 0, 1, 0, 0, 0]" 28 r "replicate 8 0" 1]
      replicate_add [of 8 8 "0 :: u8"] by (simp add: put_le_2_consts)
  have 3: "setTlv (h @ [0, 0, 1, 0, 1, 0, 0, 0] @ [1, 0, 4, 0] @ r @ replicate 8 0) 36 3 [pfChannel frame, 0, 0] =
      Inr (h @ [0, 0, 1, 0, 1, 0, 0, 0] @ [1, 0, 4, 0] @ r @ [3, 0, 3, 0, pfChannel frame, 0, 0, 0], 44)"
    using setTlv_writes [of "h @ [0, 0, 1, 0, 1, 0, 0, 0] @ [1, 0, 4, 0] @ r" 36 "[pfChannel frame, 0, 0]" "[]" 3]
    by (simp add: put_le_2_consts)
  show ?thesis
    unfolding tapHeader_def Let_def
    using 1 2 3 by (simp add: h_def r_def put_le_2_consts put_le_2_u8 tap_fields_def)
qed

lemma AppendFrame_content:
  "\<exists>g. PcapFile_AppendFrame fb f frame None None = Inr (g, None) \<and> captured fb g = captured fb f \<and>
     PcapFile_content g = PcapFile_content f @
       pcapFrameHeader (pfTimestamp frame) (of_nat (length (captured fb f frame))) @ captured fb f frame"
  by (cases f) (simp_all add: wpanFile_AppendFrame_def tapFile_AppendFrame_def tapHeader_fields fd_Write_def fun_eq_iff add.commute)

lemma append_all_content:
  "\<exists>g. append_all fb frames f = Inr g \<and> captured fb g = captured fb f \<and>
     PcapFile_content g = PcapFile_content f @ concat (map (\<lambda>frame.
       pcapFrameHeader (pfTimestamp frame) (of_nat (length (captured fb f frame))) @ captured fb f frame) frames)"
proof (induction frames arbitrary: f)
  case Nil
  show ?case by (simp add: append_all_def)
next
  case (Cons a frames)
  obtain g where g: "PcapFile_AppendFrame fb f a None None = Inr (g, None)" "captured fb g = captured fb f"
    "PcapFile_content g = PcapFile_content f @ pcapFrameHeader (pfTimestamp a) (of_nat (length (captured fb f a))) @ captured fb f a"
    using AppendFrame_content by metis
  from Cons.IH [of g] g show ?case by (auto simp: append_all_def)
qed

lemma record_time:
  assumes "ts < 4294967296000000"
  shows "ucast (ucast (ts div 1000000) :: u32) * 1000000 + ucast (ucast (ts mod 1000000) :: u32) = (ts :: u64)"
proof -
  have "unat ts < 4294967296000000" using assms by (simp add: word_less_nat_alt)
  then have "unat (ts div 1000000) < 2 ^ 32" "unat (ts mod 1000000) < 2 ^ 32"
    by (simp_all add: unat_div unat_mod less_mult_imp_div_less)
  then have "ucast (ucast (ts div 1000000) :: u32) = ts div 1000000" "ucast (ucast (ts mod 1000000) :: u32) = ts mod 1000000"
    by (auto intro!: word_unat_eq_iff [THEN iffD2] simp: unsigned_ucast_eq unsigned_take_bit_eq take_bit_nat_eq_self)
  then show ?thesis by (simp add: word_mod_div_equality)
qed

lemma read_records_Nil [simp]: "read_records [] = Some []"
  by (simp add: read_records.simps)

lemma read_records_step:
  assumes "ts < 4294967296000000" "length b < 2 ^ 32"
  shows "read_records (pcapFrameHeader ts (of_nat (length b)) @ b @ rest) = map_option ((#) (ts, b)) (read_records rest)"
proof -
  define sec where "sec = (ucast (ts div 1000000) :: u32)"
  define usec where "usec = (ucast (ts mod 1000000) :: u32)"
  let ?bs = "pcapFrameHeader ts (of_nat (length b)) @ b @ rest"
  have bs: "?bs = put_le 4 sec @ put_le 4 usec @ put_le 4 (of_nat (length b) :: u32) @ put_le 4 (of_nat (length b) :: u32) @ b @ rest"
    by (simp add: pcapFrameHeader_def sec_def usec_def)
  have "field 0 4 ?bs = put_le 4 sec" "field 4 4 ?bs = put_le 4 usec" "field 8 4 ?bs = put_le 4 (of_nat (length b) :: u32)"
    "field 16 (length b) ?bs = b" "drop (16 + length b) ?bs = rest"
    unfolding bs by simp_all
  moreover have "unat (of_nat (length b) :: u32) = length b"
    using assms(2) by (simp add: unat_of_nat take_bit_nat_eq_self)
  moreover have "ucast sec * 1000000 + ucast usec = ts" unfolding sec_def usec_def by (rule record_time [OF assms(1)])
  moreover have "?bs \<noteq> []"
    by (metis length_pcapFrameHeader append_is_Nil_conv list.size(3) zero_neq_numeral)
  moreover have "\<not> length ?bs < 16" "\<not> length ?bs < 16 + length b" by (simp_all add: bs)
  ultimately show ?thesis
    using read_records.simps [of ?bs] by (simp only: Let_def get_put_le if_False) simp
qed

lemma read_records_concat:
  "\<forall>frame \<in> set frames. pfTimestamp frame < 4294967296000000 \<and> length (c frame) < 2 ^ 32 \<Longrightarrow>
   read_records (concat (map (\<lambda>frame. pcapFrameHeader (pfTimestamp frame) (of_nat (length (c frame))) @ c frame) frames)) =
     Some (map (\<lambda>frame. (pfTimestamp frame, c frame)) frames)"
  by (induction frames) (simp_all add: read_records_step)

abbreviation timeReferenceFrame :: PcapFrame where
  "timeReferenceFrame \<equiv> \<lparr>pfTimestamp = 0, pfData = timeReference802154frameData, pfChannel = 0, pfRssi = 0\<rparr>"

lemma length_timeReference: "length timeReference802154frameData = 62"
  by (simp add: timeReference802154frameData_def string_bytes_def)

lemma NewFile_content:
  assumes "pcap_NewFile fb frameType useTimeRefFrame None None None None None = Inr (Some f, None)"
  shows "\<exists>hdr. length hdr = 24 \<and> PcapFile_content f = hdr @
    concat (map (\<lambda>frame. pcapFrameHeader (pfTimestamp frame) (of_nat (length (captured fb f frame))) @ captured fb f frame)
      (if useTimeRefFrame then [timeReferenceFrame] else []))"
proof -
  define f0 where "f0 = (if frameType = FrameTypeWpan then wpanFile (pcapFileHeader dltIeee802154)
    else tapFile (pcapFileHeader dltIeee802154Tap))"
  have f0: "length (PcapFile_content f0) = 24"
    "if useTimeRefFrame then PcapFile_AppendFrame fb f0 timeReferenceFrame None None = Inr (f, None) else f = f0"
    using assms by (auto simp: f0_def pcap_NewFile_def newWpanFile_def newWpanTapFile_def wpanFile_writeHeader_def
      tapFile_writeHeader_def fd_Write_def res_simps split: PcapFrameType.splits if_splits prod.splits)
  show ?thesis
  proof (cases useTimeRefFrame)
    case True
    with AppendFrame_content [of fb f0 timeReferenceFrame] f0 show ?thesis by auto
  next
    case False
    with f0 show ?thesis by auto
  qed
qed

text \<open>C24. A capture can be read back: after creating a file of one of the two formats, with or without the reference frame
  for the start of the simulation, and appending any frames, a reader finds behind the 24 bytes of the file header exactly
  these frames in this order. Each has its timestamp, to the microsecond, and the captured bytes, which are the data of the frame
  and, in the wpan-tap format, before it the fields with the signal strength and the channel. No append panics. The timestamps
  must be below 2^32 seconds and the data shorter than 2^32 - 28 bytes.\<close>

theorem pcap_read_back:
  assumes "pcap_NewFile fb frameType useTimeRefFrame None None None None None = Inr (Some f, None)"
    "\<forall>frame \<in> set frames. frame_ok frame"
  shows "\<exists>g. append_all fb frames f = Inr g \<and> read_records (drop 24 (PcapFile_content g)) =
    Some (map (\<lambda>frame. (pfTimestamp frame, captured fb f frame)) ((if useTimeRefFrame then [timeReferenceFrame] else []) @ frames))"
proof -
  define all where "all = (if useTimeRefFrame then [timeReferenceFrame] else []) @ frames"
  define enc where "enc = (\<lambda>frame. pcapFrameHeader (pfTimestamp frame) (of_nat (length (captured fb f frame))) @ captured fb f frame)"
  obtain hdr where hdr: "length hdr = 24"
    "PcapFile_content f = hdr @ concat (map enc (if useTimeRefFrame then [timeReferenceFrame] else []))"
    using NewFile_content [OF assms(1)] unfolding enc_def by blast
  obtain g where g: "append_all fb frames f = Inr g" "PcapFile_content g = PcapFile_content f @ concat (map enc frames)"
    using append_all_content [of fb frames f] unfolding enc_def by blast
  have ok: "\<forall>frame \<in> set all. pfTimestamp frame < 4294967296000000 \<and> length (captured fb f frame) < 2 ^ 32"
    using assms(2) by (cases f) (auto simp: all_def frame_ok_def length_timeReference)
  have "PcapFile_content g = hdr @ concat (map enc all)" by (simp add: g hdr all_def)
  then have "read_records (drop 24 (PcapFile_content g)) = Some (map (\<lambda>frame. (pfTimestamp frame, captured fb f frame)) all)"
    using read_records_concat [OF ok] hdr by (simp add: enc_def)
  with g show ?thesis unfolding all_def by blast
qed

theorem pcap_read_back_witness:
  "\<exists>f g. pcap_NewFile (\<lambda>_. 0) FrameTypeWpanTap False None None None None None = Inr (Some f, None) \<and>
    append_all (\<lambda>_. 0) [\<lparr>pfTimestamp = 1500000, pfData = [1, 2, 3], pfChannel = 11, pfRssi = 0\<rparr>] f = Inr g \<and>
    read_records (drop 24 (PcapFile_content g)) =
      Some [(1500000, [0, 0, 28, 0, 0, 0, 1, 0, 1, 0, 0, 0, 1, 0, 4, 0, 0, 0, 0, 0, 3, 0, 3, 0, 11, 0, 0, 0, 1, 2, 3])]"
proof -
  let ?fr = "\<lparr>pfTimestamp = 1500000, pfData = [1, 2, 3], pfChannel = 11, pfRssi = 0\<rparr>"
  have 1: "pcap_NewFile (\<lambda>_. 0) FrameTypeWpanTap False None None None None None = Inr (Some (tapFile (pcapFileHeader dltIeee802154Tap)), None)"
    by (simp add: pcap_NewFile_def newWpanTapFile_def tapFile_writeHeader_def fd_Write_def)
  have 2: "\<forall>frame \<in> set [?fr]. frame_ok frame" by (simp add: frame_ok_def)
  have "put_le 4 (0 :: u32) = [0, 0, 0, 0]" by code_simp
  then show ?thesis using pcap_read_back [OF 1 2] 1 by (simp add: tap_fields_def)
qed

end
