(* ===== verification/Dispatcher_Node.thy ===== *)
theory Dispatcher_Node
  imports Types Failure_Ctrl Radio_Model "HOL-Library.Multiset"
begin

text \<open>
  The dispatcher's record of a node and the operations that only change this record (\<^verbatim>\<open>src/dispatcher/Node.go\<close>):
  the bookkeeping of pings and of joiner sessions. The operations that use the dispatcher as well (\<^verbatim>\<open>sendEvent\<close> and
  those built on it) are in the theory \<open>Dispatcher_Events\<close>. The radio node is a pointer into the memory that the
  radio model uses, a connection is a number, and the clock of the dispatcher is an argument.

  The lemmas show that pings are neither lost nor counted twice, that the stored results are bounded, and that the
  recorded join durations are consistent.
\<close>

section \<open>The code\<close>

record pingRequest =
  prTimestamp :: u64
  prDst :: string
  prDataSize :: int

record PingResult =
  pgDst :: string
  pgDataSize :: int
  pgDelay :: u64

record joinerSession =
  jsStartTime :: u64
  jsJoinedTime :: u64
  jsStopTime :: u64

record JoinResult =
  jrJoinDuration :: u64
  jrSessionDuration :: u64

text \<open>The error of a failed send: the event, whether the socket was closed, and the error of the socket. It is kept as a value
  here, where the code formats it as text.\<close>

type_synonym sendError = "Event \<times> bool \<times> string"

record DNode =
  dnId :: NodeId
  dnX :: int
  dnY :: int
  dnZ :: int
  dnPartitionId :: u32
  dnExtAddr :: u64
  dnRloc16 :: u16
  dnCreateTime :: u64
  dnCurTime :: u64
  dnMode :: NodeMode
  dnRole :: OtDeviceRole
  dnRadioNode :: rptr
  dnCfg :: NodeConfig
  dnConn :: "nat option"
  dnHasDisconnected :: bool
  dnMsgId :: u64
  dnErr :: "sendError option"
  dnFailureCtrl :: FailureCtrl
  dnIsFailed :: bool
  dnPendingPings :: "pingRequest list"
  dnPingResults :: "PingResult list"
  dnJoinerState :: OtJoinerState
  dnJoinerSession :: "joinerSession option"
  dnJoinResults :: "JoinResult list"

abbreviation maxPingResultCount :: nat where "maxPingResultCount \<equiv> 1000"
abbreviation maxJoinResultCount :: nat where "maxJoinResultCount \<equiv> 1000"

text \<open>\<open>newNode\<close>: the node and the contents of its new radio node, which is stored at the address \<open>p\<close>.\<close>

definition newNode :: "u64 \<Rightarrow> rptr \<Rightarrow> NodeId \<Rightarrow> NodeConfig \<Rightarrow> (DNode \<times> RadioNode) res" where
  "newNode dCur p nodeid cfg = assertr (cfgRadioRange cfg \<ge> 0)
    (let radioCfg = \<lparr>rcfX = cfgX cfg, rcfY = cfgY cfg, rcfZ = cfgZ cfg, rcfRadioRange = cfgRadioRange cfg\<rparr> in
     Inr (\<lparr>dnId = nodeid, dnX = cfgX cfg, dnY = cfgY cfg, dnZ = cfgZ cfg, dnPartitionId = 0, dnExtAddr = InvalidExtAddr,
        dnRloc16 = InvalidRloc16, dnCreateTime = dCur, dnCurTime = dCur, dnMode = DefaultNodeMode,
        dnRole = OtDeviceRoleDisabled, dnRadioNode = p, dnCfg = cfg, dnConn = None, dnHasDisconnected = False, dnMsgId = 0,
        dnErr = None, dnFailureCtrl = newFailureCtrl NonFailTime, dnIsFailed = False, dnPendingPings = [], dnPingResults = [],
        dnJoinerState = OtJoinerStateIdle, dnJoinerSession = None, dnJoinResults = []\<rparr>,
      NewRadioNode nodeid radioCfg))"

definition Node_IsFailed :: "DNode \<Rightarrow> bool" where
  "Node_IsFailed node = dnIsFailed node"

definition Node_IsConnected :: "DNode \<Rightarrow> bool" where
  "Node_IsConnected node \<longleftrightarrow> dnConn node \<noteq> None \<and> \<not> dnHasDisconnected node"

definition Node_onPingRequest :: "DNode \<Rightarrow> u64 \<Rightarrow> string \<Rightarrow> int \<Rightarrow> DNode" where
  "Node_onPingRequest node timestamp dstaddr datasize =
    (if datasize < 4 then node
     else node\<lparr>dnPendingPings := dnPendingPings node @
       [\<lparr>prTimestamp = timestamp, prDst = dstaddr, prDataSize = datasize\<rparr>]\<rparr>)"

definition Node_addPingResult :: "DNode \<Rightarrow> string \<Rightarrow> int \<Rightarrow> u64 \<Rightarrow> DNode" where
  "Node_addPingResult node dst datasize delay =
    (let node1 = node\<lparr>dnPingResults := dnPingResults node @ [\<lparr>pgDst = dst, pgDataSize = datasize, pgDelay = delay\<rparr>]\<rparr> in
     if length (dnPingResults node1) > maxPingResultCount
     then node1\<lparr>dnPingResults := drop 1 (dnPingResults node1)\<rparr> else node1)"

abbreviation maxPingDelayUs :: u64 where "maxPingDelayUs \<equiv> 10 * 1000000"

fun Node_onPingReply_loop ::
  "u64 \<Rightarrow> u64 \<Rightarrow> string \<Rightarrow> pingRequest list \<Rightarrow> DNode \<Rightarrow> pingRequest list \<Rightarrow> DNode \<times> pingRequest list" where
  "Node_onPingReply_loop dCur timestamp dstaddr [] node left = (node, left)"
| "Node_onPingReply_loop dCur timestamp dstaddr (req # reqs) node left =
    (if prTimestamp req = timestamp \<and> prDst req = dstaddr then
       Node_onPingReply_loop dCur timestamp dstaddr reqs
         (Node_addPingResult node (prDst req) (prDataSize req) (dCur - prTimestamp req)) left
     else if prTimestamp req + maxPingDelayUs < dCur then
       Node_onPingReply_loop dCur timestamp dstaddr reqs
         (Node_addPingResult node (prDst req) (prDataSize req) maxPingDelayUs) left
     else Node_onPingReply_loop dCur timestamp dstaddr reqs node (left @ [req]))"

definition Node_onPingReply :: "u64 \<Rightarrow> DNode \<Rightarrow> u64 \<Rightarrow> string \<Rightarrow> int \<Rightarrow> int \<Rightarrow> DNode" where
  "Node_onPingReply dCur node timestamp dstaddr datasize hoplimit =
    (if datasize < 4 then node
     else case Node_onPingReply_loop dCur timestamp dstaddr (dnPendingPings node) node [] of
       (node1, leftPingRequests) \<Rightarrow> node1\<lparr>dnPendingPings := leftPingRequests\<rparr>)"

definition Node_CollectPings :: "DNode \<Rightarrow> DNode \<times> PingResult list" where
  "Node_CollectPings node = (node\<lparr>dnPingResults := []\<rparr>, dnPingResults node)"

definition Node_CollectJoins :: "DNode \<Rightarrow> DNode \<times> JoinResult list" where
  "Node_CollectJoins node = (node\<lparr>dnJoinResults := []\<rparr>, dnJoinResults node)"

definition Node_startNewJoinerSession :: "DNode \<Rightarrow> DNode" where
  "Node_startNewJoinerSession node =
    (if dnJoinerSession node \<noteq> None then node
     else node\<lparr>dnJoinerSession := Some \<lparr>jsStartTime = dnCurTime node, jsJoinedTime = 0, jsStopTime = 0\<rparr>\<rparr>)"

definition Node_addJoinResult :: "DNode \<Rightarrow> joinerSession \<Rightarrow> DNode" where
  "Node_addJoinResult node js =
    (let joinDuration = (if jsJoinedTime js \<noteq> 0 then jsJoinedTime js - jsStartTime js else 0);
         sessionDuration = jsStopTime js - jsStartTime js;
         node1 = node\<lparr>dnJoinResults := dnJoinResults node @ [\<lparr>jrJoinDuration = joinDuration, jrSessionDuration = sessionDuration\<rparr>]\<rparr> in
     if length (dnJoinResults node1) > maxJoinResultCount
     then node1\<lparr>dnJoinResults := drop 1 (dnJoinResults node1)\<rparr> else node1)"

definition Node_closeJoinerSession :: "DNode \<Rightarrow> DNode" where
  "Node_closeJoinerSession node =
    (case dnJoinerSession node of
       None \<Rightarrow> node
     | Some js \<Rightarrow> (Node_addJoinResult node (js\<lparr>jsStopTime := dnCurTime node\<rparr>))\<lparr>dnJoinerSession := None\<rparr>)"

definition Node_onJoinerState :: "DNode \<Rightarrow> OtJoinerState \<Rightarrow> DNode" where
  "Node_onJoinerState node state =
    (if dnJoinerState node = state then node
     else let node1 = node\<lparr>dnJoinerState := state\<rparr> in
       if state = OtJoinerStateDiscover \<or> state = OtJoinerStateConnect then Node_startNewJoinerSession node1
       else if state = OtJoinerStateJoined then
         (case dnJoinerSession node1 of
            None \<Rightarrow> node1
          | Some js \<Rightarrow> node1\<lparr>dnJoinerSession := Some (js\<lparr>jsJoinedTime := dnCurTime node1\<rparr>)\<rparr>)
       else if state = OtJoinerStateIdle then Node_closeJoinerSession node1
       else node1)"

section \<open>Pings\<close>

text \<open>How a pending request is answered by a reply: the delay that is recorded, or nothing when it stays pending.\<close>

definition ping_answer :: "u64 \<Rightarrow> u64 \<Rightarrow> string \<Rightarrow> pingRequest \<Rightarrow> u64 option" where
  "ping_answer now ts dst req =
    (if prTimestamp req = ts \<and> prDst req = dst then Some (now - prTimestamp req)
     else if prTimestamp req + maxPingDelayUs < now then Some maxPingDelayUs else None)"

definition ping_results :: "u64 \<Rightarrow> u64 \<Rightarrow> string \<Rightarrow> pingRequest list \<Rightarrow> PingResult list" where
  "ping_results now ts dst reqs = List.map_filter (\<lambda>req. map_option (\<lambda>delay.
     \<lparr>pgDst = prDst req, pgDataSize = prDataSize req, pgDelay = delay\<rparr>) (ping_answer now ts dst req)) reqs"

definition last_n :: "nat \<Rightarrow> 'a list \<Rightarrow> 'a list" where
  "last_n n xs = drop (length xs - n) xs"

lemma last_n_short [simp]: "length xs \<le> n \<Longrightarrow> last_n n xs = xs"
  by (simp add: last_n_def)

lemma length_last_n [simp]: "length (last_n n xs) = min n (length xs)"
  by (auto simp: last_n_def)

lemma last_n_append: "last_n n (last_n n xs @ ys) = last_n n (xs @ ys)"
  by (cases "length xs \<le> n") (auto simp: last_n_def add.commute [of "length ys" "length xs"])

lemma last_n_snoc:
  "length xs \<le> n \<Longrightarrow> (if length (xs @ [x]) > n then drop 1 (xs @ [x]) else xs @ [x]) = last_n n (xs @ [x])"
  by (cases "length xs = n") (auto simp: last_n_def)

lemma addPingResult_last_n:
  assumes "length (dnPingResults node) \<le> maxPingResultCount"
  shows "Node_addPingResult node dst datasize delay =
    node\<lparr>dnPingResults := last_n maxPingResultCount (dnPingResults node @ [\<lparr>pgDst = dst, pgDataSize = datasize, pgDelay = delay\<rparr>])\<rparr>"
  using last_n_snoc [OF assms, of "\<lparr>pgDst = dst, pgDataSize = datasize, pgDelay = delay\<rparr>"]
  by (cases "999 < length (dnPingResults node)") (simp_all add: Node_addPingResult_def Let_def)

lemma onPingReply_loop:
  "length (dnPingResults node) \<le> maxPingResultCount \<Longrightarrow>
   Node_onPingReply_loop now ts dst reqs node left =
    (node\<lparr>dnPingResults := last_n maxPingResultCount (dnPingResults node @ ping_results now ts dst reqs)\<rparr>,
     left @ filter (\<lambda>req. ping_answer now ts dst req = None) reqs)"
proof (induction reqs arbitrary: node left)
  case Nil
  then show ?case by (simp add: ping_results_def map_filter_simps)
next
  case (Cons req reqs)
  have "Node_onPingReply_loop now ts dst (req # reqs) node left =
      Node_onPingReply_loop now ts dst reqs
        (case ping_answer now ts dst req of None \<Rightarrow> node | Some delay \<Rightarrow> Node_addPingResult node (prDst req) (prDataSize req) delay)
        (case ping_answer now ts dst req of None \<Rightarrow> left @ [req] | Some delay \<Rightarrow> left)"
    by (auto simp: ping_answer_def)
  with Cons show ?case
    by (cases "ping_answer now ts dst req")
      (simp_all add: addPingResult_last_n ping_results_def map_filter_simps last_n_append)
qed

lemma onPingReply_result:
  "length (dnPingResults node) \<le> maxPingResultCount \<Longrightarrow> datasize \<ge> 4 \<Longrightarrow>
   Node_onPingReply now node ts dst datasize hop =
    node\<lparr>dnPingResults := last_n maxPingResultCount (dnPingResults node @ ping_results now ts dst (dnPendingPings node)),
         dnPendingPings := filter (\<lambda>req. ping_answer now ts dst req = None) (dnPendingPings node)\<rparr>"
  by (simp add: Node_onPingReply_def onPingReply_loop)

datatype ping_op = PingRequest u64 string int | PingReply u64 u64 string int int

primrec ping_step :: "ping_op \<Rightarrow> DNode \<Rightarrow> DNode" where
  "ping_step (PingRequest ts dst n) node = Node_onPingRequest node ts dst n"
| "ping_step (PingReply now ts dst n hop) node = Node_onPingReply now node ts dst n hop"

text \<open>The pings that a node knows of, pending or answered, by destination and size, and those that an operation adds.\<close>

definition pings_of :: "DNode \<Rightarrow> (string \<times> int) multiset" where
  "pings_of node = image_mset (\<lambda>r. (prDst r, prDataSize r)) (mset (dnPendingPings node)) +
     image_mset (\<lambda>r. (pgDst r, pgDataSize r)) (mset (dnPingResults node))"

primrec ping_new :: "ping_op \<Rightarrow> (string \<times> int) multiset" where
  "ping_new (PingRequest ts dst n) = (if n < 4 then {#} else {#(dst, n)#})"
| "ping_new (PingReply now ts dst n hop) = {#}"

lemma ping_results_mset:
  "image_mset (\<lambda>r. (pgDst r, pgDataSize r)) (mset (ping_results now ts dst reqs)) +
   image_mset (\<lambda>r. (prDst r, prDataSize r)) (mset (filter (\<lambda>req. ping_answer now ts dst req = None) reqs)) =
   image_mset (\<lambda>r. (prDst r, prDataSize r)) (mset reqs)"
proof (induction reqs)
  case Nil
  show ?case by (simp add: ping_results_def map_filter_simps)
next
  case (Cons req reqs)
  then show ?case
    by (cases "ping_answer now ts dst req") (simp_all add: ping_results_def map_filter_simps)
qed

lemma length_ping_results:
  "length (ping_results now ts dst reqs) + length (filter (\<lambda>req. ping_answer now ts dst req = None) reqs) = length reqs"
  by (induction reqs) (auto simp: ping_results_def map_filter_simps split: option.splits)

lemma ping_step_bounded:
  "length (dnPingResults node) \<le> maxPingResultCount \<Longrightarrow> length (dnPingResults (ping_step p node)) \<le> maxPingResultCount"
  by (cases p) (auto simp: Node_onPingRequest_def onPingReply_result Node_onPingReply_def onPingReply_loop)

lemma ping_step_pings:
  assumes "size (pings_of node) \<le> maxPingResultCount"
  shows "pings_of (ping_step p node) = pings_of node + ping_new p"
proof (cases p)
  case (PingRequest ts dst n)
  then show ?thesis by (simp add: pings_of_def Node_onPingRequest_def)
next
  case (PingReply now ts dst n hop)
  have b: "length (dnPingResults node) + length (ping_results now ts dst (dnPendingPings node)) \<le> maxPingResultCount"
    using assms length_ping_results [of now ts dst "dnPendingPings node"] by (simp add: pings_of_def)
  show ?thesis
  proof (cases "n < 4")
    case True
    with PingReply show ?thesis by (simp add: Node_onPingReply_def)
  next
    case False
    with PingReply b have "pings_of (ping_step p node) =
        image_mset (\<lambda>r. (prDst r, prDataSize r)) (mset (filter (\<lambda>req. ping_answer now ts dst req = None) (dnPendingPings node))) +
        (image_mset (\<lambda>r. (pgDst r, pgDataSize r)) (mset (dnPingResults node)) +
         image_mset (\<lambda>r. (pgDst r, pgDataSize r)) (mset (ping_results now ts dst (dnPendingPings node))))"
      by (simp add: onPingReply_result pings_of_def)
    then show ?thesis
      unfolding pings_of_def ping_results_mset [of now ts dst "dnPendingPings node", symmetric] PingReply ping_new.simps
      by (simp only: ac_simps add_0_left add_0_right)
  qed
qed



section \<open>Joiner sessions\<close>

text \<open>A session of a node started no later than the clock of the node, and so did its join; then the recorded durations
  are consistent: the join is part of the session.\<close>

definition session_ok :: "DNode \<Rightarrow> bool" where
  "session_ok node \<longleftrightarrow> (case dnJoinerSession node of None \<Rightarrow> True | Some js \<Rightarrow> jsStartTime js \<le> dnCurTime node \<and>
     (jsJoinedTime js \<noteq> 0 \<longrightarrow> jsStartTime js \<le> jsJoinedTime js \<and> jsJoinedTime js \<le> dnCurTime node))"

lemma onJoinerState_session: "session_ok node \<Longrightarrow> session_ok (Node_onJoinerState node state)"
  by (auto simp: session_ok_def Node_onJoinerState_def Node_startNewJoinerSession_def Node_closeJoinerSession_def
    Node_addJoinResult_def Let_def split: option.splits)

lemma advance_session: "session_ok node \<Longrightarrow> dnCurTime node \<le> t \<Longrightarrow> session_ok (node\<lparr>dnCurTime := t\<rparr>)"
  by (auto simp: session_ok_def split: option.splits)

lemma onJoinerState_durations:
  assumes "session_ok node" "\<forall>r \<in> set (dnJoinResults node). jrJoinDuration r \<le> jrSessionDuration r"
  shows "\<forall>r \<in> set (dnJoinResults (Node_onJoinerState node state)). jrJoinDuration r \<le> jrSessionDuration r"
proof -
  have le: "a - s \<le> (b :: u64) - s" if "s \<le> a" "a \<le> b" for a b s
    using that by (meson word_le_minus_mono_left)
  have "\<forall>r \<in> set (dnJoinResults (Node_closeJoinerSession n)). jrJoinDuration r \<le> jrSessionDuration r"
    if "session_ok n" "\<forall>r \<in> set (dnJoinResults n). jrJoinDuration r \<le> jrSessionDuration r" for n
    using that le by (auto simp: session_ok_def Node_closeJoinerSession_def Node_addJoinResult_def Let_def
      dest: in_set_dropD split: option.splits)
  from this [of "node\<lparr>dnJoinerState := state\<rparr>"] assms show ?thesis
    by (auto simp: Node_onJoinerState_def Node_startNewJoinerSession_def session_ok_def Let_def split: option.splits if_splits)
qed

end
