(* ===== verification/Dispatcher_State.thy ===== *)
theory Dispatcher_State
  imports Alarm_Mgr Events Send_Queue Rloc16_Map Coaps Energy Radio_Channel Log_Level Wpan Pcap Dispatcher_Node
begin

text \<open>
  The state of the dispatcher (\<^verbatim>\<open>src/dispatcher/dispatcher.go\<close>, \<^verbatim>\<open>dispatcher_config.go\<close>, \<^verbatim>\<open>visualization_options.go\<close>, \<^verbatim>\<open>types.go\<close>),
  its statistics (\<^verbatim>\<open>stats.go\<close>), and the operations by which the simulation manages nodes: adding, deleting, moving and
  failing them, and their addresses and roles.

  A pointer to a node is the identifier of the node: the dispatcher only uses pointers that it finds in its maps, and the invariant
  of \<open>Dispatcher_Laws\<close> shows that they all point to registered nodes. What leaves the dispatcher is appended to
  the list \<open>dOut\<close>: calls of the visualizer and of the callback handler, data written to sockets, captured frames.
  What enters it from outside is the record \<open>Env\<close>: random numbers, the outcome of socket writes, the readings of the
  clock and the order in which Go iterates over a map. The numbers that are drawn one after the other are counted by \<open>dDraws\<close>.
\<close>

section \<open>Configuration and state\<close>

record DConfig =
  dcSpeed :: real
  dcRealtime :: bool
  dcDumpPackets :: bool
  dcPcapEnabled :: bool
  dcPcapFrameType :: PcapFrameType
  dcDefaultWatchOn :: bool
  dcDefaultWatchLevel :: string
  dcSimulationId :: int
  dcOutputDir :: string
  dcPhyTxStats :: bool

definition DefaultConfig :: DConfig where
  "DefaultConfig = \<lparr>dcSpeed = 1, dcRealtime = False, dcDumpPackets = False, dcPcapEnabled = True, dcPcapFrameType = FrameTypeWpan,
     dcDefaultWatchOn = False, dcDefaultWatchLevel = ''off'', dcSimulationId = 0, dcOutputDir = ''tmp'', dcPhyTxStats = False\<rparr>"

record VisualizationOptions =
  voBroadcastMessage :: bool
  voUnicastMessage :: bool
  voAckMessage :: bool
  voRouterTable :: bool
  voChildTable :: bool

definition defaultVisualizationOptions :: VisualizationOptions where
  "defaultVisualizationOptions = \<lparr>voBroadcastMessage = True, voUnicastMessage = True, voAckMessage = False,
     voRouterTable = True, voChildTable = True\<rparr>"

record TimeWindowStats =
  twWinStartUs :: u64
  twWinWidthUs :: u64
  twPhyStats :: "NodeId \<rightharpoonup> PhyStats"
  twStatsWinStart :: "NodeId \<rightharpoonup> PhyStats"

definition defaultTimeWindowStats :: TimeWindowStats where
  "defaultTimeWindowStats = \<lparr>twWinStartUs = 0, twWinWidthUs = 1000000, twPhyStats = Map.empty, twStatsWinStart = Map.empty\<rparr>"

record Counters =
  cAlarmEvents :: u64
  cRadioEvents :: u64
  cStatusPushEvents :: u64
  cUartWriteEvents :: u64
  cLogWriteEvents :: u64
  cHostEvents :: u64
  cOtherEvents :: u64
  cDispatchByExtAddrSucc :: u64
  cDispatchByExtAddrFail :: u64
  cDispatchByShortAddrSucc :: u64
  cDispatchByShortAddrFail :: u64
  cDispatchAllInRange :: u64
  cTopologyChanges :: u64

record MsgVisualizeInfo =
  mvChannel :: u8
  mvFrameControl :: FrameControl
  mvSeq :: u8
  mvDstAddrShort :: u16
  mvDstAddrExtended :: u64
  mvSendDurationUs :: u32
  mvPowerDbm :: u8
  mvFrameSizeBytes :: u16

record TimeWindowStatsInfo =
  tiWinStartUs :: u64
  tiWinWidthUs :: u64
  tiPhyTxBytes :: "NodeId \<rightharpoonup> u64"
  tiChanSampleCount :: "NodeId \<rightharpoonup> u64"
  tiNodePhyStats :: "NodeId \<rightharpoonup> PhyStats"

datatype Output =
    VisAddNode NodeId NodeConfig | VisDeleteNode NodeId | VisSetNodeRloc16 NodeId u16 | VisSetNodeRole NodeId OtDeviceRole
  | VisSetNodeMode NodeId NodeMode | VisSetNodePartitionId NodeId u32 | VisSetNodePos NodeId int int int
  | VisAddRouterTable NodeId u64 | VisRemoveRouterTable NodeId u64 | VisAddChildTable NodeId u64 | VisRemoveChildTable NodeId u64
  | VisSetParent NodeId u64 | VisOnNodeFail NodeId | VisOnNodeRecover NodeId | VisOnExtAddrChange NodeId u64
  | VisSend NodeId NodeId MsgVisualizeInfo | VisAdvanceTime u64 real | VisUpdateNodesEnergy "NodeEnergy list" u64 bool
  | VisUpdateNodeStats u64 NodeStats | VisUpdateTimeWindowStats TimeWindowStatsInfo | VisSetSpeed real | VisStop
  | CbUartWrite NodeId bytes | CbLogWrite NodeId bytes bool | CbNextEventTime u64 | CbRfSimEvent NodeId Event
  | CbMsgToHost NodeId Event | CbUartDisconnected NodeId | CbNodeDisconnected NodeId
  | ConnWrite nat bytes | ConnClose nat | PcapFrameChan PcapFrame | DumpLine string | SetDisplayLevel NodeId Level

record Dispatcher =
  dCurTime :: u64
  dCounters :: Counters
  dCfg :: DConfig
  dCancel :: bool
  dPauseTime :: u64
  dAlarmMgr :: alarmMgr
  dEventQueue :: sendQueue
  dNodes :: "NodeId \<rightharpoonup> DNode"
  dNodesArray :: "NodeId list"
  dDeletedNodes :: "NodeId set"
  dAliveNodes :: "NodeId set"
  dIsFirstNodeAdded :: bool
  dSpeed :: real
  dLastEnergyVizTime :: u64
  dSpeedStartTime :: u64
  dExtaddrMap :: "u64 \<rightharpoonup> NodeId"
  dRloc16Map :: rloc16Map
  dGlobalPacketLossRatio :: real
  dVisOptions :: VisualizationOptions
  dCoaps :: "coapsHandler option"
  dWatchingNodes :: "NodeId set"
  dEnergyAnalyser :: "EnergyAnalyser option"
  dStopped :: bool
  dRadioModel :: "RadioModel option"
  dOldStats :: NodeStats
  dTimeWinStats :: TimeWindowStats
  dRmem :: rmem
  dRnext :: rptr
  dOut :: "Output list"
  dDraws :: nat

record Env =
  envRand :: randFun
  envUnit :: "nat \<Rightarrow> real"
  envFail :: "nat \<Rightarrow> FailTime \<Rightarrow> u64"
  envWrite :: "NodeId \<Rightarrow> u64 \<Rightarrow> (string \<times> bool) option"
  envElapsed :: "nat \<Rightarrow> int"
  envOrd :: iterOrder
  envLog :: string

definition emit :: "Output \<Rightarrow> Dispatcher \<Rightarrow> Dispatcher" where
  "emit out d = d\<lparr>dOut := dOut d @ [out]\<rparr>"

definition set_node :: "NodeId \<Rightarrow> DNode \<Rightarrow> Dispatcher \<Rightarrow> Dispatcher" where
  "set_node nid node d = d\<lparr>dNodes := (dNodes d)(nid \<mapsto> node)\<rparr>"

definition draw :: "Dispatcher \<Rightarrow> Dispatcher" where
  "draw d = d\<lparr>dDraws := dDraws d + 1\<rparr>"

abbreviation upd_counters :: "(Counters \<Rightarrow> Counters) \<Rightarrow> Dispatcher \<Rightarrow> Dispatcher" where
  "upd_counters f d \<equiv> d\<lparr>dCounters := f (dCounters d)\<rparr>"

definition topology_changed :: "Dispatcher \<Rightarrow> Dispatcher" where
  "topology_changed d = upd_counters (\<lambda>c. c\<lparr>cTopologyChanges := cTopologyChanges c + 1\<rparr>) d"

abbreviation MaxSimulateSpeed :: real where "MaxSimulateSpeed \<equiv> 1000000"

definition normalizeSpeed :: "real \<Rightarrow> real" where
  "normalizeSpeed f = (if f \<le> 0 then 0 else if f \<ge> MaxSimulateSpeed then MaxSimulateSpeed else f)"

definition zeroCounters :: Counters where
  "zeroCounters = \<lparr>cAlarmEvents = 0, cRadioEvents = 0, cStatusPushEvents = 0, cUartWriteEvents = 0, cLogWriteEvents = 0,
     cHostEvents = 0, cOtherEvents = 0, cDispatchByExtAddrSucc = 0, cDispatchByExtAddrFail = 0,
     cDispatchByShortAddrSucc = 0, cDispatchByShortAddrFail = 0, cDispatchAllInRange = 0, cTopologyChanges = 0\<rparr>"

text \<open>The longest socket path that fits into the 108 bytes of an address with its final zero byte.\<close>

definition isValidUnixSocketPath :: "string \<Rightarrow> bool" where
  "isValidUnixSocketPath path \<longleftrightarrow> length path < 108"

text \<open>\<open>sockErr\<close> is the error of removing the old socket or of listening on the new one.\<close>

definition newUnixSocket :: "string option \<Rightarrow> string \<Rightarrow> int \<Rightarrow> string res" where
  "newUnixSocket sockErr socketDir socketId =
    (let unixSocketFile = socketDir @ ''/socket_'' @ go_Itoa socketId in
     if \<not> isValidUnixSocketPath unixSocketFile then Inl ExplicitPanic
     else if sockErr \<noteq> None then Inl ErrorPanic
     else Inr unixSocketFile)"

text \<open>The new dispatcher has no radio model and no energy analyser yet; \<open>mem\<close> is the memory before any radio node is allocated, and
  \<open>openPcap\<close> creates the capture file with frames of the given type.\<close>

definition NewDispatcher ::
  "string option \<Rightarrow> (PcapFrameType \<Rightarrow> (PcapFile option \<times> string option) res) \<Rightarrow> rmem \<Rightarrow> DConfig \<Rightarrow> Dispatcher res" where
  "NewDispatcher sockErr openPcap mem cfg = assertr (\<not> dcRealtime cfg \<or> dcSpeed cfg = 1)
    (bindr (newUnixSocket sockErr (dcOutputDir cfg) (dcSimulationId cfg)) (\<lambda>_.
     bindr newSendQueue (\<lambda>q. bindr newAlarmMgr (\<lambda>am.
     bindr (if dcPcapEnabled cfg
            then bindr (openPcap (dcPcapFrameType cfg)) (\<lambda>(_, err). if err \<noteq> None then Inl ErrorPanic else Inr ())
            else Inr ()) (\<lambda>_.
      Inr (emit (VisSetSpeed (normalizeSpeed (dcSpeed cfg)))
        \<lparr>dCurTime = 0, dCounters = zeroCounters, dCfg = cfg, dCancel = False, dPauseTime = 0, dAlarmMgr = am, dEventQueue = q,
         dNodes = Map.empty, dNodesArray = [], dDeletedNodes = {}, dAliveNodes = {}, dIsFirstNodeAdded = False,
         dSpeed = normalizeSpeed (dcSpeed cfg), dLastEnergyVizTime = 0, dSpeedStartTime = 0, dExtaddrMap = Map.empty,
         dRloc16Map = (\<lambda>_. []), dGlobalPacketLossRatio = 0, dVisOptions = defaultVisualizationOptions, dCoaps = None,
         dWatchingNodes = {}, dEnergyAnalyser = None, dStopped = False, dRadioModel = None, dOldStats = zeroNodeStats,
         dTimeWinStats = defaultTimeWindowStats, dRmem = mem, dRnext = 0, dOut = [], dDraws = 0\<rparr>))))))"

definition getPcapFileName :: "Dispatcher \<Rightarrow> string" where
  "getPcapFileName d = dcOutputDir (dCfg d) @ ''/'' @ go_Itoa (dcSimulationId (dCfg d)) @ ''_otns.pcap''"

definition reconstructNodesArray :: "Env \<Rightarrow> Dispatcher \<Rightarrow> Dispatcher" where
  "reconstructNodesArray env d = d\<lparr>dNodesArray := sort (envOrd env (dom (dNodes d)))\<rparr>"

section \<open>Statistics\<close>

text \<open>The nodes in the order in which the loops over the map visit them.\<close>

definition node_list :: "Env \<Rightarrow> Dispatcher \<Rightarrow> DNode list" where
  "node_list env d = List.map_filter (dNodes d) (envOrd env (dom (dNodes d)))"

definition countRole :: "DNode list \<Rightarrow> OtDeviceRole \<Rightarrow> nat" where
  "countRole nodes role = length (filter (\<lambda>n. dnRole n = role) nodes)"

definition countUniquePts :: "DNode list \<Rightarrow> nat" where
  "countUniquePts nodes = card (set (map dnPartitionId (filter (\<lambda>n. dnPartitionId n > 0) nodes)))"

definition countSleepy :: "DNode list \<Rightarrow> nat" where
  "countSleepy nodes = length (filter (\<lambda>n. \<not> RxOnWhenIdle (dnMode n)) nodes)"

definition countFailed :: "DNode list \<Rightarrow> nat" where
  "countFailed nodes = length (filter dnIsFailed nodes)"

definition calcStats :: "DNode list \<Rightarrow> NodeStats" where
  "calcStats nodes = \<lparr>NumNodes = length nodes, NumLeaders = countRole nodes OtDeviceRoleLeader,
     NumPartitions = countUniquePts nodes, NumRouters = countRole nodes OtDeviceRoleRouter,
     NumEndDevices = countRole nodes OtDeviceRoleChild, NumDetached = countRole nodes OtDeviceRoleDetached,
     NumDisabled = countRole nodes OtDeviceRoleDisabled, NumSleepy = countSleepy nodes, NumFailed = countFailed nodes\<rparr>"

definition updateNodeStats :: "Env \<Rightarrow> Dispatcher \<Rightarrow> Dispatcher" where
  "updateNodeStats env d =
    (let s = calcStats (node_list env d) in
     if s \<noteq> dOldStats d then emit (VisUpdateNodeStats (dCurTime d) s) d else d)"

definition clearMapValuesPhyStats :: "(NodeId \<rightharpoonup> PhyStats) \<Rightarrow> (NodeId \<rightharpoonup> PhyStats)" where
  "clearMapValuesPhyStats m = (\<lambda>id. map_option (\<lambda>_. zeroPhyStats) (m id))"

definition calcPhyStatsDiff :: "(NodeId \<rightharpoonup> PhyStats) \<Rightarrow> (NodeId \<rightharpoonup> PhyStats) \<Rightarrow> (NodeId \<rightharpoonup> PhyStats)" where
  "calcPhyStatsDiff statsStart statsEnd =
     (\<lambda>id. map_option (\<lambda>st2. case statsStart id of Some st1 \<Rightarrow> PhyStats_Minus st2 st1 | None \<Rightarrow> st2) (statsEnd id))"

definition visSendTimeWindowStats :: "TimeWindowStats \<Rightarrow> Dispatcher \<Rightarrow> Dispatcher" where
  "visSendTimeWindowStats stats d = emit (VisUpdateTimeWindowStats
     \<lparr>tiWinStartUs = twWinStartUs stats, tiWinWidthUs = twWinWidthUs stats,
      tiPhyTxBytes = (\<lambda>id. map_option TxBytes (twPhyStats stats id)),
      tiChanSampleCount = (\<lambda>id. map_option ChanSampleCount (twPhyStats stats id)),
      tiNodePhyStats = twPhyStats stats\<rparr>) d"

text \<open>The loop over the windows in which nothing happened does not return when the width is 0; with the fuel that
  \<open>updateTimeWindowStats\<close> gives it, it always ends otherwise (\<open>emptyWindows_result\<close>).\<close>

fun emptyWindows :: "nat \<Rightarrow> Dispatcher \<Rightarrow> Dispatcher res" where
  "emptyWindows fuel d =
    (let w = dTimeWinStats d in
     if dCurTime d > twWinStartUs w + twWinWidthUs w then
       (case fuel of
          0 \<Rightarrow> Inl NoReturn
        | Suc fuel1 \<Rightarrow>
           let w1 = w\<lparr>twPhyStats := clearMapValuesPhyStats (twPhyStats w)\<rparr>;
               d1 = visSendTimeWindowStats w1 (d\<lparr>dTimeWinStats := w1\<rparr>)
           in emptyWindows fuel1 (d1\<lparr>dTimeWinStats := w1\<lparr>twWinStartUs := twWinStartUs w1 + twWinWidthUs w1\<rparr>\<rparr>))
     else Inr d)"

declare emptyWindows.simps [simp del]

definition closeWindow :: "Dispatcher \<Rightarrow> (Dispatcher \<times> (NodeId \<rightharpoonup> PhyStats)) res" where
  "closeWindow d = bindr (derefr (dRadioModel d)) (\<lambda>rm.
     let statsEnd = RadioModel_PhyStats rm (dRmem d);
         w1 = (dTimeWinStats d)\<lparr>twPhyStats := calcPhyStatsDiff (twStatsWinStart (dTimeWinStats d)) statsEnd\<rparr>
     in Inr (visSendTimeWindowStats w1 (d\<lparr>dTimeWinStats := w1\<rparr>), statsEnd))"

definition updateTimeWindowStats :: "Dispatcher \<Rightarrow> Dispatcher res" where
  "updateTimeWindowStats d =
    (let winEndTime = twWinStartUs (dTimeWinStats d) + twWinWidthUs (dTimeWinStats d) in
     if dCurTime d > winEndTime then
       bindr (closeWindow d) (\<lambda>(d1, statsEnd).
         let w = dTimeWinStats d1;
             w2 = w\<lparr>twStatsWinStart := statsEnd, twWinStartUs := twWinStartUs w + twWinWidthUs w\<rparr>
         in emptyWindows (unat (dCurTime d)) (d1\<lparr>dTimeWinStats := w2\<rparr>))
     else Inr d)"

definition finalizeTimeWindowStats :: "Dispatcher \<Rightarrow> Dispatcher res" where
  "finalizeTimeWindowStats d = bindr (closeWindow d) (\<lambda>(d1, _). Inr d1)"

section \<open>Managing nodes\<close>

definition WatchNode :: "NodeId \<Rightarrow> Level \<Rightarrow> Dispatcher \<Rightarrow> Dispatcher" where
  "WatchNode nodeid watchLevel d =
    (let d1 = d\<lparr>dWatchingNodes := insert nodeid (dWatchingNodes d)\<rparr> in
     if dNodes d1 nodeid \<noteq> None then emit (SetDisplayLevel nodeid watchLevel) d1 else d1)"

definition UnwatchNode :: "NodeId \<Rightarrow> Dispatcher \<Rightarrow> Dispatcher" where
  "UnwatchNode nodeid d =
    (let d1 = (if dNodes d nodeid \<noteq> None then emit (SetDisplayLevel nodeid ErrorLevel) d else d) in
     d1\<lparr>dWatchingNodes := dWatchingNodes d1 - {nodeid}\<rparr>)"

definition GetWatchingNodes :: "Env \<Rightarrow> Dispatcher \<Rightarrow> NodeId list" where
  "GetWatchingNodes env d = sort (envOrd env (dWatchingNodes d))"

definition Dispatcher_AddNode :: "Env \<Rightarrow> NodeId \<Rightarrow> NodeConfig \<Rightarrow> Dispatcher \<Rightarrow> Dispatcher res" where
  "Dispatcher_AddNode env nodeid cfg d =
     assertr (dNodes d nodeid = None)
    (bindr (newNode (dCurTime d) (dRnext d) nodeid cfg) (\<lambda>(node, radioNode).
      let d1 = d\<lparr>dRmem := (dRmem d)(dRnext d := radioNode), dRnext := dRnext d + 1\<rparr>;
          d2 = set_node nodeid node (d1\<lparr>dDeletedNodes := dDeletedNodes d1 - {nodeid}\<rparr>);
          d3 = topology_changed (reconstructNodesArray env d2) in
      bindr (alarmMgr_AddNode (dAlarmMgr d3) nodeid) (\<lambda>am.
      bindr (derefr (dEnergyAnalyser d3)) (\<lambda>ea.
      let d4 = emit (VisAddNode nodeid cfg)
            (d3\<lparr>dAlarmMgr := am, dEnergyAnalyser := Some (EnergyAnalyser_AddNode ea nodeid (dCurTime d3))\<rparr>) in
      bindr (derefr (dRadioModel d4)) (\<lambda>rm.
      let d5 = updateNodeStats env (d4\<lparr>dRadioModel := Some (RadioModel_AddNode rm (dRmem d4) (dnRadioNode node))\<rparr>);
          d6 = (if dcDefaultWatchOn (dCfg d5)
                then (case ParseLevelString (dcDefaultWatchLevel (dCfg d5)) of
                        Some lev \<Rightarrow> WatchNode nodeid lev d5
                      | None \<Rightarrow> d5)
                else d5)
      in Inr (if \<not> dIsFirstNodeAdded d6 then d6\<lparr>dSpeedStartTime := dCurTime d6, dIsFirstNodeAdded := True\<rparr> else d6))))))"

definition setNodeRloc16 :: "NodeId \<Rightarrow> u16 \<Rightarrow> Dispatcher \<Rightarrow> Dispatcher res" where
  "setNodeRloc16 srcid rloc16 d =
    (case dNodes d srcid of
       None \<Rightarrow> Inl AssertFailed
     | Some node \<Rightarrow>
        bindr (if dnRloc16 node \<noteq> InvalidRloc16 then rloc16Map_Remove (dRloc16Map d) (dnRloc16 node) srcid
               else Inr (dRloc16Map d)) (\<lambda>m1.
        bindr (if rloc16 \<noteq> InvalidRloc16 then rloc16Map_Add m1 rloc16 srcid else Inr m1) (\<lambda>m2.
          Inr (emit (VisSetNodeRloc16 srcid rloc16) (set_node srcid (node\<lparr>dnRloc16 := rloc16\<rparr>) (d\<lparr>dRloc16Map := m2\<rparr>))))))"

definition setNodeRole :: "NodeId \<Rightarrow> OtDeviceRole \<Rightarrow> Dispatcher \<Rightarrow> Dispatcher res" where
  "setNodeRole nodeid role d = bindr (derefr (dNodes d nodeid)) (\<lambda>node.
     Inr (emit (VisSetNodeRole (dnId node) role) (set_node nodeid (node\<lparr>dnRole := role\<rparr>) d)))"

definition Dispatcher_onStatusPushExtAddr :: "NodeId \<Rightarrow> u64 \<Rightarrow> u64 \<Rightarrow> Dispatcher \<Rightarrow> Dispatcher res" where
  "Dispatcher_onStatusPushExtAddr nodeid newExtAddr oldExtAddr d =
     bindr (if oldExtAddr = InvalidExtAddr then assertr (dExtaddrMap d oldExtAddr = None) (Inr (dExtaddrMap d))
            else assertr (dExtaddrMap d oldExtAddr = Some nodeid) (Inr ((dExtaddrMap d)(oldExtAddr := None)))) (\<lambda>m.
       assertr (m newExtAddr = None)
        (Inr (emit (VisOnExtAddrChange nodeid newExtAddr) (d\<lparr>dExtaddrMap := m(newExtAddr \<mapsto> nodeid)\<rparr>))))"

definition Node_onStatusPushExtAddr :: "NodeId \<Rightarrow> u64 \<Rightarrow> Dispatcher \<Rightarrow> Dispatcher res" where
  "Node_onStatusPushExtAddr nodeid extaddr d = assertr (extaddr \<noteq> InvalidExtAddr)
    (bindr (derefr (dNodes d nodeid)) (\<lambda>node.
       if dnExtAddr node = extaddr then Inr d
       else Dispatcher_onStatusPushExtAddr nodeid extaddr (dnExtAddr node)
              (set_node nodeid (node\<lparr>dnExtAddr := extaddr\<rparr>) d)))"

definition SetNodePos :: "NodeId \<Rightarrow> int \<Rightarrow> int \<Rightarrow> int \<Rightarrow> Dispatcher \<Rightarrow> Dispatcher res" where
  "SetNodePos nodeid x y z d =
    (case dNodes d nodeid of
       None \<Rightarrow> Inl AssertFailed
     | Some node \<Rightarrow>
        let d1 = set_node nodeid (node\<lparr>dnX := x, dnY := y, dnZ := z\<rparr>) d;
            p = dnRadioNode node
        in Inr (emit (VisSetNodePos nodeid x y z) (d1\<lparr>dRmem := (dRmem d1)(p := RadioNode_SetNodePos (dRmem d1 p) x y z)\<rparr>)))"

definition Dispatcher_DeleteNode :: "Env \<Rightarrow> NodeId \<Rightarrow> Dispatcher \<Rightarrow> Dispatcher res" where
  "Dispatcher_DeleteNode env nodeid d =
    (case dNodes d nodeid of
       None \<Rightarrow> Inl AssertFailed
     | Some node \<Rightarrow>
        let d1 = topology_changed (reconstructNodesArray env (d\<lparr>dNodes := (dNodes d)(nodeid := None)\<rparr>));
            d2 = d1\<lparr>dAliveNodes := dAliveNodes d1 - {nodeid}, dWatchingNodes := dWatchingNodes d1 - {nodeid}\<rparr> in
        bindr (if dnRloc16 node \<noteq> InvalidRloc16 then rloc16Map_Remove (dRloc16Map d2) (dnRloc16 node) nodeid
               else Inr (dRloc16Map d2)) (\<lambda>m.
        bindr (if dnExtAddr node \<noteq> InvalidExtAddr
               then assertr (dExtaddrMap d2 (dnExtAddr node) = Some nodeid) (Inr ((dExtaddrMap d2)(dnExtAddr node := None)))
               else Inr (dExtaddrMap d2)) (\<lambda>xm.
        bindr (alarmMgr_DeleteNode (dAlarmMgr d2) nodeid) (\<lambda>am.
        bindr (derefr (dEnergyAnalyser d2)) (\<lambda>ea.
        let d3 = emit (VisDeleteNode nodeid)
              (d2\<lparr>dRloc16Map := m, dExtaddrMap := xm, dAlarmMgr := am, dDeletedNodes := insert nodeid (dDeletedNodes d2),
                  dEnergyAnalyser := Some (EnergyAnalyser_DeleteNode ea nodeid)\<rparr>) in
        bindr (derefr (dRadioModel d3)) (\<lambda>rm.
        bindr (RadioModel_DeleteNode rm (dRmem d3) nodeid) (\<lambda>rm1.
          Inr (updateNodeStats env (d3\<lparr>dRadioModel := Some rm1,
            dEventQueue := sendQueue_DisableEventsForNode (dEventQueue d3) nodeid\<rparr>)))))))))"

section \<open>Failures\<close>

definition Node_Fail :: "NodeId \<Rightarrow> Dispatcher \<Rightarrow> Dispatcher res" where
  "Node_Fail nodeid d = bindr (derefr (dNodes d nodeid)) (\<lambda>node.
     Inr (if \<not> dnIsFailed node then emit (VisOnNodeFail nodeid) (set_node nodeid (node\<lparr>dnIsFailed := True\<rparr>) d) else d))"

definition Node_Recover :: "NodeId \<Rightarrow> Dispatcher \<Rightarrow> Dispatcher res" where
  "Node_Recover nodeid d = bindr (derefr (dNodes d nodeid)) (\<lambda>node.
     Inr (if dnIsFailed node then emit (VisOnNodeRecover nodeid) (set_node nodeid (node\<lparr>dnIsFailed := False\<rparr>) d) else d))"

text \<open>A change of the failure flag by the failure control goes through \<open>Fail\<close> and \<open>Recover\<close>, which announce it.\<close>

definition apply_failure :: "NodeId \<Rightarrow> FailureCtrl \<Rightarrow> bool \<Rightarrow> Dispatcher \<Rightarrow> Dispatcher res" where
  "apply_failure nodeid fc failed d = bindr (derefr (dNodes d nodeid)) (\<lambda>node.
     let d1 = set_node nodeid (node\<lparr>dnFailureCtrl := fc\<rparr>) d in
     if failed then Node_Fail nodeid d1 else Node_Recover nodeid d1)"

definition Node_SetFailTime :: "Env \<Rightarrow> NodeId \<Rightarrow> FailTime \<Rightarrow> Dispatcher \<Rightarrow> Dispatcher res" where
  "Node_SetFailTime env nodeid failTime d = bindr (derefr (dNodes d nodeid)) (\<lambda>node.
     bindr (FailureCtrl_SetFailTime (envFail env (dDraws d) failTime) (dnCurTime node) (dnIsFailed node) (dnFailureCtrl node) failTime)
       (\<lambda>(fc, failed). apply_failure nodeid fc failed (draw d)))"

definition SetNodeFailed :: "Env \<Rightarrow> NodeId \<Rightarrow> bool \<Rightarrow> Dispatcher \<Rightarrow> Dispatcher res" where
  "SetNodeFailed env nodeid fail d =
    (if dNodes d nodeid = None then Inl AssertFailed
     else bindr (Node_SetFailTime env nodeid NonFailTime d) (\<lambda>d1.
       if fail then Node_Fail nodeid d1 else Node_Recover nodeid d1))"

definition GetFailedCount :: "Dispatcher \<Rightarrow> nat res" where
  "GetFailedCount d = foldr_res (\<lambda>nodeid c. bindr (derefr (dNodes d nodeid)) (\<lambda>node.
     Inr (if Node_IsFailed node then c + 1 else c))) (dNodesArray d) 0"

section \<open>Settings\<close>

definition SetSpeed :: "real \<Rightarrow> Dispatcher \<Rightarrow> Dispatcher" where
  "SetSpeed f d =
    (let ns = normalizeSpeed f in
     if ns = dSpeed d then d
     else let d1 = d\<lparr>dSpeedStartTime := dCurTime d, dSpeed := ns\<rparr> in
       if \<not> dcRealtime (dCfg d1) then emit (VisSetSpeed ns) d1 else d1)"

definition SetGlobalPacketLossRatio :: "real \<Rightarrow> Dispatcher \<Rightarrow> Dispatcher" where
  "SetGlobalPacketLossRatio plr d = d\<lparr>dGlobalPacketLossRatio := (if plr > 1 then 1 else if plr < 0 then 0 else plr)\<rparr>"

definition SetVisualizationOptions :: "VisualizationOptions \<Rightarrow> Dispatcher \<Rightarrow> Dispatcher" where
  "SetVisualizationOptions opts d = d\<lparr>dVisOptions := opts\<rparr>"

definition SetEnergyAnalyser :: "EnergyAnalyser option \<Rightarrow> Dispatcher \<Rightarrow> Dispatcher" where
  "SetEnergyAnalyser e d = d\<lparr>dEnergyAnalyser := e\<rparr>"

text \<open>\<open>SetRadioModel\<close> with a model that is a new object, or with the current one (\<open>same\<close>).\<close>

definition transferNode :: "NodeId \<Rightarrow> Dispatcher \<times> RadioModel \<Rightarrow> (Dispatcher \<times> RadioModel) res" where
  "transferNode nodeid s = (case s of (d, model) \<Rightarrow>
     bindr (derefr (dNodes d nodeid)) (\<lambda>node.
     bindr (derefr (dRadioModel d)) (\<lambda>rm.
     bindr (RadioModel_DeleteNode rm (dRmem d) (dnId node)) (\<lambda>rm1.
       Inr (d\<lparr>dRadioModel := Some rm1\<rparr>, RadioModel_AddNode model (dRmem d) (dnRadioNode node))))))"

definition SetRadioModel :: "bool \<Rightarrow> RadioModel \<Rightarrow> Dispatcher \<Rightarrow> Dispatcher res" where
  "SetRadioModel same model d =
    (if \<not> same \<and> dRadioModel d \<noteq> None
     then bindr (foldr_res transferNode (dNodesArray d) (d, model)) (\<lambda>(d1, model1). Inr (d1\<lparr>dRadioModel := Some model1\<rparr>))
     else Inr (d\<lparr>dRadioModel := Some model\<rparr>))"

end
