(* ===== verification/Dispatcher_Laws.thy ===== *)
theory Dispatcher_Laws
  imports Dispatcher_State
begin

text \<open>
  The registration of nodes with the dispatcher. A node is known to the map and the array of nodes, to the address
  maps, the alarm manager, the energy analyser and the radio model; the invariant \<open>reg_inv\<close> says that all of them agree. The operations
  that manage nodes keep it, and behave like operations on one map from node identifiers to addresses and failure flags.
\<close>

section \<open>The invariant\<close>

definition nodes_ok :: "Dispatcher \<Rightarrow> bool" where
  "nodes_ok d \<longleftrightarrow> finite (dom (dNodes d)) \<and> dNodesArray d = sorted_list_of_set (dom (dNodes d)) \<and> dAliveNodes d \<subseteq> dom (dNodes d) \<and>
     (\<forall>i n. dNodes d i = Some n \<longrightarrow> dnId n = i \<and> dnRadioNode n < dRnext d \<and> rnId (dRmem d (dnRadioNode n)) = i)"

definition times_ok :: "Dispatcher \<Rightarrow> bool" where
  "times_ok d \<longleftrightarrow> am_inv (dAlarmMgr d) \<and> sq_inv (dEventQueue d) \<and> dCurTime d < Ever \<and> dom (am_abs (dAlarmMgr d)) = dom (dNodes d) \<and>
     (\<forall>i n a. dNodes d i = Some n \<longrightarrow> am_abs (dAlarmMgr d) i = Some a \<longrightarrow> dnCurTime n \<le> dCurTime d \<and> dnCurTime n < a)"

definition addresses_ok :: "Dispatcher \<Rightarrow> bool" where
  "addresses_ok d \<longleftrightarrow>
     (\<forall>x i. dExtaddrMap d x = Some i \<longleftrightarrow> x \<noteq> InvalidExtAddr \<and> (\<exists>n. dNodes d i = Some n \<and> dnExtAddr n = x)) \<and>
     rm_inv (dRloc16Map d) \<and>
     (\<forall>r i. (r, i) \<in> rm_abs (dRloc16Map d) \<longleftrightarrow> r \<noteq> InvalidRloc16 \<and> (\<exists>n. dNodes d i = Some n \<and> dnRloc16 n = r))"

definition models_ok :: "Dispatcher \<Rightarrow> bool" where
  "models_ok d \<longleftrightarrow>
     (\<exists>ea. dEnergyAnalyser d = Some ea \<and> dom (eaNodes ea) = dom (dNodes d)) \<and>
     (\<exists>rm F. dRadioModel d = Some rm \<and> rmodel_inv rm (dRmem d) F \<and>
        RadioModel_nodes rm = (\<lambda>i. map_option dnRadioNode (dNodes d i)))"

definition reg_inv :: "Dispatcher \<Rightarrow> bool" where
  "reg_inv d \<longleftrightarrow> nodes_ok d \<and> times_ok d \<and> addresses_ok d \<and> models_ok d"

lemmas reg_defs = reg_inv_def nodes_ok_def times_ok_def addresses_ok_def models_ok_def

text \<open>What the dispatcher knows of its nodes, as one map: the two addresses and the failure flag.\<close>

type_synonym registry = "NodeId \<rightharpoonup> u64 \<times> u16 \<times> bool"

definition registry :: "Dispatcher \<Rightarrow> registry" where
  "registry d = (\<lambda>i. map_option (\<lambda>n. (dnExtAddr n, dnRloc16 n, dnIsFailed n)) (dNodes d i))"

lemma registry_dom: "dom (registry d) = dom (dNodes d)"
  by (auto simp: registry_def)

section \<open>Changes that do not matter\<close>

lemma reg_inv_irrelevant [simp]:
  "reg_inv (emit out d) = reg_inv d" "reg_inv (draw d) = reg_inv d" "reg_inv (d\<lparr>dCounters := c\<rparr>) = reg_inv d"
  "reg_inv (d\<lparr>dWatchingNodes := W\<rparr>) = reg_inv d" "reg_inv (d\<lparr>dSpeed := s, dSpeedStartTime := t\<rparr>) = reg_inv d"
  "reg_inv (d\<lparr>dSpeedStartTime := t, dIsFirstNodeAdded := b\<rparr>) = reg_inv d" "reg_inv (d\<lparr>dSpeedStartTime := t, dSpeed := s\<rparr>) = reg_inv d"
  by (simp_all add: reg_defs emit_def draw_def)

lemma registry_irrelevant [simp]:
  "registry (emit out d) = registry d" "registry (draw d) = registry d" "registry (d\<lparr>dCounters := c\<rparr>) = registry d"
  "registry (d\<lparr>dWatchingNodes := W\<rparr>) = registry d" "registry (d\<lparr>dSpeed := s, dSpeedStartTime := t\<rparr>) = registry d"
  "registry (d\<lparr>dSpeedStartTime := t, dIsFirstNodeAdded := b\<rparr>) = registry d" "registry (d\<lparr>dSpeedStartTime := t, dSpeed := s\<rparr>) = registry d"
  by (simp_all add: registry_def emit_def draw_def)

lemma reg_inv_updateNodeStats [simp]: "reg_inv (updateNodeStats env d) = reg_inv d" "registry (updateNodeStats env d) = registry d"
  by (simp_all add: updateNodeStats_def Let_def)

lemma reg_inv_WatchNode [simp]: "reg_inv (WatchNode i l d) = reg_inv d" "registry (WatchNode i l d) = registry d"
  by (simp_all add: WatchNode_def Let_def)

lemma reg_inv_SetSpeed [simp]: "reg_inv (SetSpeed s d) = reg_inv d" "registry (SetSpeed s d) = registry d"
  by (simp_all add: SetSpeed_def Let_def)

lemma sorted_order: "order_ok ord \<Longrightarrow> finite S \<Longrightarrow> sort (ord S) = sorted_list_of_set S"
  by (metis order_ok_def sorted_list_of_set_sort_remdups distinct_remdups_id)

text \<open>A change of a node that keeps its identity, clock and radio, and one that also keeps its addresses.\<close>

lemma set_node_core:
  assumes "reg_inv d" "dNodes d i = Some n" "dnId n' = dnId n" "dnRadioNode n' = dnRadioNode n" "dnCurTime n' = dnCurTime n"
  shows "nodes_ok (set_node i n' d)" "times_ok (set_node i n' d)" "models_ok (set_node i n' d)"
proof -
  have e: "dom ((dNodes d)(i \<mapsto> n')) = dom (dNodes d)" using assms(2) by auto
  have r: "(\<lambda>j. map_option dnRadioNode (if j = i then Some n' else dNodes d j)) = (\<lambda>j. map_option dnRadioNode (dNodes d j))"
    using assms(2,4) by auto
  show "nodes_ok (set_node i n' d)" "times_ok (set_node i n' d)"
    using assms e unfolding reg_inv_def nodes_ok_def times_ok_def set_node_def by auto
  show "models_ok (set_node i n' d)"
    using assms e r unfolding reg_inv_def models_ok_def set_node_def by simp
qed

lemma set_node_inv:
  assumes "reg_inv d" "dNodes d i = Some n" "dnId n' = dnId n" "dnRadioNode n' = dnRadioNode n" "dnCurTime n' = dnCurTime n"
    "dnExtAddr n' = dnExtAddr n" "dnRloc16 n' = dnRloc16 n"
  shows "reg_inv (set_node i n' d)" "registry (set_node i n' d) = (registry d)(i \<mapsto> (dnExtAddr n, dnRloc16 n, dnIsFailed n'))"
proof -
  have "addresses_ok (set_node i n' d)"
    using assms unfolding reg_inv_def addresses_ok_def set_node_def by auto
  with set_node_core [OF assms(1-5)] show "reg_inv (set_node i n' d)" by (simp add: reg_inv_def)
  show "registry (set_node i n' d) = (registry d)(i \<mapsto> (dnExtAddr n, dnRloc16 n, dnIsFailed n'))"
    using assms by (auto simp: registry_def set_node_def)
qed

section \<open>Adding a node\<close>

lemma rmodel_inv_alloc:
  assumes "rmodel_inv rm mem F" "\<And>i p. RadioModel_nodes rm i = Some p \<Longrightarrow> p \<noteq> q"
  shows "rmodel_inv rm (mem(q := rn)) F"
  using assms by (cases rm) (auto simp: base_inv_def mi_inv_def)

lemma EnergyAnalyser_AddNode_dom: "dom (eaNodes (EnergyAnalyser_AddNode ea i t)) = insert i (dom (eaNodes ea))"
  by (auto simp: EnergyAnalyser_AddNode_def)

lemma EnergyAnalyser_DeleteNode_nodes: "eaNodes (EnergyAnalyser_DeleteNode ea i) = (eaNodes ea)(i := None)"
  by (simp add: EnergyAnalyser_DeleteNode_def EnergyAnalyser_ClearEnergyData_def Let_def)

lemma reg_inv_alarms:
  assumes "reg_inv d"
  shows "am_inv (dAlarmMgr d)" "am_abs (dAlarmMgr d) i = None \<longleftrightarrow> dNodes d i = None"
proof -
  have "dom (am_abs (dAlarmMgr d)) = dom (dNodes d)" using assms by (simp add: reg_inv_def times_ok_def)
  then show "am_abs (dAlarmMgr d) i = None \<longleftrightarrow> dNodes d i = None" by (metis domIff)
qed (use assms in \<open>simp add: reg_inv_def times_ok_def\<close>)

text \<open>The state after the registration of a new node, up to outputs, statistics and the watching of the node.\<close>

definition added :: "NodeId \<Rightarrow> DNode \<Rightarrow> RadioNode \<Rightarrow> alarmMgr \<Rightarrow> EnergyAnalyser \<Rightarrow> RadioModel \<Rightarrow> Dispatcher \<Rightarrow> Dispatcher" where
  "added i n rn am ea rm d = d\<lparr>dNodes := (dNodes d)(i \<mapsto> n), dNodesArray := sorted_list_of_set (insert i (dom (dNodes d))),
     dAlarmMgr := am, dEnergyAnalyser := Some ea, dRadioModel := Some rm, dRmem := (dRmem d)(dRnext d := rn), dRnext := dRnext d + 1,
     dDeletedNodes := dDeletedNodes d - {i}\<rparr>"

lemma added_inv:
  assumes "reg_inv d" "dNodes d i = None" "newNode (dCurTime d) (dRnext d) i cfg = Inr (n, rn)"
    "am_inv am" "am_abs am = (am_abs (dAlarmMgr d))(i \<mapsto> Ever)" "dEnergyAnalyser d = Some ea0" "dRadioModel d = Some rm0"
  shows "reg_inv (added i n rn am (EnergyAnalyser_AddNode ea0 i t) (RadioModel_AddNode rm0 ((dRmem d)(dRnext d := rn)) (dRnext d)) d)"
    (is "reg_inv ?d")
proof -
  have n: "dnId n = i" "dnRadioNode n = dRnext d" "dnCurTime n = dCurTime d" "dnExtAddr n = InvalidExtAddr" "dnRloc16 n = InvalidRloc16"
      "rnId rn = i"
    using assms(3) by (auto simp: newNode_def res_simps NewRadioNode_def)
  have fresh: "dnRadioNode m \<noteq> dRnext d" if "dNodes d j = Some m" for j m
    using assms(1) that by (fastforce simp: reg_inv_def nodes_ok_def)
  have 1: "nodes_ok ?d"
    using assms(1) n fresh unfolding reg_inv_def nodes_ok_def added_def by (auto simp: less_Suc_eq)
  have 2: "times_ok ?d"
    using assms(1,2,4,5) n unfolding reg_inv_def times_ok_def added_def by auto
  have 3: "addresses_ok ?d"
    using assms(1,2) n unfolding reg_inv_def addresses_ok_def added_def by auto
  let ?mem = "(dRmem d)(dRnext d := rn)"
  obtain F where F: "rmodel_inv rm0 (dRmem d) F" "RadioModel_nodes rm0 = (\<lambda>i. map_option dnRadioNode (dNodes d i))"
    using assms(1,7) by (auto simp: reg_inv_def models_ok_def)
  have "rmodel_inv rm0 ?mem F"
    by (rule rmodel_inv_alloc [OF F(1)]) (use fresh F(2) in auto)
  from anyrm.add_law [OF this, of "dRnext d"] F(2) n have
    "rmodel_inv (RadioModel_AddNode rm0 ?mem (dRnext d)) ?mem F"
    "RadioModel_nodes (RadioModel_AddNode rm0 ?mem (dRnext d)) = (\<lambda>j. map_option dnRadioNode (((dNodes d)(i \<mapsto> n)) j))"
    by auto
  then have 4: "models_ok ?d"
    using assms(1,6) EnergyAnalyser_AddNode_dom [of ea0 i t] unfolding reg_inv_def models_ok_def added_def by auto
  from 1 2 3 4 show ?thesis by (simp add: reg_inv_def)
qed

lemma AddNode_law:
  assumes "reg_inv d" "order_ok (envOrd env)" "dNodes d i = None" "cfgRadioRange cfg \<ge> 0"
  shows "\<exists>d'. Dispatcher_AddNode env i cfg d = Inr d' \<and> reg_inv d' \<and> registry d' = (registry d)(i \<mapsto> (InvalidExtAddr, InvalidRloc16, False))"
proof -
  obtain n rn where n: "newNode (dCurTime d) (dRnext d) i cfg = Inr (n, rn)"
    and nf: "dnRadioNode n = dRnext d" "dnExtAddr n = InvalidExtAddr" "dnRloc16 n = InvalidRloc16" "\<not> dnIsFailed n"
    using assms(4) by (auto simp: newNode_def)
  obtain am where am: "alarmMgr_AddNode (dAlarmMgr d) i = Inr am" "am_inv am" "am_abs am = (am_abs (dAlarmMgr d))(i \<mapsto> Ever)"
    using AddNode_refines [of "dAlarmMgr d" i] reg_inv_alarms [OF assms(1)] assms(3) by auto
  obtain ea rm where ea: "dEnergyAnalyser d = Some ea" "dRadioModel d = Some rm"
    using assms(1) by (auto simp: reg_inv_def models_ok_def)
  define d1 where "d1 = added i n rn am (EnergyAnalyser_AddNode ea i (dCurTime d))
    (RadioModel_AddNode rm ((dRmem d)(dRnext d := rn)) (dRnext d)) d"
  have inv: "reg_inv d1" unfolding d1_def by (rule added_inv [OF assms(1,3) n am(2,3) ea])
  have reg: "registry d1 = (registry d)(i \<mapsto> (InvalidExtAddr, InvalidRloc16, False))"
    using nf by (auto simp: registry_def d1_def added_def)
  have fin: "finite (insert i (dom (dNodes d)))" using assms(1) by (simp add: reg_inv_def nodes_ok_def)
  have arr: "sort (envOrd env (insert i (dom (dNodes d)))) = sorted_list_of_set (insert i (dom (dNodes d)))"
    by (rule sorted_order [OF assms(2) fin])
  define e where "e = emit (VisAddNode i cfg) (d1\<lparr>dCounters := (dCounters d)\<lparr>cTopologyChanges := cTopologyChanges (dCounters d) + 1\<rparr>\<rparr>)"
  have "(emit (VisAddNode i cfg) ((topology_changed (reconstructNodesArray env (set_node i n (d\<lparr>dRmem := (dRmem d)(dRnext d := rn),
      dRnext := dRnext d + 1, dDeletedNodes := dDeletedNodes d - {i}\<rparr>))))\<lparr>dAlarmMgr := am,
      dEnergyAnalyser := Some (EnergyAnalyser_AddNode ea i (dCurTime d))\<rparr>))\<lparr>dRadioModel :=
      Some (RadioModel_AddNode rm ((dRmem d)(dRnext d := rn)) (dRnext d))\<rparr> = e"
    by (simp add: e_def d1_def added_def topology_changed_def reconstructNodesArray_def set_node_def emit_def arr)
  moreover have "reg_inv e" "registry e = registry d1" using inv by (simp_all add: e_def)
  ultimately show ?thesis
    using assms(3) n am(1) ea reg nf(1)
    by (simp add: Dispatcher_AddNode_def Let_def topology_changed_def reconstructNodesArray_def set_node_def emit_def split: option.split)
qed

section \<open>Deleting a node\<close>

definition deleted :: "NodeId \<Rightarrow> rloc16Map \<Rightarrow> (u64 \<rightharpoonup> NodeId) \<Rightarrow> alarmMgr \<Rightarrow> EnergyAnalyser \<Rightarrow> RadioModel \<Rightarrow> Dispatcher \<Rightarrow> Dispatcher" where
  "deleted i m xm am ea rm d = d\<lparr>dNodes := (dNodes d)(i := None), dNodesArray := sorted_list_of_set (dom (dNodes d) - {i}),
     dAliveNodes := dAliveNodes d - {i}, dRloc16Map := m, dExtaddrMap := xm, dAlarmMgr := am, dEnergyAnalyser := Some ea,
     dRadioModel := Some rm, dEventQueue := sendQueue_DisableEventsForNode (dEventQueue d) i,
     dDeletedNodes := insert i (dDeletedNodes d), dWatchingNodes := dWatchingNodes d - {i}\<rparr>"

lemma deleted_inv:
  assumes "reg_inv d" "dNodes d i = Some n" "rm_inv m" "rm_abs m = rm_abs (dRloc16Map d) - {(dnRloc16 n, i)}"
    "xm = (if dnExtAddr n = InvalidExtAddr then dExtaddrMap d else (dExtaddrMap d)(dnExtAddr n := None))"
    "am_inv am" "am_abs am = (am_abs (dAlarmMgr d))(i := None)" "dEnergyAnalyser d = Some ea0"
    "rmodel_inv rm (dRmem d) F" "RadioModel_nodes rm = (\<lambda>j. map_option dnRadioNode (((dNodes d)(i := None)) j))"
  shows "reg_inv (deleted i m xm am (EnergyAnalyser_DeleteNode ea0 i) rm d)" (is "reg_inv ?d")
proof -
  have 1: "nodes_ok ?d"
    using assms(1) unfolding reg_inv_def nodes_ok_def deleted_def by auto
  have 2: "times_ok ?d"
    using assms(1,6,7) Disable_time [of "dEventQueue d" i] unfolding reg_inv_def times_ok_def deleted_def by auto
  have ext: "dExtaddrMap d x = Some j \<longleftrightarrow> x \<noteq> InvalidExtAddr \<and> (\<exists>k. dNodes d j = Some k \<and> dnExtAddr k = x)" for x j
    using assms(1) by (simp add: reg_inv_def addresses_ok_def)
  have "xm x = Some j \<longleftrightarrow> x \<noteq> InvalidExtAddr \<and> (\<exists>k. ((dNodes d)(i := None)) j = Some k \<and> dnExtAddr k = x)" for x j
    using ext [of x j] ext [of "dnExtAddr n" i] ext [of "dnExtAddr n" j] assms(2) by (auto simp: assms(5))
  then have 3: "addresses_ok ?d"
    using assms(1-4) unfolding reg_inv_def addresses_ok_def deleted_def by auto
  have 4: "models_ok ?d"
    using assms(1,8-10) unfolding reg_inv_def models_ok_def deleted_def by (auto simp: EnergyAnalyser_DeleteNode_nodes)
  from 1 2 3 4 show ?thesis by (simp add: reg_inv_def)
qed

lemma DeleteNode_law:
  assumes "reg_inv d" "order_ok (envOrd env)" "dNodes d i = Some n"
  shows "\<exists>d'. Dispatcher_DeleteNode env i d = Inr d' \<and> reg_inv d' \<and> registry d' = (registry d)(i := None)"
proof -
  have rl: "rm_inv (dRloc16Map d)" "(dnRloc16 n, i) \<in> rm_abs (dRloc16Map d) \<longleftrightarrow> dnRloc16 n \<noteq> InvalidRloc16"
    using assms(1,3) by (auto simp: reg_inv_def addresses_ok_def)
  obtain m where m: "(if dnRloc16 n \<noteq> InvalidRloc16 then rloc16Map_Remove (dRloc16Map d) (dnRloc16 n) i else Inr (dRloc16Map d)) = Inr m"
      "rm_inv m" "rm_abs m = rm_abs (dRloc16Map d) - {(dnRloc16 n, i)}"
    using rm_Remove [OF rl(1), of "dnRloc16 n" i] rl by (cases "dnRloc16 n = InvalidRloc16") auto
  have ext: "dnExtAddr n \<noteq> InvalidExtAddr \<Longrightarrow> dExtaddrMap d (dnExtAddr n) = Some i"
    using assms(1,3) by (simp add: reg_inv_def addresses_ok_def)
  obtain am where am: "alarmMgr_DeleteNode (dAlarmMgr d) i = Inr am" "am_inv am" "am_abs am = (am_abs (dAlarmMgr d))(i := None)"
    using DeleteNode_refines [of "dAlarmMgr d" i] reg_inv_alarms [OF assms(1)] assms(3) by auto
  obtain ea rm F where ea: "dEnergyAnalyser d = Some ea" "dRadioModel d = Some rm" and
    F: "rmodel_inv rm (dRmem d) F" "RadioModel_nodes rm = (\<lambda>j. map_option dnRadioNode (dNodes d j))"
    using assms(1) by (auto simp: reg_inv_def models_ok_def)
  obtain rm1 where rm1: "RadioModel_DeleteNode rm (dRmem d) i = Inr rm1" "rmodel_inv rm1 (dRmem d) {x \<in> F. fst x \<noteq> i}"
      "RadioModel_nodes rm1 = (RadioModel_nodes rm)(i := None)"
    using anyrm.delete_law [OF F(1), of i "dnRadioNode n"] F(2) assms(3) by auto
  have nodes1: "RadioModel_nodes rm1 = (\<lambda>j. map_option dnRadioNode (((dNodes d)(i := None)) j))"
    using rm1(3) F(2) by auto
  define xm where "xm = (if dnExtAddr n = InvalidExtAddr then dExtaddrMap d else (dExtaddrMap d)(dnExtAddr n := None))"
  have x: "(if dnExtAddr n \<noteq> InvalidExtAddr then assertr (dExtaddrMap d (dnExtAddr n) = Some i) (Inr ((dExtaddrMap d)(dnExtAddr n := None)))
      else Inr (dExtaddrMap d)) = Inr xm"
    using ext by (simp add: xm_def)
  define d1 where "d1 = deleted i m xm am (EnergyAnalyser_DeleteNode ea i) rm1 d"
  have inv: "reg_inv d1"
    unfolding d1_def by (rule deleted_inv [OF assms(1,3) m(2,3) xm_def am(2,3) ea(1) rm1(2) nodes1])
  have reg: "registry d1 = (registry d)(i := None)" by (auto simp: registry_def d1_def deleted_def)
  have fin: "finite (dom (dNodes d) - {i})" using assms(1) by (simp add: reg_inv_def nodes_ok_def)
  note arr = sorted_order [OF assms(2) fin]
  define e where "e = emit (VisDeleteNode i) (d1\<lparr>dCounters := (dCounters d)\<lparr>cTopologyChanges := cTopologyChanges (dCounters d) + 1\<rparr>\<rparr>)"
  let ?d2 = "(topology_changed (reconstructNodesArray env (d\<lparr>dNodes := (dNodes d)(i := None)\<rparr>)))\<lparr>dAliveNodes := dAliveNodes d - {i},
    dWatchingNodes := dWatchingNodes d - {i}\<rparr>"
  have "(emit (VisDeleteNode i) (?d2\<lparr>dRloc16Map := m, dExtaddrMap := xm, dAlarmMgr := am, dDeletedNodes := insert i (dDeletedNodes d),
      dEnergyAnalyser := Some (EnergyAnalyser_DeleteNode ea i)\<rparr>))\<lparr>dRadioModel := Some rm1,
      dEventQueue := sendQueue_DisableEventsForNode (dEventQueue d) i\<rparr> = e"
    by (simp add: e_def d1_def deleted_def topology_changed_def reconstructNodesArray_def emit_def arr)
  moreover have "reg_inv e" "registry e = registry d1" using inv by (simp_all add: e_def)
  ultimately show ?thesis
    using assms(3) m(1) x am(1) ea rm1(1) reg
    by (simp add: Dispatcher_DeleteNode_def Let_def topology_changed_def reconstructNodesArray_def emit_def cong: if_cong)
qed

section \<open>Addresses\<close>

lemma set_address_inv:
  assumes "reg_inv d" "dNodes d i = Some n" "dnId n' = dnId n" "dnRadioNode n' = dnRadioNode n" "dnCurTime n' = dnCurTime n"
    "addresses_ok ((set_node i n' d)\<lparr>dRloc16Map := m, dExtaddrMap := xm\<rparr>)"
  shows "reg_inv ((set_node i n' d)\<lparr>dRloc16Map := m, dExtaddrMap := xm\<rparr>)"
  using set_node_core [OF assms(1-5)] assms(6) by (simp add: reg_inv_def nodes_ok_def times_ok_def models_ok_def)

lemma setNodeRloc16_law:
  assumes "reg_inv d" "dNodes d i = Some n"
  shows "\<exists>d'. setNodeRloc16 i r d = Inr d' \<and> reg_inv d' \<and> registry d' = (registry d)(i \<mapsto> (dnExtAddr n, r, dnIsFailed n))"
proof -
  let ?old = "dnRloc16 n"
  have inv: "rm_inv (dRloc16Map d)" and
    abs: "\<And>q j. (q, j) \<in> rm_abs (dRloc16Map d) \<longleftrightarrow> q \<noteq> InvalidRloc16 \<and> (\<exists>k. dNodes d j = Some k \<and> dnRloc16 k = q)"
    using assms(1) by (auto simp: reg_inv_def addresses_ok_def)
  obtain m1 where m1: "(if ?old \<noteq> InvalidRloc16 then rloc16Map_Remove (dRloc16Map d) ?old i else Inr (dRloc16Map d)) = Inr m1"
      "rm_inv m1" "rm_abs m1 = rm_abs (dRloc16Map d) - {(?old, i)}"
    using rm_Remove [OF inv, of ?old i] abs [of ?old i] inv assms(2) by (cases "?old = InvalidRloc16") auto
  have new: "(r, i) \<notin> rm_abs m1" using m1(3) abs [of r i] assms(2) by auto
  obtain m2 where m2: "(if r \<noteq> InvalidRloc16 then rloc16Map_Add m1 r i else Inr m1) = Inr m2"
      "rm_inv m2" "rm_abs m2 = (if r \<noteq> InvalidRloc16 then insert (r, i) (rm_abs m1) else rm_abs m1)"
    using rm_Add [OF m1(2), of r i] new m1(2) by (cases "r = InvalidRloc16") auto
  let ?n = "n\<lparr>dnRloc16 := r\<rparr>"
  let ?d = "(set_node i ?n d)\<lparr>dRloc16Map := m2, dExtaddrMap := dExtaddrMap d\<rparr>"
  have "(q, j) \<in> rm_abs m2 \<longleftrightarrow> q \<noteq> InvalidRloc16 \<and> (\<exists>k. ((dNodes d)(i \<mapsto> ?n)) j = Some k \<and> dnRloc16 k = q)" for q j
    using abs [of q j] assms(2) by (auto simp: m2(3) m1(3) split: if_splits)
  then have "addresses_ok ?d"
    using assms m2(2) unfolding reg_inv_def addresses_ok_def set_node_def by auto
  from set_address_inv [OF assms _ _ _ this] have inv1: "reg_inv ?d" by simp
  have "setNodeRloc16 i r d = Inr (emit (VisSetNodeRloc16 i r) ?d)"
    using assms(2) m1(1) m2(1) by (simp add: setNodeRloc16_def set_node_def emit_def cong: if_cong)
  moreover have "registry ?d = (registry d)(i \<mapsto> (dnExtAddr n, r, dnIsFailed n))"
    by (auto simp: registry_def set_node_def)
  ultimately show ?thesis using inv1 by simp
qed

lemma onStatusPushExtAddr_law:
  assumes "reg_inv d" "dNodes d i = Some n" "x \<noteq> InvalidExtAddr"
    "\<And>j k. dNodes d j = Some k \<Longrightarrow> dnExtAddr k = x \<Longrightarrow> j = i"
  shows "\<exists>d'. Node_onStatusPushExtAddr i x d = Inr d' \<and> reg_inv d' \<and> registry d' = (registry d)(i \<mapsto> (x, dnRloc16 n, dnIsFailed n))"
proof (cases "dnExtAddr n = x")
  case True
  with assms(1-3) show ?thesis by (auto simp: Node_onStatusPushExtAddr_def registry_def)
next
  case False
  let ?old = "dnExtAddr n" and ?n = "n\<lparr>dnExtAddr := x\<rparr>"
  have ext: "dExtaddrMap d y = Some j \<longleftrightarrow> y \<noteq> InvalidExtAddr \<and> (\<exists>k. dNodes d j = Some k \<and> dnExtAddr k = y)" for y j
    using assms(1) by (simp add: reg_inv_def addresses_ok_def)
  have unused: "dExtaddrMap d x = None"
  proof (cases "dExtaddrMap d x")
    case (Some j)
    with ext [of x j] obtain k where k: "dNodes d j = Some k" "dnExtAddr k = x" by auto
    from assms(4) [OF k] k assms(2) False show ?thesis by simp
  qed
  define xm where "xm = ((dExtaddrMap d)(?old := None))(x \<mapsto> i)"
  have inval: "dExtaddrMap d InvalidExtAddr = None"
    using ext [of InvalidExtAddr] by (cases "dExtaddrMap d InvalidExtAddr") auto
  have old: "?old \<noteq> InvalidExtAddr \<Longrightarrow> dExtaddrMap d ?old = Some i" using ext [of ?old i] assms(2) by simp
  have xm_alt: "?old = InvalidExtAddr \<Longrightarrow> (dExtaddrMap d)(x \<mapsto> i) = xm" using inval by (auto simp: xm_def)
  let ?d = "(set_node i ?n d)\<lparr>dRloc16Map := dRloc16Map d, dExtaddrMap := xm\<rparr>"
  have "xm y = Some j \<longleftrightarrow> y \<noteq> InvalidExtAddr \<and> (\<exists>k. ((dNodes d)(i \<mapsto> ?n)) j = Some k \<and> dnExtAddr k = y)" for y j
  proof (cases "y = x")
    case True
    have "j = i" if "dNodes d j = Some k" "dnExtAddr k = x" for k using that by (rule assms(4))
    with True assms(3) show ?thesis by (auto simp: xm_def)
  next
    case False
    show ?thesis
    proof (cases "y = ?old")
      case True
      have "j = i" if "dNodes d j = Some k" "dnExtAddr k = ?old" "?old \<noteq> InvalidExtAddr" for k
        using that ext [of ?old j] old by simp
      with True False show ?thesis by (auto simp: xm_def)
    next
      case ne: False
      with False ext [of y j] assms(2) show ?thesis by (auto simp: xm_def)
    qed
  qed
  then have "addresses_ok ?d"
    using assms(1,2) unfolding reg_inv_def addresses_ok_def set_node_def by auto
  from set_address_inv [OF assms(1,2) _ _ _ this] have inv1: "reg_inv ?d" by simp
  have "Node_onStatusPushExtAddr i x d = Inr (emit (VisOnExtAddrChange i x) ?d)"
  proof (cases "?old = InvalidExtAddr")
    case True
    with assms(2,3) False unused inval xm_alt [OF True] show ?thesis
      by (simp add: Node_onStatusPushExtAddr_def Dispatcher_onStatusPushExtAddr_def set_node_def emit_def)
  next
    case ne: False
    with assms(2,3) False unused old show ?thesis
      by (simp add: Node_onStatusPushExtAddr_def Dispatcher_onStatusPushExtAddr_def set_node_def emit_def xm_def)
  qed
  moreover have "registry ?d = (registry d)(i \<mapsto> (x, dnRloc16 n, dnIsFailed n))"
    by (auto simp: registry_def set_node_def)
  ultimately show ?thesis using inv1 by simp
qed

lemma onStatusPushExtAddr_duplicate:
  assumes "reg_inv d" "dNodes d i = Some n" "x \<noteq> InvalidExtAddr" "dNodes d j = Some k" "dnExtAddr k = x" "j \<noteq> i"
  shows "Node_onStatusPushExtAddr i x d = Inl AssertFailed"
proof -
  have ext: "dExtaddrMap d y = Some l \<longleftrightarrow> y \<noteq> InvalidExtAddr \<and> (\<exists>k. dNodes d l = Some k \<and> dnExtAddr k = y)" for y l
    using assms(1) by (simp add: reg_inv_def addresses_ok_def)
  have "dExtaddrMap d x = Some j" using ext [of x j] assms by simp
  moreover have "dnExtAddr n \<noteq> x" using ext [of x i] \<open>dExtaddrMap d x = Some j\<close> assms by auto
  moreover have "dExtaddrMap d InvalidExtAddr = None"
    using ext [of InvalidExtAddr] by (cases "dExtaddrMap d InvalidExtAddr") auto
  moreover have "dnExtAddr n \<noteq> InvalidExtAddr \<Longrightarrow> dExtaddrMap d (dnExtAddr n) = Some i" using ext [of "dnExtAddr n" i] assms(2) by simp
  ultimately show ?thesis using assms(2,3)
    by (auto simp: Node_onStatusPushExtAddr_def Dispatcher_onStatusPushExtAddr_def set_node_def)
qed

section \<open>Position, role and failure\<close>

lemma registry_Some: "registry d i = Some (x, r, f) \<longleftrightarrow> (\<exists>n. dNodes d i = Some n \<and> dnExtAddr n = x \<and> dnRloc16 n = r \<and> dnIsFailed n = f)"
  by (auto simp: registry_def)

lemma rmodel_inv_mem: "rmodel_inv rm mem F \<Longrightarrow> same_ids mem mem' \<Longrightarrow> rmodel_inv rm mem' F"
  by (cases rm) (auto intro: base_inv_mem mi_inv_mem)

lemma reg_inv_mem:
  assumes "reg_inv d" "same_ids (dRmem d) mem"
  shows "reg_inv (d\<lparr>dRmem := mem\<rparr>)"
proof -
  have "models_ok (d\<lparr>dRmem := mem\<rparr>)"
    using assms(1) rmodel_inv_mem [OF _ assms(2)] unfolding reg_inv_def models_ok_def by fastforce
  with assms show ?thesis by (simp add: reg_inv_def nodes_ok_def times_ok_def addresses_ok_def same_ids_def)
qed

lemma SetNodePos_law:
  assumes "reg_inv d" "dNodes d i = Some n"
  shows "\<exists>d'. SetNodePos i x y z d = Inr d' \<and> reg_inv d' \<and> registry d' = registry d"
proof -
  let ?n = "n\<lparr>dnX := x, dnY := y, dnZ := z\<rparr>" and ?p = "dnRadioNode n"
  note s = set_node_inv [OF assms, of ?n, simplified]
  let ?mem = "(dRmem d)(?p := RadioNode_SetNodePos (dRmem d ?p) x y z)"
  have "same_ids (dRmem d) ?mem" by (rule same_ids_upd) (simp add: RadioNode_SetNodePos_def)
  with reg_inv_mem [OF s(1), of ?mem] have "reg_inv ((set_node i ?n d)\<lparr>dRmem := ?mem\<rparr>)" by (simp add: set_node_def)
  moreover have "registry ((set_node i ?n d)\<lparr>dRmem := ?mem\<rparr>) = registry d"
    using s(2) assms(2) by (auto simp: registry_def set_node_def fun_eq_iff)
  ultimately show ?thesis using assms(2) by (simp add: SetNodePos_def Let_def set_node_def)
qed

lemma setNodeRole_law:
  assumes "reg_inv d" "dNodes d i = Some n"
  shows "\<exists>d'. setNodeRole i role d = Inr d' \<and> reg_inv d' \<and> registry d' = registry d"
proof -
  have "registry (set_node i (n\<lparr>dnRole := role\<rparr>) d) = registry d" using assms(2) by (auto simp: registry_def set_node_def)
  with set_node_inv(1) [OF assms, of "n\<lparr>dnRole := role\<rparr>"] assms(2) show ?thesis by (simp add: setNodeRole_def)
qed

lemma Node_Fail_law:
  assumes "reg_inv d" "registry d i = Some (x, r, f)"
  shows "\<exists>d'. Node_Fail i d = Inr d' \<and> reg_inv d' \<and> registry d' = (registry d)(i \<mapsto> (x, r, True))"
proof -
  obtain n where n: "dNodes d i = Some n" "dnExtAddr n = x" "dnRloc16 n = r" "dnIsFailed n = f" using assms(2) by (auto simp: registry_Some)
  show ?thesis
    using set_node_inv [OF assms(1) n(1), of "n\<lparr>dnIsFailed := True\<rparr>"] n assms by (auto simp: Node_Fail_def fun_upd_idem)
qed

lemma Node_Recover_law:
  assumes "reg_inv d" "registry d i = Some (x, r, f)"
  shows "\<exists>d'. Node_Recover i d = Inr d' \<and> reg_inv d' \<and> registry d' = (registry d)(i \<mapsto> (x, r, False))"
proof -
  obtain n where n: "dNodes d i = Some n" "dnExtAddr n = x" "dnRloc16 n = r" "dnIsFailed n = f" using assms(2) by (auto simp: registry_Some)
  show ?thesis
    using set_node_inv [OF assms(1) n(1), of "n\<lparr>dnIsFailed := False\<rparr>"] n assms by (auto simp: Node_Recover_def fun_upd_idem)
qed

lemma draw_nodes [simp]: "dNodes (draw d) = dNodes d"
  by (simp add: draw_def)

lemma SetNodeFailed_law:
  assumes "reg_inv d" "registry d i = Some (x, r, f)"
  shows "\<exists>d'. SetNodeFailed env i fail d = Inr d' \<and> reg_inv d' \<and> registry d' = (registry d)(i \<mapsto> (x, r, fail))"
proof -
  obtain n where n: "dNodes d i = Some n" "dnExtAddr n = x" "dnRloc16 n = r" "dnIsFailed n = f" using assms(2) by (auto simp: registry_Some)
  have nf: "\<not> FailTime_CanFail NonFailTime" by (simp add: FailTime_CanFail_def NonFailTime_def)
  then obtain fc where fc: "FailureCtrl_SetFailTime (envFail env (dDraws d) NonFailTime) (dnCurTime n) (dnIsFailed n) (dnFailureCtrl n) NonFailTime =
      Inr (fc, False)"
    using SetFailTime_inv [of NonFailTime] by fastforce
  define d1 where "d1 = set_node i (n\<lparr>dnFailureCtrl := fc\<rparr>) (draw d)"
  have d1: "reg_inv d1" "registry d1 i = Some (x, r, f)" "(registry d1)(i \<mapsto> y) = (registry d)(i \<mapsto> y)" for y
    using set_node_inv [of "draw d" i n "n\<lparr>dnFailureCtrl := fc\<rparr>"] assms(1) n by (auto simp: d1_def)
  from Node_Recover_law [OF d1(1,2)] obtain d2 where d2: "Node_Recover i d1 = Inr d2" "reg_inv d2"
      "registry d2 = (registry d)(i \<mapsto> (x, r, False))" by (auto simp: d1(3))
  have "Node_SetFailTime env i NonFailTime d = Inr d2"
    using n(1) fc d2(1) by (simp add: Node_SetFailTime_def apply_failure_def d1_def set_node_def)
  moreover have "registry d2 i = Some (x, r, False)" by (simp add: d2(3))
  ultimately show ?thesis
    using n(1) Node_Fail_law [OF d2(2), of i x r False] Node_Recover_law [OF d2(2), of i x r False] d2(3) by (auto simp: SetNodeFailed_def)
qed

section \<open>Changing the radio model\<close>

lemma transfer_loop:
  assumes "distinct xs" "dRadioModel d = Some rm" "rmodel_inv rm (dRmem d) F" "rmodel_inv rm1 (dRmem d) F1"
    "\<And>i. i \<in> set xs \<Longrightarrow> \<exists>n. dNodes d i = Some n \<and> dnId n = i \<and> RadioModel_nodes rm i = Some (dnRadioNode n) \<and> rnId (dRmem d (dnRadioNode n)) = i"
  shows "\<exists>rm' rm1'. foldr_res transferNode xs (d, rm1) = Inr (d\<lparr>dRadioModel := Some rm'\<rparr>, rm1') \<and> rmodel_inv rm1' (dRmem d) F1 \<and>
    RadioModel_nodes rm1' = (\<lambda>i. if i \<in> set xs then map_option dnRadioNode (dNodes d i) else RadioModel_nodes rm1 i)"
  using assms
proof (induction xs arbitrary: d rm rm1 F)
  case Nil
  have "d = d\<lparr>dRadioModel := Some rm\<rparr>" using Nil.prems(2) by simp
  with Nil.prems(4) show ?case by (intro exI [of _ rm] exI [of _ rm1]) simp
next
  case (Cons i xs)
  obtain n where n: "dNodes d i = Some n" "dnId n = i" "RadioModel_nodes rm i = Some (dnRadioNode n)" "rnId (dRmem d (dnRadioNode n)) = i"
    using Cons.prems(5) [of i] by auto
  obtain rm2 where rm2: "RadioModel_DeleteNode rm (dRmem d) i = Inr rm2" "rmodel_inv rm2 (dRmem d) {x \<in> F. fst x \<noteq> i}"
      "RadioModel_nodes rm2 = (RadioModel_nodes rm)(i := None)"
    using anyrm.delete_law [OF Cons.prems(3) n(3)] by auto
  let ?d = "d\<lparr>dRadioModel := Some rm2\<rparr>" and ?rm1 = "RadioModel_AddNode rm1 (dRmem d) (dnRadioNode n)"
  have a: "rmodel_inv ?rm1 (dRmem d) F1" "RadioModel_nodes ?rm1 = (RadioModel_nodes rm1)(i \<mapsto> dnRadioNode n)"
    using anyrm.add_law [OF Cons.prems(4), of "dnRadioNode n"] n(4) by auto
  have "\<exists>rm' rm1'. foldr_res transferNode xs (?d, ?rm1) = Inr (?d\<lparr>dRadioModel := Some rm'\<rparr>, rm1') \<and> rmodel_inv rm1' (dRmem ?d) F1 \<and>
      RadioModel_nodes rm1' = (\<lambda>i. if i \<in> set xs then map_option dnRadioNode (dNodes ?d i) else RadioModel_nodes ?rm1 i)"
  proof (rule Cons.IH [of ?d rm2])
    show "\<exists>m. dNodes ?d j = Some m \<and> dnId m = j \<and> RadioModel_nodes rm2 j = Some (dnRadioNode m) \<and> rnId (dRmem ?d (dnRadioNode m)) = j"
      if "j \<in> set xs" for j
    proof -
      from that obtain m where "dNodes d j = Some m" "dnId m = j" "RadioModel_nodes rm j = Some (dnRadioNode m)" "rnId (dRmem d (dnRadioNode m)) = j"
        using Cons.prems(5) [of j] by auto
      moreover from that Cons.prems(1) have "j \<noteq> i" by auto
      ultimately show ?thesis by (simp add: rm2(3))
    qed
  qed (use Cons.prems(1) rm2(2) a(1) in simp_all)
  then obtain rm' rm1' where
    r: "foldr_res transferNode xs (?d, ?rm1) = Inr (?d\<lparr>dRadioModel := Some rm'\<rparr>, rm1')" "rmodel_inv rm1' (dRmem ?d) F1"
      "RadioModel_nodes rm1' = (\<lambda>i. if i \<in> set xs then map_option dnRadioNode (dNodes ?d i) else RadioModel_nodes ?rm1 i)"
    by blast
  have "foldr_res transferNode (i # xs) (d, rm1) = Inr (d\<lparr>dRadioModel := Some rm'\<rparr>, rm1')"
    using n(1,2) Cons.prems(2) rm2(1) r(1) by (simp add: transferNode_def)
  moreover have "RadioModel_nodes rm1' = (\<lambda>j. if j \<in> set (i # xs) then map_option dnRadioNode (dNodes d j) else RadioModel_nodes rm1 j)"
    unfolding r(3) a(2) using n(1) by (auto simp: fun_eq_iff)
  ultimately show ?case using r(2) by (intro exI [of _ rm'] exI [of _ rm1']) simp
qed

lemma SetRadioModel_law:
  assumes "reg_inv d" "NewRadioModel seed name = Some model"
  shows "\<exists>d'. SetRadioModel False model d = Inr d' \<and> reg_inv d' \<and> registry d' = registry d"
proof -
  obtain rm F where rm: "dRadioModel d = Some rm" "rmodel_inv rm (dRmem d) F" "RadioModel_nodes rm = (\<lambda>i. map_option dnRadioNode (dNodes d i))"
    using assms(1) by (auto simp: reg_inv_def models_ok_def)
  have fresh: "rmodel_inv model (dRmem d) {}" "RadioModel_nodes model = Map.empty"
    using NewRadioModel_fresh [OF assms(2)] by (simp_all add: fresh_model_def)
  have arr: "set (dNodesArray d) = dom (dNodes d)" "distinct (dNodesArray d)"
    using assms(1) by (simp_all add: reg_inv_def nodes_ok_def)
  have nodes: "\<exists>n. dNodes d i = Some n \<and> dnId n = i \<and> RadioModel_nodes rm i = Some (dnRadioNode n) \<and> rnId (dRmem d (dnRadioNode n)) = i"
    if "i \<in> set (dNodesArray d)" for i
  proof -
    from that arr(1) obtain n where "dNodes d i = Some n" by auto
    with rm(3) assms(1) show ?thesis by (simp add: reg_inv_def nodes_ok_def)
  qed
  from transfer_loop [OF arr(2) rm(1,2) fresh(1) nodes] obtain rm' model1 where
    l: "foldr_res transferNode (dNodesArray d) (d, model) = Inr (d\<lparr>dRadioModel := Some rm'\<rparr>, model1)" "rmodel_inv model1 (dRmem d) {}"
      "RadioModel_nodes model1 = (\<lambda>i. if i \<in> set (dNodesArray d) then map_option dnRadioNode (dNodes d i) else RadioModel_nodes model i)"
    by blast
  have "RadioModel_nodes model1 = (\<lambda>i. map_option dnRadioNode (dNodes d i))"
    unfolding l(3) using arr(1) fresh(2) by (auto simp: fun_eq_iff)
  with assms(1) l(2) have "models_ok (d\<lparr>dRadioModel := Some model1\<rparr>)" by (auto simp: reg_inv_def models_ok_def)
  with assms(1) have "reg_inv (d\<lparr>dRadioModel := Some model1\<rparr>)" by (simp add: reg_inv_def nodes_ok_def times_ok_def addresses_ok_def)
  then show ?thesis using l(1) rm(1) by (simp add: SetRadioModel_def registry_def)
qed

section \<open>The failed nodes\<close>

lemma failed_loop:
  assumes "\<And>i. i \<in> set xs \<Longrightarrow> dNodes d i \<noteq> None"
  shows "foldr_res (\<lambda>i c. bindr (derefr (dNodes d i)) (\<lambda>node. Inr (if Node_IsFailed node then c + 1 else c))) xs c =
    Inr (c + length (filter (\<lambda>i. \<exists>x r. registry d i = Some (x, r, True)) xs))"
  using assms
proof (induction xs arbitrary: c)
  case (Cons i xs)
  from Cons.prems [of i] obtain n where n: "dNodes d i = Some n" by auto
  then have f: "(\<exists>x r. registry d i = Some (x, r, True)) \<longleftrightarrow> dnIsFailed n" by (auto simp: registry_Some)
  show ?case using Cons.IH [of "if dnIsFailed n then c + 1 else c"] Cons.prems by (simp add: n f Node_IsFailed_def)
qed simp

lemma GetFailedCount_law:
  assumes "reg_inv d"
  shows "GetFailedCount d = Inr (card {i. \<exists>x r. registry d i = Some (x, r, True)})"
proof -
  have arr: "set (dNodesArray d) = dom (dNodes d)" "distinct (dNodesArray d)" using assms by (simp_all add: reg_inv_def nodes_ok_def)
  let ?P = "\<lambda>i. \<exists>x r. registry d i = Some (x, r, True)"
  have "{i. ?P i} = set (filter ?P (dNodesArray d))" by (auto simp: registry_Some arr(1))
  then have c: "card {i. ?P i} = length (filter ?P (dNodesArray d))" using distinct_card [of "filter ?P (dNodesArray d)"] arr(2) by simp
  have k: "dNodes d i \<noteq> None" if "i \<in> set (dNodesArray d)" for i using that by (auto simp: arr(1))
  from failed_loop [of "dNodesArray d" d 0, OF k] show ?thesis unfolding GetFailedCount_def c by simp
qed

section \<open>Refinement: one map\<close>

datatype mgmt_op =
    OpAddNode NodeId NodeConfig | OpDeleteNode NodeId | OpSetNodePos NodeId int int int | OpSetNodeRole NodeId OtDeviceRole
  | OpSetNodeFailed NodeId bool | OpSetRloc16 NodeId u16 | OpSetExtAddr NodeId u64 | OpSetRadioModel u64 string | OpSetSpeed real

fun mgmt_step :: "Env \<Rightarrow> mgmt_op \<Rightarrow> Dispatcher \<Rightarrow> Dispatcher res" where
  "mgmt_step env (OpAddNode i cfg) d = Dispatcher_AddNode env i cfg d"
| "mgmt_step env (OpDeleteNode i) d = Dispatcher_DeleteNode env i d"
| "mgmt_step env (OpSetNodePos i x y z) d = SetNodePos i x y z d"
| "mgmt_step env (OpSetNodeRole i role) d = setNodeRole i role d"
| "mgmt_step env (OpSetNodeFailed i fail) d = SetNodeFailed env i fail d"
| "mgmt_step env (OpSetRloc16 i r) d = setNodeRloc16 i r d"
| "mgmt_step env (OpSetExtAddr i x) d = Node_onStatusPushExtAddr i x d"
| "mgmt_step env (OpSetRadioModel seed name) d = (case NewRadioModel seed name of Some model \<Rightarrow> SetRadioModel False model d | None \<Rightarrow> Inr d)"
| "mgmt_step env (OpSetSpeed s) d = Inr (SetSpeed s d)"

text \<open>The same operations on the map. The address of a node that does not exist cannot be set: in the code these operations take a
  pointer to a node.\<close>

definition known :: "panic \<Rightarrow> NodeId \<Rightarrow> (u64 \<times> u16 \<times> bool \<Rightarrow> registry res) \<Rightarrow> registry \<Rightarrow> registry res" where
  "known p i f R = (case R i of None \<Rightarrow> Inl p | Some e \<Rightarrow> f e)"

fun registry_step :: "mgmt_op \<Rightarrow> registry \<Rightarrow> registry res" where
  "registry_step (OpAddNode i cfg) R =
     (if R i = None \<and> cfgRadioRange cfg \<ge> 0 then Inr (R(i \<mapsto> (InvalidExtAddr, InvalidRloc16, False))) else Inl AssertFailed)"
| "registry_step (OpDeleteNode i) R = known AssertFailed i (\<lambda>_. Inr (R(i := None))) R"
| "registry_step (OpSetNodePos i x y z) R = known AssertFailed i (\<lambda>_. Inr R) R"
| "registry_step (OpSetNodeRole i role) R = known NilDeref i (\<lambda>_. Inr R) R"
| "registry_step (OpSetNodeFailed i fail) R = known AssertFailed i (\<lambda>(x, r, _). Inr (R(i \<mapsto> (x, r, fail)))) R"
| "registry_step (OpSetRloc16 i r) R = known AssertFailed i (\<lambda>(x, _, f). Inr (R(i \<mapsto> (x, r, f)))) R"
| "registry_step (OpSetExtAddr i x) R =
     (if x = InvalidExtAddr then Inl AssertFailed
      else known NilDeref i (\<lambda>(_, r, f). if \<exists>j e. j \<noteq> i \<and> R j = Some (x, e) then Inl AssertFailed else Inr (R(i \<mapsto> (x, r, f)))) R)"
| "registry_step (OpSetRadioModel seed name) R = Inr R"
| "registry_step (OpSetSpeed s) R = Inr R"

text \<open>Two computations agree: they fail with the same panic, or both return and the invariant holds.\<close>

abbreviation agrees :: "Dispatcher res \<Rightarrow> registry res \<Rightarrow> bool" where
  "agrees \<equiv> rel_sum (=) (\<lambda>d R. reg_inv d \<and> registry d = R)"

lemma agreesI: "\<exists>d'. r = Inr d' \<and> reg_inv d' \<and> registry d' = R \<Longrightarrow> agrees r (Inr R)"
  by auto

lemma mgmt_step_unknown:
  assumes "dNodes d i = None"
  shows "Dispatcher_DeleteNode env i d = Inl AssertFailed" "SetNodePos i x y z d = Inl AssertFailed" "setNodeRole i role d = Inl NilDeref"
    "SetNodeFailed env i fail d = Inl AssertFailed" "setNodeRloc16 i r d = Inl AssertFailed"
    "Node_onStatusPushExtAddr i e d = (if e = InvalidExtAddr then Inl AssertFailed else Inl NilDeref)"
  using assms by (auto simp: Dispatcher_DeleteNode_def SetNodePos_def setNodeRole_def SetNodeFailed_def setNodeRloc16_def
      Node_onStatusPushExtAddr_def assertr_def)

lemma AddNode_rejected:
  "dNodes d i \<noteq> None \<or> cfgRadioRange cfg < 0 \<Longrightarrow> Dispatcher_AddNode env i cfg d = Inl AssertFailed"
  by (auto simp: Dispatcher_AddNode_def newNode_def assertr_def)

lemma ExtAddr_agrees:
  assumes "reg_inv d" "dNodes d i = Some n" "x \<noteq> InvalidExtAddr"
  shows "agrees (Node_onStatusPushExtAddr i x d)
    (if \<exists>j e. j \<noteq> i \<and> registry d j = Some (x, e) then Inl AssertFailed else Inr ((registry d)(i \<mapsto> (x, dnRloc16 n, dnIsFailed n))))"
proof (cases "\<exists>j e. j \<noteq> i \<and> registry d j = Some (x, e)")
  case True
  then obtain j k where "j \<noteq> i" "dNodes d j = Some k" "dnExtAddr k = x" by (auto simp: registry_def)
  with onStatusPushExtAddr_duplicate [OF assms, of j k] True show ?thesis by simp
next
  case False
  then have "j = i" if "dNodes d j = Some k" "dnExtAddr k = x" for j k using that by (auto simp: registry_def)
  from onStatusPushExtAddr_law [OF assms this] False show ?thesis by (auto intro!: agreesI)
qed

lemma known_agrees:
  assumes "dNodes d i = None \<Longrightarrow> r = Inl p"
    and "\<And>n. dNodes d i = Some n \<Longrightarrow> agrees r (f (dnExtAddr n, dnRloc16 n, dnIsFailed n))"
  shows "agrees r (known p i f (registry d))"
proof (cases "dNodes d i")
  case None
  with assms(1) show ?thesis by (simp add: known_def registry_def)
next
  case (Some n)
  with assms(2) [OF Some] show ?thesis by (simp add: known_def registry_def)
qed

lemma mgmt_step_agrees:
  assumes "reg_inv d" "order_ok (envOrd env)"
  shows "agrees (mgmt_step env x d) (registry_step x (registry d))"
proof (cases x)
  case (OpAddNode i cfg)
  have r: "registry d i = None \<longleftrightarrow> dNodes d i = None" by (simp add: registry_def)
  show ?thesis
  proof (cases "dNodes d i = None \<and> cfgRadioRange cfg \<ge> 0")
    case True
    with OpAddNode r show ?thesis by (simp add: agreesI AddNode_law [OF assms])
  next
    case False
    with OpAddNode r AddNode_rejected [of d i cfg env] show ?thesis by (auto simp: not_le)
  qed
next
  case (OpDeleteNode i)
  have "agrees (Dispatcher_DeleteNode env i d) (known AssertFailed i (\<lambda>_. Inr ((registry d)(i := None))) (registry d))"
    by (rule known_agrees) (simp_all add: mgmt_step_unknown agreesI DeleteNode_law [OF assms])
  with OpDeleteNode show ?thesis by simp
next
  case (OpSetNodePos i u v w)
  have "agrees (SetNodePos i u v w d) (known AssertFailed i (\<lambda>_. Inr (registry d)) (registry d))"
    by (rule known_agrees) (simp_all add: mgmt_step_unknown agreesI SetNodePos_law [OF assms(1)])
  with OpSetNodePos show ?thesis by simp
next
  case (OpSetNodeRole i role)
  have "agrees (setNodeRole i role d) (known NilDeref i (\<lambda>_. Inr (registry d)) (registry d))"
    by (rule known_agrees) (simp_all add: mgmt_step_unknown agreesI setNodeRole_law [OF assms(1)])
  with OpSetNodeRole show ?thesis by simp
next
  case (OpSetNodeFailed i fail)
  have "agrees (SetNodeFailed env i fail d) (known AssertFailed i (\<lambda>(x, r, _). Inr ((registry d)(i \<mapsto> (x, r, fail)))) (registry d))"
    by (rule known_agrees) (simp_all add: mgmt_step_unknown agreesI SetNodeFailed_law [OF assms(1)] registry_Some)
  with OpSetNodeFailed show ?thesis by simp
next
  case (OpSetRloc16 i r)
  have "agrees (setNodeRloc16 i r d) (known AssertFailed i (\<lambda>(x, _, f). Inr ((registry d)(i \<mapsto> (x, r, f)))) (registry d))"
    by (rule known_agrees) (simp_all add: mgmt_step_unknown agreesI setNodeRloc16_law [OF assms(1)])
  with OpSetRloc16 show ?thesis by simp
next
  case (OpSetExtAddr i e)
  show ?thesis
  proof (cases "e = InvalidExtAddr")
    case False
    have "agrees (Node_onStatusPushExtAddr i e d) (known NilDeref i (\<lambda>(_, r, f).
        if \<exists>j v. j \<noteq> i \<and> registry d j = Some (e, v) then Inl AssertFailed else Inr ((registry d)(i \<mapsto> (e, r, f)))) (registry d))"
    proof (rule known_agrees, goal_cases)
      case 1
      then show ?case using False by (simp add: mgmt_step_unknown)
    next
      case (2 n)
      from ExtAddr_agrees [OF assms(1) 2 False] show ?case unfolding prod.case .
    qed
    with OpSetExtAddr False show ?thesis by simp
  qed (simp add: OpSetExtAddr Node_onStatusPushExtAddr_def assertr_def)
next
  case (OpSetRadioModel seed name)
  with assms(1) SetRadioModel_law [OF assms(1), of seed name] show ?thesis
    by (cases "NewRadioModel seed name") (auto intro!: agreesI)
next
  case (OpSetSpeed s)
  with assms(1) show ?thesis by simp
qed

lemma mgmt_steps_agree:
  assumes "reg_inv d" "order_ok (envOrd env)"
  shows "agrees (foldr_res (mgmt_step env) ops d) (foldr_res registry_step ops (registry d))"
  using assms(1)
proof (induction ops arbitrary: d)
  case (Cons x ops)
  show ?case
    using mgmt_step_agrees [OF Cons.prems assms(2), of x] Cons.IH
    by (cases rule: rel_sum.cases) auto
qed simp

lemma start_inv:
  assumes "NewDispatcher sockErr openPcap mem cfg = Inr d0" "NewRadioModel seed name = Some rm"
  shows "\<exists>d. SetRadioModel False rm (SetEnergyAnalyser (Some (NewEnergyAnalyser dir sid)) d0) = Inr d \<and> reg_inv d \<and>
    registry d = Map.empty \<and> dCurTime d = 0 \<and> dPauseTime d = 0"
proof -
  obtain am where am: "newAlarmMgr = Inr am" "am_inv am" "am_abs am = Map.empty" using newAlarmMgr_refines by auto
  obtain q where q: "newSendQueue = Inr q" "sq_inv q" using newSendQueue_refines by auto
  have d0: "dNodes d0 = Map.empty" "dNodesArray d0 = []" "dAliveNodes d0 = {}" "dCurTime d0 = 0" "dAlarmMgr d0 = am" "dEventQueue d0 = q"
    "dExtaddrMap d0 = Map.empty" "dRloc16Map d0 = (\<lambda>_. [])" "dRadioModel d0 = None" "dRmem d0 = mem" "dPauseTime d0 = 0"
    using assms(1) unfolding NewDispatcher_def am(1) q(1) by (auto simp: res_simps emit_def)
  have fresh: "rmodel_inv rm mem {}" "RadioModel_nodes rm = Map.empty"
    using NewRadioModel_fresh [OF assms(2)] by (simp_all add: fresh_model_def)
  let ?d = "d0\<lparr>dEnergyAnalyser := Some (NewEnergyAnalyser dir sid), dRadioModel := Some rm\<rparr>"
  have "models_ok ?d" using fresh by (auto simp: models_ok_def d0 NewEnergyAnalyser_def)
  moreover have "addresses_ok ?d" by (simp add: addresses_ok_def d0 rm_empty)
  ultimately have "reg_inv ?d" using am(2,3) q(2) by (simp add: reg_inv_def nodes_ok_def times_ok_def d0)
  moreover have "registry ?d = Map.empty" by (simp add: registry_def d0)
  ultimately show ?thesis using d0 by (simp add: SetRadioModel_def SetEnergyAnalyser_def)
qed

section \<open>Property\<close>

text \<open>
  C1. The dispatcher refines one map from node identifiers to their addresses and failure flags. Take a new dispatcher
  with an energy analyser and any radio model, and apply any sequence of adding, deleting, moving and failing nodes, setting their roles and
  addresses, replacing the radio model and setting the speed. Either the map rejects an operation (a node added twice or
  with a negative range, an unknown node, an extended address that is invalid or in use), and the dispatcher panics in the same way; or the dispatcher
  returns, without any of its internal assertions failing, and all its views of the nodes agree with the map: the sorted array of nodes, the lookups by
  extended address and by RLOC16, the alarm manager, the energy analyser, the radio model and the number of failed nodes.
\<close>

theorem dispatcher_refines_registry:
  assumes "NewDispatcher sockErr openPcap mem cfg = Inr d0" "NewRadioModel seed name = Some rm" "order_ok (envOrd env)"
    "SetRadioModel False rm (SetEnergyAnalyser (Some (NewEnergyAnalyser dir sid)) d0) = Inr d1"
  shows "case foldr_res registry_step ops Map.empty of
      Inl p \<Rightarrow> foldr_res (mgmt_step env) ops d1 = Inl p
    | Inr R \<Rightarrow> \<exists>d ea m. foldr_res (mgmt_step env) ops d1 = Inr d \<and> registry d = R \<and>
        dNodesArray d = sorted_list_of_set (dom R) \<and>
        (\<forall>x i. dExtaddrMap d x = Some i \<longleftrightarrow> x \<noteq> InvalidExtAddr \<and> (\<exists>r f. R i = Some (x, r, f))) \<and>
        (\<forall>r i. rloc16Map_Contains (dRloc16Map d) r i \<longleftrightarrow> r \<noteq> InvalidRloc16 \<and> (\<exists>x f. R i = Some (x, r, f))) \<and>
        dom (am_abs (dAlarmMgr d)) = dom R \<and>
        dEnergyAnalyser d = Some ea \<and> dom (eaNodes ea) = dom R \<and>
        dRadioModel d = Some m \<and> dom (RadioModel_nodes m) = dom R \<and>
        GetFailedCount d = Inr (card {i. \<exists>x r. R i = Some (x, r, True)})"
proof -
  from start_inv [OF assms(1,2), of dir sid] assms(4) have d1: "reg_inv d1" "registry d1 = Map.empty" by auto
  from mgmt_steps_agree [OF d1(1) assms(3), of ops, unfolded d1(2)] show ?thesis
  proof (cases rule: rel_sum.cases)
    case (2 d R)
    then have d: "reg_inv d" "registry d = R" by auto
    have dom: "dom (dNodes d) = dom R" using registry_dom [of d] d(2) by simp
    obtain ea m where m: "dEnergyAnalyser d = Some ea" "dom (eaNodes ea) = dom R" "dRadioModel d = Some m"
        "RadioModel_nodes m = (\<lambda>i. map_option dnRadioNode (dNodes d i))"
      using d(1) dom by (auto simp: reg_inv_def models_ok_def)
    have "dom (RadioModel_nodes m) = dom R" using dom by (simp add: m(4) dom_def)
    moreover have "dNodesArray d = sorted_list_of_set (dom R)" "dom (am_abs (dAlarmMgr d)) = dom R"
      using d(1) dom by (simp_all add: reg_inv_def nodes_ok_def times_ok_def)
    moreover have "dExtaddrMap d x = Some i \<longleftrightarrow> x \<noteq> InvalidExtAddr \<and> (\<exists>r f. R i = Some (x, r, f))" for x i
      using d(1) by (auto simp: reg_inv_def addresses_ok_def registry_Some simp flip: d(2))
    moreover have "rloc16Map_Contains (dRloc16Map d) r i \<longleftrightarrow> r \<noteq> InvalidRloc16 \<and> (\<exists>x f. R i = Some (x, r, f))" for r i
      using d(1) by (auto simp: reg_inv_def addresses_ok_def Contains_iff registry_Some simp flip: d(2))
    ultimately show ?thesis using 2 d(2) m GetFailedCount_law [OF d(1)] by auto
  qed simp
qed

definition exampleConfig :: NodeConfig where
  "exampleConfig = \<lparr>cfgID = -1, cfgType = ''router'', cfgVersion = [], cfgX = 0, cfgY = 0, cfgZ = 0, IsAutoPlaced = True, IsRaw = False,
     IsMtd = False, IsRcp = False, IsRouter = True, IsBorderRouter = False, IsExternal = False, RxOffWhenIdle = False,
     NodeLogFile = True, cfgRadioRange = 220, ExecutablePath = [], HostExePath = [], NetIfName = [], Restore = False, InitScript = [],
     cfgRandomSeed = 0, RfSimParams = []\<rparr>"

definition exampleEnv :: Env where
  "exampleEnv = \<lparr>envRand = (\<lambda>seed ds. 1), envUnit = (\<lambda>_. 1 / 2), envFail = (\<lambda>_ ft. 0), envWrite = (\<lambda>i msgId. None), envElapsed = (\<lambda>_. 1000),
     envOrd = sorted_list_of_set, envLog = []\<rparr>"

abbreviation exampleOpenPcap :: "PcapFrameType \<Rightarrow> (PcapFile option \<times> string option) res" where
  "exampleOpenPcap \<equiv> (\<lambda>t. pcap_NewFile (\<lambda>r. 0) t True None None None None None)"

lemma exampleEnv_order: "order_ok (envOrd exampleEnv)"
  by (simp add: exampleEnv_def order_ok_sorted)

lemma exampleStart:
  "\<exists>d0 rm. NewDispatcher None exampleOpenPcap exampleMem DefaultConfig = Inr d0 \<and> NewRadioModel 7 ''Ideal'' = Some rm"
proof -
  obtain am where am: "newAlarmMgr = Inr am" using newAlarmMgr_refines by auto
  have q: "newSendQueue = Inr []" using newSendQueue_refines by simp
  obtain s where s: "newUnixSocket None (dcOutputDir DefaultConfig) (dcSimulationId DefaultConfig) = Inr s"
    by (simp add: newUnixSocket_def DefaultConfig_def isValidUnixSocketPath_def go_Itoa_def nat_digits.simps Let_def)
  obtain f where p: "exampleOpenPcap (dcPcapFrameType DefaultConfig) = Inr (Some f, None)"
    by (simp add: DefaultConfig_def pcap_NewFile_def newWpanFile_def wpanFile_writeHeader_def fd_Write_def wpanFile_AppendFrame_def)
  show ?thesis
    unfolding NewDispatcher_def s am q p by (simp add: NewRadioModel_def DefaultConfig_def)
qed

definition exampleOps :: "mgmt_op list" where
  "exampleOps = [OpAddNode 1 exampleConfig, OpAddNode 2 exampleConfig, OpSetRloc16 1 0x400, OpSetExtAddr 2 5, OpSetNodeFailed 2 True,
     OpSetRadioModel 3 ''MI'', OpDeleteNode 1]"

theorem dispatcher_refines_registry_witness:
  "\<exists>d0 rm d1 d. NewDispatcher None exampleOpenPcap exampleMem DefaultConfig = Inr d0 \<and> NewRadioModel 7 ''Ideal'' = Some rm \<and>
     SetRadioModel False rm (SetEnergyAnalyser (Some (NewEnergyAnalyser [] 0)) d0) = Inr d1 \<and>
     foldr_res (mgmt_step exampleEnv) exampleOps d1 = Inr d \<and> dNodesArray d = [2] \<and> dExtaddrMap d 5 = Some 2 \<and> GetFailedCount d = Inr 1"
proof -
  obtain d0 rm where d0: "NewDispatcher None exampleOpenPcap exampleMem DefaultConfig = Inr d0" "NewRadioModel 7 ''Ideal'' = Some rm"
    using exampleStart by auto
  obtain d1 where d1: "SetRadioModel False rm (SetEnergyAnalyser (Some (NewEnergyAnalyser [] 0)) d0) = Inr d1"
    using start_inv [OF d0, of "[]" 0] by auto
  have ops: "foldr_res registry_step exampleOps Map.empty = Inr [2 \<mapsto> (5, InvalidRloc16, True)]"
    by (simp add: exampleOps_def exampleConfig_def known_def fun_eq_iff)
  have "{i. \<exists>x r. [2 \<mapsto> (5 :: u64, InvalidRloc16 :: u16, True)] i = Some (x, r, True)} = {2 :: NodeId}"
    by (auto split: if_splits)
  with dispatcher_refines_registry [OF d0 exampleEnv_order d1, of exampleOps, unfolded ops] d0 d1 show ?thesis
    by auto
qed

end
