(* ===== verification/Dispatcher_Events.thy ===== *)
theory Dispatcher_Events
  imports Dispatcher_State
begin

text \<open>
  The event handlers of the dispatcher (\<^verbatim>\<open>src/dispatcher/dispatcher.go\<close>, and \<^verbatim>\<open>sendEvent\<close> with its callers in
  \<^verbatim>\<open>src/dispatcher/Node.go\<close>): sending events to nodes, dispatching radio frames to the nodes in reach, handling the events that
  nodes send, and processing the events of the queue.
\<close>

section \<open>Sending events to a node\<close>

definition setAlive :: "NodeId \<Rightarrow> Dispatcher \<Rightarrow> Dispatcher res" where
  "setAlive nodeid d =
    (case dNodes d nodeid of
       None \<Rightarrow> Inl AssertFailed
     | Some node \<Rightarrow> Inr (if dnHasDisconnected node then d else d\<lparr>dAliveNodes := insert nodeid (dAliveNodes d)\<rparr>))"

definition IsAlive :: "NodeId \<Rightarrow> Dispatcher \<Rightarrow> bool" where
  "IsAlive nodeid d \<longleftrightarrow> nodeid \<in> dAliveNodes d"

definition setSleeping :: "NodeId \<Rightarrow> Dispatcher \<Rightarrow> Dispatcher" where
  "setSleeping nodeid d = d\<lparr>dAliveNodes := dAliveNodes d - {nodeid}\<rparr>"

definition DisconnectSocket :: "NodeId \<Rightarrow> Dispatcher \<Rightarrow> Dispatcher res" where
  "DisconnectSocket nodeid d = bindr (derefr (dNodes d nodeid)) (\<lambda>node.
     let d1 = set_node nodeid (node\<lparr>dnHasDisconnected := True\<rparr>) d in
     Inr (case dnConn node of Some conn \<Rightarrow> emit (ConnClose conn) d1 | None \<Rightarrow> d1))"

definition sendRawData :: "Env \<Rightarrow> NodeId \<Rightarrow> u64 \<Rightarrow> bytes \<Rightarrow> Dispatcher \<Rightarrow> (Dispatcher \<times> (string \<times> bool) option) res" where
  "sendRawData env nodeid msgId msg d = bindr (derefr (dNodes d nodeid)) (\<lambda>node.
     case dnConn node of
       None \<Rightarrow> Inl AssertFailed
     | Some conn \<Rightarrow> Inr (emit (ConnWrite conn msg) d, envWrite env nodeid msgId))"

text \<open>The last part of \<open>sendEvent\<close>: writing the event to the socket.\<close>

definition deliverEvent :: "Env \<Rightarrow> NodeId \<Rightarrow> Event \<Rightarrow> Dispatcher \<Rightarrow> Dispatcher res" where
  "deliverEvent env nodeid evt d =
     bindr (sendRawData env nodeid (evMsgId evt) (Event_Serialize evt) d) (\<lambda>(d1, r).
       case r of
         Some (err, wasSocketClosed) \<Rightarrow>
           bindr (derefr (dNodes d1 nodeid)) (\<lambda>node.
             DisconnectSocket nodeid (set_node nodeid (node\<lparr>dnErr := Some (evt, wasSocketClosed, err)\<rparr>) d1))
       | None \<Rightarrow> setAlive nodeid d1)"

text \<open>The middle part: the failure control is asked for the time at which the node has to be woken up next.\<close>

definition wakeEvent :: "NodeId \<Rightarrow> u64 \<Rightarrow> Event" where
  "wakeEvent nodeid ts = zeroEvent\<lparr>evType := EventTypeAlarmFired, evNodeId := nodeid, evTimestamp := ts\<rparr>"

definition reEvaluateFailure :: "Env \<Rightarrow> NodeId \<Rightarrow> u64 \<Rightarrow> Dispatcher \<Rightarrow> Dispatcher res" where
  "reEvaluateFailure env nodeid oldTime d = bindr (derefr (dNodes d nodeid)) (\<lambda>node.
     bindr (FailureCtrl_OnTimeAdvanced (envFail env (dDraws d) (fcFailTime (dnFailureCtrl node))) (dnCurTime node)
              (dnIsFailed node) (dnFailureCtrl node) oldTime) (\<lambda>(fc, failed, reEvaluateTime, isUpdated).
     bindr (apply_failure nodeid fc failed (draw d)) (\<lambda>d1.
       if isUpdated then bindr (sendQueue_Add (dEventQueue d1) (wakeEvent nodeid reEvaluateTime)) (\<lambda>q. Inr (d1\<lparr>dEventQueue := q\<rparr>))
       else Inr d1)))"

definition sendEvent :: "Env \<Rightarrow> NodeId \<Rightarrow> Event \<Rightarrow> Dispatcher \<Rightarrow> Dispatcher res" where
  "sendEvent env nodeid evt d = bindr (derefr (dNodes d nodeid)) (\<lambda>node.
     let oldTime = dnCurTime node;
         msgId = dnMsgId node + 1 in
     assertr (evTimestamp evt = dCurTime d)
    (let evt1 = evt\<lparr>evNodeId := nodeid, evMsgId := msgId, evDelay := evTimestamp evt - oldTime\<rparr> in
     bindr (alarmMgr_SetNotified (dAlarmMgr d) nodeid) (\<lambda>am.
       let node1 = node\<lparr>dnMsgId := msgId, dnCurTime := dnCurTime node + evDelay evt1\<rparr>;
           d1 = set_node nodeid node1 (d\<lparr>dAlarmMgr := am\<rparr>) in
       assertr (dnCurTime node1 = dCurTime d1)
      (bindr (if evTimestamp evt1 > oldTime then reEvaluateFailure env nodeid oldTime d1 else Inr d1) (\<lambda>d2.
         deliverEvent env nodeid evt1 d2)))))"

definition SendToVirtualUART :: "Env \<Rightarrow> NodeId \<Rightarrow> bytes \<Rightarrow> Dispatcher \<Rightarrow> (Dispatcher \<times> sendError option) res" where
  "SendToVirtualUART env nodeid data d =
     bindr (sendEvent env nodeid (zeroEvent\<lparr>evTimestamp := dCurTime d, evType := EventTypeUartWrite, evData := data,
       evNodeId := nodeid\<rparr>) d) (\<lambda>d1. bindr (derefr (dNodes d1 nodeid)) (\<lambda>node. Inr (d1, dnErr node)))"

definition SendRfSimEvent :: "Env \<Rightarrow> NodeId \<Rightarrow> bool \<Rightarrow> RfSimParam \<Rightarrow> RfSimParamValue \<Rightarrow> Dispatcher \<Rightarrow> (Dispatcher \<times> sendError option) res" where
  "SendRfSimEvent env nodeid writeValue param value d =
    (let eventType = (if writeValue then EventTypeRadioRfSimParamSet else EventTypeRadioRfSimParamGet) in
     bindr (sendEvent env nodeid (zeroEvent\<lparr>evTimestamp := dCurTime d, evType := eventType, evNodeId := nodeid,
       evRfSimParamData := \<lparr>rpParam = param, rpValue = value\<rparr>\<rparr>) d) (\<lambda>d1.
       bindr (derefr (dNodes d1 nodeid)) (\<lambda>node. Inr (d1, dnErr node))))"

definition advanceNodeTime :: "Env \<Rightarrow> NodeId \<Rightarrow> u64 \<Rightarrow> bool \<Rightarrow> Dispatcher \<Rightarrow> Dispatcher res" where
  "advanceNodeTime env nodeid timestamp force d =
    (case dNodes d nodeid of
       None \<Rightarrow> Inl AssertFailed
     | Some node \<Rightarrow>
        if timestamp \<le> dnCurTime node \<and> \<not> force then Inr d
        else if \<not> Node_IsConnected node then
          bindr (alarmMgr_SetNotified (dAlarmMgr d) nodeid) (\<lambda>am. Inr (d\<lparr>dAlarmMgr := am\<rparr>))
        else sendEvent env nodeid (zeroEvent\<lparr>evType := EventTypeAlarmFired, evTimestamp := timestamp\<rparr>) d)"

definition NotifyCommand :: "Env \<Rightarrow> NodeId \<Rightarrow> Dispatcher \<Rightarrow> Dispatcher res" where
  "NotifyCommand env nodeid d =
    (if dNodes d nodeid \<noteq> None
     then bindr (setAlive nodeid d) (\<lambda>d1. advanceNodeTime env nodeid (dCurTime d1) True d1)
     else Inr d)"

text \<open>\<open>stopping\<close> tells whether the program is being stopped. A node that is deleted from the set while it is
  iterated over would be skipped, but the loop body only adds nodes that are in the set already.\<close>

definition syncAliveNodes :: "Env \<Rightarrow> bool \<Rightarrow> Dispatcher \<Rightarrow> Dispatcher res" where
  "syncAliveNodes env stopping d =
    (if dAliveNodes d = {} \<or> stopping then Inr d
     else foldr_res (\<lambda>nodeid d1. advanceNodeTime env nodeid (dCurTime d1) True d1) (envOrd env (dAliveNodes d)) d)"

section \<open>Dispatching radio frames\<close>

definition checkRadioReachable :: "Env \<Rightarrow> NodeId \<Rightarrow> NodeId \<Rightarrow> Dispatcher \<Rightarrow> (bool \<times> Dispatcher) res" where
  "checkRadioReachable env src dst d =
    (if src = dst then Inr (False, d)
     else bindr (derefr (dNodes d src)) (\<lambda>srcNode. bindr (derefr (dNodes d dst)) (\<lambda>dstNode.
       bindr (derefr (dRadioModel d)) (\<lambda>rm.
       bindr (RadioModel_CheckRadioReachable (envRand env) rm (dRmem d) (dnRadioNode srcNode) (dnRadioNode dstNode)) (\<lambda>(ok, rm1).
         Inr (ok, d\<lparr>dRadioModel := Some rm1\<rparr>))))))"

definition addEvents :: "Event list \<Rightarrow> sendQueue \<Rightarrow> sendQueue res" where
  "addEvents evs q = foldr_res (\<lambda>e q1. sendQueue_Add q1 e) evs q"

text \<open>A dispatch by the radio model may put log events into the queue.\<close>

definition onEventDispatch :: "Env \<Rightarrow> rptr \<Rightarrow> rptr \<Rightarrow> Event \<Rightarrow> Dispatcher \<Rightarrow> (Event \<times> bool \<times> Dispatcher) res" where
  "onEventDispatch env src dst evt d =
     bindr (derefr (dRadioModel d)) (\<lambda>rm.
     bindr (RadioModel_OnEventDispatch (envRand env) (envUnit env (dDraws d)) (envLog env) (envOrd env) rm (dRmem d) src dst evt)
       (\<lambda>(rm1, mem1, evt1, ok, evs).
     bindr (addEvents evs (dEventQueue d)) (\<lambda>q.
       Inr (evt1, ok, draw (d\<lparr>dRadioModel := Some rm1, dRmem := mem1, dEventQueue := q\<rparr>)))))"

text \<open>The event is sent to the node \<open>dst\<close> if the radio model, which may change it, does not object.\<close>

definition dispatchEvent :: "Env \<Rightarrow> rptr \<Rightarrow> rptr \<Rightarrow> NodeId \<Rightarrow> Event \<Rightarrow> Dispatcher \<Rightarrow> Dispatcher res" where
  "dispatchEvent env srcRadio dstRadio dst evt d =
     bindr (onEventDispatch env srcRadio dstRadio evt d) (\<lambda>(evt1, ok, d1). if ok then sendEvent env dst evt1 d1 else Inr d1)"

text \<open>A frame is lost when the random number is not below the success rate, which is the power of the ratio of delivered frames by the length of
  the frame. At a ratio of 0, \<^verbatim>\<open>math.Pow\<close> is 0, 1 or infinite for a positive, zero or negative exponent.\<close>

definition packetLost :: "real \<Rightarrow> real \<Rightarrow> Event \<Rightarrow> bool" where
  "packetLost unitRnd plr evt =
    (let datalenMac = int (length (evData evt)) - 1 in
     if plr = 1 then (datalenMac > 0 \<and> unitRnd \<ge> 0 \<or> datalenMac = 0 \<and> unitRnd \<ge> 1)
     else unitRnd \<ge> (1 - plr) powr (of_int datalenMac / 127))"

definition sendOneRadioFrame :: "Env \<Rightarrow> Event \<Rightarrow> NodeId \<Rightarrow> NodeId \<Rightarrow> Dispatcher \<Rightarrow> Dispatcher res" where
  "sendOneRadioFrame env evt src dst d =
     assertr (evType evt = EventTypeRadioCommStart \<or> evType evt = EventTypeRadioRxDone)
    (assertr (src \<noteq> dst)
    (bindr (derefr (dNodes d src)) (\<lambda>srcNode. bindr (derefr (dNodes d dst)) (\<lambda>dstNode.
       if dnIsFailed dstNode then Inr d
       else if dGlobalPacketLossRatio d > 0 \<and> packetLost (envUnit env (dDraws d)) (dGlobalPacketLossRatio d) evt
       then Inr (draw d)
       else
         let d1 = (if dGlobalPacketLossRatio d > 0 then draw d else d);
             evt2 = (Event_Copy evt)\<lparr>evNodeId := dst\<rparr> in
         dispatchEvent env (dnRadioNode srcNode) (dnRadioNode dstNode) dst evt2 d1))))"

definition visSend :: "NodeId \<Rightarrow> NodeId \<Rightarrow> MsgVisualizeInfo \<Rightarrow> Dispatcher \<Rightarrow> Dispatcher" where
  "visSend srcid dstid visInfo d =
    (if dstid = BroadcastNodeId then
       (if FrameControl_FrameType (mvFrameControl visInfo) = FrameTypeAck
        then (if \<not> voAckMessage (dVisOptions d) then d else emit (VisSend srcid dstid visInfo) d)
        else (if \<not> voBroadcastMessage (dVisOptions d) then d else emit (VisSend srcid dstid visInfo) d))
     else (if \<not> voUnicastMessage (dVisOptions d) then d else emit (VisSend srcid dstid visInfo) d))"

definition visSendFrame :: "NodeId \<Rightarrow> NodeId \<Rightarrow> MacFrame \<Rightarrow> RadioCommEventData \<Rightarrow> Dispatcher \<Rightarrow> Dispatcher" where
  "visSendFrame srcid dstid pktframe commData d = visSend srcid dstid
     \<lparr>mvChannel = mfChannel pktframe, mvFrameControl = mfFrameControl pktframe, mvSeq = mfSeq pktframe,
      mvDstAddrShort = mfDstAddrShort pktframe, mvDstAddrExtended = mfDstAddrExtended pktframe,
      mvSendDurationUs = ucast (rcDuration commData), mvPowerDbm = rcPowerDbm commData,
      mvFrameSizeBytes = mfLengthBytes pktframe + mfPhyHdrLength pktframe\<rparr> d"

definition visSendInterference :: "NodeId \<Rightarrow> NodeId \<Rightarrow> RadioCommEventData \<Rightarrow> Dispatcher \<Rightarrow> Dispatcher" where
  "visSendInterference srcid dstid commData d = visSend srcid dstid
     \<lparr>mvChannel = rcChannel commData, mvFrameControl = 0x04, mvSeq = 0, mvDstAddrShort = 0, mvDstAddrExtended = 0,
      mvSendDurationUs = ucast (rcDuration commData), mvPowerDbm = rcPowerDbm commData, mvFrameSizeBytes = 0\<rparr> d"

text \<open>Two hexadecimal digits in upper case, as \<^verbatim>\<open>%02X\<close> prints them.\<close>

definition hex_digit :: "u8 \<Rightarrow> char" where
  "hex_digit b = (''0123456789ABCDEF'') ! unat b"

definition dumpLine :: "Event \<Rightarrow> string" where
  "dumpLine item = ''DUMP:PACKET:'' @ go_Itoa (uint (evTimestamp item)) @ '':'' @ go_Itoa (evNodeId item) @ '':'' @
     concat (map (\<lambda>b. [hex_digit (b div 16), hex_digit (b mod 16)]) (evData item))"

definition dumpPacket :: "Event \<Rightarrow> Dispatcher \<Rightarrow> Dispatcher" where
  "dumpPacket item d = emit (DumpLine (dumpLine item)) d"

text \<open>One destination of a frame: if the radio model says it is reachable, the frame is sent to it, and it is added to the
  nodes that were reached.\<close>

definition sendIfReachable :: "Env \<Rightarrow> Event \<Rightarrow> NodeId \<Rightarrow> NodeId \<Rightarrow> Dispatcher \<times> NodeId set \<Rightarrow> (Dispatcher \<times> NodeId set) res" where
  "sendIfReachable env evt src dst s = (case s of (d, reached) \<Rightarrow>
     bindr (checkRadioReachable env src dst d) (\<lambda>(ok, d1).
       if ok then bindr (sendOneRadioFrame env evt src dst d1) (\<lambda>d2. Inr (d2, insert dst reached)) else Inr (d1, reached)))"

definition sendToAll :: "Env \<Rightarrow> Event \<Rightarrow> NodeId \<Rightarrow> NodeId list \<Rightarrow> Dispatcher \<Rightarrow> (Dispatcher \<times> NodeId set) res" where
  "sendToAll env evt src dsts d = foldr_res (sendIfReachable env evt src) dsts (d, {})"

definition visualizeTx :: "NodeId \<Rightarrow> Event \<Rightarrow> NodeId set \<Rightarrow> Dispatcher \<Rightarrow> Dispatcher res" where
  "visualizeTx src evt neighbors d = bindr (wpan_Dissect (evData evt)) (\<lambda>pktFrame.
     let dstAddrMode = FrameControl_DestAddrMode (mfFrameControl pktFrame);
         vis = (\<lambda>dst. visSendFrame src dst pktFrame (evRadioCommData evt)) in
     Inr (if dstAddrMode = AddrModeExtended then
            (case dExtaddrMap d (mfDstAddrExtended pktFrame) of
               Some dst \<Rightarrow> if dst \<in> neighbors then vis dst d else vis InvalidNodeId d
             | None \<Rightarrow> vis InvalidNodeId d)
          else if dstAddrMode = AddrModeShort \<and> mfDstAddrShort pktFrame \<noteq> BroadcastRloc16 then
            (let dstNodes = dRloc16Map d (mfDstAddrShort pktFrame) in
             if length dstNodes > 0 then fold (\<lambda>dst d1. if dst \<in> neighbors then vis dst d1 else d1) dstNodes d
             else vis InvalidNodeId d)
          else vis BroadcastNodeId d))"

text \<open>Recording a frame in the capture file and in the dump.\<close>

definition recordFrame :: "Event \<Rightarrow> Dispatcher \<Rightarrow> Dispatcher res" where
  "recordFrame evt d =
     bindr (if dcPcapEnabled (dCfg d)
            then bindr (slicer (evData evt) RadioMessagePsduOffset (length (evData evt))) (\<lambda>psdu.
              Inr (emit (PcapFrameChan \<lparr>pfTimestamp = evTimestamp evt, pfData = psdu, pfChannel = rcChannel (evRadioCommData evt),
                pfRssi = of_int (sint (rcPowerDbm (evRadioCommData evt)))\<rparr>) d))
            else Inr d) (\<lambda>d1. Inr (if dcDumpPackets (dCfg d1) then dumpPacket evt d1 else d1))"

definition sendRadioCommRxStartEvents :: "Env \<Rightarrow> NodeId \<Rightarrow> Event \<Rightarrow> Dispatcher \<Rightarrow> Dispatcher res" where
  "sendRadioCommRxStartEvents env src evt d =
     assertr (evType evt = EventTypeRadioCommStart)
    (bindr (derefr (dNodes d src)) (\<lambda>srcNode.
     if dnIsFailed srcNode then Inr d
     else
       bindr (recordFrame evt d) (\<lambda>d2.
       bindr (sendToAll env evt src (dNodesArray d2) d2) (\<lambda>(d3, neighbors).
         visualizeTx src evt neighbors
           (upd_counters (\<lambda>c. c\<lparr>cDispatchAllInRange := cDispatchAllInRange c + 1\<rparr>) d3)))))"

definition sendAndCount :: "Env \<Rightarrow> Event \<Rightarrow> NodeId \<Rightarrow> NodeId list \<Rightarrow> (Counters \<Rightarrow> Counters) \<Rightarrow> Dispatcher \<Rightarrow> Dispatcher res" where
  "sendAndCount env evt src dsts bump d = bindr (sendToAll env evt src dsts d) (\<lambda>(d1, _). Inr (upd_counters bump d1))"

abbreviation countExtAddrFail :: "Counters \<Rightarrow> Counters" where
  "countExtAddrFail c \<equiv> c\<lparr>cDispatchByExtAddrFail := cDispatchByExtAddrFail c + 1\<rparr>"

definition sendRadioCommRxDoneEvents :: "Env \<Rightarrow> NodeId \<Rightarrow> Event \<Rightarrow> Dispatcher \<Rightarrow> Dispatcher res" where
  "sendRadioCommRxDoneEvents env src evt d =
     assertr (evType evt = EventTypeRadioRxDone)
    (bindr (derefr (dNodes d src)) (\<lambda>srcNode.
     if dnIsFailed srcNode then Inr d
     else
       bindr (wpan_Dissect (evData evt)) (\<lambda>pktFrame.
       let dstAddrMode = FrameControl_DestAddrMode (mfFrameControl pktFrame) in
       if dstAddrMode = AddrModeExtended then
         (case dExtaddrMap d (mfDstAddrExtended pktFrame) of
            Some dst \<Rightarrow>
              if dst \<noteq> src then
                sendAndCount env evt src [dst] (\<lambda>c. c\<lparr>cDispatchByExtAddrSucc := cDispatchByExtAddrSucc c + 1\<rparr>) d
              else Inr (upd_counters countExtAddrFail d)
          | None \<Rightarrow> Inr (upd_counters countExtAddrFail d))
       else if dstAddrMode = AddrModeShort \<and> mfDstAddrShort pktFrame \<noteq> BroadcastRloc16 then
         (let dstNodes = dRloc16Map d (mfDstAddrShort pktFrame) in
          if length dstNodes > 0 then
            sendAndCount env evt src dstNodes (\<lambda>c. c\<lparr>cDispatchByShortAddrSucc := cDispatchByShortAddrSucc c + 1\<rparr>) d
          else Inr (upd_counters (\<lambda>c. c\<lparr>cDispatchByShortAddrFail := cDispatchByShortAddrFail c + 1\<rparr>) d))
       else
         sendAndCount env evt src (dNodesArray d) (\<lambda>c. c\<lparr>cDispatchAllInRange := cDispatchAllInRange c + 1\<rparr>) d)))"

section \<open>Status messages of nodes\<close>

abbreviation milliTimePeriod :: u64 where "milliTimePeriod \<equiv> 0xffffffff * 1000"

fun milliTimeLoop :: "nat \<Rightarrow> u64 \<Rightarrow> u64 \<Rightarrow> u64 res" where
  "milliTimeLoop fuel curTime ts =
    (if ts + milliTimePeriod < curTime then
       (case fuel of 0 \<Rightarrow> Inl NoReturn | Suc fuel1 \<Rightarrow> milliTimeLoop fuel1 curTime (ts + milliTimePeriod))
     else Inr ts)"

declare milliTimeLoop.simps [simp del]

text \<open>The fuel is the number of periods in the clock and one more, which is enough for every clock up to \<open>Ever\<close>
  (\<open>milliTimeLoop_result\<close>).\<close>

definition convertNodeMilliTime :: "DNode \<Rightarrow> u32 \<Rightarrow> Dispatcher \<Rightarrow> u64 res" where
  "convertNodeMilliTime node milliTime d =
     milliTimeLoop (unat (dCurTime d div milliTimePeriod) + 1) (dCurTime d) (dnCreateTime node + ucast milliTime * 1000)"

abbreviation with_node :: "NodeId \<Rightarrow> (DNode \<Rightarrow> DNode res) \<Rightarrow> Dispatcher \<Rightarrow> Dispatcher res" where
  "with_node nid f d \<equiv> bindr (derefr (dNodes d nid)) (\<lambda>node. bindr (f node) (\<lambda>node1. Inr (set_node nid node1 d)))"

definition pingRequestPush :: "NodeId \<Rightarrow> string \<Rightarrow> Dispatcher \<Rightarrow> Dispatcher res" where
  "pingRequestPush srcid val d = with_node srcid (\<lambda>node.
     let args = go_Split val (CHR '','') in
     bindr (indexr args 0) (\<lambda>dstaddr.
     bindr (bindr (indexr args 1) (\<lambda>a. panicIfError (go_Atoi a))) (\<lambda>datasize.
     bindr (bindr (indexr args 2) (\<lambda>a. panicIfError (go_ParseUint a 10 64))) (\<lambda>timestamp.
     bindr (convertNodeMilliTime node (of_nat timestamp) d) (\<lambda>ts.
       Inr (Node_onPingRequest node ts dstaddr datasize)))))) d"

definition pingReplyPush :: "NodeId \<Rightarrow> string \<Rightarrow> Dispatcher \<Rightarrow> Dispatcher res" where
  "pingReplyPush srcid val d = with_node srcid (\<lambda>node.
     let args = go_Split val (CHR '','') in
     bindr (indexr args 0) (\<lambda>dstaddr.
     bindr (bindr (indexr args 1) (\<lambda>a. panicIfError (go_Atoi a))) (\<lambda>datasize.
     bindr (bindr (indexr args 2) (\<lambda>a. panicIfError (go_ParseUint a 10 64))) (\<lambda>timestamp.
     bindr (bindr (indexr args 3) (\<lambda>a. panicIfError (go_Atoi a))) (\<lambda>hoplimit.
     bindr (convertNodeMilliTime node (of_nat timestamp) d) (\<lambda>ts.
       Inr (Node_onPingReply (dCurTime d) node ts dstaddr datasize hoplimit))))))) d"

definition tablePush :: "bool \<Rightarrow> (u64 \<Rightarrow> Output) \<Rightarrow> string \<Rightarrow> Dispatcher \<Rightarrow> Dispatcher res" where
  "tablePush shown out val d = bindr (panicIfError (go_ParseUint val 16 64)) (\<lambda>extaddr.
     Inr (topology_changed (if shown then emit (out (of_nat extaddr)) d else d)))"

text \<open>One \<open>key=value\<close> pair of a status message.\<close>

definition statusPush :: "NodeId \<Rightarrow> string \<Rightarrow> string \<Rightarrow> Dispatcher \<Rightarrow> Dispatcher res" where
  "statusPush srcid key val d =
    (if key = ''transmit'' then Inr d
     else if key = ''role'' then
       bindr (panicIfError (go_Atoi val)) (\<lambda>role. bindr (setNodeRole srcid role d) (\<lambda>d1. Inr (topology_changed d1)))
     else if key = ''rloc16'' then
       bindr (panicIfError (go_Atoi val)) (\<lambda>rloc16. setNodeRloc16 srcid (word_of_int rloc16) d)
     else if key = ''ping_request'' then pingRequestPush srcid val d
     else if key = ''ping_reply'' then pingReplyPush srcid val d
     else if key = ''coap'' then
       bindr (handleCoapEvent (dCurTime d) srcid (dCoaps d) val) (\<lambda>c. Inr (d\<lparr>dCoaps := c\<rparr>))
     else if key = ''parid'' then
       bindr (panicIfError (go_ParseUint val 16 32)) (\<lambda>parid.
         bindr (with_node srcid (\<lambda>node. Inr (node\<lparr>dnPartitionId := of_nat parid\<rparr>)) d) (\<lambda>d1.
           Inr (topology_changed (emit (VisSetNodePartitionId srcid (of_nat parid)) d1))))
     else if key = ''router_added'' then tablePush (voRouterTable (dVisOptions d)) (VisAddRouterTable srcid) val d
     else if key = ''router_removed'' then tablePush (voRouterTable (dVisOptions d)) (VisRemoveRouterTable srcid) val d
     else if key = ''child_added'' then tablePush (voChildTable (dVisOptions d)) (VisAddChildTable srcid) val d
     else if key = ''child_removed'' then tablePush (voChildTable (dVisOptions d)) (VisRemoveChildTable srcid) val d
     else if key = ''parent'' then tablePush True (VisSetParent srcid) val d
     else if key = ''joiner_state'' then
       bindr (panicIfError (go_Atoi val)) (\<lambda>st. with_node srcid (\<lambda>node. Inr (Node_onJoinerState node st)) d)
     else if key = ''extaddr'' then
       bindr (panicIfError (go_ParseUint val 16 64)) (\<lambda>extaddr. Node_onStatusPushExtAddr srcid (of_nat extaddr) d)
     else if key = ''mode'' then
       bindr (with_node srcid (\<lambda>node. Inr (node\<lparr>dnMode := ParseNodeMode val\<rparr>)) d) (\<lambda>d1.
         Inr (topology_changed (emit (VisSetNodeMode srcid (ParseNodeMode val)) d1)))
     else Inr d)"

definition handleStatusPush :: "Env \<Rightarrow> NodeId \<Rightarrow> string \<Rightarrow> Dispatcher \<Rightarrow> Dispatcher res" where
  "handleStatusPush env srcid data d =
     bindr (foldr_res (\<lambda>status d1. case go_Split status (CHR ''='') of
         [key, val] \<Rightarrow> statusPush srcid key val d1
       | _ \<Rightarrow> Inr d1) (go_Split data (CHR '';'')) d) (\<lambda>d2.
       Inr (if cTopologyChanges (dCounters d2) > cTopologyChanges (dCounters d) then updateNodeStats env d2 else d2))"

section \<open>Events from nodes\<close>

type_synonym newNodeCallback = "NodeId \<Rightarrow> Dispatcher \<Rightarrow> (bool \<times> Dispatcher) res"

definition addQueue :: "Event \<Rightarrow> Dispatcher \<Rightarrow> Dispatcher res" where
  "addQueue evt d = bindr (sendQueue_Add (dEventQueue d) evt) (\<lambda>q. Inr (d\<lparr>dEventQueue := q\<rparr>))"

text \<open>The switch of \<open>HandleEvent\<close>, once the node and its connection are known.\<close>

definition handleNodeEvent :: "Env \<Rightarrow> DNode \<Rightarrow> Event \<Rightarrow> Dispatcher \<Rightarrow> Dispatcher res" where
  "handleNodeEvent env node evt d =
    (let nodeid = evNodeId evt;
         other = upd_counters (\<lambda>c. c\<lparr>cOtherEvents := cOtherEvents c + 1\<rparr>) d;
         logWrite = upd_counters (\<lambda>c. c\<lparr>cLogWriteEvents := cLogWriteEvents c + 1\<rparr>) d;
         host = upd_counters (\<lambda>c. c\<lparr>cHostEvents := cHostEvents c + 1\<rparr>) d in
     if evType evt = EventTypeAlarmFired then
       let d1 = upd_counters (\<lambda>c. c\<lparr>cAlarmEvents := cAlarmEvents c + 1\<rparr>) d;
           d2 = (if evMsgId evt = dnMsgId node then setSleeping nodeid d1 else d1);
           delay = (if evDelay evt \<ge> 0x7fffffff then Ever else evDelay evt) in
       bindr (alarmMgr_SetTimestamp (dAlarmMgr d2) nodeid (dCurTime d2 + delay)) (\<lambda>am. Inr (d2\<lparr>dAlarmMgr := am\<rparr>))
     else if evType evt \<in> {EventTypeRadioCommStart, EventTypeRadioState, EventTypeRadioChannelSample} then
       addQueue evt (upd_counters (\<lambda>c. c\<lparr>cRadioEvents := cRadioEvents c + 1\<rparr>) d)
     else if evType evt = EventTypeStatusPush then
       handleStatusPush env nodeid (bytes_string (evData evt))
         (upd_counters (\<lambda>c. c\<lparr>cStatusPushEvents := cStatusPushEvents c + 1\<rparr>) d)
     else if evType evt = EventTypeUartWrite then
       Inr (emit (CbUartWrite nodeid (evData evt)) (upd_counters (\<lambda>c. c\<lparr>cUartWriteEvents := cUartWriteEvents c + 1\<rparr>) d))
     else if evType evt = EventTypeUartDisconnected then
       bindr (if \<not> Node_IsConnected node then bindr (DisconnectSocket nodeid other) (\<lambda>d1. Inr (setSleeping nodeid d1)) else Inr other)
         (\<lambda>d2. Inr (emit (CbUartDisconnected nodeid) d2))
     else if evType evt = EventTypeLogWrite then Inr (emit (CbLogWrite nodeid (evData evt) False) logWrite)
     else if evType evt = EventTypeLogWriteHost then Inr (emit (CbLogWrite nodeid (evData evt) True) logWrite)
     else if evType evt = EventTypeExtAddr then
       bindr (slicer (evData evt) 0 8) (\<lambda>b. Node_onStatusPushExtAddr nodeid (get_be b) other)
     else if evType evt = EventTypeNodeInfo then Inr other
     else if evType evt = EventTypeNodeDisconnected then
       bindr (alarmMgr_SetNotified (dAlarmMgr other) nodeid) (\<lambda>am.
       bindr (DisconnectSocket nodeid (other\<lparr>dAlarmMgr := am\<rparr>)) (\<lambda>d1.
         Inr (emit (CbNodeDisconnected nodeid) (setSleeping nodeid d1))))
     else if evType evt \<in> {EventTypeUdpToHost, EventTypeIp6ToHost} then Inr (emit (CbMsgToHost nodeid evt) host)
     else if evType evt \<in> {EventTypeUdpFromHost, EventTypeIp6FromHost} then
       addQueue ((Event_Copy evt)\<lparr>evMustDispatch := True\<rparr>) host
     else Inr (emit (CbRfSimEvent nodeid evt) other))"

definition HandleEvent :: "Env \<Rightarrow> newNodeCallback \<Rightarrow> Event \<Rightarrow> Dispatcher \<Rightarrow> Dispatcher res" where
  "HandleEvent env onNew evt d =
     bindr (if dNodes d (evNodeId evt) \<noteq> None then Inr (True, d)
            else (case evConn evt of
              Some conn \<Rightarrow>
                if evType evt = EventTypeNodeInfo then
                  bindr (onNew (evNodeId evt) d) (\<lambda>(isAccepted, d1).
                    if \<not> isAccepted then Inr (False, emit (ConnClose conn) d1)
                    else (case dNodes d1 (evNodeId evt) of
                            None \<Rightarrow> Inl AssertFailed
                          | Some node \<Rightarrow> assertr (dnConn node \<noteq> None) (Inr (True, d1))))
                else Inr (False, d)
            | None \<Rightarrow> Inr (False, d))) (\<lambda>(goon, d1).
     if \<not> goon then Inr d1
     else bindr (derefr (dNodes d1 (evNodeId evt))) (\<lambda>node.
       case (dnConn node, evConn evt) of
         (None, _) \<Rightarrow>
           let node1 = node\<lparr>dnConn := evConn evt\<rparr> in
           handleNodeEvent env node1 (evt\<lparr>evTimestamp := dCurTime d1\<rparr>) (set_node (evNodeId evt) node1 d1)
       | (Some c, Some c1) \<Rightarrow>
           if c \<noteq> c1 then Inr (emit (ConnClose c1) d1)
           else handleNodeEvent env node (evt\<lparr>evTimestamp := dCurTime d1\<rparr>) d1
       | (Some c, None) \<Rightarrow> handleNodeEvent env node (evt\<lparr>evTimestamp := dCurTime d1\<rparr>) d1))"

text \<open>\<open>RecvEvents\<close>, where \<open>evs\<close> are the events that arrive until it returns.\<close>

definition RecvEvents :: "Env \<Rightarrow> newNodeCallback \<Rightarrow> Event list \<Rightarrow> Dispatcher \<Rightarrow> (Dispatcher \<times> nat) res" where
  "RecvEvents env onNew evs d = bindr (foldr_res (HandleEvent env onNew) evs d) (\<lambda>d1. Inr (d1, length evs))"

definition syncAllNodes :: "Env \<Rightarrow> newNodeCallback \<Rightarrow> Event list \<Rightarrow> Dispatcher \<Rightarrow> Dispatcher res" where
  "syncAllNodes env onNew evs d =
     bindr (foldr_res (\<lambda>nodeid d1. advanceNodeTime env nodeid (dCurTime d1) False d1) (dNodesArray d) d) (\<lambda>d1.
     bindr (RecvEvents env onNew evs d1) (\<lambda>(d2, _). Inr d2))"

section \<open>Events of the queue\<close>

definition setRadioEnergy :: "NodeId \<Rightarrow> RadioStates \<Rightarrow> Dispatcher \<Rightarrow> Dispatcher res" where
  "setRadioEnergy nodeid energyState d =
    (case dEnergyAnalyser d of
       None \<Rightarrow> Inr d
     | Some ea \<Rightarrow>
        (case EnergyAnalyser_GetNode ea nodeid of
           None \<Rightarrow> Inl AssertFailed
         | Some radioEnergy \<Rightarrow>
            bindr (NodeEnergy_SetRadioState radioEnergy energyState (dCurTime d)) (\<lambda>ne.
              Inr (d\<lparr>dEnergyAnalyser := Some (ea\<lparr>eaNodes := (eaNodes ea)(nodeid \<mapsto> ne)\<rparr>)\<rparr>))))"

definition handleRadioState :: "NodeId \<Rightarrow> Event \<Rightarrow> Dispatcher \<Rightarrow> Dispatcher res" where
  "handleRadioState nodeid evt d =
     bindr (setRadioEnergy nodeid (rsEnergyState (evRadioStateData evt)) d) (\<lambda>d1.
     if evDelay evt > 0 then addQueue (wakeEvent nodeid (dCurTime d1 + evDelay evt)) d1 else Inr d1)"

definition radioHandleEvent :: "Env \<Rightarrow> DNode \<Rightarrow> Event \<Rightarrow> Dispatcher \<Rightarrow> Dispatcher res" where
  "radioHandleEvent env node evt d =
     bindr (derefr (dRadioModel d)) (\<lambda>rm.
     bindr (RadioModel_HandleEvent (envRand env) (envOrd env) rm (dRmem d) (dnRadioNode node) evt) (\<lambda>(rm1, mem1, evs).
     bindr (addEvents evs (dEventQueue d)) (\<lambda>q.
       Inr (d\<lparr>dRadioModel := Some rm1, dRmem := mem1, dEventQueue := q\<rparr>))))"

text \<open>\<open>processEvent\<close> has two switches: for the events that are handled internally, and for those that are dispatched to nodes.\<close>

definition processInternal :: "Env \<Rightarrow> DNode \<Rightarrow> Event \<Rightarrow> Dispatcher \<Rightarrow> Dispatcher res" where
  "processInternal env node evt d =
    (let nodeid = evNodeId evt in
     if evType evt = EventTypeAlarmFired then advanceNodeTime env nodeid (dCurTime d) False d
     else if evType evt = EventTypeRadioLog then Inr d
     else if evType evt = EventTypeRadioCommStart then
       radioHandleEvent env node evt (if rcError (evRadioCommData evt) = OT_TX_TYPE_INTF
         then visSendInterference nodeid BroadcastNodeId (evRadioCommData evt) d else d)
     else if evType evt = EventTypeRadioState then
       bindr (handleRadioState nodeid evt d) (\<lambda>d1. radioHandleEvent env node evt d1)
     else radioHandleEvent env node evt d)"

definition processDispatch :: "Env \<Rightarrow> DNode \<Rightarrow> Event \<Rightarrow> Dispatcher \<Rightarrow> Dispatcher res" where
  "processDispatch env node evt d =
    (let nodeid = evNodeId evt in
     if evType evt = EventTypeRadioCommStart then sendRadioCommRxStartEvents env nodeid evt d
     else if evType evt = EventTypeRadioRxDone then sendRadioCommRxDoneEvents env nodeid evt d
     else if evType evt \<in> {EventTypeUdpFromHost, EventTypeIp6FromHost} then sendEvent env nodeid evt d
     else dispatchEvent env (dnRadioNode node) (dnRadioNode node) nodeid evt d)"

definition processEvent :: "Env \<Rightarrow> Event \<Rightarrow> Dispatcher \<Rightarrow> Dispatcher res" where
  "processEvent env evt d =
    (case dNodes d (evNodeId evt) of
       None \<Rightarrow> Inr d
     | Some node \<Rightarrow> if \<not> evMustDispatch evt then processInternal env node evt d else processDispatch env node evt d)"

text \<open>The energy of the nodes is stored and shown once in a period.\<close>

definition showEnergy :: "Env \<Rightarrow> u64 \<Rightarrow> Dispatcher \<Rightarrow> Dispatcher res" where
  "showEnergy env ts d =
    (case dEnergyAnalyser d of
       None \<Rightarrow> Inr d
     | Some ea \<Rightarrow>
        if ts \<ge> dLastEnergyVizTime d + ComputePeriod \<or> dLastEnergyVizTime d = 0 \<and> ts > 0 then
          bindr (EnergyAnalyser_StoreNetworkEnergy (envOrd env (dom (eaNodes ea))) ea ts) (\<lambda>ea1.
          bindr (EnergyAnalyser_GetLatestEnergyOfNodes ea1) (\<lambda>ne.
            Inr (emit (VisUpdateNodesEnergy ne ts True) (d\<lparr>dEnergyAnalyser := Some ea1, dLastEnergyVizTime := ts\<rparr>))))
        else Inr d)"

definition advanceTime :: "Env \<Rightarrow> u64 \<Rightarrow> Dispatcher \<Rightarrow> Dispatcher res" where
  "advanceTime env ts d =
     assertr (dCurTime d \<le> ts)
    (if dCurTime d = ts then Inr d
     else
       bindr (derefr (dRadioModel d)) (\<lambda>rm.
       let d1 = emit (CbNextEventTime ts) (d\<lparr>dRadioModel := Some (RadioModel_OnNextEventTime rm ts)\<rparr>);
           d2 = d1\<lparr>dCurTime := ts\<rparr>;
           elapsedTime = sint (dCurTime d2 - dSpeedStartTime d2);
           elapsedRealTime = envElapsed env (dDraws d2);
           d3 = draw (emit (VisAdvanceTime ts (if elapsedRealTime > 0 then of_int elapsedTime / of_int elapsedRealTime
                                                else MaxSimulateSpeed)) d2) in
       bindr (showEnergy env ts d3) (\<lambda>d4.
       if dcPhyTxStats (dCfg d4) then updateTimeWindowStats d4 else Inr d4)))"

end
