(* ===== verification/Dispatcher_Times.thy ===== *)
theory Dispatcher_Times
  imports Dispatcher_Events Dispatcher_Laws
begin

text \<open>
  Loops over times: the conversion of a node's wrapping millisecond clock to the time of the simulation
  (\<^verbatim>\<open>convertNodeMilliTime\<close>), and the statistics of time windows (\<^verbatim>\<open>updateTimeWindowStats\<close>). Both loops end with the fuel that
  their definitions give them.
\<close>

section \<open>The clock of a node\<close>

abbreviation (input) period :: nat where "period \<equiv> 4294967295000"

lemma unat_period: "unat milliTimePeriod = period"
  by simp

lemma unat_add_period: "unat ts + period < 2 ^ 64 \<Longrightarrow> unat (ts + milliTimePeriod) = unat ts + period" for ts :: u64
  by (subst unat_add_lem [THEN iffD1]) (simp_all add: unat_period)

text \<open>The loop adds the least number \<open>k\<close> of periods with which the time comes close enough to the clock of the dispatcher.\<close>

lemma milliTimeLoop_result:
  assumes "k \<le> fuel" "unat cur \<le> unat ts + (k + 1) * period" "k = 0 \<or> unat ts + k * period < unat cur"
    "unat ts + (k + 1) * period < 2 ^ 64"
  shows "\<exists>ts'. milliTimeLoop fuel cur ts = Inr ts' \<and> unat ts' = unat ts + k * period"
  using assms
proof (induction k arbitrary: fuel ts)
  case 0
  have "unat (ts + milliTimePeriod) = unat ts + period" by (rule unat_add_period) (use 0(4) in simp)
  with 0(2) have "\<not> ts + milliTimePeriod < cur" by (simp add: word_less_nat_alt not_less)
  then show ?case by (subst milliTimeLoop.simps) simp
next
  case (Suc k)
  obtain f where f: "fuel = Suc f" using Suc.prems(1) by (cases fuel) auto
  have u: "unat (ts + milliTimePeriod) = unat ts + period" by (rule unat_add_period) (use Suc.prems(4) in simp)
  then have "ts + milliTimePeriod < cur" using Suc.prems(3) by (simp add: word_less_nat_alt)
  moreover have "\<exists>ts'. milliTimeLoop f cur (ts + milliTimePeriod) = Inr ts' \<and> unat ts' = unat (ts + milliTimePeriod) + k * period"
    by (rule Suc.IH) (use Suc.prems f u in auto)
  ultimately show ?case using u f by (subst milliTimeLoop.simps) auto
qed

text \<open>
  A node sends the lower 32 bits of its clock \<open>t\<close> in milliseconds, and \<open>convertNodeMilliTime\<close> reconstructs the time of the simulation. If the time is not
  in the future and not too long ago, the conversion returns; the result is exact before the clock wraps, and afterwards too early by one millisecond for every time
  that the clock has wrapped, because the code takes the period of the clock to be \<open>2 ^ 32 - 1\<close> and not \<open>2 ^ 32\<close> milliseconds.
\<close>

theorem convertNodeMilliTime_drift:
  assumes "unat (dnCreateTime node) + 1000 * t \<le> unat (dCurTime d)" "dCurTime d < Ever"
    and "unat (dCurTime d) + 1000 * (t div 2 ^ 32) \<le> unat (dnCreateTime node) + 1000 * t + period"
  shows "\<exists>ts. convertNodeMilliTime node (of_nat t) d = Inr ts \<and>
    unat ts + 1000 * (t div 2 ^ 32) = unat (dnCreateTime node) + 1000 * t"
proof -
  let ?ms = "t mod 2 ^ 32" and ?k = "t div 2 ^ 32" and ?c = "unat (dCurTime d)" and ?n = "unat (dnCreateTime node)"
  let ?ts = "dnCreateTime node + ucast (of_nat t :: u32) * 1000"
  have t: "1000 * t = 1000 * ?ms + 4294967296000 * ?k" 
  proof -
    have "1000 * t = 1000 * (?k * 2 ^ 32 + ?ms)" by (simp only: div_mult_mod_eq)
    then show ?thesis by (simp only: add_mult_distrib2) simp
  qed
  have ms: "?ms < 4294967296" by simp
  have c: "?c < 2 ^ 63" using assms(2) by (simp add: word_less_nat_alt)
  have m: "unat (ucast (of_nat t :: u32) * 1000 :: u64) = 1000 * ?ms"
  proof -
    have "unat (ucast (of_nat t :: u32) :: u64) = ?ms"
      using ms by (simp add: unsigned_ucast_eq unsigned_of_nat take_bit_eq_mod)
    then show ?thesis using ms by (simp add: unat_word_ariths)
  qed
  have u: "unat ?ts = ?n + 1000 * ?ms"
    using m c assms(1) ms by (subst unat_add_lem [THEN iffD1]) (simp_all add: m)
  have real: "?n + 1000 * t = unat ?ts + ?k * period + 1000 * ?k" unfolding t u by simp
  have kc: "?k * period \<le> ?c" using real assms(1) by simp
  have "?k \<le> ?c div period" using kc by (simp add: less_eq_div_iff_mult_less_eq)
  then have "?k \<le> unat (dCurTime d div milliTimePeriod) + 1" by (simp add: unat_div)
  moreover have "?c \<le> unat ?ts + (?k + 1) * period" using assms(3) real by simp
  moreover have "?k = 0 \<or> unat ?ts + ?k * period < ?c" using assms(1) real by auto
  moreover have "unat ?ts + (?k + 1) * period < 2 ^ 64" using assms(1) real c by simp
  ultimately obtain ts where "milliTimeLoop (unat (dCurTime d div milliTimePeriod) + 1) (dCurTime d) ?ts = Inr ts" "unat ts = unat ?ts + ?k * period"
    using milliTimeLoop_result [of ?k "unat (dCurTime d div milliTimePeriod) + 1" "dCurTime d" ?ts] by blast
  then show ?thesis using real by (simp add: convertNodeMilliTime_def)
qed

definition exampleClock :: "u64 \<Rightarrow> DNode" where
  "exampleClock ct = fst (projr (newNode ct 0 1 exampleConfig))"

lemma exampleClock_create: "dnCreateTime (exampleClock ct) = ct"
  by (simp add: exampleClock_def newNode_def exampleConfig_def)

text \<open>A node that was created at the time 0 and whose clock has wrapped once, 5 seconds ago.\<close>

theorem convertNodeMilliTime_drift_witness:
  "\<exists>d ts. dCurTime d = 4294972296000 \<and> convertNodeMilliTime (exampleClock 0) (of_nat (2 ^ 32 + 5000)) d = Inr ts \<and> unat ts = 4294972296000 - 1000"
proof -
  obtain d0 where "NewDispatcher None exampleOpenPcap exampleMem DefaultConfig = Inr d0" using exampleStart by auto
  let ?d = "d0\<lparr>dCurTime := 4294972296000\<rparr>"
  obtain ts where "convertNodeMilliTime (exampleClock 0) (of_nat (2 ^ 32 + 5000)) ?d = Inr ts"
      "unat ts + 1000 * ((2 ^ 32 + 5000) div 2 ^ 32) = unat (dnCreateTime (exampleClock 0)) + 1000 * (2 ^ 32 + 5000)"
    using convertNodeMilliTime_drift [of "exampleClock 0" "2 ^ 32 + 5000" ?d] by (auto simp: exampleClock_create)
  then show ?thesis by (intro exI [of _ ?d] exI [of _ ts]) (simp add: exampleClock_create)
qed

section \<open>Time windows\<close>

lemma unat_add_less: "unat x + unat y < 2 ^ 64 \<Longrightarrow> unat (x + y) = unat x + unat y" for x y :: u64
  by (subst unat_add_lem [THEN iffD1]) simp_all

definition quiet :: "TimeWindowStatsInfo \<Rightarrow> bool" where
  "quiet i \<longleftrightarrow> ran (tiNodePhyStats i) \<subseteq> {zeroPhyStats}"

text \<open>Windows of the width \<open>W\<close>, each beginning where the one before ends.\<close>

definition tiles :: "nat \<Rightarrow> u64 \<Rightarrow> TimeWindowStatsInfo list \<Rightarrow> bool" where
  "tiles S W infos \<longleftrightarrow> map (\<lambda>i. unat (tiWinStartUs i)) infos = map (\<lambda>j. S + j * unat W) [0..<length infos] \<and> list_all (\<lambda>i. tiWinWidthUs i = W) infos"

lemma tiles_Cons: "tiles S W (i # infos) \<longleftrightarrow> unat (tiWinStartUs i) = S \<and> tiWinWidthUs i = W \<and> tiles (S + unat W) W infos"
  by (auto simp: tiles_def upt_conv_Cons map_Suc_upt [symmetric] simp del: upt_Suc map_Suc_upt)

lemma emptyWindows_result:
  assumes "k \<le> fuel" "W = twWinWidthUs (dTimeWinStats d)" "S = unat (twWinStartUs (dTimeWinStats d))"
    "unat (dCurTime d) \<le> S + (k + 1) * unat W" "k = 0 \<or> S + k * unat W < unat (dCurTime d)" "S + (k + 1) * unat W < 2 ^ 64"
  shows "\<exists>d' infos. emptyWindows fuel d = Inr d' \<and> dOut d' = dOut d @ map VisUpdateTimeWindowStats infos \<and> length infos = k \<and>
    tiles S W infos \<and> list_all quiet infos \<and> unat (twWinStartUs (dTimeWinStats d')) = S + k * unat W \<and> twWinWidthUs (dTimeWinStats d') = W \<and>
    dCurTime d' = dCurTime d"
  using assms
proof (induction k arbitrary: fuel d S)
  case 0
  then have "\<not> dCurTime d > twWinStartUs (dTimeWinStats d) + twWinWidthUs (dTimeWinStats d)"
    by (simp add: word_less_nat_alt unat_add_less)
  then show ?case using 0 by (subst emptyWindows.simps) (simp add: tiles_def)
next
  case (Suc k)
  obtain f where f: "fuel = Suc f" using Suc.prems(1) by (cases fuel) auto
  have u: "unat (twWinStartUs (dTimeWinStats d) + W) = S + unat W" using Suc.prems(3,6) by (simp add: unat_add_less)
  then have lt: "dCurTime d > twWinStartUs (dTimeWinStats d) + W" using Suc.prems(5) by (simp add: word_less_nat_alt)
  define w1 where "w1 = (dTimeWinStats d)\<lparr>twPhyStats := clearMapValuesPhyStats (twPhyStats (dTimeWinStats d))\<rparr>"
  define info where "info = \<lparr>tiWinStartUs = twWinStartUs w1, tiWinWidthUs = W, tiPhyTxBytes = (\<lambda>i. map_option TxBytes (twPhyStats w1 i)),
    tiChanSampleCount = (\<lambda>i. map_option ChanSampleCount (twPhyStats w1 i)), tiNodePhyStats = twPhyStats w1\<rparr>"
  define d1 where "d1 = (emit (VisUpdateTimeWindowStats info) (d\<lparr>dTimeWinStats := w1\<rparr>))\<lparr>dTimeWinStats := w1\<lparr>twWinStartUs := twWinStartUs w1 + W\<rparr>\<rparr>"
  have step: "emptyWindows fuel d = emptyWindows f d1"
    using lt f Suc.prems(2) by (subst emptyWindows.simps) (simp add: Let_def w1_def info_def d1_def visSendTimeWindowStats_def)
  have "\<exists>d' infos. emptyWindows f d1 = Inr d' \<and> dOut d' = dOut d1 @ map VisUpdateTimeWindowStats infos \<and> length infos = k \<and>
    tiles (S + unat W) W infos \<and> list_all quiet infos \<and> unat (twWinStartUs (dTimeWinStats d')) = (S + unat W) + k * unat W \<and>
    twWinWidthUs (dTimeWinStats d') = W \<and> dCurTime d' = dCurTime d1"
    by (rule Suc.IH) (use Suc.prems f u in \<open>auto simp: d1_def w1_def emit_def\<close>)
  then obtain d' infos where r: "emptyWindows f d1 = Inr d'" "dOut d' = dOut d1 @ map VisUpdateTimeWindowStats infos" "length infos = k"
    "tiles (S + unat W) W infos" "list_all quiet infos" "unat (twWinStartUs (dTimeWinStats d')) = (S + unat W) + k * unat W"
    "twWinWidthUs (dTimeWinStats d') = W" "dCurTime d' = dCurTime d1" by blast
  have "quiet info" by (auto simp: quiet_def info_def w1_def clearMapValuesPhyStats_def ran_def)
  moreover have "tiles S W (info # infos)" using r(4) Suc.prems(3) by (simp add: tiles_Cons info_def w1_def)
  moreover have "dOut d1 = dOut d @ [VisUpdateTimeWindowStats info]" "dCurTime d1 = dCurTime d" by (simp_all add: d1_def emit_def)
  ultimately show ?case using r step by (intro exI [of _ d'] exI [of _ "info # infos"]) simp
qed

text \<open>
  C13. The time windows of the radio statistics tile the time of the simulation: whenever the time has moved from a point inside or after the current window,
  \<open>updateTimeWindowStats\<close> returns, reports every window that has ended exactly once and in order, and moves on to the window that contains the
  current time. The first report has what has been counted since the window began, and the windows skipped by the
  step are reported as empty.
\<close>

theorem updateTimeWindowStats_tiles:
  assumes "dRadioModel d = Some rm" "0 < W" "W < Ever" "dCurTime d < Ever" "twWinStartUs (dTimeWinStats d) \<le> dCurTime d"
    "twWinWidthUs (dTimeWinStats d) = W"
  shows "\<exists>d' infos. updateTimeWindowStats d = Inr d' \<and> dOut d' = dOut d @ map VisUpdateTimeWindowStats infos \<and>
    tiles (unat (twWinStartUs (dTimeWinStats d))) W infos \<and>
    unat (twWinStartUs (dTimeWinStats d')) = unat (twWinStartUs (dTimeWinStats d)) + length infos * unat W \<and>
    twWinStartUs (dTimeWinStats d') \<le> dCurTime d \<and> dCurTime d \<le> twWinStartUs (dTimeWinStats d') + W \<and>
    list_all quiet (tl infos) \<and>
    list_all (\<lambda>i. tiNodePhyStats i = calcPhyStatsDiff (twStatsWinStart (dTimeWinStats d)) (RadioModel_PhyStats rm (dRmem d))) (take 1 infos)"
proof -
  let ?w = "dTimeWinStats d" and ?C = "unat (dCurTime d)"
  let ?S = "unat (twWinStartUs ?w)" and ?W = "unat W"
  have b: "?C < 2 ^ 63" "?W < 2 ^ 63" "0 < ?W" "?S \<le> ?C"
    using assms(2-5) by (simp_all add: word_less_nat_alt word_le_nat_alt)
  have e: "unat (twWinStartUs ?w + W) = ?S + ?W" using b by (simp add: unat_add_less)
  show ?thesis
  proof (cases "?S + ?W < ?C")
    case False
    then have "updateTimeWindowStats d = Inr d" using e assms(6) by (simp add: updateTimeWindowStats_def Let_def word_less_nat_alt)
    then show ?thesis using False e assms(5)
      by (intro exI [of _ d] exI [of _ "[]"]) (simp add: tiles_def word_le_nat_alt)
  next
    case True
    define ends where "ends = RadioModel_PhyStats rm (dRmem d)"
    define w1 where "w1 = ?w\<lparr>twPhyStats := calcPhyStatsDiff (twStatsWinStart ?w) ends\<rparr>"
    define info where "info = \<lparr>tiWinStartUs = twWinStartUs ?w, tiWinWidthUs = W, tiPhyTxBytes = (\<lambda>i. map_option TxBytes (twPhyStats w1 i)),
      tiChanSampleCount = (\<lambda>i. map_option ChanSampleCount (twPhyStats w1 i)), tiNodePhyStats = twPhyStats w1\<rparr>"
    define d1 where "d1 = (emit (VisUpdateTimeWindowStats info) (d\<lparr>dTimeWinStats := w1\<rparr>))
      \<lparr>dTimeWinStats := w1\<lparr>twStatsWinStart := ends, twWinStartUs := twWinStartUs ?w + W\<rparr>\<rparr>"
    have upd: "updateTimeWindowStats d = emptyWindows ?C d1"
      using True e assms(1,6) by (simp add: updateTimeWindowStats_def closeWindow_def Let_def word_less_nat_alt visSendTimeWindowStats_def emit_def
        d1_def info_def w1_def ends_def)
    define k where "k = (?C - (?S + ?W) - 1) div ?W"
    have k: "k * ?W \<le> ?C - (?S + ?W) - 1" "?C - (?S + ?W) - 1 < (k + 1) * ?W"
      unfolding k_def using b(3) by (simp_all add: dividend_less_div_times add.commute)
    have f1: "dCurTime d1 = dCurTime d" "twWinWidthUs (dTimeWinStats d1) = W" "unat (twWinStartUs (dTimeWinStats d1)) = ?S + ?W"
        "dOut d1 = dOut d @ [VisUpdateTimeWindowStats info]"
      using e assms(6) by (simp_all add: d1_def w1_def emit_def)
    have "k \<le> k * ?W" using b(3) by simp
    then have kC: "k \<le> ?C" using k(1) by linarith
    have bounds: "?C \<le> (?S + ?W) + (k + 1) * ?W" "(?S + ?W) + k * ?W < ?C" using k True by linarith+
    have "(?S + ?W) + (k + 1) * ?W < 2 ^ 64" using bounds(2) b(1,2) by simp
    with emptyWindows_result [OF kC, of W d1 "?S + ?W"] bounds f1 obtain d' infos where
      r: "emptyWindows ?C d1 = Inr d'" "dOut d' = dOut d1 @ map VisUpdateTimeWindowStats infos" "length infos = k" "tiles (?S + ?W) W infos"
        "list_all quiet infos" "unat (twWinStartUs (dTimeWinStats d')) = (?S + ?W) + k * ?W" by auto
    have "unat (twWinStartUs (dTimeWinStats d') + W) = (?S + ?W) + k * ?W + ?W" using r(6) bounds(2) b(1,2) by (simp add: unat_add_less)
    then have "twWinStartUs (dTimeWinStats d') \<le> dCurTime d" "dCurTime d \<le> twWinStartUs (dTimeWinStats d') + W"
      using r(6) bounds by (simp_all add: word_le_nat_alt)
    moreover have "tiles ?S W (info # infos)" using r(4) by (simp add: tiles_Cons info_def)
    ultimately show ?thesis using r upd f1(4)
      by (intro exI [of _ d'] exI [of _ "info # infos"]) (simp add: info_def w1_def ends_def)
  qed
qed

theorem updateTimeWindowStats_tiles_witness:
  "\<exists>d d' infos. dCurTime d = 3500000 \<and> updateTimeWindowStats d = Inr d' \<and> dOut d' = dOut d @ map VisUpdateTimeWindowStats infos \<and>
     tiles 0 1000000 infos \<and> unat (twWinStartUs (dTimeWinStats d')) = length infos * 1000000 \<and> twWinStartUs (dTimeWinStats d') \<le> dCurTime d"
proof -
  obtain d0 rm where d0: "NewDispatcher None exampleOpenPcap exampleMem DefaultConfig = Inr d0" "NewRadioModel 7 ''Ideal'' = Some rm"
    using exampleStart by auto
  let ?d = "d0\<lparr>dCurTime := 3500000, dRadioModel := Some rm, dTimeWinStats := defaultTimeWindowStats\<rparr>"
  have w: "twWinStartUs (dTimeWinStats ?d) = 0" "twWinWidthUs (dTimeWinStats ?d) = 1000000" by (simp_all add: defaultTimeWindowStats_def)
  obtain d' infos where "updateTimeWindowStats ?d = Inr d'" "dOut d' = dOut ?d @ map VisUpdateTimeWindowStats infos" "tiles 0 1000000 infos"
      "unat (twWinStartUs (dTimeWinStats d')) = length infos * 1000000" "twWinStartUs (dTimeWinStats d') \<le> dCurTime ?d"
    using updateTimeWindowStats_tiles [of ?d rm 1000000] w by auto
  moreover have "dCurTime ?d = 3500000" by simp
  ultimately show ?thesis by blast
qed

end
