(* ===== verification/Dispatcher_Run.thy ===== *)
theory Dispatcher_Run
  imports Dispatcher_Events
begin

text \<open>
  The loops that run the simulation (\<^verbatim>\<open>src/dispatcher/dispatcher.go\<close>): processing all events of one instant, in
  virtual and in real time, and simulating for a duration.

  A loop that may not end takes fuel: its result is \<open>None\<close> when the fuel is used up, and otherwise \<open>Some r\<close>, where \<open>r\<close> is a
  panic or the value that is returned.
\<close>

section \<open>Results of loops with fuel\<close>

definition bindo :: "'a res option \<Rightarrow> ('a \<Rightarrow> 'b res option) \<Rightarrow> 'b res option" where
  "bindo r f = (case r of None \<Rightarrow> None | Some (Inl e) \<Rightarrow> Some (Inl e) | Some (Inr x) \<Rightarrow> f x)"

lemma bindo_simps [simp]:
  "bindo None f = None" "bindo (Some (Inl e)) f = Some (Inl e)" "bindo (Some (Inr x)) f = f x"
  by (simp_all add: bindo_def)

lemma bindo_eq_None: "bindo r f = None \<longleftrightarrow> r = None \<or> (\<exists>x. r = Some (Inr x) \<and> f x = None)"
  by (auto simp: bindo_def split: option.splits sum.splits)

lemma bindo_eq_Inr: "bindo r f = Some (Inr y) \<longleftrightarrow> (\<exists>x. r = Some (Inr x) \<and> f x = Some (Inr y))"
  by (auto simp: bindo_def split: option.splits sum.splits)

text \<open>A loop with fuel: \<open>stop\<close> says whether it ends here, and with what, and \<open>step\<close> is its body. More fuel does not change a result,
  and a body that does not change the state never ends. With a measure that the body decreases, enough fuel gives a result.\<close>

locale fuel_loop =
  fixes loop :: "nat \<Rightarrow> 's \<Rightarrow> 'r res option"
    and stop :: "'s \<Rightarrow> 'r option res"
    and step :: "'s \<Rightarrow> 's res"
  assumes loop_panic: "stop s = Inl p \<Longrightarrow> loop n s = Some (Inl p)"
    and loop_stop: "stop s = Inr (Some r) \<Longrightarrow> loop n s = Some (Inr r)"
    and loop_step: "stop s = Inr None \<Longrightarrow> loop n s = (case n of 0 \<Rightarrow> None | Suc m \<Rightarrow> bindo (Some (step s)) (loop m))"
begin

lemma loop_stuck: "stop s = Inr None \<Longrightarrow> step s = Inr s \<Longrightarrow> loop n s = None"
  by (induction n) (simp_all add: loop_step)

lemma loop_mono: "loop n s = Some r \<Longrightarrow> n \<le> m \<Longrightarrow> loop m s = Some r"
proof (induction n arbitrary: s m)
  case 0
  show ?case
  proof (cases "stop s")
    case (Inr x)
    with 0 show ?thesis by (cases x) (simp_all add: loop_stop loop_step)
  qed (use 0 in \<open>simp add: loop_panic\<close>)
next
  case (Suc n)
  then obtain k where m: "m = Suc k" "n \<le> k" by (cases m) auto
  show ?case
  proof (cases "stop s")
    case (Inr x)
    with Suc.prems Suc.IH [of _ k] m show ?thesis
      by (cases x; cases "step s") (auto simp: loop_stop loop_step)
  qed (use Suc.prems in \<open>simp add: loop_panic\<close>)
qed

end

locale measured_loop = fuel_loop loop stop step
  for loop :: "nat \<Rightarrow> 's \<Rightarrow> 'r res option" and stop :: "'s \<Rightarrow> 'r option res" and step :: "'s \<Rightarrow> 's res" +
  fixes inv :: "'s \<Rightarrow> bool"
    and pot :: "'s \<Rightarrow> nat"
  assumes step_decreases: "inv s \<Longrightarrow> stop s = Inr None \<Longrightarrow> step s = Inr s' \<Longrightarrow> inv s' \<and> pot s' < pot s"
begin

lemma loop_returns: "inv s \<Longrightarrow> pot s < n \<Longrightarrow> loop n s \<noteq> None"
proof (induction n arbitrary: s)
  case (Suc n)
  show ?case
  proof (cases "stop s")
    case (Inr x)
    with Suc.prems Suc.IH step_decreases [OF Suc.prems(1)] show ?thesis
      by (cases x; cases "step s") (fastforce simp: loop_stop loop_step)+
  qed (simp add: loop_panic)
qed simp

lemma loop_inv: "inv s \<Longrightarrow> loop n s = Some (Inr r) \<Longrightarrow> \<exists>s'. inv s' \<and> stop s' = Inr (Some r)"
proof (induction n arbitrary: s)
  case 0
  then show ?case
    by (cases "stop s"; cases "projr (stop s)") (auto simp: loop_panic loop_stop loop_step)
next
  case (Suc n)
  show ?case
  proof (cases "stop s")
    case (Inr x)
    with Suc.prems Suc.IH step_decreases [OF Suc.prems(1)] show ?thesis
      by (cases x; cases "step s") (auto simp: loop_stop loop_step)
  qed (use Suc.prems in \<open>simp add: loop_panic\<close>)
qed

end

section \<open>The events of one instant\<close>

definition nextTimes :: "Dispatcher \<Rightarrow> (u64 \<times> u64) res" where
  "nextTimes d = bindr (alarmMgr_NextTimestamp (dAlarmMgr d)) (\<lambda>nextAlarmTime.
     Inr (nextAlarmTime, sendQueue_NextTimestamp (dEventQueue d)))"

definition processOne :: "Env \<Rightarrow> u64 \<Rightarrow> u64 \<Rightarrow> Dispatcher \<Rightarrow> Dispatcher res" where
  "processOne env nextAlarmTime nextSendTime d =
    (if nextAlarmTime \<le> nextSendTime then
       bindr (alarmMgr_NextAlarm (dAlarmMgr d)) (\<lambda>a. case a of
           None \<Rightarrow> Inl AssertFailed
         | Some nextAlarm \<Rightarrow>
            if dNodes d (aeNodeId nextAlarm) \<noteq> None
            then advanceNodeTime env (aeNodeId nextAlarm) (aeTimestamp nextAlarm) False d
            else Inr d)
     else
       bindr (sendQueue_PopNext (dEventQueue d)) (\<lambda>(q, evt).
         assertr (evTimestamp evt = min nextAlarmTime nextSendTime)
        (assertr (nextAlarmTime = dCurTime d \<or> nextSendTime = dCurTime d)
           (processEvent env evt (d\<lparr>dEventQueue := q\<rparr>)))))"

fun processLoop :: "Env \<Rightarrow> nat \<Rightarrow> u64 \<Rightarrow> Dispatcher \<Rightarrow> (Dispatcher \<times> u64) res option" where
  "processLoop env fuel procUntilTime d =
     bindo (Some (nextTimes d)) (\<lambda>(nextAlarmTime, nextSendTime).
       let nextEventTime = min nextAlarmTime nextSendTime in
       if nextEventTime \<le> procUntilTime then
         (case fuel of
            0 \<Rightarrow> None
          | Suc fuel1 \<Rightarrow> bindo (Some (processOne env nextAlarmTime nextSendTime d)) (processLoop env fuel1 procUntilTime))
       else Some (Inr (d, nextEventTime)))"

declare processLoop.simps [simp del]

text \<open>The sleeps, which keep the simulation at its speed, are not modelled: \<open>envElapsed\<close> is what the clock shows afterwards.\<close>

definition processNextEvents :: "Env \<Rightarrow> nat \<Rightarrow> real \<Rightarrow> Dispatcher \<Rightarrow> (bool \<times> Dispatcher) res option" where
  "processNextEvents env fuel simSpeed d =
     bindo (Some (assertr (dCurTime d \<le> dPauseTime d) (assertr (simSpeed \<ge> 0) (nextTimes d)))) (\<lambda>(nextAlarmTime, nextSendTime).
     if \<not> (nextSendTime \<ge> dCurTime d \<and> nextAlarmTime \<ge> dCurTime d) then Some (Inl AssertFailed)
     else
     let nextEventTime = min nextAlarmTime nextSendTime;
         curTime = dSpeedStartTime d + of_int \<lfloor>of_int (envElapsed env (dDraws d)) * simSpeed\<rfloor> in
     if curTime < nextEventTime \<and> nextEventTime \<le> dPauseTime d \<or> curTime < dPauseTime d \<and> nextEventTime > dPauseTime d then
       Some (bindr (advanceTime env curTime (draw d)) (\<lambda>d1. Inr (True, d1)))
     else if nextEventTime > dPauseTime d then Some (Inr (False, draw d))
     else
       bindo (Some (advanceTime env nextEventTime (draw d))) (\<lambda>d1.
       bindo (processLoop env fuel nextEventTime d1) (\<lambda>(d2, next).
         Some (Inr (next \<le> dPauseTime d2, d2)))))"

definition processOneRealtime :: "Env \<Rightarrow> u64 \<Rightarrow> u64 \<Rightarrow> Dispatcher \<Rightarrow> Dispatcher res" where
  "processOneRealtime env nextAlarmTime nextSendTime d =
    (if nextAlarmTime \<le> nextSendTime then
       bindr (alarmMgr_NextAlarm (dAlarmMgr d)) (\<lambda>a. case a of
           None \<Rightarrow> Inl AssertFailed
         | Some nextAlarm \<Rightarrow>
            if dNodes d (aeNodeId nextAlarm) \<noteq> None
            then advanceNodeTime env (aeNodeId nextAlarm) nextAlarmTime False d
            else bindr (alarmMgr_SetNotified (dAlarmMgr d) (aeNodeId nextAlarm)) (\<lambda>am. Inr (d\<lparr>dAlarmMgr := am\<rparr>)))
     else
       bindr (sendQueue_PopNext (dEventQueue d)) (\<lambda>(q, evt).
         assertr (evTimestamp evt = min nextAlarmTime nextSendTime)
        (assertr (nextAlarmTime \<le> dCurTime d \<or> nextSendTime \<le> dCurTime d)
           (processEvent env evt (d\<lparr>dEventQueue := q\<rparr>)))))"

fun processLoopRealtime :: "Env \<Rightarrow> nat \<Rightarrow> u64 \<Rightarrow> Dispatcher \<Rightarrow> (Dispatcher \<times> u64) res option" where
  "processLoopRealtime env fuel procUntilTime d =
     bindo (Some (nextTimes d)) (\<lambda>(nextAlarmTime, nextSendTime).
       let nextEventTime = min nextAlarmTime nextSendTime in
       if nextEventTime \<le> procUntilTime then
         (case fuel of
            0 \<Rightarrow> None
          | Suc fuel1 \<Rightarrow> bindo (Some (processOneRealtime env nextAlarmTime nextSendTime d)) (processLoopRealtime env fuel1 procUntilTime))
       else Some (Inr (d, nextEventTime)))"

declare processLoopRealtime.simps [simp del]

abbreviation RealtimeMaxMoveAheadUs :: u64 where "RealtimeMaxMoveAheadUs \<equiv> 100"

definition processNextEventsRealtime :: "Env \<Rightarrow> nat \<Rightarrow> u64 \<Rightarrow> Dispatcher \<Rightarrow> (u64 \<times> Dispatcher) res option" where
  "processNextEventsRealtime env fuel simTime d =
     bindo (Some (nextTimes d)) (\<lambda>(nextAlarmTime, nextSendTime).
       let nextEventTime = min nextAlarmTime nextSendTime in
       if \<not> nextEventTime \<ge> dCurTime d then Some (Inl AssertFailed)
       else if nextEventTime > simTime + RealtimeMaxMoveAheadUs then
         Some (bindr (advanceTime env simTime d) (\<lambda>d1. Inr (nextEventTime, d1)))
       else
         bindo (Some (if nextEventTime > dCurTime d then advanceTime env nextEventTime d else Inr d)) (\<lambda>d1.
         bindo (processLoopRealtime env fuel nextEventTime d1) (\<lambda>(d2, next). Some (Inr (next, d2)))))"

section \<open>Simulating for a duration\<close>

text \<open>What happens outside the dispatcher in one round of the loop: whether the program is being stopped, the events that nodes
  send, and the effect of the tasks that others have posted.\<close>

record Round =
  rdStopping :: bool
  rdEvents :: "Event list"
  rdStopping2 :: bool
  rdTasks :: "Dispatcher \<Rightarrow> Dispatcher"

text \<open>The loop of \<open>goSimulateForDuration\<close>; it has not returned when the rounds are used up.\<close>

fun goLoop :: "Env \<Rightarrow> newNodeCallback \<Rightarrow> nat \<Rightarrow> Round list \<Rightarrow> Dispatcher \<Rightarrow> Dispatcher res option" where
  "goLoop env onNew fuel rounds d =
    (if dCurTime d \<le> dPauseTime d then
       (case rounds of
          [] \<Rightarrow> None
        | r # rest \<Rightarrow>
           if dCancel d \<or> rdStopping r then Some (Inr d)
           else
             bindo (Some (RecvEvents env onNew (rdEvents r) d)) (\<lambda>(d1, _).
             bindo (Some (syncAliveNodes env (rdStopping2 r) d1)) (\<lambda>d2.
             let d3 = rdTasks r d2 in
             if dAliveNodes d3 = {} then
               bindo (processNextEvents env fuel (dSpeed d3) d3) (\<lambda>(goon, d4).
               if \<not> dCurTime d4 \<le> dPauseTime d4 then Some (Inl AssertFailed)
               else if \<not> goon \<and> dAliveNodes d4 = {} then Some (advanceTime env (dPauseTime d4) d4)
               else goLoop env onNew fuel rest d4)
             else goLoop env onNew fuel rest d3)))
     else Some (Inr d))"

declare goLoop.simps [simp del]

text \<open>The duration is in microseconds; \<open>None\<close> is the speed \<^verbatim>\<open>DefaultDispatcherSpeed\<close>.\<close>

definition goSimulateForDuration ::
    "Env \<Rightarrow> newNodeCallback \<Rightarrow> nat \<Rightarrow> Round list \<Rightarrow> u64 \<Rightarrow> real option \<Rightarrow> Dispatcher \<Rightarrow> Dispatcher res option" where
  "goSimulateForDuration env onNew fuel rounds duration speed d =
    (let d1 = d\<lparr>dSpeedStartTime := dCurTime d\<rparr>;
         postSpeed = dSpeed d1;
         d2 = (case speed of Some s \<Rightarrow> SetSpeed s d1 | None \<Rightarrow> d1);
         pause = dCurTime d2 + duration;
         d3 = d2\<lparr>dPauseTime := (if pause > Ever then Ever else pause)\<rparr> in
     if \<not> dCurTime d3 \<le> dPauseTime d3 then Some (Inl AssertFailed)
     else bindo (goLoop env onNew fuel rounds d3) (\<lambda>d4.
       let d5 = (case speed of Some s \<Rightarrow> SetSpeed postSpeed d4 | None \<Rightarrow> d4) in
       Some (Inr (if dPauseTime d5 > dCurTime d5 then d5\<lparr>dPauseTime := dCurTime d5\<rparr> else d5))))"

text \<open>Both loops over the events of an instant are loops in this sense.\<close>

definition instant_done :: "u64 \<Rightarrow> Dispatcher \<Rightarrow> (Dispatcher \<times> u64) option res" where
  "instant_done procUntilTime d = bindr (nextTimes d) (\<lambda>(nextAlarmTime, nextSendTime).
     Inr (if min nextAlarmTime nextSendTime \<le> procUntilTime then None else Some (d, min nextAlarmTime nextSendTime)))"

definition instant_step :: "(u64 \<Rightarrow> u64 \<Rightarrow> Dispatcher \<Rightarrow> Dispatcher res) \<Rightarrow> Dispatcher \<Rightarrow> Dispatcher res" where
  "instant_step body d = bindr (nextTimes d) (\<lambda>(nextAlarmTime, nextSendTime). body nextAlarmTime nextSendTime d)"

interpretation vloop: fuel_loop "\<lambda>n. processLoop env n T" "instant_done T" "instant_step (processOne env)" for env T
  by unfold_locales (auto simp: instant_done_def instant_step_def processLoop.simps res_simps bindr_eq_Inl_iff Let_def split: nat.splits if_splits)

interpretation rloop: fuel_loop "\<lambda>n. processLoopRealtime env n T" "instant_done T" "instant_step (processOneRealtime env)" for env T
  by unfold_locales (auto simp: instant_done_def instant_step_def processLoopRealtime.simps res_simps bindr_eq_Inl_iff Let_def split: nat.splits if_splits)

end
