(* ===== verification/Dispatcher_Progress.thy ===== *)
theory Dispatcher_Progress
  imports Dispatcher_Run Dispatcher_Laws
begin

text \<open>
  The loop that processes the events of one instant (\<^verbatim>\<open>processNextEvents\<close>) ends. Processing an event can put further events of
  the same instant on the queue, so the proof uses a potential: the weighted number of events that are due, the nodes
  whose clock is behind, and the alarms that are due. Each step decreases it, provided the alarm of a node is later
  than its clock, which nodes guarantee by never asking for a delay of 0. Without this the loop runs forever.
\<close>

section \<open>The potential\<close>

definition clock :: "Dispatcher \<Rightarrow> NodeId \<rightharpoonup> u64" where
  "clock d = (\<lambda>i. map_option dnCurTime (dNodes d i))"

abbreviation alarms :: "Dispatcher \<Rightarrow> NodeId \<rightharpoonup> u64" where
  "alarms d \<equiv> am_abs (dAlarmMgr d)"

text \<open>The weight of an event: one more than the weights of the events that processing it can add; \<open>N\<close> bounds the number of
  nodes to which a frame is dispatched.\<close>

definition weight :: "nat \<Rightarrow> Event \<Rightarrow> nat" where
  "weight N e =
    (if evMustDispatch e then N + 2
     else if evType e = EventTypeRadioCommStart then 3 * (N + 2) + 2
     else if evType e = EventTypeRadioTxDone then 2 * (N + 2) + 1
     else if evType e = EventTypeRadioChannelSample then N + 3
     else if evType e = EventTypeRadioState then 2
     else 1)"

definition due_weight :: "nat \<Rightarrow> u64 \<Rightarrow> Event \<Rightarrow> nat" where
  "due_weight N T e = (if evTimestamp e \<le> T then weight N e else 0)"

definition pot :: "nat \<Rightarrow> Dispatcher \<Rightarrow> nat" where
  "pot N d = (\<Sum>e \<in># mset (dEventQueue d). due_weight N (dCurTime d) e) +
     2 * card {i. \<exists>t. clock d i = Some t \<and> t < dCurTime d} + card {i. \<exists>t. alarms d i = Some t \<and> t \<le> dCurTime d}"

definition live :: "nat \<Rightarrow> Dispatcher \<Rightarrow> bool" where
  "live N d \<longleftrightarrow> am_inv (dAlarmMgr d) \<and> sq_inv (dEventQueue d) \<and> dom (alarms d) = dom (clock d) \<and> finite (dom (clock d)) \<and>
     length (dNodesArray d) \<le> N \<and> (\<forall>r. length (dRloc16Map d r) \<le> N) \<and> dCurTime d < Ever \<and>
     (\<forall>i t. clock d i = Some t \<longrightarrow> t \<le> dCurTime d) \<and>
     (\<forall>i t a. clock d i = Some t \<longrightarrow> alarms d i = Some a \<longrightarrow> a \<le> dCurTime d \<longrightarrow> t < a)"

text \<open>\<open>reach N k d d'\<close>: an operation led from \<open>d\<close> to \<open>d'\<close> and increased the potential by at most \<open>k\<close>.\<close>

definition reach :: "nat \<Rightarrow> nat \<Rightarrow> Dispatcher \<Rightarrow> Dispatcher \<Rightarrow> bool" where
  "reach N k d d' \<longleftrightarrow> live N d' \<and> dCurTime d' = dCurTime d \<and> dNodesArray d' = dNodesArray d \<and> dRloc16Map d' = dRloc16Map d \<and>
     dom (clock d') = dom (clock d) \<and> pot N d' \<le> pot N d + k"

text \<open>What the potential depends on.\<close>

definition view :: "Dispatcher \<Rightarrow> u64 \<times> alarmMgr \<times> sendQueue \<times> (NodeId \<rightharpoonup> u64) \<times> NodeId list \<times> rloc16Map" where
  "view d = (dCurTime d, dAlarmMgr d, dEventQueue d, clock d, dNodesArray d, dRloc16Map d)"

lemma view_reach: "view d' = view d \<Longrightarrow> live N d \<Longrightarrow> reach N 0 d d'"
  by (simp add: view_def reach_def live_def pot_def)

lemma reach_refl: "live N d \<Longrightarrow> reach N k d d"
  by (simp add: reach_def)

lemma reach_trans: "reach N k d d1 \<Longrightarrow> reach N l d1 d2 \<Longrightarrow> reach N (k + l) d d2"
  by (simp add: reach_def)

lemma reach_mono: "reach N k d d' \<Longrightarrow> k \<le> l \<Longrightarrow> reach N l d d'"
  by (simp add: reach_def)

lemma reach_live: "reach N k d d' \<Longrightarrow> live N d'"
  by (simp add: reach_def)

lemma view_emit [simp]: "view (emit out d) = view d"
  by (simp add: view_def emit_def clock_def)

lemma view_draw [simp]: "view (draw d) = view d"
  by (simp add: view_def draw_def clock_def)

lemma view_set_node: "dNodes d i = Some n \<Longrightarrow> dnCurTime n' = dnCurTime n \<Longrightarrow> view (set_node i n' d) = view d"
  by (auto simp: view_def set_node_def clock_def fun_eq_iff)

lemma view_fields [simp]:
  "view (d\<lparr>dCounters := c\<rparr>) = view d" "view (d\<lparr>dAliveNodes := A\<rparr>) = view d" "view (d\<lparr>dRadioModel := rm\<rparr>) = view d"
  "view (d\<lparr>dRmem := m\<rparr>) = view d" "view (d\<lparr>dEnergyAnalyser := e\<rparr>) = view d"
  by (simp_all add: view_def clock_def)

lemma emit_fields [simp]:
  "dNodes (emit out d) = dNodes d" "dCurTime (emit out d) = dCurTime d" "dEventQueue (emit out d) = dEventQueue d"
  "dAlarmMgr (emit out d) = dAlarmMgr d" "dNodesArray (emit out d) = dNodesArray d" "dRadioModel (emit out d) = dRadioModel d"
  "dCfg (emit out d) = dCfg d"
  by (simp_all add: emit_def)

lemma draw_fields [simp]:
  "dNodes (draw d) = dNodes d" "dCurTime (draw d) = dCurTime d" "dEventQueue (draw d) = dEventQueue d"
  "dAlarmMgr (draw d) = dAlarmMgr d" "dNodesArray (draw d) = dNodesArray d" "dRadioModel (draw d) = dRadioModel d"
  by (simp_all add: draw_def)

lemma set_node_fields [simp]:
  "dNodes (set_node i n d) = (dNodes d)(i \<mapsto> n)" "dCurTime (set_node i n d) = dCurTime d"
  "dEventQueue (set_node i n d) = dEventQueue d" "dAlarmMgr (set_node i n d) = dAlarmMgr d"
  by (simp_all add: set_node_def)

section \<open>Queue and alarms\<close>

lemma add_event_reach:
  assumes "live N d" "sendQueue_Add (dEventQueue d) e = Inr q"
  shows "reach N (due_weight N (dCurTime d) e) d (d\<lparr>dEventQueue := q\<rparr>)"
proof -
  have "sq_inv (dEventQueue d)" using assms(1) by (simp add: live_def)
  with sq.add_law [of "dEventQueue d" e] assms(2) have "sq_inv q" "mset q = add_mset e (mset (dEventQueue d))" by auto
  with assms(1) show ?thesis by (simp add: reach_def live_def pot_def clock_def)
qed

lemma addEvents_reach:
  "live N d \<Longrightarrow> addEvents evs (dEventQueue d) = Inr q \<Longrightarrow> reach N (sum_list (map (weight N) evs)) d (d\<lparr>dEventQueue := q\<rparr>)"
proof (induction evs arbitrary: d)
  case Nil
  then show ?case by (auto simp: addEvents_def view_def clock_def intro: view_reach)
next
  case (Cons e evs)
  then obtain q1 where q1: "sendQueue_Add (dEventQueue d) e = Inr q1" "addEvents evs q1 = Inr q"
    by (auto simp: addEvents_def res_simps)
  let ?d1 = "d\<lparr>dEventQueue := q1\<rparr>"
  have 1: "reach N (weight N e) d ?d1"
    using add_event_reach [OF Cons.prems(1) q1(1)] by (rule reach_mono) (simp add: due_weight_def)
  have "reach N (sum_list (map (weight N) evs)) ?d1 (?d1\<lparr>dEventQueue := q\<rparr>)"
    using Cons.IH [of ?d1] reach_live [OF 1] q1(2) by simp
  from reach_trans [OF 1 this] show ?case by simp
qed

lemma SetNotified_alarms:
  assumes "live N d" "alarmMgr_SetNotified (dAlarmMgr d) i = Inr am"
  shows "am_inv am \<and> am_abs am = (alarms d)(i \<mapsto> Ever) \<and> i \<in> dom (clock d)"
proof -
  have inv: "am_inv (dAlarmMgr d)" using assms(1) by (simp add: live_def)
  have known: "alarms d i \<noteq> None"
    using ops_unknown_node(1) [of "dAlarmMgr d" i Ever] assms(2) by (cases "alarms d i") (auto simp: alarmMgr_SetNotified_def)
  from SetTimestamp_refines [OF inv known, of Ever] assms(2) have "am_inv am \<and> am_abs am = (alarms d)(i \<mapsto> Ever)"
    by (auto simp: alarmMgr_SetNotified_def)
  with known assms(1) show ?thesis by (auto simp: live_def)
qed

text \<open>The contribution of one node to the potential.\<close>

definition node_due :: "NodeId \<Rightarrow> Dispatcher \<Rightarrow> nat" where
  "node_due i d = (if \<exists>a. alarms d i = Some a \<and> a \<le> dCurTime d then 1 else 0)"

definition node_behind :: "NodeId \<Rightarrow> Dispatcher \<Rightarrow> nat" where
  "node_behind i d = (if \<exists>t. clock d i = Some t \<and> t < dCurTime d then 2 else 0)"

lemma card_remove: "finite A \<Longrightarrow> card (A - {x}) + (if x \<in> A then 1 else 0) = card A"
  using card.remove [of A x] by (cases "x \<in> A") auto

lemma live_finite:
  assumes "live N d"
  shows "finite {i. \<exists>t. clock d i = Some t \<and> t < dCurTime d}" "finite {i. \<exists>a. alarms d i = Some a \<and> a \<le> dCurTime d}"
  using assms unfolding live_def
  by (auto intro: finite_subset [of _ "dom (clock d)"] finite_subset [of _ "dom (alarms d)"])

lemma notified_pot:
  assumes "live N d" "am_abs am = (alarms d)(i \<mapsto> Ever)"
  shows "pot N (d\<lparr>dAlarmMgr := am\<rparr>) + node_due i d = pot N d"
proof -
  let ?A = "{j. \<exists>a. alarms d j = Some a \<and> a \<le> dCurTime d}"
  have "\<not> Ever \<le> dCurTime d" using assms(1) by (auto simp: live_def not_le)
  then have "{j. \<exists>a. am_abs am j = Some a \<and> a \<le> dCurTime d} = ?A - {i}"
    by (auto simp: assms(2))
  then show ?thesis
    using card_remove [OF live_finite(2) [OF assms(1)], of i] by (simp add: pot_def node_due_def clock_def)
qed

lemma advanced_pot:
  assumes "live N d" "clock d' = (clock d)(i \<mapsto> dCurTime d)" "dEventQueue d' = dEventQueue d" "dCurTime d' = dCurTime d"
    "dAlarmMgr d' = dAlarmMgr d"
  shows "pot N d' + node_behind i d = pot N d"
proof -
  let ?A = "{j. \<exists>t. clock d j = Some t \<and> t < dCurTime d}"
  have "{j. \<exists>t. clock d' j = Some t \<and> t < dCurTime d} = ?A - {i}"
    by (auto simp: assms(2))
  then show ?thesis
    using card_remove [OF live_finite(1) [OF assms(1)], of i] by (auto simp: pot_def node_behind_def assms)
qed

lemma SetNotified_reach:
  assumes "live N d" "alarmMgr_SetNotified (dAlarmMgr d) i = Inr am"
  shows "reach N 0 d (d\<lparr>dAlarmMgr := am\<rparr>) \<and> pot N (d\<lparr>dAlarmMgr := am\<rparr>) + node_due i d \<le> pot N d"
proof -
  have am: "am_inv am" "am_abs am = (alarms d)(i \<mapsto> Ever)" "i \<in> dom (clock d)"
    using SetNotified_alarms [OF assms] by auto
  have e: "clock (d\<lparr>dAlarmMgr := am\<rparr>) = clock d" by (simp add: clock_def)
  have "\<not> Ever \<le> dCurTime d" using assms(1) by (auto simp: live_def not_le)
  then have "live N (d\<lparr>dAlarmMgr := am\<rparr>)"
    using assms(1) am unfolding live_def by (auto simp: e)
  then show ?thesis using notified_pot [OF assms(1) am(2)] by (auto simp: reach_def e)
qed

section \<open>Sending an event\<close>

lemma Node_Fail_view: "Node_Fail i d = Inr d' \<Longrightarrow> view d' = view d"
  by (auto simp: Node_Fail_def res_simps view_set_node split: if_splits)

lemma Node_Recover_view: "Node_Recover i d = Inr d' \<Longrightarrow> view d' = view d"
  by (auto simp: Node_Recover_def res_simps view_set_node split: if_splits)

lemma apply_failure_view: "apply_failure i fc failed d = Inr d' \<Longrightarrow> view d' = view d"
  by (auto simp: apply_failure_def res_simps view_set_node Let_def dest!: Node_Fail_view Node_Recover_view split: if_splits)

lemma setAlive_view: "setAlive i d = Inr d' \<Longrightarrow> view d' = view d"
  by (auto simp: setAlive_def split: option.splits if_splits)

lemma DisconnectSocket_view: "DisconnectSocket i d = Inr d' \<Longrightarrow> view d' = view d"
  by (auto simp: DisconnectSocket_def res_simps view_set_node Let_def split: option.splits)

lemma deliverEvent_view: "deliverEvent env i e d = Inr d' \<Longrightarrow> view d' = view d"
  by (auto simp: deliverEvent_def sendRawData_def res_simps view_set_node split: option.splits dest!: setAlive_view DisconnectSocket_view)

lemma reEvaluateFailure_reach:
  assumes "live N d" "reEvaluateFailure env i old d = Inr d'"
  shows "reach N 1 d d'"
proof -
  from assms(2) obtain fc failed ts d1 where
    d1: "apply_failure i fc failed (draw d) = Inr d1" and
    d': "d' = d1 \<or> (\<exists>q. sendQueue_Add (dEventQueue d1) (wakeEvent i ts) = Inr q \<and> d' = d1\<lparr>dEventQueue := q\<rparr>)"
    by (fastforce simp: reEvaluateFailure_def res_simps split: if_splits)
  have r1: "reach N 0 d d1" using view_reach [OF _ assms(1)] apply_failure_view [OF d1] by simp
  show ?thesis
  proof (cases "d' = d1")
    case False
    then obtain q where q: "sendQueue_Add (dEventQueue d1) (wakeEvent i ts) = Inr q" "d' = d1\<lparr>dEventQueue := q\<rparr>" using d' by auto
    have "due_weight N (dCurTime d1) (wakeEvent i ts) \<le> 1"
      by (simp add: due_weight_def weight_def wakeEvent_def zeroEvent_def)
    with reach_trans [OF r1 add_event_reach [OF reach_live [OF r1] q(1)]] show ?thesis
      unfolding q(2) by (auto intro: reach_mono)
  next
    case True
    with r1 show ?thesis by (auto intro: reach_mono)
  qed
qed

lemma sendEvent_reach:
  assumes "live N d" "sendEvent env i e d = Inr d'"
  shows "reach N 0 d d' \<and> pot N d' + node_due i d \<le> pot N d"
proof -
  obtain node where n: "dNodes d i = Some node" using assms(2) by (cases "dNodes d i") (simp_all add: sendEvent_def)
  obtain am where am: "alarmMgr_SetNotified (dAlarmMgr d) i = Inr am" and t: "evTimestamp e = dCurTime d"
    using assms(2) by (auto simp: sendEvent_def res_simps Let_def)
  obtain d2 where d2: "(if dnCurTime node < dCurTime d then reEvaluateFailure env i (dnCurTime node)
        (set_node i (node\<lparr>dnMsgId := dnMsgId node + 1, dnCurTime := dCurTime d\<rparr>) (d\<lparr>dAlarmMgr := am\<rparr>))
      else Inr (set_node i (node\<lparr>dnMsgId := dnMsgId node + 1, dnCurTime := dCurTime d\<rparr>) (d\<lparr>dAlarmMgr := am\<rparr>))) = Inr d2"
    and d': "deliverEvent env i (e\<lparr>evNodeId := i, evMsgId := dnMsgId node + 1, evDelay := dCurTime d - dnCurTime node\<rparr>) d2 = Inr d'"
    using assms(2) unfolding sendEvent_def by (auto simp: n am t Let_def bindr_eq_Inr_iff cong: if_cong)
  define da where "da = d\<lparr>dAlarmMgr := am\<rparr>"
  define d1 where "d1 = set_node i (node\<lparr>dnMsgId := dnMsgId node + 1, dnCurTime := dCurTime d\<rparr>) da"
  have a: "reach N 0 d da" "pot N da + node_due i d \<le> pot N d"
    using SetNotified_reach [OF assms(1) am] by (auto simp: da_def)
  have c: "clock d1 = (clock da)(i \<mapsto> dCurTime da)" by (auto simp: d1_def da_def clock_def set_node_def fun_eq_iff)
  have al: "alarms da i = Some Ever" using SetNotified_alarms [OF assms(1) am] by (simp add: da_def)
  have dom: "i \<in> dom (clock da)" using n by (auto simp: da_def clock_def)
  have p1: "pot N d1 + node_behind i da = pot N da"
    by (rule advanced_pot [OF reach_live [OF a(1)] c]) (auto simp: d1_def set_node_def da_def)
  have "live N da" by (rule reach_live [OF a(1)])
  moreover have "dCurTime da < Ever" using \<open>live N da\<close> by (simp add: live_def)
  ultimately have l1: "live N d1"
    unfolding live_def c using al dom by (auto simp: d1_def set_node_def split: if_splits)
  have f1: "dCurTime d1 = dCurTime d" "dNodesArray d1 = dNodesArray d" "dRloc16Map d1 = dRloc16Map d"
    "dom (clock d1) = dom (clock d)"
    using dom unfolding c by (auto simp: d1_def da_def set_node_def clock_def)
  have r2: "live N d2 \<and> dCurTime d2 = dCurTime d1 \<and> dNodesArray d2 = dNodesArray d1 \<and> dRloc16Map d2 = dRloc16Map d1 \<and>
      dom (clock d2) = dom (clock d1) \<and> pot N d2 \<le> pot N d1 + node_behind i da"
  proof (cases "dCurTime d > dnCurTime node")
    case True
    then have "node_behind i da = 2" using n by (simp add: node_behind_def da_def clock_def)
    moreover have "reach N 1 d1 d2"
      using reEvaluateFailure_reach [OF l1] d2 True by (simp add: d1_def da_def)
    ultimately show ?thesis by (auto simp: reach_def)
  next
    case False
    with d2 l1 show ?thesis by (simp add: d1_def da_def)
  qed
  have "reach N 0 d2 d'" by (rule view_reach [OF deliverEvent_view [OF d']]) (use r2 in simp)
  with r2 p1 a(2) f1 show ?thesis by (simp add: reach_def)
qed

section \<open>The radio model\<close>

lemmas scheduled_events = rxStartEvent_def txDoneInternalEvent_def txDoneDispatchEvent_def rxDoneEvent_def sampleDoneEvent_def
  set_Error_def Event_Copy_def

lemma Ideal_HandleEvent_weight:
  "Ideal_HandleEvent rm mem p e = Inr (rm', mem', evs) \<Longrightarrow> \<not> evMustDispatch e \<Longrightarrow>
    sum_list (map (weight N) evs) + (if evType e = EventTypeRadioState then 1 else 0) < weight N e"
  by (auto simp: Ideal_HandleEvent_def Ideal_txStart_def Ideal_txStop_def Ideal_channelSampleStart_def Let_def res_simps
    weight_def scheduled_events case_prod_beta split: if_splits)

lemma MI_txStart_weight:
  "MI_txStart ord rm mem p e = Inr (rm', mem', evs) \<Longrightarrow> sum_list (map (weight N) evs) \<le> 3 * (N + 2) + 1"
  by (auto simp: MI_txStart_def Let_def res_simps weight_def scheduled_events split: if_splits)

lemma MI_channelSampleStart_weight:
  "MI_channelSampleStart rnd ord rm mem p e = Inr (rm', mem', evs) \<Longrightarrow> sum_list (map (weight N) evs) \<le> N + 2"
  by (auto simp: MI_channelSampleStart_def Let_def res_simps weight_def scheduled_events split: if_splits)

lemma MI_HandleEvent_weight:
  "MI_HandleEvent rnd ord rm mem p e = Inr (rm', mem', evs) \<Longrightarrow> \<not> evMustDispatch e \<Longrightarrow>
    sum_list (map (weight N) evs) + (if evType e = EventTypeRadioState then 1 else 0) < weight N e"
  by (auto simp: MI_HandleEvent_def MI_txStop_def Let_def res_simps scheduled_events weight_def case_prod_beta
    dest!: MI_txStart_weight [where N = N] MI_channelSampleStart_weight [where N = N] split: if_splits)

lemma RadioModel_HandleEvent_weight:
  "RadioModel_HandleEvent rnd ord rm mem p e = Inr (rm', mem', evs) \<Longrightarrow> \<not> evMustDispatch e \<Longrightarrow>
    sum_list (map (weight N) evs) + (if evType e = EventTypeRadioState then 1 else 0) < weight N e"
  by (cases rm) (auto simp: res_simps dest: Ideal_HandleEvent_weight MI_HandleEvent_weight)

lemma MI_log_weight: "MI_log rm ts i msg = Inr evs \<Longrightarrow> sum_list (map (weight N) evs) = 1"
  by (auto simp: MI_log_def weight_def zeroEvent_def split: if_splits)

lemma MI_applyInterference_weight:
  "MI_applyInterference rnd u msg ord rm mem src dst e = Inr (rm', e', evs) \<Longrightarrow> sum_list (map (weight N) evs) \<le> 1"
  by (auto simp: MI_applyInterference_def Let_def res_simps dest!: MI_log_weight [where N = N] split: option.splits if_splits)

lemma RadioModel_OnEventDispatch_weight:
  "RadioModel_OnEventDispatch rnd u msg ord rm mem src dst e = Inr (rm', mem', e', ok, evs) \<Longrightarrow>
    sum_list (map (weight N) evs) \<le> 1"
  by (cases rm) (auto simp: MI_OnEventDispatch_def res_simps Let_def dest!: MI_applyInterference_weight [where N = N]
    split: if_splits prod.splits)

lemma onEventDispatch_reach:
  assumes "live N d" "onEventDispatch env src dst e d = Inr (e', ok, d')"
  shows "reach N 1 d d'"
proof -
  from assms(2) obtain rm rm1 mem1 evs q where
    h: "RadioModel_OnEventDispatch (envRand env) (envUnit env (dDraws d)) (envLog env) (envOrd env) rm (dRmem d) src dst e =
      Inr (rm1, mem1, e', ok, evs)"
    and q: "addEvents evs (dEventQueue d) = Inr q" and d': "d' = draw (d\<lparr>dRadioModel := Some rm1, dRmem := mem1, dEventQueue := q\<rparr>)"
    by (fastforce simp: onEventDispatch_def res_simps)
  have "view d' = view (d\<lparr>dEventQueue := q\<rparr>)" by (simp add: d' view_def draw_def clock_def)
  moreover have r: "reach N 1 d (d\<lparr>dEventQueue := q\<rparr>)"
    using addEvents_reach [OF assms(1) q] RadioModel_OnEventDispatch_weight [OF h] by (rule reach_mono)
  ultimately show ?thesis using reach_trans [OF r view_reach [OF _ reach_live [OF r]], of d'] by simp
qed

section \<open>Dispatching\<close>

lemma advanceNodeTime_reach:
  assumes "live N d" "advanceNodeTime env i ts force d = Inr d'"
  shows "reach N 0 d d'"
  using assms SetNotified_reach [OF assms(1)] sendEvent_reach [OF assms(1)]
  by (fastforce simp: advanceNodeTime_def res_simps intro: reach_refl split: option.splits if_splits)

lemma checkRadioReachable_view: "checkRadioReachable env src dst d = Inr (ok, d') \<Longrightarrow> view d' = view d"
  by (auto simp: checkRadioReachable_def res_simps split: if_splits)

lemma dispatchEvent_reach:
  assumes "live N d" "dispatchEvent env p1 p2 dst e d = Inr d'"
  shows "reach N 1 d d'"
proof -
  from assms(2) obtain e1 ok d1 where d1: "onEventDispatch env p1 p2 e d = Inr (e1, ok, d1)"
    and d': "(if ok then sendEvent env dst e1 d1 else Inr d1) = Inr d'"
    by (auto simp: dispatchEvent_def res_simps)
  have r1: "reach N 1 d d1" by (rule onEventDispatch_reach [OF assms(1) d1])
  show ?thesis
  proof (cases ok)
    case True
    with d' have "reach N 0 d1 d'" using sendEvent_reach [OF reach_live [OF r1]] by auto
    from reach_trans [OF r1 this] show ?thesis by simp
  next
    case False
    with d' r1 show ?thesis by simp
  qed
qed

lemma sendOneRadioFrame_reach:
  assumes "live N d" "sendOneRadioFrame env e src dst d = Inr d'"
  shows "reach N 1 d d'"
proof -
  have r: "reach N 1 d d1" if "view d1 = view d" for d1
    using view_reach [OF that assms(1)] by (rule reach_mono) simp
  have "reach N 1 d d1" if "dispatchEvent env p1 p2 dst e2 d0 = Inr d1" "view d0 = view d" for p1 p2 e2 d0 d1
    using reach_trans [OF view_reach [OF that(2) assms(1)] dispatchEvent_reach [OF _ that(1), of N]] that(2) assms(1)
    by (auto dest: view_reach [THEN reach_live])
  with r assms(2) show ?thesis
    by (auto simp: sendOneRadioFrame_def res_simps Let_def split: if_splits)
qed

lemma sendIfReachable_reach:
  assumes "live N d" "sendIfReachable env e src dst (d, S) = Inr (d', S')"
  shows "reach N 1 d d'"
proof -
  from assms(2) obtain ok d1 where c: "checkRadioReachable env src dst d = Inr (ok, d1)"
    and d': "ok \<and> sendOneRadioFrame env e src dst d1 = Inr d' \<or> \<not> ok \<and> d' = d1"
    by (fastforce simp: sendIfReachable_def res_simps split: if_splits)
  have r1: "reach N 0 d d1" by (rule view_reach [OF checkRadioReachable_view [OF c] assms(1)])
  show ?thesis
  proof (cases ok)
    case True
    with d' have "sendOneRadioFrame env e src dst d1 = Inr d'" by simp
    from reach_trans [OF r1 sendOneRadioFrame_reach [OF reach_live [OF r1] this]] show ?thesis by simp
  next
    case False
    with d' r1 show ?thesis by (auto intro: reach_mono)
  qed
qed

lemma sendToAll_reach_aux:
  "live N d \<Longrightarrow> foldr_res (sendIfReachable env e src) dsts (d, S) = Inr (d', S') \<Longrightarrow> reach N (length dsts) d d'"
proof (induction dsts arbitrary: d S)
  case Nil
  then show ?case by (simp add: reach_refl)
next
  case (Cons dst dsts)
  then obtain d1 S1 where 1: "sendIfReachable env e src dst (d, S) = Inr (d1, S1)"
    "foldr_res (sendIfReachable env e src) dsts (d1, S1) = Inr (d', S')"
    by (auto simp: res_simps)
  have r: "reach N 1 d d1" by (rule sendIfReachable_reach [OF Cons.prems(1) 1(1)])
  from reach_trans [OF r Cons.IH [OF reach_live [OF r] 1(2)]] show ?case by simp
qed

lemma sendToAll_reach: "live N d \<Longrightarrow> sendToAll env e src dsts d = Inr (d', S') \<Longrightarrow> reach N (length dsts) d d'"
  unfolding sendToAll_def by (rule sendToAll_reach_aux)

lemma visSendFrame_view [simp]: "view (visSendFrame src dst f c d) = view d"
  by (simp add: visSendFrame_def visSend_def)

lemma visSendInterference_view [simp]: "view (visSendInterference src dst c d) = view d"
  by (simp add: visSendInterference_def visSend_def)

lemma fold_view: "(\<And>x d. view (f x d) = view d) \<Longrightarrow> view (fold f xs d) = view d"
  by (induction xs arbitrary: d) simp_all

lemma visualizeTx_view: "visualizeTx src e S d = Inr d' \<Longrightarrow> view d' = view d"
  by (auto simp: visualizeTx_def res_simps Let_def fold_view split: if_splits option.splits)

lemma recordFrame_view: "recordFrame e d = Inr d' \<Longrightarrow> view d' = view d"
  by (auto simp: recordFrame_def dumpPacket_def res_simps split: if_splits)

lemma sendRadioCommRxStartEvents_reach:
  assumes "live N d" "sendRadioCommRxStartEvents env src e d = Inr d'"
  shows "reach N N d d'"
proof -
  from assms(2) consider "d' = d" | d1 d3 S where "view d1 = view d" "sendToAll env e src (dNodesArray d1) d1 = Inr (d3, S)"
      "visualizeTx src e S (upd_counters (\<lambda>c. c\<lparr>cDispatchAllInRange := cDispatchAllInRange c + 1\<rparr>) d3) = Inr d'"
    by (auto simp: sendRadioCommRxStartEvents_def res_simps split: if_splits dest: recordFrame_view)
  then show ?thesis
  proof cases
    case 1
    with assms(1) show ?thesis by (simp add: reach_refl)
  next
    case (2 d1 d3 S)
    have r1: "reach N 0 d d1" by (rule view_reach [OF 2(1) assms(1)])
    have r3: "reach N (length (dNodesArray d1)) d1 d3" by (rule sendToAll_reach [OF reach_live [OF r1] 2(2)])
    have "view d' = view d3" using visualizeTx_view [OF 2(3)] by simp
    with reach_live [OF r3] have "reach N 0 d3 d'" by (simp add: view_reach)
    from reach_trans [OF reach_trans [OF r1 r3] this] show ?thesis
      by (rule reach_mono) (use reach_live [OF r1] in \<open>simp add: live_def\<close>)
  qed
qed

lemma sendAndCount_reach:
  assumes "live N d" "sendAndCount env e src dsts bump d = Inr d'" "length dsts \<le> k"
  shows "reach N k d d'"
proof -
  from assms(2) obtain d1 S where d1: "sendToAll env e src dsts d = Inr (d1, S)" "d' = upd_counters bump d1"
    by (auto simp: sendAndCount_def res_simps)
  note r = sendToAll_reach [OF assms(1) d1(1)]
  have "view d' = view d1" by (simp add: d1(2))
  from reach_trans [OF r view_reach [OF this reach_live [OF r]]] show ?thesis
    by (rule reach_mono) (use assms(3) in simp)
qed

lemma sendRadioCommRxDoneEvents_cases:
  assumes "sendRadioCommRxDoneEvents env src e d = Inr d'"
  obtains (quiet) "view d' = view d"
  | (send) dsts bump where "sendAndCount env e src dsts bump d = Inr d'"
      "dsts = dNodesArray d \<or> (\<exists>r. dsts = dRloc16Map d r) \<or> length dsts = 1"
proof -
  obtain node where n: "dNodes d src = Some node" and t: "evType e = EventTypeRadioRxDone"
    using assms by (auto simp: sendRadioCommRxDoneEvents_def res_simps)
  show thesis
  proof (cases "dnIsFailed node")
    case True
    with assms n t show thesis by (intro quiet) (simp add: sendRadioCommRxDoneEvents_def)
  next
    case False
    with assms n t obtain f where f: "wpan_Dissect (evData e) = Inr f"
      by (auto simp: sendRadioCommRxDoneEvents_def res_simps)
    note nf = False
    note eq = assms [unfolded sendRadioCommRxDoneEvents_def Let_def]
    show thesis
    proof (cases "FrameControl_DestAddrMode (mfFrameControl f) = AddrModeExtended")
      case True
      show thesis
      proof (cases "dExtaddrMap d (mfDstAddrExtended f)")
        case None
        with True eq show thesis by (intro quiet) (auto simp: n t f nf)
      next
        case (Some dst)
        with True eq quiet send [of "[dst]"] show thesis by (cases "dst = src") (auto simp: n t f nf)
      qed
    next
      case False
      with eq quiet send [of "dRloc16Map d (mfDstAddrShort f)"] send [of "dNodesArray d"] show thesis
        by (cases "FrameControl_DestAddrMode (mfFrameControl f) = AddrModeShort \<and> mfDstAddrShort f \<noteq> BroadcastRloc16";
          cases "dRloc16Map d (mfDstAddrShort f) = []") (auto simp: n t f nf)
    qed
  qed
qed

lemma sendRadioCommRxDoneEvents_reach:
  assumes "live N d" "sendRadioCommRxDoneEvents env src e d = Inr d'"
  shows "reach N (N + 1) d d'"
  using assms(2)
proof (cases rule: sendRadioCommRxDoneEvents_cases)
  case quiet
  from view_reach [OF this assms(1)] show ?thesis by (rule reach_mono) simp
next
  case (send dsts bump)
  have "length dsts \<le> N + 1" using send(2) assms(1) by (auto simp: live_def intro: le_SucI)
  from sendAndCount_reach [OF assms(1) send(1) this] show ?thesis .
qed

section \<open>Processing an event\<close>

lemma radioHandleEvent_reach:
  assumes "live N d" "radioHandleEvent env node e d = Inr d'" "\<not> evMustDispatch e"
  shows "reach N (weight N e - 1 - (if evType e = EventTypeRadioState then 1 else 0)) d d'"
proof -
  from assms(2) obtain rm rm1 mem1 evs q where
    h: "RadioModel_HandleEvent (envRand env) (envOrd env) rm (dRmem d) (dnRadioNode node) e = Inr (rm1, mem1, evs)"
    and q: "addEvents evs (dEventQueue d) = Inr q" and d': "d' = d\<lparr>dRadioModel := Some rm1, dRmem := mem1, dEventQueue := q\<rparr>"
    by (fastforce simp: radioHandleEvent_def res_simps)
  have "view d' = view (d\<lparr>dEventQueue := q\<rparr>)" by (simp add: d' view_def clock_def)
  moreover have r: "reach N (sum_list (map (weight N) evs)) d (d\<lparr>dEventQueue := q\<rparr>)"
    by (rule addEvents_reach [OF assms(1) q])
  ultimately have "reach N (sum_list (map (weight N) evs)) d d'"
    using reach_trans [OF r view_reach [OF _ reach_live [OF r]], of d'] by simp
  then show ?thesis
    by (rule reach_mono) (use RadioModel_HandleEvent_weight [OF h assms(3), of N] in auto)
qed

lemma addQueue_reach:
  assumes "live N d" "addQueue e d = Inr d'"
  shows "reach N (weight N e) d d'"
proof -
  from assms(2) obtain q where q: "sendQueue_Add (dEventQueue d) e = Inr q" "d' = d\<lparr>dEventQueue := q\<rparr>"
    by (auto simp: addQueue_def res_simps)
  from add_event_reach [OF assms(1) q(1)] show ?thesis
    unfolding q(2) by (rule reach_mono) (simp add: due_weight_def)
qed

lemma setRadioEnergy_view: "setRadioEnergy i st d = Inr d' \<Longrightarrow> view d' = view d"
  by (auto simp: setRadioEnergy_def res_simps split: option.splits)

lemma handleRadioState_reach:
  assumes "live N d" "handleRadioState i e d = Inr d'"
  shows "reach N 1 d d'"
proof -
  from assms(2) obtain d1 where d1: "view d1 = view d" and
    d': "(if evDelay e > 0 then addQueue (wakeEvent i (dCurTime d1 + evDelay e)) d1 else Inr d1) = Inr d'"
    by (auto simp: handleRadioState_def res_simps dest: setRadioEnergy_view)
  have r1: "reach N 0 d d1" by (rule view_reach [OF d1 assms(1)])
  have "weight N (wakeEvent i t) = 1" for t by (simp add: weight_def wakeEvent_def zeroEvent_def)
  with d' have "reach N 1 d1 d'"
    using addQueue_reach [OF reach_live [OF r1]] reach_refl [OF reach_live [OF r1]] by (fastforce split: if_splits)
  from reach_trans [OF r1 this] show ?thesis by simp
qed

lemma processDispatch_reach:
  assumes "live N d" "processDispatch env node e d = Inr d'" "evMustDispatch e"
  shows "reach N (weight N e - 1) d d'"
proof -
  have w: "weight N e - 1 = N + 1" using assms(3) by (simp add: weight_def)
  have "sendRadioCommRxStartEvents env i e d = Inr d' \<Longrightarrow> reach N (N + 1) d d'" for i
    by (rule reach_mono [OF sendRadioCommRxStartEvents_reach [OF assms(1)]]) auto
  moreover have "sendEvent env i e d = Inr d' \<Longrightarrow> reach N (N + 1) d d'" for i
    by (rule reach_mono [OF sendEvent_reach [OF assms(1), THEN conjunct1]]) auto
  moreover have "dispatchEvent env p p i e d = Inr d' \<Longrightarrow> reach N (N + 1) d d'" for p i
    by (rule reach_mono [OF dispatchEvent_reach [OF assms(1)]]) auto
  moreover note sendRadioCommRxDoneEvents_reach [OF assms(1)]
  ultimately show ?thesis unfolding w
    using assms(2) by (simp add: processDispatch_def Let_def split: if_split_asm)
qed

lemma processInternal_reach:
  assumes "live N d" "processInternal env node e d = Inr d'" "\<not> evMustDispatch e"
  shows "reach N (weight N e - 1) d d'"
proof -
  note h = radioHandleEvent_reach [OF _ _ assms(3), of N]
  define dv where "dv = (if rcError (evRadioCommData e) = OT_TX_TYPE_INTF
    then visSendInterference (evNodeId e) BroadcastNodeId (evRadioCommData e) d else d)"
  have v: "reach N 0 d dv" by (rule view_reach [OF _ assms(1)]) (simp add: dv_def)
  consider "evType e = EventTypeAlarmFired" | "evType e = EventTypeRadioLog" | "evType e = EventTypeRadioCommStart"
    | "evType e = EventTypeRadioState"
    | "evType e \<notin> {EventTypeAlarmFired, EventTypeRadioLog, EventTypeRadioCommStart, EventTypeRadioState}" by blast
  then show ?thesis
  proof cases
    case 1
    with assms(2) have "advanceNodeTime env (evNodeId e) (dCurTime d) False d = Inr d'" by (simp add: processInternal_def)
    from advanceNodeTime_reach [OF assms(1) this] show ?thesis by (rule reach_mono) simp
  next
    case 2
    with assms show ?thesis by (simp add: processInternal_def reach_refl)
  next
    case 3
    with assms(2) have "radioHandleEvent env node e dv = Inr d'" by (simp add: processInternal_def dv_def)
    from reach_trans [OF v h [OF reach_live [OF v] this]] 3 show ?thesis by simp
  next
    case 4
    with assms(2) obtain d1 where d1: "handleRadioState (evNodeId e) e d = Inr d1" "radioHandleEvent env node e d1 = Inr d'"
      by (auto simp: processInternal_def res_simps)
    have r: "reach N 1 d d1" by (rule handleRadioState_reach [OF assms(1) d1(1)])
    from reach_trans [OF r h [OF reach_live [OF r] d1(2)]] show ?thesis
      by (rule reach_mono) (use 4 assms(3) in \<open>simp add: weight_def\<close>)
  next
    case 5
    with assms(2) have "radioHandleEvent env node e d = Inr d'" by (simp add: processInternal_def)
    from h [OF assms(1) this] 5 show ?thesis by simp
  qed
qed

lemma processEvent_reach:
  assumes "live N d" "processEvent env e d = Inr d'"
  shows "reach N (weight N e - 1) d d'"
proof (cases "dNodes d (evNodeId e)")
  case None
  with assms show ?thesis by (simp add: processEvent_def reach_refl)
next
  case (Some node)
  with assms show ?thesis
    by (cases "evMustDispatch e") (simp_all add: processEvent_def processDispatch_reach [simplified] processInternal_reach [simplified])
qed

section \<open>One step of the loop\<close>

lemma live_alarm:
  assumes "live N d" "dNodes d i = Some node" "alarms d i = Some a" "a \<le> dCurTime d"
  shows "dnCurTime node < a"
proof -
  have "clock d i = Some (dnCurTime node)" using assms(2) by (simp add: clock_def)
  with assms show ?thesis unfolding live_def by blast
qed

text \<open>The least alarm, when it is due, belongs to a node whose clock is behind it.\<close>

lemma due_alarm:
  assumes "live N d" "alarmMgr_NextTimestamp (dAlarmMgr d) = Inr a" "a \<le> dCurTime d" "alarmMgr_NextAlarm (dAlarmMgr d) = Inr (Some e)"
  shows "aeTimestamp e = a" "node_due (aeNodeId e) d = 1"
    and "\<exists>node. dNodes d (aeNodeId e) = Some node \<and> dnCurTime node < a"
proof -
  have "am_inv (dAlarmMgr d)" using assms(1) by (simp add: live_def)
  from NextAlarm_refines [OF this] assms(2,4) have e: "alarms d (aeNodeId e) = Some (aeTimestamp e)" "aeTimestamp e = a" by auto
  then show "aeTimestamp e = a" "node_due (aeNodeId e) d = 1" using assms(3) by (auto simp: node_due_def)
  have "aeNodeId e \<in> dom (clock d)" using assms(1) e(1) by (auto simp: live_def)
  with live_alarm [OF assms(1) _ e(1)] assms(3) e(2) show "\<exists>node. dNodes d (aeNodeId e) = Some node \<and> dnCurTime node < a"
    by (auto simp: clock_def)
qed

lemma advanceNodeTime_due:
  assumes "live N d" "dNodes d i = Some node" "dnCurTime node < a" "node_due i d = 1" "advanceNodeTime env i a False d = Inr d'"
  shows "reach N 0 d d' \<and> pot N d' < pot N d"
  using assms SetNotified_reach [OF assms(1)] sendEvent_reach [OF assms(1)]
  by (fastforce simp: advanceNodeTime_def res_simps not_le split: if_splits)

lemma NextTimestamp_Nil: "dEventQueue d = [] \<Longrightarrow> sendQueue_NextTimestamp (dEventQueue d) = Ever"
  by (simp add: sendQueue_NextTimestamp_def)

lemma pop_pot:
  assumes "live N d" "sendQueue_PopNext (dEventQueue d) = Inr (q, e)" "dEventQueue d \<noteq> []" "evTimestamp e \<le> dCurTime d"
  shows "live N (d\<lparr>dEventQueue := q\<rparr>)" "pot N (d\<lparr>dEventQueue := q\<rparr>) + weight N e = pot N d"
proof -
  have "sq_inv (dEventQueue d)" using assms(1) by (simp add: live_def)
  from sq.pop_law [OF this] assms(2,3) have q: "sq_inv q" "e \<in># mset (dEventQueue d)" "mset q = mset (dEventQueue d) - {#e#}" by auto
  from q(1) assms(1) show "live N (d\<lparr>dEventQueue := q\<rparr>)" by (simp add: live_def clock_def)
  have "mset (dEventQueue d) = add_mset e (mset q)" using q(2,3) by simp
  then have "(\<Sum>x \<in># mset (dEventQueue d). due_weight N (dCurTime d) x) =
      weight N e + (\<Sum>x \<in># mset q. due_weight N (dCurTime d) x)"
    using assms(4) by (simp add: due_weight_def)
  then show "pot N (d\<lparr>dEventQueue := q\<rparr>) + weight N e = pot N d" by (simp add: pot_def clock_def)
qed

text \<open>The event of a step that is not an alarm, in both loops.\<close>

lemma process_popped:
  assumes "live N d" "sendQueue_NextTimestamp (dEventQueue d) < a" "min a (sendQueue_NextTimestamp (dEventQueue d)) \<le> dCurTime d"
    "sendQueue_PopNext (dEventQueue d) = Inr (q, e)" "evTimestamp e = min a (sendQueue_NextTimestamp (dEventQueue d))"
    "processEvent env e (d\<lparr>dEventQueue := q\<rparr>) = Inr d'"
  shows "live N d' \<and> dCurTime d' = dCurTime d \<and> pot N d' < pot N d"
proof -
  have "dEventQueue d \<noteq> []"
  proof
    assume "dEventQueue d = []"
    with assms(2,3) NextTimestamp_Nil [of d] have "Ever \<le> dCurTime d" by (auto simp: min_def split: if_splits)
    with assms(1) show False by (auto simp: live_def not_le [symmetric])
  qed
  with assms have p: "live N (d\<lparr>dEventQueue := q\<rparr>)" "pot N (d\<lparr>dEventQueue := q\<rparr>) + weight N e = pot N d"
    using pop_pot [of N d q e] by simp_all
  moreover have "0 < weight N e" by (simp add: weight_def)
  ultimately show ?thesis using processEvent_reach [OF p(1) assms(6)] by (auto simp: reach_def)
qed

lemma nextTimes_Inr: "nextTimes d = Inr (a, s) \<longleftrightarrow>
    alarmMgr_NextTimestamp (dAlarmMgr d) = Inr a \<and> s = sendQueue_NextTimestamp (dEventQueue d)"
  by (auto simp: nextTimes_def res_simps)

text \<open>The alarm of a step, in both loops.\<close>

lemma alarm_step:
  assumes "live N d" "nextTimes d = Inr (a, s)" "min a s \<le> dCurTime d" "a \<le> s"
    "alarmMgr_NextAlarm (dAlarmMgr d) = Inr (Some e)"
  shows "dNodes d (aeNodeId e) \<noteq> None" "aeTimestamp e = a"
    and "advanceNodeTime env (aeNodeId e) a False d = Inr d' \<Longrightarrow> live N d' \<and> dCurTime d' = dCurTime d \<and> pot N d' < pot N d"
proof -
  have le: "a \<le> dCurTime d" using assms(3,4) by (simp add: min_def)
  have "alarmMgr_NextTimestamp (dAlarmMgr d) = Inr a" using assms(2) by (simp add: nextTimes_Inr)
  note due = due_alarm [OF assms(1) this le assms(5)]
  then obtain node where n: "dNodes d (aeNodeId e) = Some node" "dnCurTime node < a" by blast
  from n due show "dNodes d (aeNodeId e) \<noteq> None" "aeTimestamp e = a" by auto
  show "live N d' \<and> dCurTime d' = dCurTime d \<and> pot N d' < pot N d" if "advanceNodeTime env (aeNodeId e) a False d = Inr d'"
    using advanceNodeTime_due [OF assms(1) n due(2) that] by (auto simp: reach_def)
qed

lemma processOne_decreases:
  assumes "live N d" "nextTimes d = Inr (a, s)" "min a s \<le> dCurTime d" "processOne env a s d = Inr d'"
  shows "live N d' \<and> dCurTime d' = dCurTime d \<and> pot N d' < pot N d"
proof (cases "a \<le> s")
  case True
  with assms(4) obtain e where "alarmMgr_NextAlarm (dAlarmMgr d) = Inr (Some e)"
    by (auto simp: processOne_def res_simps split: option.splits)
  with alarm_step [OF assms(1-3) True this] assms(4) True show ?thesis by (auto simp: processOne_def)
next
  case False
  with assms(4) obtain q e where "sendQueue_PopNext (dEventQueue d) = Inr (q, e)" "evTimestamp e = min a s"
    "processEvent env e (d\<lparr>dEventQueue := q\<rparr>) = Inr d'"
    by (auto simp: processOne_def res_simps)
  with False process_popped [OF assms(1), of a q e env d'] assms(2,3) show ?thesis by (auto simp: nextTimes_Inr not_le)
qed

lemma processOneRealtime_decreases:
  assumes "live N d" "nextTimes d = Inr (a, s)" "min a s \<le> dCurTime d" "processOneRealtime env a s d = Inr d'"
  shows "live N d' \<and> dCurTime d' = dCurTime d \<and> pot N d' < pot N d"
proof (cases "a \<le> s")
  case True
  with assms(4) obtain e where "alarmMgr_NextAlarm (dAlarmMgr d) = Inr (Some e)"
    by (auto simp: processOneRealtime_def res_simps split: option.splits)
  with alarm_step [OF assms(1-3) True this] assms(4) True show ?thesis by (auto simp: processOneRealtime_def)
next
  case False
  with assms(4) obtain q e where "sendQueue_PopNext (dEventQueue d) = Inr (q, e)" "evTimestamp e = min a s"
    "processEvent env e (d\<lparr>dEventQueue := q\<rparr>) = Inr d'"
    by (auto simp: processOneRealtime_def res_simps)
  with False process_popped [OF assms(1), of a q e env d'] assms(2,3) show ?thesis by (auto simp: nextTimes_Inr not_le)
qed

interpretation vpot: measured_loop "\<lambda>n. processLoop env n T" "instant_done T" "instant_step (processOne env)"
  "\<lambda>d. live N d \<and> dCurTime d = T" "pot N" for env T N
  by unfold_locales
    (auto simp: instant_done_def instant_step_def res_simps split: if_splits dest: processOne_decreases)

interpretation rpot: measured_loop "\<lambda>n. processLoopRealtime env n T" "instant_done T" "instant_step (processOneRealtime env)"
  "\<lambda>d. live N d \<and> dCurTime d = T" "pot N" for env T N
  by unfold_locales
    (auto simp: instant_done_def instant_step_def res_simps split: if_splits dest: processOneRealtime_decreases)

section \<open>From one instant to the next\<close>

text \<open>Between two instants, the alarms and the queue are well-formed, and every node's clock has been reached and is
  before its alarm. No bound on the number of destinations of a frame is needed, since the maps are finite.\<close>

definition idle :: "Dispatcher \<Rightarrow> bool" where
  "idle d \<longleftrightarrow> am_inv (dAlarmMgr d) \<and> sq_inv (dEventQueue d) \<and> dom (alarms d) = dom (dNodes d) \<and> finite (dom (dNodes d)) \<and>
     (\<forall>i node a. dNodes d i = Some node \<longrightarrow> alarms d i = Some a \<longrightarrow> dnCurTime node \<le> dCurTime d \<and> dnCurTime node < a)"

lemma reg_inv_idle: "reg_inv d \<Longrightarrow> idle d"
  by (auto simp: idle_def reg_inv_def nodes_ok_def times_ok_def)

lemma clock_Some: "clock d i = Some t \<longleftrightarrow> (\<exists>node. dNodes d i = Some node \<and> dnCurTime node = t)"
  by (auto simp: clock_def)

lemma idle_clock:
  "idle d \<longleftrightarrow> am_inv (dAlarmMgr d) \<and> sq_inv (dEventQueue d) \<and> dom (alarms d) = dom (clock d) \<and> finite (dom (clock d)) \<and>
     (\<forall>i t a. clock d i = Some t \<longrightarrow> alarms d i = Some a \<longrightarrow> t \<le> dCurTime d \<and> t < a)"
proof -
  have "dom (clock d) = dom (dNodes d)" by (auto simp: clock_def)
  then show ?thesis unfolding idle_def clock_Some by (simp only:) blast
qed

definition fanout :: "Dispatcher \<Rightarrow> nat" where
  "fanout d = Max (insert (length (dNodesArray d)) (range (\<lambda>r. length (dRloc16Map d r))))"

lemma fanout_bounds: "length (dNodesArray d) \<le> fanout d" "length (dRloc16Map d r) \<le> fanout d"
  unfolding fanout_def by (rule Max_ge; simp)+

lemma viewD:
  assumes "view d1 = view d"
  shows "dCurTime d1 = dCurTime d" "dAlarmMgr d1 = dAlarmMgr d" "dEventQueue d1 = dEventQueue d" "clock d1 = clock d"
    "dNodesArray d1 = dNodesArray d" "dRloc16Map d1 = dRloc16Map d"
  using assms by (simp_all add: view_def)

lemma clock_time [simp]: "clock (d\<lparr>dCurTime := T\<rparr>) = clock d"
  by (simp add: clock_def)

lemma idle_advanced:
  assumes "idle d" "dCurTime d \<le> T" "view d1 = view (d\<lparr>dCurTime := T\<rparr>)"
  shows "idle d1" "T < Ever \<Longrightarrow> live (fanout d) d1"
proof -
  note v = viewD [OF assms(3), simplified]
  have c: "t \<le> T \<and> t < a" if "clock d i = Some t" "alarms d i = Some a" for i t a
    using assms(1,2) that unfolding idle_clock by (meson order_trans)
  show "idle d1" using assms(1) c unfolding idle_clock v by auto
  have "clock d i = Some t \<Longrightarrow> t \<le> T" for i t
    using c [of i t] assms(1) unfolding idle_clock by (metis domD domI)
  then show "T < Ever \<Longrightarrow> live (fanout d) d1" using assms(1) c fanout_bounds [of d] unfolding idle_clock live_def v by auto
qed

lemma live_idle:
  assumes "live N d" "nextTimes d = Inr (a, s)" "dCurTime d < min a s"
  shows "idle d"
proof -
  have am: "am_inv (dAlarmMgr d)" using assms(1) by (simp add: live_def)
  have "next_of (alarms d) a" using NextTimestamp_refines [OF am] assms(2) by (auto simp: nextTimes_Inr)
  then have "a \<le> b" if "alarms d i = Some b" for i b using that by (rule next_of_le)
  then have "dCurTime d < b" if "alarms d i = Some b" for i b using that assms(3) by (meson less_le_trans min_less_iff_conj)
  then show ?thesis using assms(1) unfolding live_def idle_clock by (meson le_less_trans)
qed

lemma nextTimes_least:
  assumes "am_inv (dAlarmMgr d)" "sq_inv (dEventQueue d)" "nextTimes d = Inr (a, s)"
  shows "alarms d i = Some t \<Longrightarrow> a \<le> t" "e \<in> set (dEventQueue d) \<Longrightarrow> s \<le> evTimestamp e"
proof -
  have "next_of (alarms d) a" using NextTimestamp_refines [OF assms(1)] assms(3) by (auto simp: nextTimes_Inr)
  then show "alarms d i = Some t \<Longrightarrow> a \<le> t" by (rule next_of_le)
  have s: "s = sendQueue_NextTimestamp (dEventQueue d)" using assms(3) by (simp add: nextTimes_Inr)
  show "s \<le> evTimestamp e" if "e \<in> set (dEventQueue d)"
    using NextTimestamp_spec(2) [OF assms(2) that] s by simp
qed

section \<open>Advancing the time\<close>

lemma emptyWindows_view: "emptyWindows fuel d = Inr d' \<Longrightarrow> view d' = view d"
proof (induction fuel arbitrary: d)
  case (Suc fuel)
  show ?case
  proof (cases "dCurTime d > twWinStartUs (dTimeWinStats d) + twWinWidthUs (dTimeWinStats d)")
    case True
    with Suc.prems Suc.IH show ?thesis
      by (subst (asm) emptyWindows.simps) (auto simp: Let_def visSendTimeWindowStats_def emit_def view_def clock_def)
  next
    case False
    with Suc.prems show ?thesis by (subst (asm) emptyWindows.simps) (simp add: Let_def)
  qed
qed (subst (asm) emptyWindows.simps, simp add: Let_def split: if_splits)

lemma updateTimeWindowStats_view: "updateTimeWindowStats d = Inr d' \<Longrightarrow> view d' = view d"
  by (auto simp: updateTimeWindowStats_def closeWindow_def res_simps Let_def visSendTimeWindowStats_def emit_def view_def clock_def
      split: if_splits dest!: emptyWindows_view)

lemma showEnergy_view: "showEnergy env ts d = Inr d' \<Longrightarrow> view d' = view d"
  by (auto simp: showEnergy_def res_simps emit_def view_def clock_def split: option.splits if_splits)

lemma advanceTime_view:
  assumes "advanceTime env ts d = Inr d'"
  shows "dCurTime d \<le> ts \<and> view d' = view (d\<lparr>dCurTime := ts\<rparr>)"
proof (cases "dCurTime d = ts")
  case True
  with assms have "d' = d" by (simp add: advanceTime_def)
  with True show ?thesis by (simp add: view_def clock_def)
next
  case False
  with assms obtain rm x d4 where
    d4: "showEnergy env ts (draw (emit x ((emit (CbNextEventTime ts) (d\<lparr>dRadioModel := rm\<rparr>))\<lparr>dCurTime := ts\<rparr>))) = Inr d4"
    and le: "dCurTime d \<le> ts" and d': "d' = d4 \<or> updateTimeWindowStats d4 = Inr d'"
    by (auto simp: advanceTime_def res_simps Let_def split: if_splits)
  have "view d' = view d4" using d' updateTimeWindowStats_view by auto
  also have "\<dots> = view (draw (emit x ((emit (CbNextEventTime ts) (d\<lparr>dRadioModel := rm\<rparr>))\<lparr>dCurTime := ts\<rparr>)))"
    by (rule showEnergy_view [OF d4])
  also have "\<dots> = view (d\<lparr>dCurTime := ts\<rparr>)"
    by (simp add: view_def clock_def emit_def draw_def)
  finally show ?thesis using le by simp
qed

section \<open>Processing an instant\<close>

text \<open>The loop over the events of the instant \<open>T\<close> returns, and when it returns normally the state is idle and nothing is due any more.\<close>

definition nothing_due :: "u64 \<Rightarrow> Dispatcher \<Rightarrow> bool" where
  "nothing_due T d \<longleftrightarrow> (\<forall>i t. alarms d i = Some t \<longrightarrow> T < t) \<and> (\<forall>e \<in> set (dEventQueue d). T < evTimestamp e)"

lemma instant_result:
  assumes "live N d2" "dCurTime d2 = T" "instant_done T d2 = Inr (Some (d', next))"
  shows "idle d' \<and> dCurTime d' = T \<and> T < next \<and> nothing_due T d'"
proof -
  obtain a s where n: "nextTimes d2 = Inr (a, s)"
    using assms(3) by (cases "nextTimes d2") (auto simp: instant_done_def)
  have "\<not> min a s \<le> T"
    using assms(3) unfolding instant_done_def n by (cases "min a s \<le> T") simp_all
  with assms(3) n have t: "nextTimes d2 = Inr (a, s)" "T < min a s" "d' = d2" "next = min a s"
    unfolding instant_done_def n by (simp_all only: bindr_Inr prod.case if_False sum.inject option.inject prod.inject not_le)
  have "idle d2" using live_idle [OF assms(1) t(1)] t(2) assms(2) by simp
  moreover have "nothing_due T d2"
  proof -
    have inv: "am_inv (dAlarmMgr d2)" "sq_inv (dEventQueue d2)" using assms(1) by (simp_all add: live_def)
    have lt: "T < a" "T < s" using t(2) by simp_all
    show ?thesis unfolding nothing_due_def
      using less_le_trans [OF lt(1) nextTimes_least(1) [OF inv t(1)]] less_le_trans [OF lt(2) nextTimes_least(2) [OF inv t(1)]] by blast
  qed
  ultimately show ?thesis using t assms(2) by simp
qed

lemma processLoop_returns:
  assumes "idle d" "dCurTime d \<le> T" "T < Ever" "view d1 = view (d\<lparr>dCurTime := T\<rparr>)"
  shows "\<exists>n r. (\<forall>fuel \<ge> n. processLoop env fuel T d1 = Some r) \<and>
    (\<forall>d' next. r = Inr (d', next) \<longrightarrow> idle d' \<and> dCurTime d' = T \<and> T < next \<and> nothing_due T d')"
proof -
  let ?N = "fanout d"
  have l: "live ?N d1" using idle_advanced(2) [OF assms(1,2,4,3)] .
  have t: "dCurTime d1 = T" using viewD(1) [OF assms(4)] by simp
  obtain r where r: "processLoop env (Suc (pot ?N d1)) T d1 = Some r"
    using vpot.loop_returns [of ?N d1 T "Suc (pot ?N d1)" env] l t by auto
  have res: "idle d' \<and> dCurTime d' = T \<and> T < next \<and> nothing_due T d'" if eq: "r = Inr (d', next)" for d' "next"
  proof -
    obtain s' where "live ?N s'" "dCurTime s' = T" "instant_done T s' = Inr (Some (d', next))"
      using vpot.loop_inv [of ?N d1 T env _ "(d', next)", OF _ r [unfolded eq]] l t by auto
    then show ?thesis by (rule instant_result)
  qed
  show ?thesis
  proof (intro exI [of _ "Suc (pot ?N d1)"] exI [of _ r] conjI)
    show "\<forall>fuel \<ge> Suc (pot ?N d1). processLoop env fuel T d1 = Some r" using vloop.loop_mono [OF r] by blast
    show "\<forall>d' next. r = Inr (d', next) \<longrightarrow> idle d' \<and> dCurTime d' = T \<and> T < next \<and> nothing_due T d'" using res by blast
  qed
qed

lemma processLoopRealtime_returns:
  assumes "idle d" "dCurTime d \<le> T" "T < Ever" "view d1 = view (d\<lparr>dCurTime := T\<rparr>)"
  shows "\<exists>n r. (\<forall>fuel \<ge> n. processLoopRealtime env fuel T d1 = Some r) \<and>
    (\<forall>d' next. r = Inr (d', next) \<longrightarrow> idle d' \<and> dCurTime d' = T \<and> T < next \<and> nothing_due T d')"
proof -
  let ?N = "fanout d"
  have l: "live ?N d1" using idle_advanced(2) [OF assms(1,2,4,3)] .
  have t: "dCurTime d1 = T" using viewD(1) [OF assms(4)] by simp
  obtain r where r: "processLoopRealtime env (Suc (pot ?N d1)) T d1 = Some r"
    using rpot.loop_returns [of ?N d1 T "Suc (pot ?N d1)" env] l t by auto
  have res: "idle d' \<and> dCurTime d' = T \<and> T < next \<and> nothing_due T d'" if eq: "r = Inr (d', next)" for d' "next"
  proof -
    obtain s' where "live ?N s'" "dCurTime s' = T" "instant_done T s' = Inr (Some (d', next))"
      using rpot.loop_inv [of ?N d1 T env _ "(d', next)", OF _ r [unfolded eq]] l t by auto
    then show ?thesis by (rule instant_result)
  qed
  show ?thesis
  proof (intro exI [of _ "Suc (pot ?N d1)"] exI [of _ r] conjI)
    show "\<forall>fuel \<ge> Suc (pot ?N d1). processLoopRealtime env fuel T d1 = Some r" using rloop.loop_mono [OF r] by blast
    show "\<forall>d' next. r = Inr (d', next) \<longrightarrow> idle d' \<and> dCurTime d' = T \<and> T < next \<and> nothing_due T d'" using res by blast
  qed
qed

lemma nextTimes_ok: "am_inv (dAlarmMgr d) \<Longrightarrow> \<exists>a s. nextTimes d = Inr (a, s)"
  using NextTimestamp_refines [of "dAlarmMgr d"] by (auto simp: nextTimes_def)

lemma idle_draw [simp]: "idle (draw d) = idle d"
  by (simp add: idle_def draw_def)

lemma idle_advanceTime: "idle d \<Longrightarrow> advanceTime env ts d = Inr d' \<Longrightarrow> idle d'"
  using advanceTime_view [of env ts d d'] idle_advanced(1) [of d ts d'] by simp

lemma draw_cur [simp]: "dCurTime (draw d) = dCurTime d" "dPauseTime (draw d) = dPauseTime d"
  by (simp_all add: draw_def)

text \<open>The part of \<open>processNextEvents\<close> that advances the time to the instant and processes it.\<close>

lemma advance_and_process:
  assumes "idle d" "T < Ever"
  shows "\<exists>n r. (\<forall>fuel \<ge> n. bindo (Some (advanceTime env T (draw d))) (\<lambda>d1. bindo (processLoop env fuel T d1) (\<lambda>(d2, next).
      Some (Inr (next \<le> dPauseTime d2, d2)))) = Some r) \<and>
    (\<forall>goon d'. r = Inr (goon, d') \<longrightarrow> idle d' \<and> dCurTime d' = T \<and> nothing_due T d')"
proof (cases "advanceTime env T (draw d)")
  case (Inl p)
  then show ?thesis by (intro exI [of _ 0] exI [of _ "Inl p"]) simp
next
  case (Inr d1)
  from advanceTime_view [OF this] have v: "dCurTime d \<le> T" "view d1 = view ((draw d)\<lparr>dCurTime := T\<rparr>)" by simp_all
  from processLoop_returns [of "draw d" T d1 env] assms v obtain n r where
    r: "\<And>fuel. fuel \<ge> n \<Longrightarrow> processLoop env fuel T d1 = Some r"
      "\<And>d' next. r = Inr (d', next) \<Longrightarrow> idle d' \<and> dCurTime d' = T \<and> T < next \<and> nothing_due T d'"
    by (simp only: idle_draw draw_cur) blast
  show ?thesis
  proof (cases r)
    case (Inl p)
    with r(1) Inr show ?thesis by (intro exI [of _ n] exI [of _ "Inl p"]) simp
  next
    case (Inr x)
    obtain d2 t where x: "x = (d2, t)" by (cases x)
    with Inr r(2) have "idle d2 \<and> dCurTime d2 = T \<and> nothing_due T d2" by simp
    with Inr x r(1) \<open>advanceTime env T (draw d) = Inr d1\<close> show ?thesis
      by (intro exI [of _ n] exI [of _ "Inr (t \<le> dPauseTime d2, d2)"]) simp
  qed
qed

text \<open>No event and no alarm is in the past.\<close>

definition nothing_past :: "Dispatcher \<Rightarrow> bool" where
  "nothing_past d \<longleftrightarrow> (\<forall>i t. alarms d i = Some t \<longrightarrow> dCurTime d \<le> t) \<and> (\<forall>e \<in> set (dEventQueue d). dCurTime d \<le> evTimestamp e)"

lemma nextTimes_not_past:
  assumes "idle d" "nothing_past d" "nextTimes d = Inr (a, s)" "dCurTime d \<le> Ever"
  shows "dCurTime d \<le> a" "dCurTime d \<le> s"
proof -
  have t: "alarmMgr_NextTimestamp (dAlarmMgr d) = Inr a" "s = sendQueue_NextTimestamp (dEventQueue d)"
    using assms(3) by (simp_all add: nextTimes_Inr)
  have "next_of (alarms d) a" using NextTimestamp_refines [of "dAlarmMgr d"] t(1) assms(1) by (auto simp: idle_def)
  then show "dCurTime d \<le> a" using assms(2,4) by (auto simp: next_of_def nothing_past_def ran_def split: if_splits)
  show "dCurTime d \<le> s"
  proof (cases "dEventQueue d = []")
    case True
    with assms(4) t(2) show ?thesis by (simp add: sendQueue_NextTimestamp_def)
  next
    case False
    with NextTimestamp_spec(1) [of "dEventQueue d"] assms(1,2) t(2) show ?thesis by (auto simp: idle_def nothing_past_def)
  qed
qed

text \<open>The time that the simulation should have reached at the given speed.\<close>

abbreviation targetTime :: "Env \<Rightarrow> real \<Rightarrow> Dispatcher \<Rightarrow> u64" where
  "targetTime env simSpeed d \<equiv> dSpeedStartTime d + of_int \<lfloor>of_int (envElapsed env (dDraws d)) * simSpeed\<rfloor>"

lemma processNextEvents_unfold:
  assumes "nextTimes d = Inr (a, s)"
  shows "processNextEvents env fuel simSpeed d =
    (if \<not> (dCurTime d \<le> dPauseTime d \<and> simSpeed \<ge> 0 \<and> s \<ge> dCurTime d \<and> a \<ge> dCurTime d) then Some (Inl AssertFailed)
     else if targetTime env simSpeed d < min a s \<and> min a s \<le> dPauseTime d \<or> targetTime env simSpeed d < dPauseTime d \<and> min a s > dPauseTime d
     then Some (bindr (advanceTime env (targetTime env simSpeed d) (draw d)) (\<lambda>d1. Inr (True, d1)))
     else if min a s > dPauseTime d then Some (Inr (False, draw d))
     else bindo (Some (advanceTime env (min a s) (draw d))) (\<lambda>d1. bindo (processLoop env fuel (min a s) d1) (\<lambda>(d2, next).
         Some (Inr (next \<le> dPauseTime d2, d2)))))"
  by (auto simp: processNextEvents_def assms assertr_def Let_def)

lemma processNextEvents_due:
  assumes "nextTimes d = Inr (a, s)" "dCurTime d \<le> dPauseTime d" "simSpeed \<ge> 0" "dCurTime d \<le> a" "dCurTime d \<le> s"
    "min a s \<le> dPauseTime d" "min a s \<le> targetTime env simSpeed d"
  shows "processNextEvents env fuel simSpeed d = bindo (Some (advanceTime env (min a s) (draw d)))
    (\<lambda>d1. bindo (processLoop env fuel (min a s) d1) (\<lambda>(d2, next). Some (Inr (next \<le> dPauseTime d2, d2))))"
proof -
  have "\<not> (targetTime env simSpeed d < min a s \<and> min a s \<le> dPauseTime d \<or> targetTime env simSpeed d < dPauseTime d \<and> min a s > dPauseTime d)"
      "\<not> min a s > dPauseTime d"
    using assms(6,7) by (auto simp only: not_less)
  with assms(2-5) show ?thesis unfolding processNextEvents_unfold [OF assms(1)] by (simp only: simp_thms if_False)
qed

section \<open>Properties\<close>

text \<open>
  C2. Processing the next events ends. If every node's alarm is later than its clock and no node's clock is ahead of the dispatcher (as nodes
  ensure by asking for a positive delay), the queue and the alarm manager are well-formed and the simulation pauses before the end of time, then \<open>processNextEvents\<close>
  returns, whatever events the processing of events adds to the queue, frames to any number of nodes included: from some amount of fuel on, the
  result of the loop is always the same. When it is not a panic, the state satisfies the same conditions again.
\<close>

theorem processNextEvents_returns:
  assumes "idle d" "dPauseTime d < Ever"
  shows "\<exists>n r. (\<forall>fuel \<ge> n. processNextEvents env fuel simSpeed d = Some r) \<and> (\<forall>goon d'. r = Inr (goon, d') \<longrightarrow> idle d')"
proof -
  obtain a s where t: "nextTimes d = Inr (a, s)" using nextTimes_ok [of d] assms(1) by (auto simp: idle_def)
  note unf = processNextEvents_unfold [OF t, of env _ simSpeed]
  let ?cur = "targetTime env simSpeed d"
  let ?early = "?cur < min a s \<and> min a s \<le> dPauseTime d \<or> ?cur < dPauseTime d \<and> min a s > dPauseTime d"
  have wait: "idle d'" if "bindr (advanceTime env ?cur (draw d)) (\<lambda>d1. Inr (True, d1)) = Inr (goon, d')" for goon d'
    using that idle_advanceTime [of "draw d" env ?cur] assms(1) by (auto simp: bindr_eq_Inr_iff)
  consider (bad) "\<not> (dCurTime d \<le> dPauseTime d \<and> simSpeed \<ge> 0 \<and> s \<ge> dCurTime d \<and> a \<ge> dCurTime d)"
    | (early) "dCurTime d \<le> dPauseTime d \<and> simSpeed \<ge> 0 \<and> s \<ge> dCurTime d \<and> a \<ge> dCurTime d" ?early
    | (over) "dCurTime d \<le> dPauseTime d \<and> simSpeed \<ge> 0 \<and> s \<ge> dCurTime d \<and> a \<ge> dCurTime d" "\<not> ?early" "min a s > dPauseTime d"
    | (due) "dCurTime d \<le> dPauseTime d \<and> simSpeed \<ge> 0 \<and> s \<ge> dCurTime d \<and> a \<ge> dCurTime d" "\<not> ?early" "\<not> min a s > dPauseTime d"
    by argo
  then show ?thesis
  proof cases
    case bad
    then have "processNextEvents env fuel simSpeed d = Some (Inl AssertFailed)" for fuel unfolding unf by (simp only: if_True not_False_eq_True)
    then show ?thesis by (intro exI [of _ 0] exI [of _ "Inl AssertFailed"]) simp
  next
    case early
    then have "processNextEvents env fuel simSpeed d = Some (bindr (advanceTime env ?cur (draw d)) (\<lambda>d1. Inr (True, d1)))" for fuel
      unfolding unf by (simp only: simp_thms if_True if_False)
    with wait show ?thesis by blast
  next
    case over
    then have "processNextEvents env fuel simSpeed d = Some (Inr (False, draw d))" for fuel
      unfolding unf by (simp only: simp_thms if_True if_False)
    with assms(1) show ?thesis by (intro exI [of _ 0] exI [of _ "Inr (False, draw d)"]) simp
  next
    case due
    then have e: "processNextEvents env fuel simSpeed d = bindo (Some (advanceTime env (min a s) (draw d)))
        (\<lambda>d1. bindo (processLoop env fuel (min a s) d1) (\<lambda>(d2, next). Some (Inr (next \<le> dPauseTime d2, d2))))" for fuel
      unfolding unf by (simp only: simp_thms if_True if_False)
    have "min a s < Ever" using due(3) assms(2) by (meson le_less_trans not_less)
    from advance_and_process [OF assms(1) this, of env] show ?thesis unfolding e by blast
  qed
qed


section \<open>A node that asks for no delay\<close>

lemma stuck_step:
  assumes "am_inv (dAlarmMgr d)" "nextTimes d = Inr (T, s)" "T \<le> s" "T < Ever" "\<And>i node. dNodes d i = Some node \<Longrightarrow> T \<le> dnCurTime node"
  shows "processOne env T s d = Inr d"
proof -
  have t: "alarmMgr_NextTimestamp (dAlarmMgr d) = Inr T" using assms(2) by (simp add: nextTimes_Inr)
  have "next_of (alarms d) T" using NextTimestamp_refines [OF assms(1)] t by auto
  then have "alarms d \<noteq> Map.empty" using assms(4) by (auto simp: next_of_def)
  with NextAlarm_refines [OF assms(1)] t obtain e where e: "alarmMgr_NextAlarm (dAlarmMgr d) = Inr (Some e)" "aeTimestamp e = T" by auto
  with assms(3) assms(5) [of "aeNodeId e"] show ?thesis
    by (cases "dNodes d (aeNodeId e)") (simp_all add: processOne_def advanceNodeTime_def)
qed

lemma stuck_loop:
  assumes "am_inv (dAlarmMgr d)" "nextTimes d = Inr (T, s)" "T \<le> s" "T < Ever" "\<And>i node. dNodes d i = Some node \<Longrightarrow> T \<le> dnCurTime node"
  shows "processLoop env fuel T d = None"
proof (rule vloop.loop_stuck)
  have m: "min T s = T" using assms(3) by (simp add: min_def)
  show "instant_done T d = Inr None" unfolding instant_done_def assms(2) bindr_Inr prod.case m by simp
  show "instant_step (processOne env) d = Inr d"
    unfolding instant_step_def assms(2) bindr_Inr prod.case by (rule stuck_step [OF assms])
qed

lemma advanceTime_same: "advanceTime env (dCurTime d) d = Inr d"
  by (simp add: advanceTime_def)

text \<open>What the dispatcher does with an alarm event of a connected node, or of one that connects with this event.\<close>

lemma HandleEvent_alarm:
  assumes "dNodes d i = Some node" "evNodeId e = i" "evType e = EventTypeAlarmFired" "evDelay e = 0" "dnConn node = None \<or> evConn e = dnConn node"
    "HandleEvent env onNew e d = Inr d'"
  shows "alarmMgr_SetTimestamp (dAlarmMgr d) i (dCurTime d) = Inr (dAlarmMgr d')" "dEventQueue d' = dEventQueue d"
    "dCurTime d' = dCurTime d" "dPauseTime d' = dPauseTime d" "dSpeedStartTime d' = dSpeedStartTime d" "dDraws d' = dDraws d" "clock d' = clock d"
proof -
  have "alarmMgr_SetTimestamp (dAlarmMgr d) i (dCurTime d) = Inr (dAlarmMgr d') \<and> dEventQueue d' = dEventQueue d \<and>
    dCurTime d' = dCurTime d \<and> dPauseTime d' = dPauseTime d \<and> dSpeedStartTime d' = dSpeedStartTime d \<and> dDraws d' = dDraws d \<and> clock d' = clock d"
    using assms by (auto simp: HandleEvent_def handleNodeEvent_def Let_def res_simps setSleeping_def set_node_def clock_def fun_eq_iff
        split: option.splits if_splits)
  then show "alarmMgr_SetTimestamp (dAlarmMgr d) i (dCurTime d) = Inr (dAlarmMgr d')" "dEventQueue d' = dEventQueue d"
    "dCurTime d' = dCurTime d" "dPauseTime d' = dPauseTime d" "dSpeedStartTime d' = dSpeedStartTime d" "dDraws d' = dDraws d" "clock d' = clock d"
    by auto
qed

text \<open>
  C38. The condition on alarms is needed, and nothing in the dispatcher ensures it. When a node that is up to date asks to be woken up with a delay of
  0, and the other nodes are up to date too, \<open>HandleEvent\<close> accepts the alarm, and the following \<open>processNextEvents\<close> does not return, whatever the
  fuel: \<open>advanceNodeTime\<close> ignores an alarm that is not later than the clock of the node, so the same alarm stays the next one.
\<close>

theorem zero_delay_livelock:
  assumes "idle d" "nothing_past d" "dCurTime d \<le> dPauseTime d" "dPauseTime d < Ever" "0 \<le> simSpeed" "dCurTime d \<le> targetTime env simSpeed d"
    and "dNodes d i = Some node" "dnConn node = None \<or> evConn e = dnConn node"
    and "\<And>j n. dNodes d j = Some n \<Longrightarrow> dnCurTime n = dCurTime d"
    and "evNodeId e = i" "evType e = EventTypeAlarmFired" "evDelay e = 0" "HandleEvent env onNew e d = Inr d'"
  shows "processNextEvents env fuel simSpeed d' = None"
proof -
  note h = HandleEvent_alarm [OF assms(7,10,11,12,8,13)]
  let ?T = "dCurTime d"
  have ever: "?T < Ever" using assms(3,4) by (rule le_less_trans)
  have am: "am_inv (dAlarmMgr d)" "alarms d i \<noteq> None" using assms(1,7) unfolding idle_def by (simp, metis domI domIff)
  from SetTimestamp_refines [OF this, of ?T] h(1) have am': "am_inv (dAlarmMgr d')" "alarms d' = (alarms d)(i \<mapsto> ?T)" by auto
  obtain a s where n: "nextTimes d = Inr (a, s)" using nextTimes_ok [OF am(1)] by auto
  have s: "?T \<le> s" using nextTimes_not_past [OF assms(1,2) n less_imp_le [OF ever]] by simp
  obtain a' where a': "alarmMgr_NextTimestamp (dAlarmMgr d') = Inr a'" "next_of (alarms d') a'" using NextTimestamp_refines [OF am'(1)] by auto
  have "?T \<le> a'" using a'(2) assms(2) am'(2) by (auto simp: next_of_def nothing_past_def ran_def split: if_splits)
  moreover have "a' \<le> ?T" using next_of_le [OF a'(2), of i ?T] am'(2) by simp
  ultimately have n': "nextTimes d' = Inr (?T, s)" using a'(1) n h(2) by (simp add: nextTimes_def nextTimes_Inr res_simps)
  have m: "min ?T s = ?T" using s by (simp add: min_def)
  have c: "?T \<le> dnCurTime x" if "dNodes d' j = Some x" for j x
  proof -
    have "clock d j = Some (dnCurTime x)" using that h(7) by (metis clock_Some)
    with assms(9) show ?thesis by (auto simp: clock_Some)
  qed
  have "processNextEvents env fuel simSpeed d' = bindo (processLoop env fuel ?T (draw d')) (\<lambda>(d2, next). Some (Inr (next \<le> dPauseTime d2, d2)))"
    using processNextEvents_due [OF n', of simSpeed env fuel] assms(3,5,6) s h(3-6) advanceTime_same [of env "draw d'"] by (simp add: m)
  also have "processLoop env fuel ?T (draw d') = None"
    by (rule stuck_loop [of _ _ s]) (use am'(1) n' s ever c in \<open>simp_all add: draw_def nextTimes_def\<close>)
  finally show ?thesis by simp
qed

section \<open>Real time\<close>

lemma processNextEventsRealtime_unfold:
  assumes "nextTimes d = Inr (a, s)"
  shows "processNextEventsRealtime env fuel simTime d =
    (if \<not> min a s \<ge> dCurTime d then Some (Inl AssertFailed)
     else if min a s > simTime + RealtimeMaxMoveAheadUs then Some (bindr (advanceTime env simTime d) (\<lambda>d1. Inr (min a s, d1)))
     else bindo (Some (advanceTime env (min a s) d))
       (\<lambda>d1. bindo (processLoopRealtime env fuel (min a s) d1) (\<lambda>(d2, next). Some (Inr (next, d2)))))"
proof -
  have e: "(if min a s > dCurTime d then advanceTime env (min a s) d else Inr d) = advanceTime env (min a s) d" if "min a s \<ge> dCurTime d"
  proof (cases "min a s = dCurTime d")
    case True
    show ?thesis unfolding True by (simp add: advanceTime_same)
  next
    case False
    with that have "min a s > dCurTime d" by (metis order_le_imp_less_or_eq)
    then show ?thesis by (simp only: if_True)
  qed
  show ?thesis
  proof (cases "min a s \<ge> dCurTime d")
    case True
    show ?thesis unfolding processNextEventsRealtime_def assms bindo_simps prod.case Let_def e [OF True] ..
  next
    case False
    then show ?thesis unfolding processNextEventsRealtime_def assms bindo_simps prod.case Let_def by (simp only: simp_thms if_True)
  qed
qed

lemma advance_and_processRealtime:
  assumes "idle d" "T < Ever"
  shows "\<exists>n r. (\<forall>fuel \<ge> n. bindo (Some (advanceTime env T d)) (\<lambda>d1. bindo (processLoopRealtime env fuel T d1) (\<lambda>(d2, next).
      Some (Inr (next, d2)))) = Some r) \<and>
    (\<forall>next d'. r = Inr (next, d') \<longrightarrow> idle d' \<and> dCurTime d' < next)"
proof (cases "advanceTime env T d")
  case (Inl p)
  then show ?thesis by (intro exI [of _ 0] exI [of _ "Inl p"]) simp
next
  case (Inr d1)
  from advanceTime_view [OF this] processLoopRealtime_returns [OF assms(1) _ assms(2), of d1 env] obtain n r where
    r: "\<And>fuel. fuel \<ge> n \<Longrightarrow> processLoopRealtime env fuel T d1 = Some r"
      "\<And>d' next. r = Inr (d', next) \<Longrightarrow> idle d' \<and> dCurTime d' = T \<and> T < next \<and> nothing_due T d'"
    by blast
  show ?thesis
  proof (cases r)
    case (Inl p)
    with r(1) Inr show ?thesis by (intro exI [of _ n] exI [of _ "Inl p"]) simp
  next
    case (Inr x)
    obtain d2 t where x: "x = (d2, t)" by (cases x)
    with Inr r(2) have "idle d2 \<and> dCurTime d2 < t" by simp
    with Inr x r(1) \<open>advanceTime env T d = Inr d1\<close> show ?thesis
      by (intro exI [of _ n] exI [of _ "Inr (t, d2)"]) simp
  qed
qed

text \<open>
  C29. In real time the processing of events ends as well, under the same conditions, and the time that it returns, at which the timer of the
  main loop fires next, is never one that has been reached: it is later than the time of the simulation, so the main loop does not spin.
\<close>

theorem processNextEventsRealtime_returns:
  assumes "idle d" "simTime + RealtimeMaxMoveAheadUs < Ever" "simTime \<le> simTime + RealtimeMaxMoveAheadUs"
  shows "\<exists>n r. (\<forall>fuel \<ge> n. processNextEventsRealtime env fuel simTime d = Some r) \<and>
    (\<forall>next d'. r = Inr (next, d') \<longrightarrow> idle d' \<and> dCurTime d' < next)"
proof -
  obtain a s where t: "nextTimes d = Inr (a, s)" using nextTimes_ok [of d] assms(1) by (auto simp: idle_def)
  note unf = processNextEventsRealtime_unfold [OF t, of env _ simTime]
  consider (bad) "\<not> min a s \<ge> dCurTime d" | (later) "min a s \<ge> dCurTime d" "min a s > simTime + RealtimeMaxMoveAheadUs"
    | (due) "min a s \<ge> dCurTime d" "\<not> min a s > simTime + RealtimeMaxMoveAheadUs" by blast
  then show ?thesis
  proof cases
    case bad
    then have "processNextEventsRealtime env fuel simTime d = Some (Inl AssertFailed)" for fuel unfolding unf by (simp only: simp_thms if_True)
    then show ?thesis by (intro exI [of _ 0] exI [of _ "Inl AssertFailed"]) simp
  next
    case later
    have "simTime < min a s" using assms(3) later(2) by (rule le_less_trans)
    then have "idle d' \<and> dCurTime d' < next" if "bindr (advanceTime env simTime d) (\<lambda>d1. Inr (min a s, d1)) = Inr (next, d')" for "next" d'
      using that idle_advanceTime [OF assms(1), of env simTime] advanceTime_view [of env simTime d d']
      by (auto simp: bindr_eq_Inr_iff view_def)
    moreover from later have "processNextEventsRealtime env fuel simTime d = Some (bindr (advanceTime env simTime d) (\<lambda>d1. Inr (min a s, d1)))" for fuel
      unfolding unf by (simp only: simp_thms if_True if_False)
    ultimately show ?thesis by blast
  next
    case due
    then have e: "processNextEventsRealtime env fuel simTime d = bindo (Some (advanceTime env (min a s) d))
       (\<lambda>d1. bindo (processLoopRealtime env fuel (min a s) d1) (\<lambda>(d2, next). Some (Inr (next, d2))))" for fuel
      unfolding unf by (simp only: simp_thms if_True if_False)
    have "min a s < Ever" using due(2) assms(2) by (meson le_less_trans not_less)
    from advance_and_processRealtime [OF assms(1) this, of env] show ?thesis unfolding e by blast
  qed
qed

section \<open>Witnesses\<close>

text \<open>A dispatcher with one node that has no alarm.\<close>

lemma exampleIdle:
  "\<exists>d node. idle d \<and> nothing_past d \<and> dNodes d = [1 \<mapsto> node] \<and> dnCurTime node = 0 \<and> dnConn node = None \<and> dCurTime d = 0 \<and> dPauseTime d = 0 \<and>
     dSpeedStartTime d = 0 \<and> nextTimes d = Inr (Ever, Ever)"
proof -
  obtain d0 where d0: "NewDispatcher None exampleOpenPcap exampleMem DefaultConfig = Inr d0" using exampleStart by auto
  obtain am0 where am0: "newAlarmMgr = Inr am0" "am_inv am0" "am_abs am0 = Map.empty" using newAlarmMgr_refines by auto
  obtain am where am: "alarmMgr_AddNode am0 1 = Inr am" "am_inv am" "am_abs am = [1 \<mapsto> Ever]" using AddNode_refines [OF am0(2), of 1] am0(3) by auto
  obtain node rn where n: "newNode 0 0 1 exampleConfig = Inr (node, rn)" "dnCurTime node = 0" "dnConn node = None"
    by (auto simp: newNode_def exampleConfig_def)
  have q: "newSendQueue = Inr []" "sq_inv []" using newSendQueue_refines by auto
  let ?d = "d0\<lparr>dNodes := [1 \<mapsto> node], dAlarmMgr := am\<rparr>"
  have f: "dCurTime d0 = 0" "dPauseTime d0 = 0" "dSpeedStartTime d0 = 0" "dEventQueue d0 = []"
    using d0 unfolding NewDispatcher_def am0(1) q(1) by (auto simp: res_simps emit_def)
  have "alarmMgr_NextTimestamp am = Inr Ever" using NextTimestamp_refines [OF am(2)] am(3) by (auto simp: next_of_def)
  then have "nextTimes ?d = Inr (Ever, Ever)" by (simp add: nextTimes_def f sendQueue_NextTimestamp_def)
  moreover have "idle ?d" "nothing_past ?d" using am n q(2) f by (auto simp: idle_def nothing_past_def split: if_splits)
  ultimately show ?thesis using n f by (intro exI [of _ ?d] exI [of _ node]) simp
qed

theorem processNextEvents_returns_witness:
  "\<exists>d n r. idle d \<and> dNodes d 1 \<noteq> None \<and> (\<exists>fuel. n \<le> fuel \<and> processNextEvents exampleEnv fuel 1 d = Some r)"
proof -
  obtain d where d: "idle d" "dPauseTime d = 0" "dNodes d 1 \<noteq> None" using exampleIdle by auto
  then show ?thesis using processNextEvents_returns [of d exampleEnv 1] by fastforce
qed

theorem processNextEventsRealtime_returns_witness:
  "\<exists>d n r. idle d \<and> dNodes d 1 \<noteq> None \<and> (\<exists>fuel. n \<le> fuel \<and> processNextEventsRealtime exampleEnv fuel 50 d = Some r)"
proof -
  obtain d where d: "idle d" "dNodes d 1 \<noteq> None" using exampleIdle by auto
  then show ?thesis using processNextEventsRealtime_returns [of d 50 exampleEnv] by fastforce
qed


theorem zero_delay_livelock_witness:
  "\<exists>d d'. idle d \<and> nothing_past d \<and> HandleEvent exampleEnv (\<lambda>i d. Inr (False, d)) (zeroEvent\<lparr>evNodeId := 1, evType := EventTypeAlarmFired\<rparr>) d = Inr d' \<and>
     processNextEvents exampleEnv 1000 1 d' = None"
proof -
  obtain d node where d: "idle d" "nothing_past d" "dNodes d = [1 \<mapsto> node]" "dnCurTime node = 0" "dnConn node = None" "dCurTime d = 0"
      "dPauseTime d = 0" "dSpeedStartTime d = 0"
    using exampleIdle by blast
  let ?e = "zeroEvent\<lparr>evNodeId := 1, evType := EventTypeAlarmFired\<rparr>"
  have am: "am_inv (dAlarmMgr d)" "dom (alarms d) = {1}" using d(1,3) by (auto simp: idle_def)
  have "alarms d 1 \<noteq> None" using am(2) by auto
  from SetTimestamp_refines [OF am(1) this, of 0] obtain am1 where "alarmMgr_SetTimestamp (dAlarmMgr d) 1 0 = Inr am1" by auto
  then obtain d' where d': "HandleEvent exampleEnv (\<lambda>i d. Inr (False, d)) ?e d = Inr d'"
    using d by (cases "dnMsgId node = 0") (simp_all add: HandleEvent_def handleNodeEvent_def set_node_def setSleeping_def Let_def zeroEvent_def)
  have "processNextEvents exampleEnv 1000 1 d' = None"
    by (rule zero_delay_livelock [OF d(1,2) _ _ _ _ _ _ _ _ _ _ d', of 1 1 node])
      (use d in \<open>auto simp: zeroEvent_def exampleEnv_def split: if_splits\<close>)
  with d(1,2) d' show ?thesis by blast
qed

end
