(* ===== verification/Dispatcher_Delivery.thy ===== *)
theory Dispatcher_Delivery
  imports Dispatcher_Progress
begin

text \<open>
  The delivery of radio frames (\<^verbatim>\<open>sendRadioCommRxDoneEvents\<close>, \<^verbatim>\<open>sendOneRadioFrame\<close> and
  \<^verbatim>\<open>sendEvent\<close>): which nodes get a frame that was transmitted, and what is written to their sockets.
\<close>

section \<open>What is written to the sockets\<close>

definition connWrites :: "Dispatcher \<Rightarrow> (nat \<times> bytes) list" where
  "connWrites d = List.map_filter (\<lambda>out. case out of ConnWrite c b \<Rightarrow> Some (c, b) | _ \<Rightarrow> None) (dOut d)"

lemma connWrites_simps [simp]:
  "connWrites (emit out d) = connWrites d @ (case out of ConnWrite c b \<Rightarrow> [(c, b)] | _ \<Rightarrow> [])"
  "connWrites (set_node i n d) = connWrites d" "connWrites (draw d) = connWrites d" "connWrites (upd_counters f d) = connWrites d"
  "connWrites (d\<lparr>dAlarmMgr := am\<rparr>) = connWrites d" "connWrites (d\<lparr>dEventQueue := q\<rparr>) = connWrites d"
  "connWrites (d\<lparr>dAliveNodes := A\<rparr>) = connWrites d" "connWrites (d\<lparr>dRadioModel := rm\<rparr>) = connWrites d"
  "connWrites (d\<lparr>dRmem := mem\<rparr>) = connWrites d"
  by (auto simp: connWrites_def emit_def set_node_def draw_def map_filter_def split: Output.splits)

text \<open>\<open>changed S d d'\<close>: an operation that led from \<open>d\<close> to \<open>d'\<close> changed no nodes but those in \<open>S\<close>, and of
  these neither the connection nor the radio node, and left the radio alone.\<close>

definition links :: "Dispatcher \<Rightarrow> NodeId \<rightharpoonup> rptr \<times> nat option" where
  "links d = (\<lambda>i. map_option (\<lambda>n. (dnRadioNode n, dnConn n)) (dNodes d i))"

definition changed :: "NodeId set \<Rightarrow> Dispatcher \<Rightarrow> Dispatcher \<Rightarrow> bool" where
  "changed S d d' \<longleftrightarrow> (\<forall>j. j \<notin> S \<longrightarrow> dNodes d' j = dNodes d j) \<and> links d' = links d \<and> dRmem d' = dRmem d \<and> dRadioModel d' = dRadioModel d \<and>
     dCurTime d' = dCurTime d \<and> dGlobalPacketLossRatio d' = dGlobalPacketLossRatio d"

lemma changed_refl [simp]: "changed S d d"
  by (simp add: changed_def)

lemma changed_trans: "changed S d d1 \<Longrightarrow> changed T d1 d2 \<Longrightarrow> changed (S \<union> T) d d2"
  by (auto simp: changed_def)

lemma changed_same: "changed S d d1 \<Longrightarrow> changed S d1 d2 \<Longrightarrow> changed S d d2"
  using changed_trans [of S d d1 S d2] by simp

lemma changed_irrelevant [simp]:
  "changed S d (emit out d') = changed S d d'" "changed S d (draw d') = changed S d d'" "changed S d (upd_counters f d') = changed S d d'"
  "changed S d (d'\<lparr>dAlarmMgr := am\<rparr>) = changed S d d'" "changed S d (d'\<lparr>dEventQueue := q\<rparr>) = changed S d d'"
  "changed S d (d'\<lparr>dAliveNodes := A\<rparr>) = changed S d d'" "changed S (draw d) d' = changed S d d'"
  by (simp_all add: changed_def links_def emit_def draw_def)

lemma links_set_node:
  "dNodes d i = Some n \<Longrightarrow> dnRadioNode n1 = dnRadioNode n \<Longrightarrow> dnConn n1 = dnConn n \<Longrightarrow> links (set_node i n1 d) = links d"
  by (auto simp: links_def set_node_def)

lemma changed_set_node:
  "dNodes d' i = Some n \<Longrightarrow> dnRadioNode n1 = dnRadioNode n \<Longrightarrow> dnConn n1 = dnConn n \<Longrightarrow> changed {i} d d' \<Longrightarrow>
    changed {i} d (set_node i n1 d')"
  using links_set_node [of d' i n n1] by (auto simp: changed_def set_node_def)

section \<open>Sending an event\<close>

text \<open>The generator draws failure times in the range that the failure control asks for.\<close>

definition draws_ok :: "Env \<Rightarrow> bool" where
  "draws_ok env \<longleftrightarrow> (\<forall>k ft. FailTime_CanFail ft \<longrightarrow> ft_ok ft \<longrightarrow> draw_ok ft (envFail env k ft))"

text \<open>A node that can receive: it is connected and known to the alarm manager, its clock is not ahead, and its failure
  control is in order.\<close>

definition receiver :: "Dispatcher \<Rightarrow> NodeId \<Rightarrow> bool" where
  "receiver d i \<longleftrightarrow> am_abs (dAlarmMgr d) i \<noteq> None \<and>
     (case dNodes d i of None \<Rightarrow> False
      | Some n \<Rightarrow> dnConn n \<noteq> None \<and> dnCurTime n \<le> dCurTime d \<and> fc_inv (dnIsFailed n) (dnFailureCtrl n))"

definition queues_ok :: "Dispatcher \<Rightarrow> bool" where
  "queues_ok d \<longleftrightarrow> am_inv (dAlarmMgr d) \<and> sq_inv (dEventQueue d)"

lemma apply_failure_effect:
  assumes "dNodes d i = Some n"
  shows "\<exists>d'. apply_failure i fc failed d = Inr d' \<and> changed {i} d d' \<and> connWrites d' = connWrites d \<and>
    dAlarmMgr d' = dAlarmMgr d \<and> dEventQueue d' = dEventQueue d"
  using assms by (auto simp: apply_failure_def Node_Fail_def Node_Recover_def changed_def links_def set_node_def emit_def connWrites_def
      map_filter_def Let_def)

lemma OnTimeAdvanced_total:
  assumes "fc_inv failed fc" "old < cur" "draws_ok env"
  shows "\<exists>fc' f' ts u. FailureCtrl_OnTimeAdvanced (envFail env k (fcFailTime fc)) cur failed fc old = Inr (fc', f', ts, u)"
proof (cases "FailTime_CanFail (fcFailTime fc)")
  case True
  then have "draw_ok (fcFailTime fc) (envFail env k (fcFailTime fc))" using assms(1,3) by (simp add: fc_inv_def draws_ok_def)
  from OnTimeAdvanced_inv [OF assms(1,2) this] show ?thesis by blast
next
  case False
  then show ?thesis by (intro exI) (simp add: FailureCtrl_OnTimeAdvanced_def)
qed

lemma reEvaluateFailure_effect:
  assumes "dNodes d i = Some n" "fc_inv (dnIsFailed n) (dnFailureCtrl n)" "old < dnCurTime n" "draws_ok env" "queues_ok d"
  shows "\<exists>d'. reEvaluateFailure env i old d = Inr d' \<and> changed {i} d d' \<and> connWrites d' = connWrites d \<and>
    dAlarmMgr d' = dAlarmMgr d \<and> queues_ok d'"
proof -
  obtain fc f ts u where f: "FailureCtrl_OnTimeAdvanced (envFail env (dDraws d) (fcFailTime (dnFailureCtrl n))) (dnCurTime n)
      (dnIsFailed n) (dnFailureCtrl n) old = Inr (fc, f, ts, u)"
    using OnTimeAdvanced_total [OF assms(2,3,4)] by blast
  have "dNodes (draw d) i = Some n" using assms(1) by (simp add: draw_def)
  from apply_failure_effect [OF this, of fc f] obtain d1 where
    d1: "apply_failure i fc f (draw d) = Inr d1" "changed {i} (draw d) d1" "connWrites d1 = connWrites d" "dAlarmMgr d1 = dAlarmMgr d"
      "dEventQueue d1 = dEventQueue d"
    by (auto simp: draw_def connWrites_def)
  have c: "changed {i} d d1" using d1(2) by (simp add: changed_def links_def draw_def)
  obtain q where q: "sendQueue_Add (dEventQueue d1) (wakeEvent i ts) = Inr q" "sq_inv q"
    using Add_time [of "dEventQueue d1" "wakeEvent i ts"] assms(5) d1(5) by (auto simp: queues_ok_def)
  show ?thesis
    using assms(1,5) f d1 c q by (cases u) (auto simp: reEvaluateFailure_def queues_ok_def)
qed

lemma deliverEvent_effect:
  assumes "dNodes d i = Some n" "dnConn n = Some c"
  shows "\<exists>d'. deliverEvent env i e d = Inr d' \<and> changed {i} d d' \<and> connWrites d' = connWrites d @ [(c, Event_Serialize e)] \<and>
    dAlarmMgr d' = dAlarmMgr d \<and> dEventQueue d' = dEventQueue d"
proof (cases "envWrite env i (evMsgId e)")
  case None
  then show ?thesis
    using assms by (auto simp: deliverEvent_def sendRawData_def setAlive_def emit_def changed_def links_def connWrites_def map_filter_def)
next
  case (Some r)
  then show ?thesis
    using assms by (cases r) (auto simp: deliverEvent_def sendRawData_def DisconnectSocket_def emit_def set_node_def changed_def links_def
      connWrites_def map_filter_def)
qed

text \<open>The event as it is written to the socket of a node: with the next message number and the delay since its clock.\<close>

definition stamped :: "NodeId \<Rightarrow> Event \<Rightarrow> Dispatcher \<Rightarrow> Event" where
  "stamped i e d = (case dNodes d i of
     None \<Rightarrow> e
   | Some n \<Rightarrow> e\<lparr>evNodeId := i, evMsgId := dnMsgId n + 1, evDelay := evTimestamp e - dnCurTime n\<rparr>)"

definition connOf :: "Dispatcher \<Rightarrow> NodeId \<Rightarrow> nat" where
  "connOf d i = (case links d i of Some (_, Some c) \<Rightarrow> c | _ \<Rightarrow> 0)"

lemma sendEvent_effect:
  assumes "receiver d i" "evTimestamp e = dCurTime d" "draws_ok env" "queues_ok d"
  shows "\<exists>d'. sendEvent env i e d = Inr d' \<and> changed {i} d d' \<and> connWrites d' = connWrites d @ [(connOf d i, Event_Serialize (stamped i e d))] \<and>
    am_abs (dAlarmMgr d') = (am_abs (dAlarmMgr d))(i \<mapsto> Ever) \<and> queues_ok d'"
proof -
  obtain n c where n: "dNodes d i = Some n" "dnConn n = Some c" "dnCurTime n \<le> dCurTime d" "fc_inv (dnIsFailed n) (dnFailureCtrl n)"
    using assms(1) by (auto simp: receiver_def split: option.splits)
  obtain am where am: "alarmMgr_SetNotified (dAlarmMgr d) i = Inr am" "am_inv am" "am_abs am = (am_abs (dAlarmMgr d))(i \<mapsto> Ever)"
    using SetTimestamp_refines [of "dAlarmMgr d" i Ever] assms(1,4) by (auto simp: alarmMgr_SetNotified_def receiver_def queues_ok_def)
  define n1 where "n1 = n\<lparr>dnMsgId := dnMsgId n + 1, dnCurTime := dCurTime d\<rparr>"
  define d1 where "d1 = set_node i n1 (d\<lparr>dAlarmMgr := am\<rparr>)"
  have d1: "dNodes d1 i = Some n1" "changed {i} d d1" "connWrites d1 = connWrites d" "dAlarmMgr d1 = am" "queues_ok d1"
    using n(1) am(2) assms(4)
    by (auto simp: d1_def n1_def set_node_def changed_def links_def connWrites_def queues_ok_def)
  obtain d2 where d2: "(if dCurTime d > dnCurTime n then reEvaluateFailure env i (dnCurTime n) d1 else Inr d1) = Inr d2"
    "changed {i} d1 d2" "connWrites d2 = connWrites d" "dAlarmMgr d2 = am" "queues_ok d2"
  proof (cases "dCurTime d > dnCurTime n")
    case True
    with reEvaluateFailure_effect [OF d1(1) _ _ assms(3) d1(5), of "dnCurTime n"] d1 n(4) that show thesis by (auto simp: n1_def)
  next
    case False
    with d1 that [of d1] show thesis by simp
  qed
  have "links d2 i = links d i" using d1(2) d2(2) by (simp add: changed_def)
  then obtain n2 where n2: "dNodes d2 i = Some n2" "dnConn n2 = Some c" using n by (auto simp: links_def)
  from deliverEvent_effect [OF n2, of env "stamped i e d"] obtain d' where
    d': "deliverEvent env i (stamped i e d) d2 = Inr d'" "changed {i} d2 d'"
      "connWrites d' = connWrites d @ [(c, Event_Serialize (stamped i e d))]" "dAlarmMgr d' = am" "dEventQueue d' = dEventQueue d2"
    using d2(3,4) by auto
  have "sendEvent env i e d = Inr d'"
    using d2(1) d'(1) n(1) am(1) assms(2)
    by (cases "dCurTime d > dnCurTime n") (simp_all add: sendEvent_def Let_def d1_def n1_def stamped_def set_node_def)
  moreover have "changed {i} d d'" using d1(2) d2(2) d'(2) changed_same by blast
  moreover have "connOf d i = c" using n by (simp add: connOf_def links_def)
  ultimately show ?thesis using d' d2(4,5) am(3) by (auto simp: queues_ok_def)
qed

section \<open>Dispatching a frame\<close>

text \<open>
  The nodes a frame is addressed to: the owner of an extended address, all nodes with a short address, or everyone.
\<close>

definition recipients :: "MacFrame \<Rightarrow> Dispatcher \<Rightarrow> NodeId list" where
  "recipients f d =
    (let mode = FrameControl_DestAddrMode (mfFrameControl f) in
     if mode = AddrModeExtended then (case dExtaddrMap d (mfDstAddrExtended f) of Some i \<Rightarrow> [i] | None \<Rightarrow> [])
     else if mode = AddrModeShort \<and> mfDstAddrShort f \<noteq> BroadcastRloc16 then dRloc16Map d (mfDstAddrShort f)
     else dNodesArray d)"

text \<open>
  With the ideal radio model a node hears a frame if it is not the sender, is not failed, and is listening on the channel of the sender
  within its range. The event it gets carries the received power.
\<close>

definition radioOf :: "Dispatcher \<Rightarrow> NodeId \<Rightarrow> rptr" where
  "radioOf d i = (case links d i of Some (p, _) \<Rightarrow> p | None \<Rightarrow> 0)"

definition hears :: "Dispatcher \<Rightarrow> NodeId \<Rightarrow> NodeId \<Rightarrow> bool" where
  "hears d src i \<longleftrightarrow> i \<noteq> src \<and> Ideal_CheckRadioReachable (dRmem d) (radioOf d src) (radioOf d i) \<and>
     (case dNodes d i of Some n \<Rightarrow> \<not> dnIsFailed n | None \<Rightarrow> False)"

definition rxEvent :: "RadioModelIdeal \<Rightarrow> Dispatcher \<Rightarrow> NodeId \<Rightarrow> Event \<Rightarrow> NodeId \<Rightarrow> Event" where
  "rxEvent rm d src e i = stamped i (set_PowerDbm (e\<lparr>evNodeId := i\<rparr>)
     (clipRssi (Ideal_GetTxRssi rm (dRmem d (radioOf d src)) (dRmem d (radioOf d i))))) d"

lemma draw_irrelevant [simp]:
  "receiver (draw d) i = receiver d i" "queues_ok (draw d) = queues_ok d" "connOf (draw d) i = connOf d i"
  "stamped i e (draw d) = stamped i e d"
  by (simp_all add: receiver_def queues_ok_def connOf_def stamped_def links_def draw_def cong: option.case_cong)

lemma same_radio: "dRadioModel d = Some rm \<Longrightarrow> d\<lparr>dRadioModel := Some rm\<rparr> = d"
  by simp

lemma checkRadioReachable_ideal:
  assumes "dRadioModel d = Some (RMIdeal rm)" "dNodes d src \<noteq> None" "dNodes d i \<noteq> None" "src \<noteq> i"
  shows "checkRadioReachable env src i d = Inr (Ideal_CheckRadioReachable (dRmem d) (radioOf d src) (radioOf d i), d)"
  using assms same_radio [OF assms(1)] by (auto simp: checkRadioReachable_def radioOf_def links_def)

lemma dispatchEvent_ideal:
  assumes "dRadioModel d = Some (RMIdeal rm)" "evType e = EventTypeRadioRxDone"
  shows "dispatchEvent env p q i e d = sendEvent env i (set_PowerDbm e (clipRssi (Ideal_GetTxRssi rm (dRmem d p) (dRmem d q)))) (draw d)"
  using assms by (simp add: dispatchEvent_def onEventDispatch_def Ideal_OnEventDispatch_def addEvents_def same_radio [OF assms(1)])

lemma sendOneRadioFrame_ideal:
  assumes "dRadioModel d = Some (RMIdeal rm)" "\<not> dGlobalPacketLossRatio d > 0" "evType e = EventTypeRadioRxDone"
    "dNodes d src \<noteq> None" "dNodes d i = Some n" "\<not> dnIsFailed n" "src \<noteq> i"
  shows "sendOneRadioFrame env e src i d = sendEvent env i (set_PowerDbm (e\<lparr>evNodeId := i\<rparr>)
     (clipRssi (Ideal_GetTxRssi rm (dRmem d (radioOf d src)) (dRmem d (radioOf d i))))) (draw d)"
proof -
  obtain s where s: "dNodes d src = Some s" using assms(4) by auto
  have t: "evType (e\<lparr>evNodeId := i\<rparr>) = EventTypeRadioRxDone" using assms(3) by simp
  have r: "radioOf d src = dnRadioNode s" "radioOf d i = dnRadioNode n" using s assms(5) by (simp_all add: radioOf_def links_def)
  show ?thesis
    using assms s by (simp add: sendOneRadioFrame_def Event_Copy_def Let_def r dispatchEvent_ideal [OF assms(1) t])
qed

lemma sendIfReachable_ideal:
  assumes "dRadioModel d = Some (RMIdeal rm)" "\<not> dGlobalPacketLossRatio d > 0" "evType e = EventTypeRadioRxDone"
    "evTimestamp e = dCurTime d" "draws_ok env" "queues_ok d" "dNodes d src \<noteq> None" "i = src \<or> receiver d i"
  shows "\<exists>d' R'. sendIfReachable env e src i (d, R) = Inr (d', R') \<and> changed {i} d d' \<and> queues_ok d' \<and>
    connWrites d' = connWrites d @ (if hears d src i then [(connOf d i, Event_Serialize (rxEvent rm d src e i))] else []) \<and>
    (\<forall>j. j \<noteq> i \<longrightarrow> am_abs (dAlarmMgr d') j = am_abs (dAlarmMgr d) j)"
proof (cases "i = src")
  case True
  then show ?thesis using assms(6) by (simp add: sendIfReachable_def checkRadioReachable_def hears_def)
next
  case False
  then have rc: "receiver d i" using assms(8) by simp
  then obtain n where n: "dNodes d i = Some n" by (auto simp: receiver_def split: option.splits)
  have c: "checkRadioReachable env src i d = Inr (Ideal_CheckRadioReachable (dRmem d) (radioOf d src) (radioOf d i), d)"
    using checkRadioReachable_ideal [OF assms(1,7)] n False by simp
  show ?thesis
  proof (cases "hears d src i")
    case True
    then have nf: "\<not> dnIsFailed n" and ok: "Ideal_CheckRadioReachable (dRmem d) (radioOf d src) (radioOf d i)"
      using n by (auto simp: hears_def)
    let ?e = "set_PowerDbm (e\<lparr>evNodeId := i\<rparr>) (clipRssi (Ideal_GetTxRssi rm (dRmem d (radioOf d src)) (dRmem d (radioOf d i))))"
    have "evTimestamp ?e = dCurTime (draw d)" using assms(4) by (simp add: set_PowerDbm_def draw_def)
    from sendEvent_effect [OF _ this assms(5), of i] rc assms(6) obtain d' where
      d': "sendEvent env i ?e (draw d) = Inr d'" "changed {i} d d'"
        "connWrites d' = connWrites d @ [(connOf d i, Event_Serialize (rxEvent rm d src e i))]"
        "am_abs (dAlarmMgr d') = (am_abs (dAlarmMgr d))(i \<mapsto> Ever)" "queues_ok d'"
      by (auto simp: rxEvent_def)
    show ?thesis
      using True d' c ok sendOneRadioFrame_ideal [OF assms(1,2,3,7) n nf] False by (simp add: sendIfReachable_def)
  next
    case False
    then have "\<not> Ideal_CheckRadioReachable (dRmem d) (radioOf d src) (radioOf d i) \<or> dnIsFailed n"
      using n \<open>i \<noteq> src\<close> by (simp add: hears_def)
    moreover have "sendOneRadioFrame env e src i d = Inr d" if "dnIsFailed n"
      using that assms(3,7) n \<open>i \<noteq> src\<close> by (auto simp: sendOneRadioFrame_def)
    ultimately show ?thesis
      using False c assms(6) by (cases "Ideal_CheckRadioReachable (dRmem d) (radioOf d src) (radioOf d i)") (auto simp: sendIfReachable_def)
  qed
qed

text \<open>A later recipient sees nothing of the delivery to an earlier one.\<close>

lemma changed_view:
  assumes "changed {i} d d'" "j \<noteq> i"
  shows "connOf d' j = connOf d j" "hears d' src j = hears d src j" "rxEvent rm d' src e j = rxEvent rm d src e j"
  using assms by (simp_all add: changed_def connOf_def hears_def rxEvent_def stamped_def radioOf_def cong: option.case_cong)

lemma changed_receiver:
  assumes "changed {i} d d'" "j \<noteq> i" "am_abs (dAlarmMgr d') j = am_abs (dAlarmMgr d) j"
  shows "receiver d' j = receiver d j"
  using assms by (simp add: receiver_def changed_def cong: option.case_cong)

lemma changed_src: "changed S d d' \<Longrightarrow> dNodes d' src \<noteq> None \<longleftrightarrow> dNodes d src \<noteq> None"
proof -
  assume "changed S d d'"
  then have "links d' src = links d src" by (simp add: changed_def)
  then show ?thesis by (cases "dNodes d src"; cases "dNodes d' src") (simp_all add: links_def)
qed

lemma sendToAll_ideal:
  assumes "dRadioModel d = Some (RMIdeal rm)" "\<not> dGlobalPacketLossRatio d > 0" "evType e = EventTypeRadioRxDone"
    "evTimestamp e = dCurTime d" "draws_ok env" "queues_ok d" "dNodes d src \<noteq> None" "\<forall>i \<in> set dsts. i = src \<or> receiver d i" "distinct dsts"
  shows "\<exists>d' R'. foldr_res (sendIfReachable env e src) dsts (d, R) = Inr (d', R') \<and>
    connWrites d' = connWrites d @ map (\<lambda>i. (connOf d i, Event_Serialize (rxEvent rm d src e i))) (filter (hears d src) dsts)"
  using assms
proof (induction dsts arbitrary: d R)
  case Nil
  then show ?case by simp
next
  case (Cons i dsts)
  have i: "i = src \<or> receiver d i" "i \<notin> set dsts" "distinct dsts" using Cons.prems(8,9) by auto
  from sendIfReachable_ideal [OF Cons.prems(1-7) i(1), of R] obtain d1 R1 where
    d1: "sendIfReachable env e src i (d, R) = Inr (d1, R1)" "changed {i} d d1" "queues_ok d1"
      "connWrites d1 = connWrites d @ (if hears d src i then [(connOf d i, Event_Serialize (rxEvent rm d src e i))] else [])"
      "\<forall>j. j \<noteq> i \<longrightarrow> am_abs (dAlarmMgr d1) j = am_abs (dAlarmMgr d) j"
    by blast
  have ne: "j \<noteq> i" if "j \<in> set dsts" for j using i(2) that by auto
  note v = changed_view [OF d1(2)]
  have p: "dRadioModel d1 = Some (RMIdeal rm)" "\<not> dGlobalPacketLossRatio d1 > 0" "evTimestamp e = dCurTime d1"
    using d1(2) Cons.prems(1,2,4) by (simp_all add: changed_def)
  have r: "\<forall>j \<in> set dsts. j = src \<or> receiver d1 j"
  proof
    fix j assume j: "j \<in> set dsts"
    from ne [OF this] changed_receiver [OF d1(2)] d1(5) j Cons.prems(8) show "j = src \<or> receiver d1 j" by auto
  qed
  have s: "dNodes d1 src \<noteq> None" using changed_src [OF d1(2)] Cons.prems(7) by blast
  from Cons.IH [OF p(1,2) Cons.prems(3) p(3) Cons.prems(5) d1(3) s r i(3), of R1] obtain d' R' where
    d': "foldr_res (sendIfReachable env e src) dsts (d1, R1) = Inr (d', R')"
      "connWrites d' = connWrites d1 @ map (\<lambda>j. (connOf d1 j, Event_Serialize (rxEvent rm d1 src e j))) (filter (hears d1 src) dsts)"
    by blast
  have "map (\<lambda>j. (connOf d1 j, Event_Serialize (rxEvent rm d1 src e j))) (filter (hears d1 src) dsts) =
      map (\<lambda>j. (connOf d j, Event_Serialize (rxEvent rm d src e j))) (filter (hears d src) dsts)"
    using v [OF ne] by (intro map_cong filter_cong) auto
  with d1(1,4) d' show ?case by simp
qed

lemma sendAndCount_ideal:
  assumes "dRadioModel d = Some (RMIdeal rm)" "\<not> dGlobalPacketLossRatio d > 0" "evType e = EventTypeRadioRxDone"
    "evTimestamp e = dCurTime d" "draws_ok env" "queues_ok d" "dNodes d src \<noteq> None" "\<forall>i \<in> set dsts. i = src \<or> receiver d i" "distinct dsts"
  shows "\<exists>d'. sendAndCount env e src dsts bump d = Inr d' \<and>
    connWrites d' = connWrites d @ map (\<lambda>i. (connOf d i, Event_Serialize (rxEvent rm d src e i))) (filter (hears d src) dsts)"
  using sendToAll_ideal [OF assms, of "{}"] by (auto simp: sendAndCount_def sendToAll_def)

text \<open>The invariant of the dispatcher gives two of the conditions of the property below.\<close>

lemma reg_inv_queues: "reg_inv d \<Longrightarrow> queues_ok d"
  by (simp add: reg_defs queues_ok_def)

lemma reg_inv_recipients: "reg_inv d \<Longrightarrow> distinct (recipients f d)"
  by (auto simp: recipients_def reg_defs rm_inv_def Let_def split: option.splits)

section \<open>Properties\<close>

text \<open>
  C3. With the ideal radio model and no packet loss, a frame whose transmission ends is delivered to exactly the right nodes, and
  nothing panics: of the nodes it is addressed to (the owner of its extended address, all nodes with its
  short address, or all nodes), each one that is not the sender, has not failed and listens on the channel of the sender
  within its range gets one event on its own socket, with the received power, the next message number of the node and
  the time since its last event as delay; nothing is written to any other node. A failed node transmits nothing.
\<close>

theorem ideal_frame_delivery:
  assumes "dRadioModel d = Some (RMIdeal rm)" "\<not> dGlobalPacketLossRatio d > 0" "evType e = EventTypeRadioRxDone"
    "evTimestamp e = dCurTime d" "draws_ok env" "queues_ok d" "dNodes d src = Some s" "wpan_Dissect (evData e) = Inr f"
    "\<forall>i \<in> set (recipients f d). i = src \<or> receiver d i" "distinct (recipients f d)"
  shows "\<exists>d'. sendRadioCommRxDoneEvents env src e d = Inr d' \<and>
    connWrites d' = connWrites d @ (if dnIsFailed s then []
      else map (\<lambda>i. (connOf d i, Event_Serialize (rxEvent rm d src e i))) (filter (hears d src) (recipients f d)))"
proof (cases "dnIsFailed s")
  case True
  then show ?thesis using assms(3,7) by (simp add: sendRadioCommRxDoneEvents_def)
next
  case False
  have src: "dNodes d src \<noteq> None" using assms(7) by simp
  note send = sendAndCount_ideal [OF assms(1-6) src assms(9,10)]
  show ?thesis
  proof (cases "FrameControl_DestAddrMode (mfFrameControl f) = AddrModeExtended")
    case True
    then show ?thesis
      using send False assms(3,7,8)
      by (cases "dExtaddrMap d (mfDstAddrExtended f)") (auto simp: sendRadioCommRxDoneEvents_def recipients_def hears_def Let_def)
  next
    case ne: False
    then show ?thesis
      using send False assms(3,7,8) by (auto simp: sendRadioCommRxDoneEvents_def recipients_def Let_def)
  qed
qed

text \<open>Two nodes, 50 units apart; the first one sends a broadcast frame.\<close>

definition exampleFrameData :: bytes where
  "exampleFrameData = [11, 0x41, 0xd8, 7, 0xce, 0xfa, 0xff, 0xff, 8, 7, 6, 5, 4, 3, 2, 1, 0xaa, 0xbb]"

definition exampleTwoNodes :: "Dispatcher \<Rightarrow> DNode \<Rightarrow> alarmMgr \<Rightarrow> Dispatcher" where
  "exampleTwoNodes d0 n am = d0\<lparr>dNodes := [1 \<mapsto> n\<lparr>dnConn := Some 5\<rparr>, 2 \<mapsto> n\<lparr>dnRadioNode := 1, dnConn := Some 6\<rparr>],
     dNodesArray := [1, 2], dAlarmMgr := am, dRadioModel := Some (RMIdeal (rawIdeal [] newRadioModelParams)),
     dRmem := (\<lambda>p. (exampleMem p)\<lparr>rnRadioState := RadioRx, rnRadioChannel := 11, rnRadioRange := 100\<rparr>)\<rparr>"

lemma exampleFrame_dissect:
  "\<exists>f. wpan_Dissect exampleFrameData = Inr f \<and> FrameControl_DestAddrMode (mfFrameControl f) = AddrModeShort \<and> mfDstAddrShort f = BroadcastRloc16"
proof -
  have "(case wpan_Dissect exampleFrameData of Inl p \<Rightarrow> False
    | Inr f \<Rightarrow> FrameControl_DestAddrMode (mfFrameControl f) = AddrModeShort \<and> mfDstAddrShort f = BroadcastRloc16)"
    by code_simp
  then show ?thesis by (simp split: sum.splits)
qed

lemma exampleTwoNodes_exist:
  "\<exists>(d0 :: Dispatcher) (n :: DNode) am. dCurTime d0 = 0 \<and> dGlobalPacketLossRatio d0 = 0 \<and> dEventQueue d0 = [] \<and> dnCurTime n = 0 \<and> dnRadioNode n = 0 \<and> \<not> dnIsFailed n \<and>
     dnFailureCtrl n = newFailureCtrl NonFailTime \<and> am_inv am \<and> am_abs am = [1 \<mapsto> Ever, 2 \<mapsto> Ever]"
proof -
  obtain d0 where d0: "NewDispatcher None exampleOpenPcap exampleMem DefaultConfig = Inr d0" using exampleStart by auto
  obtain am0 where am0: "newAlarmMgr = Inr am0" "am_inv am0" "am_abs am0 = Map.empty" using newAlarmMgr_refines by auto
  obtain am1 where am1: "am_inv am1" "am_abs am1 = [1 \<mapsto> Ever]" using AddNode_refines [OF am0(2), of 1] am0(3) by auto
  obtain am where am: "am_inv am" "am_abs am = [1 \<mapsto> Ever, 2 \<mapsto> Ever]" using AddNode_refines [OF am1(1), of 2] am1(2) by auto
  obtain n rn where n: "newNode 0 0 1 exampleConfig = Inr (n, rn)" "dnCurTime n = 0" "dnRadioNode n = 0" "\<not> dnIsFailed n"
      "dnFailureCtrl n = newFailureCtrl NonFailTime"
    by (auto simp: newNode_def exampleConfig_def)
  have q: "newSendQueue = Inr []" using newSendQueue_refines by auto
  have "dCurTime d0 = 0" "dGlobalPacketLossRatio d0 = 0" "dEventQueue d0 = []"
    using d0 unfolding NewDispatcher_def am0(1) q by (auto simp: res_simps emit_def)
  with n am show ?thesis by blast
qed

theorem ideal_frame_delivery_witness:
  "\<exists>d d'. receiver d 1 \<and> receiver d 2 \<and> hears d 1 2 \<and>
     sendRadioCommRxDoneEvents exampleEnv 1 (zeroEvent\<lparr>evType := EventTypeRadioRxDone, evData := exampleFrameData\<rparr>) d = Inr d' \<and>
     map fst (connWrites d') = map fst (connWrites d) @ [6]"
proof -
  obtain d0 :: Dispatcher and n :: DNode and am where d0: "dCurTime d0 = 0" "dGlobalPacketLossRatio d0 = 0" "dEventQueue d0 = []" and
    n: "dnCurTime n = 0" "dnRadioNode n = 0" "\<not> dnIsFailed n" "dnFailureCtrl n = newFailureCtrl NonFailTime" and
    am: "am_inv am" "am_abs am = [1 \<mapsto> Ever, 2 \<mapsto> Ever]"
    using exampleTwoNodes_exist by blast
  obtain f where f: "wpan_Dissect exampleFrameData = Inr f" "FrameControl_DestAddrMode (mfFrameControl f) = AddrModeShort"
      "mfDstAddrShort f = BroadcastRloc16"
    using exampleFrame_dissect by blast
  let ?d = "exampleTwoNodes d0 n am" and ?e = "zeroEvent\<lparr>evType := EventTypeRadioRxDone, evData := exampleFrameData\<rparr>"
  note ex = exampleTwoNodes_def
  have fc: "fc_inv False (newFailureCtrl NonFailTime)" by (simp add: fc_inv_def newFailureCtrl_def NonFailTime_def FailTime_CanFail_def)
  have r: "receiver ?d 1" "receiver ?d 2" using n am fc d0 by (simp_all add: receiver_def ex)
  have l: "radioOf ?d 1 = 0" "radioOf ?d 2 = 1" "connOf ?d 2 = 6" using n by (simp_all add: ex radioOf_def connOf_def links_def)
  have "hears ?d 1 2" using l n(3)
    by (simp add: hears_def Ideal_CheckRadioReachable_def RadioNode_GetDistanceTo_def) (simp add: ex exampleMem_def exampleRadioNode_def NewRadioNode_def)
  moreover have "\<not> hears ?d 1 1" by (simp add: hears_def)
  moreover have rec: "recipients f ?d = [1, 2]" using f by (simp add: recipients_def ex)
  moreover have "draws_ok exampleEnv"
    by (auto simp: draws_ok_def exampleEnv_def draw_ok_def ft_ok_def word_gt_0)
  moreover have "queues_ok ?d" using am(1) d0(3) newSendQueue_refines by (simp add: queues_ok_def ex)
  ultimately have "\<exists>d'. sendRadioCommRxDoneEvents exampleEnv 1 ?e ?d = Inr d' \<and> map fst (connWrites d') = map fst (connWrites ?d) @ [6]"
    using ideal_frame_delivery [of ?d "rawIdeal [] newRadioModelParams" ?e exampleEnv 1 "n\<lparr>dnConn := Some 5\<rparr>" f] r l(3) d0 n(3) f(1)
    by (auto simp: zeroEvent_def ex)
  with r \<open>hears ?d 1 2\<close> show ?thesis by blast
qed

end
