(* ===== verification/Ip6_Udp.thy ===== *)
theory Ip6_Udp
  imports Events
begin

text \<open>
  The IPv6/UDP datagrams that the simulator builds for a node (\<^verbatim>\<open>simulation/utils.go\<close> and the header
  type of \<^verbatim>\<open>simulation/types.go\<close>): the serialisers of the two headers, the checksum and
  \<open>createIp6UdpDatagram\<close>. The receiver of RFC 8200 and RFC 768 is written down independently on
  natural numbers (\<open>recvIp6Udp\<close>); the main theorem is that it accepts every datagram the simulator
  builds and gives back its addresses, ports, hop limit and payload.
\<close>

section \<open>Headers\<close>

record UdpHeader =
  uhSrcPort :: u16
  uhDstPort :: u16
  uhLength :: u16
  uhChecksum :: u16

text \<open>The fields of \<^verbatim>\<open>ipv6.Header\<close> that the code sets and reads; they are Go ints and byte slices.\<close>

record Ip6Header =
  ihVersion :: int
  ihTrafficClass :: int
  ihFlowLabel :: int
  ihPayloadLen :: int
  ihNextHeader :: int
  ihHopLimit :: int
  ihSrc :: bytes
  ihDst :: bytes

text \<open>\<^verbatim>\<open>binary.BigEndian.PutUint16/32\<close>.\<close>

definition put_be :: "nat \<Rightarrow> 'a::len word \<Rightarrow> bytes" where
  "put_be n w = rev (put_le n w)"

text \<open>\<^verbatim>\<open>copy(data[off:], src)\<close>: as many bytes as fit are written at offset \<open>off\<close>.\<close>

definition copy_at :: "nat \<Rightarrow> bytes \<Rightarrow> bytes \<Rightarrow> bytes" where
  "copy_at off src data = take off data @ take (length data - off) src @ drop (off + length src) data"

definition serializeIp6Header :: "Ip6Header \<Rightarrow> int \<Rightarrow> bytes" where
  "serializeIp6Header h payloadLen =
    (let data = replicate 40 0;
         data = data[0 := word_of_int (push_bit 4 (ihVersion h)) OR word_of_int (drop_bit 4 (ihTrafficClass h))];
         data = data[1 := word_of_int (push_bit 4 (ihTrafficClass h)) OR word_of_int (drop_bit 16 (ihFlowLabel h))];
         data = copy_at 2 (put_be 2 (word_of_int (ihFlowLabel h) :: u16)) data;
         data = copy_at 4 (put_be 2 (word_of_int payloadLen :: u16)) data;
         data = data[6 := word_of_int (ihNextHeader h)];
         data = data[7 := word_of_int (ihHopLimit h)];
         data = copy_at 8 (ihSrc h) data
     in copy_at 24 (ihDst h) data)"

definition serializeUdpHeader :: "UdpHeader \<Rightarrow> bytes" where
  "serializeUdpHeader h = put_be 2 (uhSrcPort h) @ put_be 2 (uhDstPort h) @ put_be 2 (uhLength h) @
     put_be 2 (uhChecksum h)"

section \<open>The checksum\<close>

text \<open>The loop over pairs of bytes and the odd last byte; \<open>acc\<close> (\<^verbatim>\<open>sum\<close>) is a 32-bit integer that would wrap.\<close>

fun udpSumLoop :: "u32 \<Rightarrow> bytes \<Rightarrow> u32" where
  "udpSumLoop acc (b0 # b1 # data) = udpSumLoop (acc + (push_bit 8 (ucast b0) OR ucast b1)) data"
| "udpSumLoop acc [b0] = acc + push_bit 8 (ucast b0)"
| "udpSumLoop acc [] = acc"

lemma unat_fold_step: "unat ((drop_bit 16 s :: u32) + (s AND 0xffff)) = unat s div 65536 + unat s mod 65536"
proof -
  have hi: "unat (drop_bit 16 s) = unat s div 65536"
    by (simp only: unat_drop_bit_eq) (simp add: drop_bit_eq_div)
  have "(0xffff :: u32) = mask 16" by (simp add: mask_eq_exp_minus_1)
  then have lo: "unat (s AND 0xffff) = unat s mod 65536"
    by (simp only: take_bit_eq_mask [symmetric] unsigned_take_bit_eq) (simp add: take_bit_eq_mod)
  have "unat s < 4294967296" using unsigned_less [of s] by simp
  then have "unat s div 65536 < 65536" by (simp add: less_mult_imp_div_less)
  moreover have "unat s mod 65536 < 65536" by simp
  ultimately have "unat s div 65536 + unat s mod 65536 < 2 ^ LENGTH(32)" by simp
  then show ?thesis
    by (simp add: unat_word_ariths hi lo)
qed

lemma fold_step_decreases: "(s :: u32) > 0xffff \<Longrightarrow> unat s div 65536 + unat s mod 65536 < unat s"
proof -
  assume "s > 0xffff"
  then have "unat s > 65535" by (simp add: word_less_nat_alt)
  then have "unat s div 65536 \<ge> 1" by (simp add: div_greater_zero_iff Suc_le_eq)
  moreover have "unat s = unat s div 65536 * 65536 + unat s mod 65536"
    by (simp only: div_mult_mod_eq)
  ultimately show ?thesis by linarith
qed

text \<open>The loop that folds the carries back into 16 bits.\<close>

function udpFoldLoop :: "u32 \<Rightarrow> u32" where
  "udpFoldLoop acc = (if acc > 0xffff then udpFoldLoop (drop_bit 16 acc + (acc AND 0xffff)) else acc)"
  by auto

termination
  by (relation "measure unat") (auto simp: unat_fold_step fold_step_decreases)

declare udpFoldLoop.simps [simp del]

definition udpPseudoHdr :: "Addr \<Rightarrow> Addr \<Rightarrow> u16 \<Rightarrow> bytes" where
  "udpPseudoHdr srcIp6Addr dstIp6Addr udpLen =
    (copy_field 16 (AsSlice srcIp6Addr) @ copy_field 16 (AsSlice dstIp6Addr) @
     put_be 4 (ucast udpLen :: u32) @ replicate 4 0)[39 := 17]"

definition calcUdpChecksum :: "Addr \<Rightarrow> Addr \<Rightarrow> UdpHeader \<Rightarrow> bytes \<Rightarrow> UdpHeader" where
  "calcUdpChecksum srcIp6Addr dstIp6Addr udpHeader udpPayload =
    (let udpLen = of_nat (length udpPayload + 8);
         pseudoHdr = udpPseudoHdr srcIp6Addr dstIp6Addr udpLen;
         udpHeader = udpHeader\<lparr>uhChecksum := 0\<rparr>;
         data = pseudoHdr @ serializeUdpHeader udpHeader @ udpPayload;
         acc = udpFoldLoop (udpSumLoop 0 data);
         csum = NOT (ucast acc);
         csum = (if csum = 0 then 0xffff else csum)
     in udpHeader\<lparr>uhChecksum := csum\<rparr>)"

definition createIp6UdpDatagram :: "u16 \<Rightarrow> u16 \<Rightarrow> Addr \<Rightarrow> Addr \<Rightarrow> int \<Rightarrow> bytes \<Rightarrow> bytes" where
  "createIp6UdpDatagram srcPort dstPort srcIp6Addr dstIp6Addr hopLimit udpPayload =
    (let udpLen = length udpPayload + 8;
         udpHeader = calcUdpChecksum srcIp6Addr dstIp6Addr
           \<lparr>uhSrcPort = srcPort, uhDstPort = dstPort, uhLength = of_nat udpLen, uhChecksum = 0\<rparr> udpPayload;
         udpHeaderSer = serializeUdpHeader udpHeader;
         ip6Header = \<lparr>ihVersion = 6, ihTrafficClass = 0, ihFlowLabel = 0, ihPayloadLen = int udpLen,
           ihNextHeader = 17, ihHopLimit = hopLimit, ihSrc = AsSlice srcIp6Addr, ihDst = AsSlice dstIp6Addr\<rparr>
     in serializeIp6Header ip6Header (int udpLen) @ udpHeaderSer @ udpPayload)"

section \<open>The receiver of the RFCs\<close>

text \<open>Big-endian numbers and the sum of 16-bit words, on natural numbers, without any wrap-around.\<close>

definition be16 :: "bytes \<Rightarrow> nat" where
  "be16 bs = unat (bs ! 0) * 256 + unat (bs ! 1)"

fun wsum :: "bytes \<Rightarrow> nat" where
  "wsum (b0 # b1 # data) = unat b0 * 256 + unat b1 + wsum data"
| "wsum [b0] = unat b0 * 256"
| "wsum [] = 0"

record UdpMessage =
  umSrc :: bytes
  umDst :: bytes
  umSrcPort :: nat
  umDstPort :: nat
  umHopLimit :: nat
  umPayload :: bytes

text \<open>
  RFC 8200: version 6, payload length of the whole rest, next header 17 (UDP). RFC 768 with the pseudo
  header of RFC 8200: the UDP length is the payload length, the checksum is present (not 0) and the
  one's complement sum of pseudo header and UDP packet is 0, that is the sum is a multiple of 65535.
\<close>

definition recvIp6Udp :: "bytes \<Rightarrow> UdpMessage option" where
  "recvIp6Udp d =
    (let src = take 16 (drop 8 d); dst = take 16 (drop 24 d); udp = drop 40 d;
         udpLen = be16 (drop 4 udp);
         pseudo = src @ dst @ [0, 0, of_nat (udpLen div 256), of_nat udpLen] @ [0, 0, 0, 17]
     in if length d < 48 \<or> unat (d ! 0) div 16 \<noteq> 6 \<or> be16 (drop 4 d) \<noteq> length udp \<or> d ! 6 \<noteq> 17
           \<or> udpLen \<noteq> length udp \<or> be16 (drop 6 udp) = 0 \<or> wsum (pseudo @ udp) mod 65535 \<noteq> 0
        then None
        else Some \<lparr>umSrc = src, umDst = dst, umSrcPort = be16 udp, umDstPort = be16 (drop 2 udp),
               umHopLimit = unat (d ! 7), umPayload = drop 8 udp\<rparr>)"

section \<open>Arithmetic of the checksum\<close>

lemma put_be_2: "put_be 2 (w :: u16) = [ucast (drop_bit 8 w), ucast w]"
  by (simp add: put_be_def put_le_def upt_rec)

lemma put_be_4: "put_be 4 (ucast (w :: u16) :: u32) = [0, 0, ucast (drop_bit 8 w), ucast w]"
proof -
  have "\<not> bit w (k + n)" if "k \<ge> 16" for k n
    using bit_imp_le_length [of w "k + n"] that by auto
  then show ?thesis
    by (simp add: put_be_def put_le_def upt_rec) (auto intro!: bit_word_eqI simp: bit_simps)
qed

lemma unat_hi_lo: "unat (ucast (drop_bit 8 w :: u16) :: u8) * 256 + unat (ucast w :: u8) = unat w"
proof -
  have "unat w < 65536" using unsigned_less [of w] by simp
  then have "unat w div 256 < 256" by (simp add: less_mult_imp_div_less)
  then have "unat (ucast (drop_bit 8 w :: u16) :: u8) = unat w div 256"
    by (simp only: unsigned_ucast_eq unat_drop_bit_eq) (simp add: drop_bit_eq_div take_bit_eq_mod)
  moreover have "unat (ucast w :: u8) = unat w mod 256"
    by (simp add: unsigned_ucast_eq take_bit_eq_mod)
  ultimately show ?thesis by (simp only: div_mult_mod_eq)
qed

lemma be16_put_be [simp]: "be16 (put_be 2 (w :: u16) @ r) = unat w"
  by (simp only: be16_def put_be_2 append.simps nth_Cons_0 nth_Cons_Suc One_nat_def unat_hi_lo)

lemma wsum_put_be [simp]: "wsum (put_be 2 (w :: u16) @ r) = unat w + wsum r"
  by (simp only: put_be_2 append.simps wsum.simps unat_hi_lo)

lemma length_put_be [simp]: "length (put_be n w) = n"
  by (simp add: put_be_def)

lemma wsum_append: "even (length xs) \<Longrightarrow> wsum (xs @ ys) = wsum xs + wsum ys"
  by (induction xs rule: wsum.induct) auto

lemma wsum_bound: "wsum data \<le> 65535 * (length data div 2 + 1)"
proof (induction data rule: wsum.induct)
  case (1 b0 b1 data)
  have "unat b0 < 256" "unat b1 < 256" using unsigned_less [of b0] unsigned_less [of b1] by simp_all
  with 1 show ?case by simp
next
  case (2 b0)
  have "unat b0 < 256" using unsigned_less [of b0] by simp
  then show ?case by simp
qed simp

lemma unat_pair: "unat (push_bit 8 (ucast (b0 :: u8)) OR ucast (b1 :: u8) :: u32) = unat b0 * 256 + unat b1"
proof -
  have l: "unat b0 < 256" "unat b1 < 256" using unsigned_less [of b0] unsigned_less [of b1] by simp_all
  have "(push_bit 8 (ucast b0) OR ucast b1 :: u32) = push_bit 8 (ucast b0) + ucast b1"
    by (rule disjunctive_add [symmetric]) (auto simp: bit_simps dest: bit_imp_le_length)
  moreover have "unat (push_bit 8 (ucast b0) :: u32) = unat b0 * 256"
    using l by (simp only: unsigned_push_bit_eq unsigned_ucast_eq) (simp add: push_bit_eq_mult take_bit_eq_mod)
  moreover have "unat (ucast b1 :: u32) = unat b1"
    using l by (simp add: unsigned_ucast_eq take_bit_eq_mod)
  ultimately show ?thesis using l by (simp add: unat_word_ariths)
qed

lemma unat_single: "unat (push_bit 8 (ucast (b0 :: u8)) :: u32) = unat b0 * 256"
  using unat_pair [of b0 0] by simp

text \<open>The 32-bit sum of the code is the sum of the RFC as long as that fits into 32 bits.\<close>

lemma unat_udpSumLoop: "unat s + wsum data < 2 ^ 32 \<Longrightarrow> unat (udpSumLoop s data) = unat s + wsum data"
proof (induction s data rule: udpSumLoop.induct)
  case (1 s b0 b1 data)
  have "unat (s + (push_bit 8 (ucast b0) OR ucast b1)) = unat s + (unat b0 * 256 + unat b1)"
    using 1(2) by (simp add: unat_word_ariths unat_pair)
  with 1 show ?case by simp
next
  case (2 s b0)
  then show ?case by (simp add: unat_word_ariths unat_single)
qed simp

lemma udpFoldLoop_mod: "unat (udpFoldLoop s) mod 65535 = unat s mod 65535 \<and> unat (udpFoldLoop s) \<le> 65535
    \<and> (udpFoldLoop s = 0 \<longleftrightarrow> s = 0)"
proof (induction s rule: udpFoldLoop.induct)
  case (1 s)
  show ?case
  proof (cases "s > 0xffff")
    case True
    let ?t = "drop_bit 16 s + (s AND 0xffff)"
    have t: "unat ?t = unat s div 65536 + unat s mod 65536" by (rule unat_fold_step)
    have "unat s = (unat s div 65536 + unat s mod 65536) + 65535 * (unat s div 65536)"
      using div_mult_mod_eq [of "unat s" 65536] by linarith
    then have m: "unat s mod 65535 = unat ?t mod 65535"
      using t by (metis mod_mult_self2)
    have "unat s > 65535" using True by (simp add: word_less_nat_alt)
    then have "unat s div 65536 \<ge> 1" by (simp add: div_greater_zero_iff Suc_le_eq)
    then have "?t \<noteq> 0" "s \<noteq> 0" using t True by (auto simp flip: unat_gt_0)
    then show ?thesis using 1 [OF True] m True by (subst (1 2 3) udpFoldLoop.simps) simp
  next
    case False
    then have "udpFoldLoop s = s" by (subst udpFoldLoop.simps) simp
    moreover have "unat s \<le> 65535" using False by (simp add: word_le_nat_alt not_less)
    ultimately show ?thesis by simp
  qed
qed

section \<open>Layout of a datagram\<close>

lemma copy_at_append:
  "length a = off \<Longrightarrow> length b = length src \<Longrightarrow> copy_at off src (a @ b @ c) = a @ src @ c"
  by (simp add: copy_at_def)

lemma serializeIp6Header_layout:
  assumes "length (ihSrc h) = 16" "length (ihDst h) = 16" "ihVersion h = 6" "ihTrafficClass h = 0" "ihFlowLabel h = 0"
    "ihNextHeader h = 17"
  shows "serializeIp6Header h n = [0x60, 0, 0, 0] @ put_be 2 (word_of_int n :: u16) @
    [17, word_of_int (ihHopLimit h)] @ ihSrc h @ ihDst h"
proof -
  let ?hi = "ucast (drop_bit 8 (word_of_int n :: u16)) :: u8" and ?lo = "ucast (word_of_int n :: u16) :: u8"
  have z: "replicate 40 (0 :: u8) = [0, 0, 0, 0, 0, 0, 0, 0] @ replicate 16 0 @ replicate 16 0"
    by (simp add: numeral_eq_Suc)
  have s: "copy_at 8 (ihSrc h) ([0x60, 0, 0, 0, ?hi, ?lo, 17, word_of_int (ihHopLimit h)] @ replicate 16 0 @ replicate 16 0)
    = [0x60, 0, 0, 0, ?hi, ?lo, 17, word_of_int (ihHopLimit h)] @ ihSrc h @ replicate 16 0"
    using assms(1) by (intro copy_at_append) simp_all
  have d: "copy_at 24 (ihDst h) (([0x60, 0, 0, 0, ?hi, ?lo, 17, word_of_int (ihHopLimit h)] @ ihSrc h) @ replicate 16 0 @ [])
    = ([0x60, 0, 0, 0, ?hi, ?lo, 17, word_of_int (ihHopLimit h)] @ ihSrc h) @ ihDst h @ []"
    using assms(1,2) by (intro copy_at_append) simp_all
  have "serializeIp6Header h n = copy_at 24 (ihDst h) (copy_at 8 (ihSrc h)
      ([0x60, 0, 0, 0, ?hi, ?lo, 17, word_of_int (ihHopLimit h)] @ replicate 16 0 @ replicate 16 0))"
    unfolding serializeIp6Header_def z Let_def put_be_2
    using assms(3-6) by (simp add: copy_at_def)
  then show ?thesis using d by (simp only: s put_be_2) simp
qed

lemma put_be_4_nat:
  assumes "n < 65536"
  shows "put_be 4 (ucast (of_nat n :: u16) :: u32) = [0, 0, of_nat (n div 256), of_nat n]"
proof -
  have n: "take_bit 16 n = n" using assms by (simp add: take_bit_eq_mod)
  have "ucast (drop_bit 8 (of_nat n :: u16)) = (of_nat (n div 256) :: u8)"
    using n by (simp only: word_unat_eq_iff unsigned_ucast_eq unat_drop_bit_eq unsigned_of_nat) (simp add: drop_bit_eq_div)
  moreover have "ucast (of_nat n :: u16) = (of_nat n :: u8)"
    using n by (simp only: word_unat_eq_iff unsigned_ucast_eq unsigned_of_nat) simp
  ultimately show ?thesis unfolding put_be_4 by simp
qed

lemma length_serializeUdpHeader [simp]: "length (serializeUdpHeader h) = 8"
  by (simp add: serializeUdpHeader_def)

lemma udpPseudoHdr_layout:
  assumes "length src = 16" "length dst = 16"
  shows "udpPseudoHdr (Addr16 src) (Addr16 dst) w = src @ dst @ put_be 4 (ucast w :: u32) @ [0, 0, 0, 17]"
proof -
  have "(src @ dst @ put_be 4 (ucast w :: u32) @ replicate 4 0)[39 := 17] = src @ dst @ put_be 4 (ucast w :: u32) @ (replicate 4 0)[3 := 17]"
    using assms by (simp add: list_update_append)
  also have "(replicate 4 0 :: bytes)[3 := 17] = [0, 0, 0, 17]" by (simp add: numeral_eq_Suc)
  finally show ?thesis using assms by (simp add: udpPseudoHdr_def copy_field_def)
qed

text \<open>The checksum that \<open>calcUdpChecksum\<close> writes makes the sum of the RFC a multiple of 65535.\<close>

lemma calcUdpChecksum_sum:
  assumes c: "calcUdpChecksum src dst h payload = h'"
    and len: "length payload \<le> 65527" and a: "length (AsSlice src) = 16" "length (AsSlice dst) = 16"
  defines "ps \<equiv> udpPseudoHdr src dst (of_nat (length payload + 8))"
  shows "h' = h\<lparr>uhChecksum := uhChecksum h'\<rparr>" "uhChecksum h' \<noteq> 0"
    "wsum (ps @ serializeUdpHeader h' @ payload) mod 65535 = 0"
proof -
  define d where "d = ps @ serializeUdpHeader (h\<lparr>uhChecksum := 0\<rparr>) @ payload"
  define s where "s = udpFoldLoop (udpSumLoop 0 d)"
  define k :: u16 where "k = (if NOT (ucast s) = (0 :: u16) then 0xffff else NOT (ucast s))"
  have h': "h' = h\<lparr>uhChecksum := k\<rparr>"
    unfolding c [symmetric] by (simp add: calcUdpChecksum_def Let_def d_def s_def k_def ps_def)
  then show "h' = h\<lparr>uhChecksum := uhChecksum h'\<rparr>" "uhChecksum h' \<noteq> 0"
    by (simp_all add: k_def)
  have lps: "length ps = 40" using a by (simp add: ps_def udpPseudoHdr_def copy_field_def)
  have "length d \<le> 65575" using len lps by (simp add: d_def)
  then have "wsum d < 2 ^ 32" using wsum_bound [of d] by (simp add: div_le_mono)
  then have u: "unat (udpSumLoop 0 d) = wsum d" by (simp add: unat_udpSumLoop)
  have m: "unat s mod 65535 = wsum d mod 65535" "unat s \<le> 65535"
    using udpFoldLoop_mod [of "udpSumLoop 0 d"] u by (simp_all add: s_def)
  have us: "unat (ucast s :: u16) = unat s"
    using m(2) by (simp add: unsigned_ucast_eq take_bit_eq_mod)
  have "unat (NOT (ucast s :: u16)) = 65535 - unat s"
  proof -
    have "NOT (ucast s :: u16) = 0xffff - ucast s" by (simp add: not_eq_complement)
    moreover have "(ucast s :: u16) \<le> 0xffff" using us m(2) by (simp add: word_le_nat_alt)
    ultimately show ?thesis using us by (simp add: unat_sub)
  qed
  then have k: "(unat s + unat k) mod 65535 = 0"
    using m(2) by (auto simp: k_def unat_eq_zero dest: arg_cong [where f = unat])
  have "wsum (ps @ serializeUdpHeader h' @ payload) = wsum d + unat k"
    using lps by (simp add: d_def wsum_append serializeUdpHeader_def h')
  then show "wsum (ps @ serializeUdpHeader h' @ payload) mod 65535 = 0"
    using k m(1) by (metis mod_add_left_eq)
qed

lemma datagram_received:
  assumes "length payload \<le> 65527" "length src = 16" "length dst = 16" "0 \<le> hopLimit" "hopLimit \<le> 255"
  shows "recvIp6Udp (createIp6UdpDatagram srcPort dstPort (Addr16 src) (Addr16 dst) hopLimit payload) =
    Some \<lparr>umSrc = src, umDst = dst, umSrcPort = unat srcPort, umDstPort = unat dstPort,
      umHopLimit = nat hopLimit, umPayload = payload\<rparr>"
proof -
  define n where "n = length payload + 8"
  define h where "h = calcUdpChecksum (Addr16 src) (Addr16 dst)
    \<lparr>uhSrcPort = srcPort, uhDstPort = dstPort, uhLength = of_nat n, uhChecksum = 0\<rparr> payload"
  have "n < 65536" using assms(1) by (simp add: n_def)
  then have n: "unat (of_nat n :: u16) = n" by (simp add: unsigned_of_nat take_bit_eq_mod)
  note sum = calcUdpChecksum_sum [OF h_def [symmetric] assms(1)]
  obtain k where h: "h = \<lparr>uhSrcPort = srcPort, uhDstPort = dstPort, uhLength = of_nat n, uhChecksum = k\<rparr>"
    and k: "k \<noteq> 0"
    using sum(1,2) assms(2,3) by (metis AsSlice.simps(3) UdpHeader.update_convs(4))
  have ws: "wsum ((src @ dst @ put_be 4 (ucast (of_nat n :: u16) :: u32) @ [0, 0, 0, 17]) @ serializeUdpHeader h @ payload) mod 65535 = 0"
    using sum(3) assms(2,3) by (simp add: udpPseudoHdr_layout n_def)
  define d where "d = [0x60, 0, 0, 0] @ put_be 2 (of_nat n :: u16) @ [17, word_of_int hopLimit] @ src @ dst @
      serializeUdpHeader h @ payload"
  have c: "createIp6UdpDatagram srcPort dstPort (Addr16 src) (Addr16 dst) hopLimit payload = d"
    using assms(2,3) by (simp add: createIp6UdpDatagram_def Let_def serializeIp6Header_layout d_def h_def n_def)
  have len: "length d = 40 + n" using assms(2,3) by (simp add: d_def n_def)
  have udp: "drop 40 d = serializeUdpHeader h @ payload"
    using assms(2,3) by (simp add: d_def put_be_2)
  have sd: "take 16 (drop 8 d) = src" "take 16 (drop 24 d) = dst"
    using assms(2,3) by (simp_all add: d_def put_be_2)
  have f: "d ! 0 = 0x60" "d ! 6 = 17" "d ! 7 = word_of_int hopLimit"
    by (simp_all add: d_def put_be_2)
  have hl: "unat (word_of_int hopLimit :: u8) = nat hopLimit"
    using assms(4,5) by (simp add: unsigned_of_int take_bit_eq_mod)
  have "drop 4 d = put_be 2 (of_nat n :: u16) @ drop 6 d" by (simp add: d_def put_be_2)
  then have pl: "be16 (drop 4 d) = n" using n by simp
  have q: "be16 (drop 4 (drop 40 d)) = n" "be16 (drop 6 (drop 40 d)) = unat k" "be16 (drop 40 d) = unat srcPort"
    "be16 (drop 2 (drop 40 d)) = unat dstPort" "drop 8 (drop 40 d) = payload"
    using n unfolding udp by (simp_all add: serializeUdpHeader_def h)
  note p4 = put_be_4_nat [OF \<open>n < 65536\<close>]
  have "wsum ((src @ dst @ [0, 0, of_nat (n div 256), of_nat n] @ [0, 0, 0, 17]) @ drop 40 d) mod 65535 = 0"
    using ws unfolding p4 udp by simp
  moreover have "unat k \<noteq> 0" "length (drop 40 d) = n" "\<not> length d < 48" using k len by (simp_all add: n_def unat_eq_zero)
  ultimately show ?thesis
    unfolding c recvIp6Udp_def Let_def q pl sd f hl by simp
qed

text \<open>
  C22. Every datagram of \<open>createIp6UdpDatagram\<close> is accepted by an RFC 8200 receiver: version, payload
  length, next header, UDP length and the checksum over pseudo header, UDP header and payload are right,
  the checksum is never the reserved value 0, and addresses, ports, hop limit and payload are read back.
  The UDP length field has 16 bits, so the payload has at most 65527 bytes.
\<close>

theorem createIp6UdpDatagram_received:
  assumes "length payload \<le> 65527" "length src = 16" "length dst = 16" "0 \<le> hopLimit" "hopLimit \<le> 255"
  shows "recvIp6Udp (createIp6UdpDatagram srcPort dstPort (Addr16 src) (Addr16 dst) hopLimit payload) =
    Some \<lparr>umSrc = src, umDst = dst, umSrcPort = unat srcPort, umDstPort = unat dstPort,
      umHopLimit = nat hopLimit, umPayload = payload\<rparr>"
  using assms by (rule datagram_received)

theorem createIp6UdpDatagram_received_witness:
  "recvIp6Udp (createIp6UdpDatagram 5683 1234 (Addr16 (replicate 16 0xfd)) (Addr16 (replicate 16 0xfe)) 63 [1, 2, 3]) =
    Some \<lparr>umSrc = replicate 16 0xfd, umDst = replicate 16 0xfe, umSrcPort = 5683, umDstPort = 1234,
      umHopLimit = 63, umPayload = [1, 2, 3]\<rparr>"
  using createIp6UdpDatagram_received [of "[1, 2, 3]" "replicate 16 0xfd" "replicate 16 0xfe" 63 5683 1234]
  by simp

end
