(* ===== verification/Sim_Hosts.thy ===== *)
theory Sim_Hosts
  imports Ip6_Udp
begin

text \<open>
  The simulated hosts of \<^verbatim>\<open>simulation/sim_hosts.go\<close>: UDP datagrams of border routers are forwarded to
  local sockets that stand for hosts of the Internet, and the answers are sent back as events.

  Connection objects are shared between the connection table and one reader goroutine per connection, so
  they live in an explicit memory (\<open>shMem\<close>) and the table holds addresses. Go visits the entries of a
  map in any order: an operation that ranges over a map has the visited keys as an argument
  (\<open>visits\<close>). The results of \<^verbatim>\<open>net.Dial\<close> and of \<^verbatim>\<open>Write\<close> and the third-party IPv6 header parser are
  arguments too. The reader goroutine is a step relation, interleaved with the dispatcher that takes the
  events from its channel.
\<close>

section \<open>State\<close>

abbreviation protocolUdp :: int where
  "protocolUdp \<equiv> 17"

abbreviation udpHeaderLen :: nat where
  "udpHeaderLen \<equiv> 8"

abbreviation ip6HeaderLen :: nat where
  "ip6HeaderLen \<equiv> 40"

abbreviation OtMaxIp6DatagramLength :: nat where
  "OtMaxIp6DatagramLength \<equiv> 1280"

abbreviation OtMaxUdpPayloadLength :: nat where
  "OtMaxUdpPayloadLength \<equiv> 1232"

abbreviation IPv6Unspecified :: Addr where
  "IPv6Unspecified \<equiv> Addr16 (replicate 16 0)"

record ConnId =
  ciNodeIp6Addr :: Addr
  ciExtIp6Addr :: Addr
  ciNodePort :: u16
  ciExtPort :: u16

text \<open>A socket is the local port it is connected to; \<open>None\<close> is the nil \<^verbatim>\<open>net.Conn\<close>.\<close>

record SimConn =
  scNode :: NodeId
  scConn :: "u16 option"
  scNat66State :: MsgToHostEventData
  scPortMapped :: u16
  scUdpBytesUpstream :: u64
  scUdpBytesDownstream :: u64

record SimHostEndpoint =
  seHostName :: string
  seIp6Addr :: Addr
  sePort :: u16
  sePortMapped :: u16

datatype HostOut = ConnDialled u16 | ReaderStarted nat | UdpWritten u16 bytes | SockClosed u16 | EventPosted Event

record SimHosts =
  shHosts :: "SimHostEndpoint set"
  shConns :: "ConnId \<rightharpoonup> nat"
  shMem :: "nat \<rightharpoonup> SimConn"
  shNext :: nat
  shOut :: "HostOut list"

definition visits :: "'a list \<Rightarrow> 'a set \<Rightarrow> bool" where
  "visits xs S \<longleftrightarrow> set xs = S \<and> distinct xs"

definition sh_emit :: "HostOut list \<Rightarrow> SimHosts \<Rightarrow> SimHosts" where
  "sh_emit os sh = sh\<lparr>shOut := shOut sh @ os\<rparr>"

section \<open>Operations\<close>

definition SimConn_close :: "SimConn \<Rightarrow> HostOut list" where
  "SimConn_close c = (case scConn c of None \<Rightarrow> [] | Some p \<Rightarrow> [SockClosed p])"

definition NewSimHosts :: SimHosts where
  "NewSimHosts = \<lparr>shHosts = {}, shConns = Map.empty, shMem = Map.empty, shNext = 0, shOut = []\<rparr>"

definition AddHost :: "SimHostEndpoint \<Rightarrow> SimHosts \<Rightarrow> SimHosts" where
  "AddHost host sh = sh\<lparr>shHosts := insert host (shHosts sh)\<rparr>"

definition RemoveHost_step :: "SimHostEndpoint \<Rightarrow> ConnId \<Rightarrow> SimHosts \<Rightarrow> SimHosts res" where
  "RemoveHost_step host i sh =
    bindr (derefr (shConns sh i)) (\<lambda>a. bindr (derefr (shMem sh a)) (\<lambda>c.
      if mhDstIp6Address (scNat66State c) = seIp6Addr host \<and> mhDstPort (scNat66State c) = sePort host
      then Inr (sh_emit (SimConn_close c) (sh\<lparr>shConns := (shConns sh)(i := None)\<rparr>))
      else Inr sh))"

definition RemoveHost :: "ConnId list \<Rightarrow> SimHostEndpoint \<Rightarrow> SimHosts \<Rightarrow> SimHosts res" where
  "RemoveHost ids host sh = foldr_res (RemoveHost_step host) ids (sh\<lparr>shHosts := shHosts sh - {host}\<rparr>)"

definition sumBytes :: "(SimConn \<Rightarrow> u64) \<Rightarrow> ConnId list \<Rightarrow> SimHostEndpoint \<Rightarrow> SimHosts \<Rightarrow> u64 res" where
  "sumBytes f ids host sh = foldr_res (\<lambda>i n.
      bindr (derefr (shConns sh i)) (\<lambda>a. bindr (derefr (shMem sh a)) (\<lambda>c.
        if seIp6Addr host = ciExtIp6Addr i \<and> sePort host = ciExtPort i then Inr (n + f c) else Inr n))) ids 0"

definition GetTxBytes :: "ConnId list \<Rightarrow> SimHostEndpoint \<Rightarrow> SimHosts \<Rightarrow> u64 res" where
  "GetTxBytes = sumBytes scUdpBytesDownstream"

definition GetRxBytes :: "ConnId list \<Rightarrow> SimHostEndpoint \<Rightarrow> SimHosts \<Rightarrow> u64 res" where
  "GetRxBytes = sumBytes scUdpBytesUpstream"

text \<open>
  The search over the hosts: the loop variable \<open>host\<close> is declared outside of the loop and the loop has no
  \<^verbatim>\<open>break\<close>.
\<close>

fun searchHosts :: "MsgToHostEventData \<Rightarrow> bool \<times> SimHostEndpoint \<Rightarrow> SimHostEndpoint list \<Rightarrow> bool \<times> SimHostEndpoint" where
  "searchHosts m s [] = s"
| "searchHosts m (found, host) (h # hs) =
    searchHosts m (if sePort h = mhDstPort m \<and> seIp6Addr h = mhDstIp6Address m then True else found, h) hs"

definition connIdOf :: "MsgToHostEventData \<Rightarrow> ConnId" where
  "connIdOf m = \<lparr>ciNodeIp6Addr = mhSrcIp6Address m, ciExtIp6Addr = mhDstIp6Address m, ciNodePort = mhSrcPort m,
     ciExtPort = mhDstPort m\<rparr>"

definition writeUdp :: "nat option \<Rightarrow> nat \<Rightarrow> bytes \<Rightarrow> SimHosts \<Rightarrow> SimHosts res" where
  "writeUdp wr a udpData sh =
    bindr (derefr (shMem sh a)) (\<lambda>c. bindr (derefr (scConn c)) (\<lambda>p.
      case wr of None \<Rightarrow> Inr sh
      | Some n \<Rightarrow> Inr (sh_emit [UdpWritten p udpData]
          (sh\<lparr>shMem := (shMem sh)(a \<mapsto> c\<lparr>scUdpBytesUpstream := scUdpBytesUpstream c + of_nat n\<rparr>)\<rparr>))))"

text \<open>A new connection object, dialled to the mapped port; it is stored only when the dial succeeds.\<close>

definition openSimConn :: "bool \<Rightarrow> u16 \<Rightarrow> NodeId \<Rightarrow> MsgToHostEventData \<Rightarrow> SimHosts \<Rightarrow> SimHosts \<times> nat option" where
  "openSimConn dialErr port node m sh =
    (let a = shNext sh;
         c = \<lparr>scNode = node, scConn = None, scNat66State = m, scPortMapped = port,
              scUdpBytesUpstream = 0, scUdpBytesDownstream = 0\<rparr>
     in if dialErr
        then (sh_emit (ConnDialled port # SimConn_close c) (sh\<lparr>shNext := a + 1, shMem := (shMem sh)(a \<mapsto> c)\<rparr>), None)
        else (sh_emit [ConnDialled port, ReaderStarted a]
          (sh\<lparr>shNext := a + 1, shMem := (shMem sh)(a \<mapsto> c\<lparr>scConn := Some port\<rparr>),
              shConns := (shConns sh)(connIdOf m \<mapsto> a)\<rparr>), Some a))"

definition handleUdpFromNode ::
  "SimHostEndpoint list \<Rightarrow> bool \<Rightarrow> nat option \<Rightarrow> NodeId \<Rightarrow> MsgToHostEventData \<Rightarrow> bytes \<Rightarrow> SimHosts \<Rightarrow> SimHosts res" where
  "handleUdpFromNode hosts dialErr wr node m udpData sh =
    (let (found, host) = searchHosts m (False, \<lparr>seHostName = [], seIp6Addr = AddrZero, sePort = 0, sePortMapped = 0\<rparr>) hosts in
     if \<not> found then Inr sh
     else case shConns sh (connIdOf m) of
       Some a \<Rightarrow> writeUdp wr a udpData sh
     | None \<Rightarrow>
        (case openSimConn dialErr (sePortMapped host) node m sh of
           (sh, None) \<Rightarrow> Inr sh
         | (sh, Some a) \<Rightarrow> writeUdp wr a udpData sh))"

text \<open>\<^verbatim>\<open>ipv6.ParseHeader\<close> is the parameter \<open>parseHeader\<close>; it fails or returns a header.\<close>

definition handleIp6FromNode :: "(bytes \<Rightarrow> Ip6Header option) \<Rightarrow>
  SimHostEndpoint list \<Rightarrow> bool \<Rightarrow> nat option \<Rightarrow> NodeId \<Rightarrow> MsgToHostEventData \<Rightarrow> bytes \<Rightarrow> SimHosts \<Rightarrow> SimHosts res" where
  "handleIp6FromNode parseHeader hosts dialErr wr node m ip6Data sh =
    (case parseHeader ip6Data of
       None \<Rightarrow> Inr sh
     | Some ip6Header \<Rightarrow>
        if ihVersion ip6Header = 6 \<and> ihNextHeader ip6Header = protocolUdp \<and> length ip6Data > ip6HeaderLen + udpHeaderLen
        then handleUdpFromNode hosts dialErr wr node m (drop (ip6HeaderLen + udpHeaderLen) ip6Data) sh
        else Inr sh)"

text \<open>
  The event that answers a datagram of the host, and whether its \<^verbatim>\<open>Data\<close> is the very slice that was
  passed in (first branch) or a new one.
\<close>

definition responseEvent :: "SimConn \<Rightarrow> bytes \<Rightarrow> Event \<times> bool" where
  "responseEvent c udpData =
    (let nat66 = scNat66State c; hopLim = 63;
         reversed = \<lparr>mhSrcPort = mhDstPort nat66, mhDstPort = mhSrcPort nat66,
           mhSrcIp6Address = mhDstIp6Address nat66, mhDstIp6Address = mhSrcIp6Address nat66\<rparr>
     in if mhSrcIp6Address nat66 = IPv6Unspecified
        then (zeroEvent\<lparr>evDelay := 0, evType := EventTypeUdpFromHost, evData := udpData, evNodeId := scNode c,
                evMsgToHostData := reversed\<rparr>, True)
        else (zeroEvent\<lparr>evDelay := 0, evType := EventTypeIp6FromHost,
                evData := createIp6UdpDatagram (mhDstPort nat66) (mhSrcPort nat66) (mhDstIp6Address nat66)
                  (mhSrcIp6Address nat66) hopLim udpData,
                evNodeId := scNode c, evMsgToHostData := reversed\<rparr>, False))"

definition handleUdpFromSimHost :: "nat \<Rightarrow> bytes \<Rightarrow> SimHosts \<Rightarrow> SimHosts res" where
  "handleUdpFromSimHost a udpData sh =
    bindr (derefr (shMem sh a)) (\<lambda>c.
      (let c = c\<lparr>scUdpBytesDownstream := scUdpBytesDownstream c + of_nat (length udpData)\<rparr>
       in Inr (sh_emit [EventPosted (fst (responseEvent c udpData))] (sh\<lparr>shMem := (shMem sh)(a \<mapsto> c)\<rparr>))))"

section \<open>The reader goroutine\<close>

text \<open>
  One buffer is used for all reads. \<open>rdPending\<close> is the length of a datagram that has been read but not
  posted yet, the channel has room for 10000 events, an event whose data is a slice of the buffer has the
  length of the slice beside it. \<open>rdReceived\<close> is the history of the accepted datagrams.
\<close>

record Reader =
  rdBuf :: bytes
  rdPending :: "nat option"
  rdClosed :: bool
  rdChan :: "(Event \<times> nat option) list"
  rdDelivered :: "Event list"
  rdReceived :: "bytes list"

definition newReader :: Reader where
  "newReader = \<lparr>rdBuf = replicate OtMaxIp6DatagramLength 0, rdPending = None, rdClosed = False, rdChan = [],
     rdDelivered = [], rdReceived = []\<rparr>"

text \<open>\<^verbatim>\<open>Read(buf)\<close>: a longer datagram is cut to the size of the buffer.\<close>

definition readInto :: "bytes \<Rightarrow> bytes \<Rightarrow> bytes" where
  "readInto buf d = take (length buf) d @ drop (length d) buf"

definition reader_read :: "bytes \<Rightarrow> Reader \<Rightarrow> Reader" where
  "reader_read d r =
    (let buf = readInto (rdBuf r) d; rlen = min (length (rdBuf r)) (length d) in
     if rlen \<ge> OtMaxUdpPayloadLength then r\<lparr>rdBuf := buf\<rparr>
     else r\<lparr>rdBuf := buf, rdPending := Some rlen, rdReceived := rdReceived r @ [take rlen buf]\<rparr>)"

definition reader_post :: "SimConn \<Rightarrow> nat \<Rightarrow> Reader \<Rightarrow> Reader" where
  "reader_post c n r =
    (let (ev, shared) = responseEvent c (take n (rdBuf r)) in
     r\<lparr>rdPending := None, rdChan := rdChan r @ [(ev, if shared then Some n else None)]\<rparr>)"

definition eventNow :: "bytes \<Rightarrow> Event \<times> nat option \<Rightarrow> Event" where
  "eventNow buf p = (case snd p of None \<Rightarrow> fst p | Some n \<Rightarrow> (fst p)\<lparr>evData := take n buf\<rparr>)"

inductive reader_step :: "SimConn \<Rightarrow> Reader \<Rightarrow> Reader \<Rightarrow> bool" for c where
  rd_read: "\<not> rdClosed r \<Longrightarrow> rdPending r = None \<Longrightarrow> reader_step c r (reader_read d r)"
| rd_error: "\<not> rdClosed r \<Longrightarrow> rdPending r = None \<Longrightarrow> reader_step c r (r\<lparr>rdClosed := True\<rparr>)"
| rd_post: "rdPending r = Some n \<Longrightarrow> length (rdChan r) < 10000 \<Longrightarrow> reader_step c r (reader_post c n r)"
| rd_dispatch: "rdChan r = p # ps \<Longrightarrow>
    reader_step c r (r\<lparr>rdChan := ps, rdDelivered := rdDelivered r @ [eventNow (rdBuf r) p]\<rparr>)"

inductive reader_reach :: "SimConn \<Rightarrow> Reader \<Rightarrow> bool" for c where
  reach_start: "reader_reach c newReader"
| reach_step: "reader_reach c r \<Longrightarrow> reader_step c r r' \<Longrightarrow> reader_reach c r'"

end
