(* ===== verification/Sim_Hosts_Laws.thy ===== *)
theory Sim_Hosts_Laws
  imports Sim_Hosts
begin

text \<open>
  What the simulated hosts guarantee. The connection table refines a ledger of bytes per connection under
  every sequence of operations; answers go back to the node that opened the connection, as a datagram that
  a receiver of the RFCs accepts; the reader goroutine delivers what it received in every interleaving
  with the dispatcher, except for connections of a node with the unspecified address, whose events share
  the read buffer; and the search for the host dials the host that was visited last.
\<close>

section \<open>Invariant\<close>

definition sh_inv :: "SimHosts \<Rightarrow> bool" where
  "sh_inv sh \<longleftrightarrow> finite (dom (shConns sh)) \<and>
     (\<forall>i a. shConns sh i = Some a \<longrightarrow> a < shNext sh \<and>
        (\<exists>c. shMem sh a = Some c \<and> connIdOf (scNat66State c) = i \<and> scConn c = Some (scPortMapped c)))"

lemma sh_invD:
  assumes "sh_inv sh" "shConns sh i = Some a"
  obtains c where "shMem sh a = Some c" "connIdOf (scNat66State c) = i" "scConn c = Some (scPortMapped c)" "a < shNext sh"
  using assms unfolding sh_inv_def by blast

lemma sh_inv_inj: "sh_inv sh \<Longrightarrow> shConns sh i = Some a \<Longrightarrow> shConns sh j = Some a \<Longrightarrow> i = j"
  by (metis option.inject sh_invD)

lemma sh_emit_simps [simp]:
  "shHosts (sh_emit os sh) = shHosts sh" "shConns (sh_emit os sh) = shConns sh" "shMem (sh_emit os sh) = shMem sh"
  "shNext (sh_emit os sh) = shNext sh" "shOut (sh_emit os sh) = shOut sh @ os" "sh_inv (sh_emit os sh) = sh_inv sh"
  by (simp_all add: sh_emit_def sh_inv_def)

text \<open>Counting bytes in an object of the memory keeps the invariant.\<close>

lemma sh_inv_count:
  assumes "sh_inv sh" "shMem sh a = Some c" "scNat66State c' = scNat66State c" "scConn c' = scConn c"
    "scPortMapped c' = scPortMapped c"
  shows "sh_inv (sh\<lparr>shMem := (shMem sh)(a \<mapsto> c')\<rparr>)"
  using assms unfolding sh_inv_def by (auto, (metis option.inject)+)

section \<open>The ledger\<close>

record Ledger =
  ldHosts :: "SimHostEndpoint set"
  ldBytes :: "ConnId \<rightharpoonup> u64 \<times> u64"

datatype hostOp =
    OpAddHost SimHostEndpoint
  | OpRemoveHost "ConnId list" SimHostEndpoint
  | OpUdpFromNode "SimHostEndpoint list" bool "nat option" NodeId MsgToHostEventData bytes
  | OpAnswer ConnId bytes
  | OpLateAnswer nat bytes

definition toHost :: "SimHostEndpoint \<Rightarrow> ConnId \<Rightarrow> bool" where
  "toHost h i \<longleftrightarrow> ciExtIp6Addr i = seIp6Addr h \<and> ciExtPort i = sePort h"

definition ledgerOf :: "SimHosts \<Rightarrow> Ledger" where
  "ledgerOf sh = \<lparr>ldHosts = shHosts sh,
     ldBytes = (\<lambda>i. case shConns sh i of None \<Rightarrow> None
       | Some a \<Rightarrow> map_option (\<lambda>c. (scUdpBytesUpstream c, scUdpBytesDownstream c)) (shMem sh a))\<rparr>"

definition ledgerSum :: "(u64 \<times> u64 \<Rightarrow> u64) \<Rightarrow> SimHostEndpoint \<Rightarrow> Ledger \<Rightarrow> u64" where
  "ledgerSum f h l = (\<Sum>i \<in> {i \<in> dom (ldBytes l). toHost h i}. f (the (ldBytes l i)))"

definition addUp :: "nat option \<Rightarrow> u64 \<times> u64 \<Rightarrow> u64 \<times> u64" where
  "addUp wr b = (case wr of None \<Rightarrow> b | Some n \<Rightarrow> (fst b + of_nat n, snd b))"

fun ledgerOp :: "hostOp \<Rightarrow> Ledger \<Rightarrow> Ledger" where
  "ledgerOp (OpAddHost h) l = l\<lparr>ldHosts := insert h (ldHosts l)\<rparr>"
| "ledgerOp (OpRemoveHost _ h) l = \<lparr>ldHosts = ldHosts l - {h}, ldBytes = (\<lambda>i. if toHost h i then None else ldBytes l i)\<rparr>"
| "ledgerOp (OpUdpFromNode _ dialErr wr _ m _) l =
    (if \<not> (\<exists>h \<in> ldHosts l. toHost h (connIdOf m)) then l
     else case ldBytes l (connIdOf m) of
       Some b \<Rightarrow> l\<lparr>ldBytes := (ldBytes l)(connIdOf m \<mapsto> addUp wr b)\<rparr>
     | None \<Rightarrow> if dialErr then l else l\<lparr>ldBytes := (ldBytes l)(connIdOf m \<mapsto> addUp wr (0, 0))\<rparr>)"
| "ledgerOp (OpAnswer i d) l =
    (case ldBytes l i of None \<Rightarrow> l | Some b \<Rightarrow> l\<lparr>ldBytes := (ldBytes l)(i \<mapsto> (fst b, snd b + of_nat (length d)))\<rparr>)"
| "ledgerOp (OpLateAnswer _ _) l = l"

text \<open>
  The operations of the code. An answer comes from the reader goroutine of a connection in the table
  (\<open>OpAnswer\<close>), or from the reader of a connection that has been removed (\<open>OpLateAnswer\<close>).
\<close>

fun hostOp_run :: "hostOp \<Rightarrow> SimHosts \<Rightarrow> SimHosts res" where
  "hostOp_run (OpAddHost h) sh = Inr (AddHost h sh)"
| "hostOp_run (OpRemoveHost ids h) sh = RemoveHost ids h sh"
| "hostOp_run (OpUdpFromNode hosts dialErr wr node m d) sh = handleUdpFromNode hosts dialErr wr node m d sh"
| "hostOp_run (OpAnswer i d) sh = bindr (derefr (shConns sh i)) (\<lambda>a. handleUdpFromSimHost a d sh)"
| "hostOp_run (OpLateAnswer a d) sh = handleUdpFromSimHost a d sh"

fun hostOp_ok :: "hostOp \<Rightarrow> SimHosts \<Rightarrow> bool" where
  "hostOp_ok (OpAddHost h) sh \<longleftrightarrow> True"
| "hostOp_ok (OpRemoveHost ids h) sh \<longleftrightarrow> visits ids (dom (shConns sh))"
| "hostOp_ok (OpUdpFromNode hosts dialErr wr node m d) sh \<longleftrightarrow> visits hosts (shHosts sh)"
| "hostOp_ok (OpAnswer i d) sh \<longleftrightarrow> shConns sh i \<noteq> None"
| "hostOp_ok (OpLateAnswer a d) sh \<longleftrightarrow> shMem sh a \<noteq> None \<and> a \<notin> ran (shConns sh)"

inductive host_reach :: "SimHosts \<Rightarrow> bool" where
  hr_new: "host_reach NewSimHosts"
| hr_op: "host_reach sh \<Longrightarrow> hostOp_ok op sh \<Longrightarrow> hostOp_run op sh = Inr sh' \<Longrightarrow> host_reach sh'"

section \<open>Each operation against the ledger\<close>

lemma searchHosts_found: "fst (searchHosts m (f, h) hs) \<longleftrightarrow> f \<or> (\<exists>h \<in> set hs. toHost h (connIdOf m))"
  by (induction hs arbitrary: f h) (auto simp: toHost_def connIdOf_def)

lemma searchHosts_last: "snd (searchHosts m (f, h) hs) = last (h # hs)"
  by (induction hs arbitrary: f h) auto

lemma ledgerOf_simps [simp]: "ldHosts (ledgerOf sh) = shHosts sh" "ledgerOf (sh_emit os sh) = ledgerOf sh"
  by (auto simp: ledgerOf_def fun_eq_iff split: option.splits)

lemma ldBytes_None: "sh_inv sh \<Longrightarrow> ldBytes (ledgerOf sh) i = None \<longleftrightarrow> shConns sh i = None"
  by (auto simp: ledgerOf_def split: option.splits elim: sh_invD)

lemma ldBytes_Some:
  "shConns sh i = Some a \<Longrightarrow> shMem sh a = Some c \<Longrightarrow>
     ldBytes (ledgerOf sh) i = Some (scUdpBytesUpstream c, scUdpBytesDownstream c)"
  by (simp add: ledgerOf_def)

lemma dom_ldBytes: "sh_inv sh \<Longrightarrow> dom (ldBytes (ledgerOf sh)) = dom (shConns sh)"
  by (simp add: dom_def ldBytes_None)

text \<open>A change of one object shows in the ledger at its own connection only.\<close>

lemma ledgerOf_count:
  assumes "sh_inv sh" "shConns sh i = Some a"
  shows "ledgerOf (sh\<lparr>shMem := (shMem sh)(a \<mapsto> c)\<rparr>) =
    (ledgerOf sh)\<lparr>ldBytes := (ldBytes (ledgerOf sh))(i \<mapsto> (scUdpBytesUpstream c, scUdpBytesDownstream c))\<rparr>"
  using assms by (auto simp: ledgerOf_def fun_eq_iff split: option.splits dest: sh_inv_inj)

lemma ledgerOf_other:
  assumes "a \<notin> ran (shConns sh)"
  shows "ledgerOf (sh\<lparr>shMem := (shMem sh)(a \<mapsto> c)\<rparr>) = ledgerOf sh"
  using assms by (auto simp: ledgerOf_def fun_eq_iff ran_def split: option.splits)

lemma writeUdp_ledger:
  assumes "sh_inv sh" "shConns sh i = Some a"
  shows "\<exists>sh'. writeUdp wr a d sh = Inr sh' \<and> sh_inv sh' \<and>
    ledgerOf sh' = (ledgerOf sh)\<lparr>ldBytes := (ldBytes (ledgerOf sh))(i \<mapsto> addUp wr (the (ldBytes (ledgerOf sh) i)))\<rparr>"
proof -
  obtain c where c: "shMem sh a = Some c" "scConn c = Some (scPortMapped c)"
    using assms by (rule sh_invD)
  show ?thesis
  proof (cases wr)
    case None
    with c ldBytes_Some [OF assms(2) c(1)] assms(1) show ?thesis
      by (simp add: writeUdp_def addUp_def fun_upd_idem)
  next
    case (Some n)
    with c assms show ?thesis
      by (simp add: writeUdp_def addUp_def sh_inv_count ledgerOf_count ldBytes_Some)
  qed
qed

lemma RemoveHost_fold:
  assumes "sh_inv sh" "set ids \<subseteq> dom (shConns sh)" "distinct ids"
  shows "\<exists>sh'. foldr_res (RemoveHost_step h) ids sh = Inr sh' \<and> shHosts sh' = shHosts sh \<and> shMem sh' = shMem sh \<and>
    shNext sh' = shNext sh \<and> shConns sh' = (\<lambda>j. if j \<in> set ids \<and> toHost h j then None else shConns sh j)"
  using assms
proof (induction ids arbitrary: sh)
  case (Cons i ids)
  from Cons.prems obtain a where a: "shConns sh i = Some a" by auto
  with Cons.prems(1) obtain c where c: "shMem sh a = Some c" "connIdOf (scNat66State c) = i"
    by (metis sh_invD)
  have th: "mhDstIp6Address (scNat66State c) = seIp6Addr h \<and> mhDstPort (scNat66State c) = sePort h \<longleftrightarrow> toHost h i"
    using c(2) by (auto simp: connIdOf_def toHost_def)
  define t where "t = (if toHost h i then sh_emit (SimConn_close c) (sh\<lparr>shConns := (shConns sh)(i := None)\<rparr>) else sh)"
  have step: "RemoveHost_step h i sh = Inr t"
    by (simp add: RemoveHost_step_def a c(1) th t_def)
  have "sh_inv t" "set ids \<subseteq> dom (shConns t)"
    using Cons.prems by (auto simp: t_def sh_inv_def)
  with Cons.IH [of t] Cons.prems(3) step show ?case
    by (auto simp: t_def fun_eq_iff)
qed simp

lemma RemoveHost_ledger:
  assumes "sh_inv sh" "visits ids (dom (shConns sh))"
  shows "\<exists>sh'. RemoveHost ids h sh = Inr sh' \<and> sh_inv sh' \<and> ledgerOf sh' = ledgerOp (OpRemoveHost ids h) (ledgerOf sh)"
proof -
  let ?s = "sh\<lparr>shHosts := shHosts sh - {h}\<rparr>"
  have "sh_inv ?s" using assms(1) by (simp add: sh_inv_def)
  moreover have "set ids \<subseteq> dom (shConns ?s)" "distinct ids" using assms(2) by (auto simp: visits_def)
  ultimately obtain sh' where r: "RemoveHost ids h sh = Inr sh'" "shHosts sh' = shHosts sh - {h}" "shMem sh' = shMem sh"
      "shNext sh' = shNext sh" "shConns sh' = (\<lambda>j. if j \<in> set ids \<and> toHost h j then None else shConns ?s j)"
    using RemoveHost_fold [of ?s ids h] unfolding RemoveHost_def by auto
  have c: "shConns sh' = (\<lambda>j. if toHost h j then None else shConns sh j)"
    using r(5) assms(2) by (auto simp: visits_def fun_eq_iff)
  have "dom (shConns sh') \<subseteq> dom (shConns sh)" by (auto simp: c split: if_splits)
  then have "finite (dom (shConns sh'))"
    using assms(1) finite_subset by (auto simp: sh_inv_def)
  then have "sh_inv sh'"
    using assms(1) by (auto simp: sh_inv_def c r(3,4) split: if_splits)
  moreover have "ledgerOf sh' = ledgerOp (OpRemoveHost ids h) (ledgerOf sh)"
    using r(2,3) by (auto simp: ledgerOf_def c fun_eq_iff split: option.splits)
  ultimately show ?thesis using r(1) by blast
qed

lemma openSimConn_failed:
  assumes "sh_inv sh"
  shows "\<exists>sh'. openSimConn True port node m sh = (sh', None) \<and> sh_inv sh' \<and> ledgerOf sh' = ledgerOf sh"
proof -
  have lt: "a < shNext sh" if "shConns sh i = Some a" for i a using assms that by (auto simp: sh_inv_def)
  have "sh_inv (fst (openSimConn True port node m sh))"
    using assms lt by (auto simp: openSimConn_def sh_inv_def Let_def less_SucI)
  moreover have "ledgerOf (fst (openSimConn True port node m sh)) = ledgerOf sh"
    using lt by (auto simp: openSimConn_def ledgerOf_def Let_def fun_eq_iff split: option.splits)
  ultimately show ?thesis by (auto simp: openSimConn_def Let_def)
qed

lemma openSimConn_done:
  assumes "sh_inv sh"
  shows "\<exists>sh' a. openSimConn False port node m sh = (sh', Some a) \<and> sh_inv sh' \<and> shConns sh' (connIdOf m) = Some a \<and>
    ledgerOf sh' = (ledgerOf sh)\<lparr>ldBytes := (ldBytes (ledgerOf sh))(connIdOf m \<mapsto> (0, 0))\<rparr>"
proof -
  let ?s = "fst (openSimConn False port node m sh)"
  have lt: "a < shNext sh" if "shConns sh i = Some a" for i a using assms that by (auto simp: sh_inv_def)
  have "sh_inv ?s"
    using assms lt by (auto simp: openSimConn_def sh_inv_def Let_def less_SucI)
  moreover have "ledgerOf ?s = (ledgerOf sh)\<lparr>ldBytes := (ldBytes (ledgerOf sh))(connIdOf m \<mapsto> (0, 0))\<rparr>"
    using lt by (auto simp: openSimConn_def ledgerOf_def Let_def fun_eq_iff split: option.splits)
  ultimately show ?thesis by (auto simp: openSimConn_def Let_def)
qed

lemma handleUdpFromNode_ledger:
  assumes "sh_inv sh" "visits hosts (shHosts sh)"
  shows "\<exists>sh'. handleUdpFromNode hosts dialErr wr node m d sh = Inr sh' \<and> sh_inv sh' \<and>
    ledgerOf sh' = ledgerOp (OpUdpFromNode hosts dialErr wr node m d) (ledgerOf sh)"
proof -
  let ?z = "\<lparr>seHostName = [], seIp6Addr = AddrZero, sePort = 0, sePortMapped = 0\<rparr>"
  obtain found host where s: "searchHosts m (False, ?z) hosts = (found, host)" by (cases "searchHosts m (False, ?z) hosts")
  have f: "found \<longleftrightarrow> (\<exists>h \<in> shHosts sh. toHost h (connIdOf m))"
    using searchHosts_found [of m False ?z hosts] assms(2) by (simp add: s visits_def)
  consider "\<not> found" | a where "found" "shConns sh (connIdOf m) = Some a"
    | "found" "shConns sh (connIdOf m) = None" by fastforce
  then show ?thesis
  proof cases
    case 1
    with f assms(1) show ?thesis by (simp add: handleUdpFromNode_def s)
  next
    case (2 a)
    then have "ldBytes (ledgerOf sh) (connIdOf m) \<noteq> None" using ldBytes_None [OF assms(1)] by simp
    with 2 f writeUdp_ledger [OF assms(1) 2(2), of wr d] show ?thesis
      by (auto simp: handleUdpFromNode_def s)
  next
    case 3
    then have n: "ldBytes (ledgerOf sh) (connIdOf m) = None" using ldBytes_None [OF assms(1)] by simp
    show ?thesis
    proof (cases dialErr)
      case True
      with 3 f n openSimConn_failed [OF assms(1), of "sePortMapped host" node m] show ?thesis
        by (auto simp: handleUdpFromNode_def s)
    next
      case False
      obtain sh' a where o: "openSimConn False (sePortMapped host) node m sh = (sh', Some a)" "sh_inv sh'"
          "shConns sh' (connIdOf m) = Some a"
          "ledgerOf sh' = (ledgerOf sh)\<lparr>ldBytes := (ldBytes (ledgerOf sh))(connIdOf m \<mapsto> (0, 0))\<rparr>"
        using openSimConn_done [OF assms(1)] by blast
      with False 3 f n writeUdp_ledger [OF o(2,3), of wr d] show ?thesis
        by (auto simp: handleUdpFromNode_def s)
    qed
  qed
qed

lemma handleUdpFromSimHost_run:
  assumes "shMem sh a = Some c"
  shows "handleUdpFromSimHost a d sh = Inr (sh_emit [EventPosted (fst (responseEvent c d))]
    (sh\<lparr>shMem := (shMem sh)(a \<mapsto> c\<lparr>scUdpBytesDownstream := scUdpBytesDownstream c + of_nat (length d)\<rparr>)\<rparr>))"
  using assms by (simp add: handleUdpFromSimHost_def responseEvent_def Let_def)

lemma hostOp_ledger:
  assumes "sh_inv sh" "hostOp_ok op sh"
  shows "\<exists>sh'. hostOp_run op sh = Inr sh' \<and> sh_inv sh' \<and> ledgerOf sh' = ledgerOp op (ledgerOf sh)"
proof (cases op)
  case (OpAddHost h)
  then show ?thesis using assms(1) by (simp add: AddHost_def sh_inv_def ledgerOf_def cong: option.case_cong)
next
  case (OpRemoveHost ids h)
  then show ?thesis using RemoveHost_ledger [OF assms(1)] assms(2) by simp
next
  case (OpUdpFromNode hosts dialErr wr node m d)
  then show ?thesis using handleUdpFromNode_ledger [OF assms(1)] assms(2) by simp
next
  case (OpAnswer i d)
  with assms(2) obtain a where a: "shConns sh i = Some a" by auto
  then obtain c where c: "shMem sh a = Some c" using assms(1) by (metis sh_invD)
  show ?thesis
    by (simp add: OpAnswer a handleUdpFromSimHost_run [OF c] ledgerOf_count [OF assms(1) a] ldBytes_Some [OF a c]
        sh_inv_count [OF assms(1) c])
next
  case (OpLateAnswer a d)
  with assms(2) obtain c where c: "shMem sh a = Some c" "a \<notin> ran (shConns sh)" by auto
  show ?thesis
    by (simp add: OpLateAnswer handleUdpFromSimHost_run [OF c(1)] ledgerOf_other [OF c(2)] sh_inv_count [OF assms(1) c(1)])
qed

lemma host_reach_inv: "host_reach sh \<Longrightarrow> sh_inv sh"
proof (induction rule: host_reach.induct)
  case hr_new
  then show ?case by (simp add: NewSimHosts_def sh_inv_def)
next
  case (hr_op sh op sh')
  then show ?case using hostOp_ledger [of sh op] by auto
qed

text \<open>The loops of \<open>GetTxBytes\<close> and \<open>GetRxBytes\<close> add up the ledger, in whatever order the map is visited.\<close>

lemma sumBytes_fold:
  assumes "sh_inv sh" "set ids \<subseteq> dom (shConns sh)" "distinct ids"
    and g: "\<And>c. f c = g (scUdpBytesUpstream c, scUdpBytesDownstream c)"
  shows "foldr_res (\<lambda>i n. bindr (derefr (shConns sh i)) (\<lambda>a. bindr (derefr (shMem sh a)) (\<lambda>c.
        if seIp6Addr h = ciExtIp6Addr i \<and> sePort h = ciExtPort i then Inr (n + f c) else Inr n))) ids n =
    Inr (n + (\<Sum>i \<in> {i \<in> set ids. toHost h i}. g (the (ldBytes (ledgerOf sh) i))))"
  using assms(2,3)
proof (induction ids arbitrary: n)
  case (Cons i ids)
  from Cons.prems obtain a where a: "shConns sh i = Some a" by auto
  then obtain c where c: "shMem sh a = Some c" using assms(1) by (metis sh_invD)
  have th: "seIp6Addr h = ciExtIp6Addr i \<and> sePort h = ciExtPort i \<longleftrightarrow> toHost h i" by (auto simp: toHost_def)
  have e: "{j \<in> set (i # ids). toHost h j} = (if toHost h i then insert i {j \<in> set ids. toHost h j} else {j \<in> set ids. toHost h j})"
    by auto
  have "i \<notin> {j \<in> set ids. toHost h j}" using Cons.prems(2) by simp
  with Cons.IH Cons.prems show ?case
    unfolding e by (simp add: a c th ldBytes_Some [OF a c] g add.assoc)
qed simp

lemma sumBytes_ledger:
  assumes "sh_inv sh" "visits ids (dom (shConns sh))" "\<And>c. f c = g (scUdpBytesUpstream c, scUdpBytesDownstream c)"
  shows "sumBytes f ids h sh = Inr (ledgerSum g h (ledgerOf sh))"
  using sumBytes_fold [of sh ids f g h 0] assms by (simp add: sumBytes_def visits_def ledgerSum_def dom_ldBytes)

section \<open>Properties\<close>

text \<open>
  C9. In every state that the operations can reach, every further operation returns without a panic and
  acts on the ledger of (bytes to the host, bytes to the node) per connection as the ledger's own operation:
  forwarding counts what was written, an answer counts its length, removing a host drops exactly its
  connections, an answer of a removed connection changes nothing. \<open>GetRxBytes\<close> and \<open>GetTxBytes\<close> are
  the sums of the ledger for the host, whatever order the map is visited in.
\<close>

theorem simHosts_refine_ledger:
  assumes "host_reach sh" "hostOp_ok op sh"
  shows "\<exists>sh'. hostOp_run op sh = Inr sh' \<and> ledgerOf sh' = ledgerOp op (ledgerOf sh) \<and>
    (\<forall>ids h. visits ids (dom (shConns sh')) \<longrightarrow>
       GetRxBytes ids h sh' = Inr (ledgerSum fst h (ledgerOf sh')) \<and>
       GetTxBytes ids h sh' = Inr (ledgerSum snd h (ledgerOf sh')))"
proof -
  obtain sh' where s: "hostOp_run op sh = Inr sh'" "sh_inv sh'" "ledgerOf sh' = ledgerOp op (ledgerOf sh)"
    using hostOp_ledger [OF host_reach_inv [OF assms(1)] assms(2)] by blast
  have "GetRxBytes ids h sh' = Inr (ledgerSum fst h (ledgerOf sh'))"
    "GetTxBytes ids h sh' = Inr (ledgerSum snd h (ledgerOf sh'))" if "visits ids (dom (shConns sh'))" for ids h
    unfolding GetRxBytes_def GetTxBytes_def using sumBytes_ledger [OF s(2) that] by simp_all
  with s(1,3) show ?thesis by blast
qed

definition exampleHost :: SimHostEndpoint where
  "exampleHost = \<lparr>seHostName = ''example.org'', seIp6Addr = Addr16 (replicate 16 0xfd), sePort = 5683, sePortMapped = 9683\<rparr>"

definition exampleMeta :: MsgToHostEventData where
  "exampleMeta = \<lparr>mhSrcPort = 1234, mhDstPort = 5683, mhSrcIp6Address = Addr16 (replicate 16 0xfe),
     mhDstIp6Address = Addr16 (replicate 16 0xfd)\<rparr>"

lemma exampleHost_reach: "host_reach (AddHost exampleHost NewSimHosts)"
  by (rule hr_op [OF hr_new, of "OpAddHost exampleHost"]) simp_all

theorem simHosts_refine_ledger_witness:
  "\<exists>sh'. handleUdpFromNode [exampleHost] False (Some 3) 1 exampleMeta [1, 2, 3] (AddHost exampleHost NewSimHosts) = Inr sh' \<and>
    ledgerOf sh' = ledgerOp (OpUdpFromNode [exampleHost] False (Some 3) 1 exampleMeta [1, 2, 3])
      (ledgerOf (AddHost exampleHost NewSimHosts))"
  using simHosts_refine_ledger [OF exampleHost_reach, of "OpUdpFromNode [exampleHost] False (Some 3) 1 exampleMeta [1, 2, 3]"]
  by (auto simp: visits_def AddHost_def NewSimHosts_def)


definition exampleConnected :: SimHosts where
  "exampleConnected = \<lparr>shHosts = {exampleHost}, shConns = [connIdOf exampleMeta \<mapsto> 0],
     shMem = [0 \<mapsto> \<lparr>scNode = 1, scConn = Some 9683, scNat66State = exampleMeta, scPortMapped = 9683,
       scUdpBytesUpstream = 3, scUdpBytesDownstream = 0\<rparr>], shNext = 1,
     shOut = [ConnDialled 9683, ReaderStarted 0, UdpWritten 9683 [1, 2, 3]]\<rparr>"

lemma exampleConnected_reach: "host_reach exampleConnected"
  by (rule hr_op [OF exampleHost_reach, of "OpUdpFromNode [exampleHost] False (Some 3) 1 exampleMeta [1, 2, 3]"])
    (simp_all add: visits_def AddHost_def NewSimHosts_def handleUdpFromNode_def openSimConn_def writeUdp_def
      sh_emit_def exampleHost_def exampleMeta_def exampleConnected_def)


text \<open>
  The search for the destination of a datagram does not stop at the matching host: with two hosts
  registered, a datagram to one of them opens a connection to the local port of the other one whenever the
  map happens to be visited in the wrong order, and the datagram is written there.
\<close>

theorem handleUdpFromNode_wrong_host:
  assumes "shHosts sh = {h1, h2}" "h1 \<noteq> h2" "sePort h1 = mhDstPort m" "seIp6Addr h1 = mhDstIp6Address m"
    "shConns sh (connIdOf m) = None"
  shows "visits [h1, h2] (shHosts sh) \<and>
    (\<exists>sh'. handleUdpFromNode [h1, h2] False (Some n) node m d sh = Inr sh' \<and>
      shOut sh' = shOut sh @ [ConnDialled (sePortMapped h2), ReaderStarted (shNext sh), UdpWritten (sePortMapped h2) d])"
  using assms by (auto simp: visits_def handleUdpFromNode_def openSimConn_def writeUdp_def Let_def)

theorem handleUdpFromNode_wrong_host_witness:
  "visits [exampleHost, exampleHost\<lparr>sePort := 80, sePortMapped := 8080\<rparr>]
     (shHosts (AddHost exampleHost (AddHost (exampleHost\<lparr>sePort := 80, sePortMapped := 8080\<rparr>) NewSimHosts))) \<and>
   (\<exists>sh'. handleUdpFromNode [exampleHost, exampleHost\<lparr>sePort := 80, sePortMapped := 8080\<rparr>] False (Some 3) 1 exampleMeta [1, 2, 3]
       (AddHost exampleHost (AddHost (exampleHost\<lparr>sePort := 80, sePortMapped := 8080\<rparr>) NewSimHosts)) = Inr sh' \<and>
     shOut sh' = [ConnDialled 8080, ReaderStarted 0, UdpWritten 8080 [1, 2, 3]])"
  using handleUdpFromNode_wrong_host [of "AddHost exampleHost (AddHost (exampleHost\<lparr>sePort := 80, sePortMapped := 8080\<rparr>) NewSimHosts)"
      exampleHost "exampleHost\<lparr>sePort := 80, sePortMapped := 8080\<rparr>" exampleMeta 3 1 "[1, 2, 3]"]
  by (simp add: AddHost_def NewSimHosts_def exampleHost_def exampleMeta_def)

section \<open>The reader goroutine\<close>

lemma take_readInto [simp]: "take (min (length buf) (length d)) (readInto buf d) = take (length buf) d"
  by (simp add: readInto_def min_def)

lemma length_readInto [simp]: "length (readInto buf d) = length buf"
  by (auto simp: readInto_def)

definition reader_inv :: "SimConn \<Rightarrow> Reader \<Rightarrow> bool" where
  "reader_inv c r \<longleftrightarrow> (\<forall>p \<in> set (rdChan r). snd p = None) \<and>
     rdDelivered r @ map fst (rdChan r) @ (case rdPending r of None \<Rightarrow> [] | Some n \<Rightarrow> [fst (responseEvent c (take n (rdBuf r)))])
       = map (\<lambda>d. fst (responseEvent c d)) (rdReceived r)"

lemma responseEvent_fresh:
  "mhSrcIp6Address (scNat66State c) \<noteq> IPv6Unspecified \<Longrightarrow> \<not> snd (responseEvent c d)"
  by (simp add: responseEvent_def Let_def)

lemma reader_step_inv:
  assumes "reader_step c r r'" "reader_inv c r" "mhSrcIp6Address (scNat66State c) \<noteq> IPv6Unspecified"
  shows "reader_inv c r'"
  using assms(1)
proof cases
  case (rd_read d)
  then show ?thesis using assms(2) by (auto simp: reader_inv_def reader_read_def Let_def)
next
  case rd_error
  then show ?thesis using assms(2) by (simp add: reader_inv_def)
next
  case (rd_post n)
  then show ?thesis using assms(2) responseEvent_fresh [OF assms(3), of "take n (rdBuf r)"]
    by (auto simp: reader_inv_def reader_post_def case_prod_beta)
next
  case (rd_dispatch p ps)
  then show ?thesis using assms(2) by (auto simp: reader_inv_def eventNow_def cong: option.case_cong)
qed

lemma reader_reach_inv:
  assumes "reader_reach c r" "mhSrcIp6Address (scNat66State c) \<noteq> IPv6Unspecified"
  shows "reader_inv c r"
  using assms(1)
proof (induction rule: reader_reach.induct)
  case reach_start
  then show ?case by (simp add: reader_inv_def newReader_def)
next
  case (reach_step r r')
  then show ?case using reader_step_inv assms(2) by blast
qed

text \<open>
  C27. For a connection of a node with an address, the dispatcher takes from its channel exactly the answers
  of the datagrams that the reader goroutine has accepted, in their order, in every interleaving of the
  two, although all datagrams are read into one buffer.
\<close>

theorem reader_delivers:
  assumes "reader_reach c r" "mhSrcIp6Address (scNat66State c) \<noteq> IPv6Unspecified"
  shows "rdDelivered r = map (\<lambda>d. fst (responseEvent c d)) (take (length (rdDelivered r)) (rdReceived r))"
proof -
  have "rdDelivered r = take (length (rdDelivered r)) (map (\<lambda>d. fst (responseEvent c d)) (rdReceived r))"
    using reader_reach_inv [OF assms] unfolding reader_inv_def by (metis append_eq_conv_conj)
  then show ?thesis by (simp add: take_map)
qed

text \<open>
  For a node that sends from the unspecified address the answer is posted with the read buffer itself as
  its data. When the next datagram is read before the dispatcher has taken the event, the node gets the
  second datagram twice and the first one never.
\<close>

theorem reader_shares_buffer:
  assumes "mhSrcIp6Address (scNat66State c) = IPv6Unspecified" "length d1 = length d2" "length d2 < OtMaxUdpPayloadLength"
  shows "\<exists>r. reader_reach c r \<and> rdReceived r = [d1, d2] \<and> map evData (rdDelivered r) = [d2, d2]"
proof -
  let ?n = "length d2"
  define ev where "ev d = fst (responseEvent c d)" for d
  have re: "responseEvent c d = (ev d, True)" for d
    using assms(1) by (simp add: ev_def responseEvent_def Let_def)
  define b1 where "b1 = readInto (rdBuf newReader) d1"
  define b2 where "b2 = readInto b1 d2"
  have l: "length (rdBuf newReader) = OtMaxIp6DatagramLength" by (simp add: newReader_def)
  have b: "take ?n b1 = d1" "take ?n b2 = d2" "length b1 = OtMaxIp6DatagramLength"
    using assms(2,3) l by (simp_all add: b1_def b2_def readInto_def)
  let ?r = "\<lambda>buf pend chan del recv. \<lparr>rdBuf = buf, rdPending = pend, rdClosed = False, rdChan = chan, rdDelivered = del, rdReceived = recv\<rparr>"
  have s1: "reader_reach c (?r b1 (Some ?n) [] [] [d1])"
    using reach_step [OF reach_start rd_read [of newReader _ d1]] assms(2,3) b(1) l
    by (simp add: reader_read_def Let_def b1_def [symmetric]) (simp add: newReader_def)
  have s2: "reader_reach c (?r b1 None [(ev d1, Some ?n)] [] [d1])"
    using reach_step [OF s1 rd_post] by (simp add: reader_post_def re b)
  have s3: "reader_reach c (?r b2 (Some ?n) [(ev d1, Some ?n)] [] [d1, d2])"
    using reach_step [OF s2 rd_read [of _ _ d2]] assms(3) b by (simp add: reader_read_def Let_def b2_def [symmetric])
  have s4: "reader_reach c (?r b2 None [(ev d1, Some ?n), (ev d2, Some ?n)] [] [d1, d2])"
    using reach_step [OF s3 rd_post] by (simp add: reader_post_def re b)
  have s5: "reader_reach c (?r b2 None [(ev d2, Some ?n)] [(ev d1)\<lparr>evData := d2\<rparr>] [d1, d2])"
    using reach_step [OF s4 rd_dispatch] by (simp add: eventNow_def b)
  have s6: "reader_reach c (?r b2 None [] [(ev d1)\<lparr>evData := d2\<rparr>, (ev d2)\<lparr>evData := d2\<rparr>] [d1, d2])"
    using reach_step [OF s5 rd_dispatch] by (simp add: eventNow_def b)
  show ?thesis by (rule exI, rule conjI, rule s6) simp
qed

definition exampleConn :: "Addr \<Rightarrow> SimConn" where
  "exampleConn src = \<lparr>scNode = 1, scConn = Some 9683, scNat66State = exampleMeta\<lparr>mhSrcIp6Address := src\<rparr>,
     scPortMapped = 9683, scUdpBytesUpstream = 0, scUdpBytesDownstream = 0\<rparr>"

definition exampleReader :: "SimConn \<Rightarrow> Reader" where
  "exampleReader c = \<lparr>rdBuf = [1, 2] @ replicate 1278 0, rdPending = None, rdClosed = False, rdChan = [],
     rdDelivered = [fst (responseEvent c [1, 2])], rdReceived = [[1, 2]]\<rparr>"

lemma exampleReader_reach:
  assumes "mhSrcIp6Address (scNat66State c) \<noteq> IPv6Unspecified"
  shows "reader_reach c (exampleReader c)"
proof -
  let ?r = "\<lambda>pend chan. (exampleReader c)\<lparr>rdPending := pend, rdChan := chan, rdDelivered := []\<rparr>"
  have s1: "reader_reach c (?r (Some 2) [])"
    using reach_step [OF reach_start rd_read [of newReader _ "[1, 2]"]]
    by (simp add: reader_read_def Let_def newReader_def readInto_def exampleReader_def numeral_2_eq_2)
  have s2: "reader_reach c (?r None [(fst (responseEvent c [1, 2]), None)])"
    using reach_step [OF s1 rd_post [of _ 2]] responseEvent_fresh [OF assms, of "[1, 2]"]
    by (simp add: reader_post_def exampleReader_def case_prod_beta)
  show ?thesis
    using reach_step [OF s2 rd_dispatch] by (simp add: eventNow_def exampleReader_def)
qed

theorem reader_delivers_witness:
  "rdDelivered (exampleReader (exampleConn (Addr16 (replicate 16 0xfe)))) =
     map (\<lambda>d. fst (responseEvent (exampleConn (Addr16 (replicate 16 0xfe))) d)) [[1, 2]]"
  using reader_delivers [OF exampleReader_reach, of "exampleConn (Addr16 (replicate 16 0xfe))"]
  by (simp add: exampleConn_def exampleReader_def)

theorem reader_shares_buffer_witness:
  "\<exists>r. reader_reach (exampleConn IPv6Unspecified) r \<and> rdReceived r = [[1, 2], [3, 4]] \<and>
     map evData (rdDelivered r) = [[3, 4], [3, 4]]"
  using reader_shares_buffer [of "exampleConn IPv6Unspecified" "[1, 2]" "[3, 4]"] by (simp add: exampleConn_def)

end
