(* ===== verification/Node_Cli.thy ===== *)
theory Node_Cli
  imports Go_Strings Types "HOL-Library.Sublist"
begin

text \<open>
  The command line of a node (\<^verbatim>\<open>simulation/node.go\<close>): assembling the UART data of a node into lines,
  sending a command and reading its output until \<open>Done\<close> or \<open>Error\<close>, and the typed variants of a
  command.

  A Go string or byte slice is a list of 8-bit characters. The goroutine of the command waits in a
  \<^verbatim>\<open>select\<close>; the list of \<open>Arm\<close>s says which of its cases is taken in each round, with the UART data that
  handling an event delivers to this node. An arm that is not ready is skipped. When the arms run out
  the code is still waiting, which is the result \<open>None\<close>.
\<close>

section \<open>Strings\<close>

text \<open>\<^verbatim>\<open>strings.TrimSpace\<close>: the white space of Unicode in its UTF-8 encoding.\<close>

definition utf8_spaces :: "string list" where
  "utf8_spaces = map (\<lambda>n. [char_of n]) [9, 10, 11, 12, 13, 32 :: nat] @
     map (map (char_of :: nat \<Rightarrow> char)) ([[0xC2, 0x85], [0xC2, 0xA0], [0xE1, 0x9A, 0x80]] @
       map (\<lambda>n. [0xE2, 0x80, n]) [0x80..<0x8B] @
       [[0xE2, 0x80, 0xA8], [0xE2, 0x80, 0xA9], [0xE2, 0x80, 0xAF], [0xE2, 0x81, 0x9F], [0xE3, 0x80, 0x80]])"

lemma utf8_spaces_nonempty: "sp \<in> set utf8_spaces \<Longrightarrow> sp \<noteq> []"
  by (auto simp: utf8_spaces_def)

function trimLeftSpaces :: "string list \<Rightarrow> string \<Rightarrow> string" where
  "trimLeftSpaces sps s = (case find (\<lambda>sp. sp \<noteq> [] \<and> prefix sp s) sps of None \<Rightarrow> s | Some sp \<Rightarrow> trimLeftSpaces sps (drop (length sp) s))"
  by auto

termination
  by (relation "measure (\<lambda>(_, s). length s)") (auto simp: find_Some_iff prefix_def)

declare trimLeftSpaces.simps [simp del]

definition go_TrimSpace :: "string \<Rightarrow> string" where
  "go_TrimSpace s = rev (trimLeftSpaces (map rev utf8_spaces) (rev (trimLeftSpaces utf8_spaces s)))"

text \<open>\<^verbatim>\<open>bytes.TrimRight(b, "\r\n")\<close>.\<close>

definition trimRightCrLf :: "string \<Rightarrow> string" where
  "trimRightCrLf s = rev (dropWhile (\<lambda>c. c = CHR 0x0D \<or> c = CHR 0x0A) (rev s))"

abbreviation newline :: char where
  "newline \<equiv> CHR 0x0A"

text \<open>\<^verbatim>\<open>bytes.IndexByte(b, '\n')\<close>, with \<open>None\<close> for -1.\<close>

definition indexNewline :: "string \<Rightarrow> nat option" where
  "indexNewline s = (if newline \<in> set s then Some (length (takeWhile (\<lambda>c. c \<noteq> newline) s)) else None)"

text \<open>The regular expression \<^verbatim>\<open>^\s*(Done|Error \d+: .*)\<close> of \<^verbatim>\<open>simulation/types.go\<close>, which is not anchored at the end.\<close>

definition isRegexSpace :: "char \<Rightarrow> bool" where
  "isRegexSpace c \<longleftrightarrow> c \<in> {CHR 0x09, CHR 0x0A, CHR 0x0C, CHR 0x0D, CHR '' ''}"

definition isDigit :: "char \<Rightarrow> bool" where
  "isDigit c \<longleftrightarrow> c \<in> set ''0123456789''"

definition doneOrErrorRegexp :: "string \<Rightarrow> bool" where
  "doneOrErrorRegexp line =
    (let s = dropWhile isRegexSpace line in
     prefix ''Done'' s \<or>
     (prefix ''Error '' s \<and>
       (let t = drop 6 s in t \<noteq> [] \<and> isDigit (hd t) \<and> prefix '': '' (dropWhile isDigit t))))"

section \<open>The node\<close>

datatype NodeUartType = nodeUartTypeUndefined | nodeUartTypeRealTime | nodeUartTypeVirtualTime

datatype CliOut = Printed string | PipeWritten string | UartSent string | CommandNotified

record CliNode =
  cnId :: NodeId
  cnCfg :: NodeConfig
  cnCmdErr :: "string option"
  cnIsExiting :: bool
  cnPendingLines :: "string list"
  cnUartLine :: string
  cnUartType :: NodeUartType
  cnUartHasEcho :: bool
  cnOut :: "CliOut list"

abbreviation OtCliPrompt :: string where
  "OtCliPrompt \<equiv> ''> ''"

abbreviation OtCliPromptLen :: nat where
  "OtCliPromptLen \<equiv> 2"

definition Node_error :: "string option \<Rightarrow> CliNode \<Rightarrow> CliNode" where
  "Node_error err n = (case err of None \<Rightarrow> n | Some e \<Rightarrow> n\<lparr>cnCmdErr := Some e\<rparr>)"

text \<open>\<open>ctx\<close> is the node that the user has selected, \<^verbatim>\<open>cmdRunner.GetNodeContext()\<close>.\<close>

definition DisplayPendingLines :: "NodeId \<Rightarrow> CliNode \<Rightarrow> CliNode" where
  "DisplayPendingLines ctx n =
    (let pre = (if ctx \<noteq> cnId n then GetNodeName (cnId n) else []) in
     n\<lparr>cnPendingLines := [],
       cnOut := cnOut n @ map (\<lambda>line. Printed (pre @ line))
         (filter (\<lambda>line. \<not> (cnIsExiting n \<and> (line = ''exit'' \<or> line = []))) (cnPendingLines n))\<rparr>)"

definition pushLine :: "NodeId \<Rightarrow> string \<Rightarrow> CliNode \<Rightarrow> CliNode" where
  "pushLine ctx line n =
    (let n = (if length (cnPendingLines n) < 10000 then n else DisplayPendingLines ctx n)
     in n\<lparr>cnPendingLines := cnPendingLines n @ [line]\<rparr>)"

function uartLoop :: "NodeId \<Rightarrow> string \<Rightarrow> CliNode \<Rightarrow> CliNode" where
  "uartLoop ctx buf n =
    (if prefix OtCliPrompt buf then uartLoop ctx (drop OtCliPromptLen buf) n
     else case indexNewline buf of
       None \<Rightarrow> n\<lparr>cnUartLine := buf\<rparr>
     | Some idx \<Rightarrow> uartLoop ctx (drop (idx + 1) buf) (pushLine ctx (trimRightCrLf (take (idx + 1) buf)) n))"
  by auto

termination
proof (relation "measure (\<lambda>(_, buf, _). length buf)")
  fix ctx buf n idx
  assume "indexNewline buf = Some idx"
  then have "buf \<noteq> []" by (auto simp: indexNewline_def split: if_splits)
  then show "((ctx, drop (idx + 1) buf, pushLine ctx (trimRightCrLf (take (idx + 1) buf)) n), ctx, buf, n)
    \<in> measure (\<lambda>(_, buf, _). length buf)" by simp
qed (auto simp: prefix_def)

declare uartLoop.simps [simp del]

definition processUartData :: "NodeId \<Rightarrow> string \<Rightarrow> CliNode \<Rightarrow> CliNode" where
  "processUartData ctx data n = uartLoop ctx (cnUartLine n @ data) n"

section \<open>Reading lines\<close>

datatype Arm = ArmLine | ArmUart string | ArmEvent | ArmDeadline | ArmDone

datatype Expected = ExpString string | ExpRegexp "string \<Rightarrow> bool" | ExpList "string list"

fun isLineMatch :: "string \<Rightarrow> Expected \<Rightarrow> bool" where
  "isLineMatch line (ExpString s) = (line = s)"
| "isLineMatch line (ExpRegexp f) = f line"
| "isLineMatch line (ExpList ss) = (line \<in> set ss)"

text \<open>The result of \<open>expectLine\<close>: the lines, the error and the arms that are left.\<close>

fun expectLine :: "NodeId \<Rightarrow> Expected \<Rightarrow> Arm list \<Rightarrow> string list \<Rightarrow> CliNode \<Rightarrow> (string list \<times> string option \<times> Arm list \<times> CliNode) option" where
  "expectLine ctx e [] out n = None"
| "expectLine ctx e (ArmLine # arms) out n =
    (case cnPendingLines n of
       [] \<Rightarrow> expectLine ctx e arms out n
     | line # rest \<Rightarrow>
        (let n = n\<lparr>cnPendingLines := rest\<rparr> in
         if isLineMatch line e then Some (out @ [line], None, arms, n)
         else expectLine ctx e arms (out @ [line]) n))"
| "expectLine ctx e (ArmUart d # arms) out n = expectLine ctx e arms out (processUartData ctx d n)"
| "expectLine ctx e (ArmEvent # arms) out n = expectLine ctx e arms out n"
| "expectLine ctx e (ArmDeadline # arms) out n = Some (out, Some ''expectLine timeout'', arms, n)"
| "expectLine ctx e (ArmDone # arms) out n = Some ([], Some ''command interrupted due to simulation exit'', arms, n)"

section \<open>Commands\<close>

text \<open>\<open>sendErr\<close> is the result of writing to the pipe or to the virtual UART.\<close>

definition inputCommand :: "string option \<Rightarrow> string \<Rightarrow> CliNode \<Rightarrow> CliNode \<times> string option" where
  "inputCommand sendErr cmd n =
    (let n = n\<lparr>cnCmdErr := None\<rparr>; cmdBytes = cmd @ [newline] in
     case cnUartType n of
       nodeUartTypeRealTime \<Rightarrow>
        (case sendErr of
           None \<Rightarrow> (n\<lparr>cnOut := cnOut n @ [PipeWritten cmdBytes, CommandNotified]\<rparr>, None)
         | Some e \<Rightarrow> (n\<lparr>cnOut := cnOut n @ [PipeWritten cmdBytes]\<rparr>, Some e))
     | nodeUartTypeVirtualTime \<Rightarrow> (n\<lparr>cnOut := cnOut n @ [UartSent cmdBytes]\<rparr>, sendErr)
     | nodeUartTypeUndefined \<Rightarrow> (n, Some ''invalid node.uartType''))"

text \<open>The echo of the command, when the terminal of the node has one.\<close>

definition expectEcho :: "NodeId \<Rightarrow> string \<Rightarrow> Arm list \<Rightarrow> CliNode \<Rightarrow> (string option \<times> Arm list \<times> CliNode) option" where
  "expectEcho ctx cmd arms n =
    (if cnUartHasEcho n
     then (case expectLine ctx (ExpString cmd) arms [] n of None \<Rightarrow> None | Some (_, err, arms, n) \<Rightarrow> Some (err, arms, n))
     else Some (None, arms, n))"

definition Command :: "NodeId \<Rightarrow> string option \<Rightarrow> Arm list \<Rightarrow> string \<Rightarrow> CliNode \<Rightarrow> (string list \<times> Arm list \<times> CliNode) option" where
  "Command ctx sendErr arms cmd n =
    (case inputCommand sendErr cmd n of
       (n, Some e) \<Rightarrow> Some ([], arms, Node_error (Some e) n)
     | (n, None) \<Rightarrow>
        (case expectEcho ctx cmd arms n of
           None \<Rightarrow> None
         | Some (Some e, arms, n) \<Rightarrow> Some ([], arms, Node_error (Some e) n)
         | Some (None, arms, n) \<Rightarrow>
            (case expectLine ctx (ExpRegexp doneOrErrorRegexp) arms [] n of
               None \<Rightarrow> None
             | Some (_, Some e, arms, n) \<Rightarrow> Some ([], arms, Node_error (Some e) n)
             | Some (out, None, arms, n) \<Rightarrow>
                (let result = go_TrimSpace (last out)
                 in Some (butlast out, arms, if result \<noteq> ''Done'' then Node_error (Some result) n else n)))))"

definition CommandResult :: "CliNode \<Rightarrow> string option" where
  "CommandResult n = cnCmdErr n"

text \<open>
  \<open>readLine\<close> takes a pending line, or waits for the simulation once and tries again; \<open>waits\<close> holds the
  UART data that arrives in each wait. \<open>CommandNoDone\<close> reads until there is no line left.
\<close>

function noDoneLoop :: "NodeId \<Rightarrow> string list \<Rightarrow> string list \<Rightarrow> bool \<Rightarrow> CliNode \<Rightarrow> string list \<times> bool \<times> CliNode" where
  "noDoneLoop ctx waits output hasDone n =
    (case cnPendingLines n of
       line # rest \<Rightarrow>
        (let n = n\<lparr>cnPendingLines := rest\<rparr>; lineTrimmed = go_TrimSpace line in
         if prefix ''Error'' line then noDoneLoop ctx waits output hasDone (Node_error (Some line) n)
         else if lineTrimmed = ''Done'' then noDoneLoop ctx waits output True n
         else noDoneLoop ctx waits (output @ [line]) (if lineTrimmed \<noteq> [] then False else hasDone) n)
     | [] \<Rightarrow>
        (case waits of
           [] \<Rightarrow> (output, hasDone, n)
         | d # ws \<Rightarrow>
            (let n = processUartData ctx d n in
             if cnPendingLines n = [] then (output, hasDone, n) else noDoneLoop ctx ws output hasDone n)))"
  by pat_completeness auto

termination
  by (relation "measures [\<lambda>(_, ws, _, _, _). length ws, \<lambda>(_, _, _, _, n). length (cnPendingLines n)]")
    (auto simp: Node_error_def)

declare noDoneLoop.simps [simp del]

definition CommandNoDone :: "NodeId \<Rightarrow> string option \<Rightarrow> Arm list \<Rightarrow> string list \<Rightarrow> string \<Rightarrow> CliNode \<Rightarrow> (string list \<times> bool \<times> CliNode) option" where
  "CommandNoDone ctx sendErr arms waits cmd n =
    (case inputCommand sendErr cmd n of
       (n, Some e) \<Rightarrow> Some ([], False, Node_error (Some e) n)
     | (n, None) \<Rightarrow>
        (case expectEcho ctx cmd arms n of
           None \<Rightarrow> None
         | Some (Some e, arms, n) \<Rightarrow> Some ([], False, Node_error (Some e) n)
         | Some (None, arms, n) \<Rightarrow> Some (noDoneLoop ctx waits [] False n)))"

end
