(* ===== verification/Node_Cli_Laws.thy ===== *)
theory Node_Cli_Laws
  imports Node_Cli
begin

text \<open>
  What the command line of a node guarantees: the lines do not depend on how the UART data is cut into
  events, and a command returns exactly the lines between its echo and the first \<open>Done\<close> or \<open>Error\<close>
  line, in every interleaving of arriving data and reading.
\<close>

section \<open>Lines of a stream\<close>

text \<open>The complete lines at the front of a stream and the incomplete rest, without the queue of the node.\<close>

function uartLines :: "string \<Rightarrow> string list \<times> string" where
  "uartLines buf =
    (if prefix OtCliPrompt buf then uartLines (drop OtCliPromptLen buf)
     else case indexNewline buf of
       None \<Rightarrow> ([], buf)
     | Some idx \<Rightarrow> (case uartLines (drop (idx + 1) buf) of (ls, rest) \<Rightarrow> (trimRightCrLf (take (idx + 1) buf) # ls, rest)))"
  by auto

termination
  by (relation "measure length") (auto simp: prefix_def indexNewline_def length_greater_0_conv split: if_splits intro!: diff_less)

declare uartLines.simps [simp del]

lemma pushLine_uartLine: "pushLine ctx l (n\<lparr>cnUartLine := u\<rparr>) = (pushLine ctx l n)\<lparr>cnUartLine := u\<rparr>"
  by (simp add: pushLine_def DisplayPendingLines_def Let_def)

lemma fold_pushLine_uartLine:
  "fold (pushLine ctx) ls (n\<lparr>cnUartLine := u\<rparr>) = (fold (pushLine ctx) ls n)\<lparr>cnUartLine := u\<rparr>"
  by (induction ls arbitrary: n) (simp_all add: pushLine_uartLine)

lemma uartLoop_lines:
  "uartLoop ctx buf n = (fold (pushLine ctx) (fst (uartLines buf)) n)\<lparr>cnUartLine := snd (uartLines buf)\<rparr>"
proof (induction ctx buf n rule: uartLoop.induct)
  case (1 ctx buf n)
  show ?case
  proof (cases "prefix OtCliPrompt buf")
    case True
    then show ?thesis using 1(1) by (simp add: uartLoop.simps [of ctx buf] uartLines.simps [of buf])
  next
    case False
    then show ?thesis using 1(2)
      by (cases "indexNewline buf")
        (simp_all add: uartLoop.simps [of ctx buf] uartLines.simps [of buf] case_prod_beta)
  qed
qed

lemma processUartData_lines:
  "processUartData ctx d n =
    (fold (pushLine ctx) (fst (uartLines (cnUartLine n @ d))) n)\<lparr>cnUartLine := snd (uartLines (cnUartLine n @ d))\<rparr>"
  by (simp add: processUartData_def uartLoop_lines)

lemma takeWhile_newline_less: "newline \<in> set s \<Longrightarrow> length (takeWhile (\<lambda>c. c \<noteq> newline) s) < length s"
  by (induction s) auto

lemma indexNewline_append: "indexNewline s = Some i \<Longrightarrow> indexNewline (s @ t) = Some i \<and> i < length s"
  using takeWhile_newline_less [of s] by (auto simp: indexNewline_def split: if_splits)

lemma prompt_prefix_append: "newline \<in> set s \<Longrightarrow> prefix OtCliPrompt (s @ t) \<longleftrightarrow> prefix OtCliPrompt s"
  by (cases s; cases "tl s") auto

text \<open>Splitting the stream in two: the rest of the first part is the front of the second one.\<close>

lemma uartLines_append:
  "uartLines (s @ t) = (fst (uartLines s) @ fst (uartLines (snd (uartLines s) @ t)), snd (uartLines (snd (uartLines s) @ t)))"
proof (induction s rule: uartLines.induct)
  case (1 s)
  consider "prefix OtCliPrompt s" | "\<not> prefix OtCliPrompt s" "indexNewline s = None"
    | i where "\<not> prefix OtCliPrompt s" "indexNewline s = Some i" by fastforce
  then show ?case
  proof cases
    case 1
    then have "prefix OtCliPrompt (s @ t)" "drop OtCliPromptLen (s @ t) = drop OtCliPromptLen s @ t"
      by (auto simp: prefix_def)
    with "1.IH"(1) 1 show ?thesis by (simp add: uartLines.simps [of s] uartLines.simps [of "s @ t"])
  next
    case 2
    then have "uartLines s = ([], s)" by (simp add: uartLines.simps [of s])
    then show ?thesis by simp
  next
    case (3 i)
    then have "newline \<in> set s" by (auto simp: indexNewline_def split: if_splits)
    with 3 have np: "\<not> prefix OtCliPrompt (s @ t)" using prompt_prefix_append by blast
    have i: "indexNewline (s @ t) = Some i" "i < length s" using indexNewline_append [OF 3(2)] by simp_all
    then have d: "Suc i - length s = 0" by simp
    with "1.IH"(2) [OF 3] 3 np i(1) show ?thesis
      by (simp add: uartLines.simps [of s] uartLines.simps [of "s @ t"] case_prod_beta)
  qed
qed

lemma processUartData_append:
  "processUartData ctx t (processUartData ctx s n) = processUartData ctx (s @ t) n"
  by (simp add: processUartData_lines fold_pushLine_uartLine uartLines_append [of "cnUartLine n @ s" t, simplified])

text \<open>
  C16. The UART data of a node may be cut into events at any point, also in the middle of a prompt or of
  a line end: feeding the pieces one by one gives the same queue of lines, the same displayed lines and
  the same incomplete line as feeding the whole data at once.
\<close>

theorem processUartData_chunks:
  "fold (processUartData ctx) (d # chunks) n = processUartData ctx (concat (d # chunks)) n"
proof (induction chunks arbitrary: d n)
  case (Cons c chunks)
  have "fold (processUartData ctx) (d # c # chunks) n = fold (processUartData ctx) ((d @ c) # chunks) n"
    by (simp add: processUartData_append)
  then show ?case using Cons.IH [of "d @ c"] by simp
qed simp

section \<open>Reading a line\<close>

fun armData :: "Arm list \<Rightarrow> string" where
  "armData [] = []"
| "armData (ArmUart d # arms) = d @ armData arms"
| "armData (_ # arms) = armData arms"

text \<open>The lines that are in the queue or will arrive, and a queue that never overflows.\<close>

definition linesAhead :: "CliNode \<Rightarrow> Arm list \<Rightarrow> string list" where
  "linesAhead n arms = cnPendingLines n @ fst (uartLines (cnUartLine n @ armData arms))"

text \<open>Nothing interrupts the wait, and at least \<open>k\<close> rounds of the select follow after all data has arrived.\<close>

definition undisturbed :: "nat \<Rightarrow> Arm list \<Rightarrow> bool" where
  "undisturbed k arms \<longleftrightarrow> ArmDeadline \<notin> set arms \<and> ArmDone \<notin> set arms \<and> (\<exists>front. arms = front @ replicate k ArmLine)"

definition uart_stable :: "CliNode \<Rightarrow> bool" where
  "uart_stable n \<longleftrightarrow> fst (uartLines (cnUartLine n)) = []"

lemma uartLines_rest: "uartLines (snd (uartLines s)) = ([], snd (uartLines s))"
  using uartLines_append [of s "[]"] by (simp add: prod_eq_iff)

lemma fold_pushLine_pending:
  "length (cnPendingLines n) + length ls \<le> 10000 \<Longrightarrow>
     fold (pushLine ctx) ls n = n\<lparr>cnPendingLines := cnPendingLines n @ ls\<rparr>"
proof (induction ls arbitrary: n)
  case (Cons l ls)
  then have "pushLine ctx l n = n\<lparr>cnPendingLines := cnPendingLines n @ [l]\<rparr>" by (simp add: pushLine_def)
  then show ?case using Cons.IH [of "n\<lparr>cnPendingLines := cnPendingLines n @ [l]\<rparr>"] Cons.prems by simp
qed simp

text \<open>Data that arrives moves lines from the stream into the queue.\<close>

lemma processUartData_ahead:
  assumes "length (linesAhead n (ArmUart d # arms)) \<le> 10000" and n'_def: "n' = processUartData ctx d n"
  shows "linesAhead n' arms = linesAhead n (ArmUart d # arms)" "uart_stable n'"
    "n' = n\<lparr>cnPendingLines := cnPendingLines n', cnUartLine := cnUartLine n'\<rparr>"
proof -
  note u = uartLines_append [of "cnUartLine n @ d" "armData arms", simplified]
  have "length (cnPendingLines n) + length (fst (uartLines (cnUartLine n @ d))) \<le> 10000"
    using assms(1) by (simp add: linesAhead_def u)
  then have n': "n' = n\<lparr>cnPendingLines := cnPendingLines n @ fst (uartLines (cnUartLine n @ d)),
      cnUartLine := snd (uartLines (cnUartLine n @ d))\<rparr>"
    by (simp add: n'_def processUartData_lines fold_pushLine_pending)
  then show "linesAhead n' arms = linesAhead n (ArmUart d # arms)" by (simp add: linesAhead_def u)
  show "uart_stable n'" by (simp add: n' uart_stable_def uartLines_rest)
  show "n' = n\<lparr>cnPendingLines := cnPendingLines n', cnUartLine := cnUartLine n'\<rparr>" by (simp add: n')
qed

lemma undisturbed_tl: "undisturbed k (a # arms) \<Longrightarrow> undisturbed (k - 1) arms"
proof -
  assume u: "undisturbed k (a # arms)"
  then obtain front where f: "a # arms = front @ replicate k ArmLine" by (auto simp: undisturbed_def)
  have "\<exists>front. arms = front @ replicate (k - 1) ArmLine"
  proof (cases front)
    case Nil
    with f show ?thesis by (cases k) auto
  next
    case (Cons b bs)
    with f have "arms = (bs @ replicate (min k 1) ArmLine) @ replicate (k - 1) ArmLine"
      by (cases k) (auto simp: replicate_append_same)
    then show ?thesis by blast
  qed
  with u show ?thesis by (auto simp: undisturbed_def)
qed

lemma undisturbed_data:
  assumes "undisturbed k (a # arms)" "a \<noteq> ArmLine"
  shows "undisturbed k arms"
proof -
  obtain front where f: "a # arms = front @ replicate k ArmLine" using assms(1) by (auto simp: undisturbed_def)
  with assms(2) obtain b bs where "front = b # bs" by (cases front; cases k) auto
  with f have "arms = bs @ replicate k ArmLine" by simp
  with assms(1) show ?thesis by (auto simp: undisturbed_def)
qed

lemma undisturbed_mono: "undisturbed k arms \<Longrightarrow> j \<le> k \<Longrightarrow> undisturbed j arms"
  unfolding undisturbed_def by (metis append_assoc le_add_diff_inverse2 replicate_add)

lemma armData_replicate [simp]: "armData (replicate k ArmLine) = []"
  by (induction k) simp_all

lemma undisturbed_empty_queue:
  assumes "undisturbed k (ArmLine # arms)" "cnPendingLines n = []" "uart_stable n" "linesAhead n (ArmLine # arms) \<noteq> []"
  shows "undisturbed k arms"
proof -
  obtain front where f: "ArmLine # arms = front @ replicate k ArmLine" using assms(1) by (auto simp: undisturbed_def)
  have "front \<noteq> []"
  proof
    assume "front = []"
    with f have "armData (ArmLine # arms) = []" by (metis append_Nil armData_replicate)
    with assms show False by (simp add: linesAhead_def uart_stable_def)
  qed
  with f have "arms = tl front @ replicate k ArmLine" by (cases front) auto
  with assms(1) show ?thesis by (auto simp: undisturbed_def)
qed

text \<open>
  The loop of \<open>expectLine\<close> returns the lines ahead up to the first match and leaves the others ahead.
\<close>

lemma expectLine_ahead:
  assumes "linesAhead n arms = pre @ m # post" "\<forall>l \<in> set pre. \<not> isLineMatch l e" "isLineMatch m e"
    "uart_stable n" "length (linesAhead n arms) \<le> 10000" "undisturbed k arms" "length pre < k"
  shows "\<exists>arms' n'. expectLine ctx e arms out n = Some (out @ pre @ [m], None, arms', n') \<and> linesAhead n' arms' = post \<and>
    uart_stable n' \<and> undisturbed (k - length pre - 1) arms' \<and>
    n' = n\<lparr>cnPendingLines := cnPendingLines n', cnUartLine := cnUartLine n'\<rparr>"
  using assms
proof (induction arms arbitrary: n out pre k)
  case Nil
  then show ?case by (auto simp: undisturbed_def)
next
  case (Cons a arms)
  show ?case
  proof (cases a)
    case (ArmUart d)
    let ?n = "processUartData ctx d n"
    note p = processUartData_ahead [OF Cons.prems(5) [unfolded ArmUart] refl, of ctx]
    obtain arms' n' where r: "expectLine ctx e arms out ?n = Some (out @ pre @ [m], None, arms', n')" "linesAhead n' arms' = post"
        "uart_stable n'" "undisturbed (k - length pre - 1) arms'"
        "n' = ?n\<lparr>cnPendingLines := cnPendingLines n', cnUartLine := cnUartLine n'\<rparr>"
      using Cons.IH [of ?n pre k out] Cons.prems p(1,2) undisturbed_data ArmUart by fastforce
    have "n' = n\<lparr>cnPendingLines := cnPendingLines n', cnUartLine := cnUartLine n'\<rparr>"
      using r(5) p(3) by (metis CliNode.update_convs(5,6) CliNode.surjective)
    with r ArmUart show ?thesis by auto
  next
    case ArmEvent
    then show ?thesis using Cons undisturbed_data [of k ArmEvent arms] by (auto simp: linesAhead_def)
  next
    case ArmLine
    note u = undisturbed_tl [OF Cons.prems(6)]
    show ?thesis
    proof (cases "cnPendingLines n")
      case Nil
      have "undisturbed k arms"
        using undisturbed_empty_queue [OF Cons.prems(6) [unfolded ArmLine] Nil Cons.prems(4)] Cons.prems(1) ArmLine by simp
      then show ?thesis using Cons ArmLine Nil by (auto simp: linesAhead_def)
    next
      case q: (Cons l rest)
      let ?n = "n\<lparr>cnPendingLines := rest\<rparr>"
      have ahead: "l # linesAhead ?n arms = pre @ m # post"
        using Cons.prems(1) q ArmLine by (simp add: linesAhead_def)
      have st: "uart_stable ?n" using Cons.prems(4) by (simp add: uart_stable_def)
      show ?thesis
      proof (cases pre)
        case Nil
        with ahead Cons.prems(3) q ArmLine st u show ?thesis by auto
      next
        case p: (Cons l' pre')
        with ahead have a: "l' = l" "linesAhead ?n arms = pre' @ m # post" by simp_all
        have "length (linesAhead ?n arms) \<le> 10000" using Cons.prems(1,5) p a by simp
        with Cons.IH [of ?n pre' "k - 1" "out @ [l]"] a Cons.prems(2,3,7) p st u q ArmLine show ?thesis
          by auto
      qed
    qed
  qed (use Cons.prems(6) in \<open>auto simp: undisturbed_def\<close>)
qed

section \<open>Running a command\<close>

text \<open>Between two commands: no incomplete line or prompt is in the buffer that a reader could still turn into lines.\<close>

lemma linesAhead_input:
  "linesAhead (n\<lparr>cnCmdErr := e, cnOut := os\<rparr>) arms = linesAhead n arms"
  "uart_stable (n\<lparr>cnCmdErr := e, cnOut := os\<rparr>) = uart_stable n"
  by (simp_all add: linesAhead_def uart_stable_def)

lemma inputCommand_sent:
  assumes "cnUartType n \<noteq> nodeUartTypeUndefined"
  shows "\<exists>os. inputCommand None cmd n = (n\<lparr>cnCmdErr := None, cnOut := os\<rparr>, None)"
  using assms by (cases "cnUartType n") (auto simp: inputCommand_def)

lemma expectEcho_ahead:
  assumes "linesAhead n arms = (if cnUartHasEcho n then junk @ [cmd] else []) @ rest" "cmd \<notin> set junk"
    "uart_stable n" "length (linesAhead n arms) \<le> 10000" "undisturbed (length (linesAhead n arms)) arms"
  shows "\<exists>arms' n'. expectEcho ctx cmd arms n = Some (None, arms', n') \<and> linesAhead n' arms' = rest \<and> uart_stable n' \<and>
    undisturbed (length rest) arms' \<and> n' = n\<lparr>cnPendingLines := cnPendingLines n', cnUartLine := cnUartLine n'\<rparr>"
proof (cases "cnUartHasEcho n")
  case True
  then have l: "linesAhead n arms = junk @ cmd # rest" using assms(1) by simp
  have "\<forall>l \<in> set junk. \<not> isLineMatch l (ExpString cmd)" using assms(2) by auto
  from expectLine_ahead [OF l this _ assms(3-5), of ctx "[]"] l True show ?thesis
    by (auto simp: expectEcho_def)
next
  case False
  then show ?thesis using assms by (simp add: expectEcho_def)
qed

text \<open>
  C17. A command returns exactly the lines that the node writes between the echo of the command (if its
  terminal has an echo) and the first line that begins with \<open>Done\<close> or with an error number, and leaves
  all later lines for the next reader. Its result is no error if that line is \<open>Done\<close>, and the line
  itself otherwise. This holds for every way in which the data is cut into events and for every order of
  arriving and reading, as long as the wait is not interrupted and the queue of 10000 lines suffices.
\<close>

theorem Command_output:
  assumes "linesAhead n arms = (if cnUartHasEcho n then junk @ [cmd] else []) @ outs @ res # post"
    "cmd \<notin> set junk" "\<forall>l \<in> set outs. \<not> doneOrErrorRegexp l" "doneOrErrorRegexp res"
    "uart_stable n" "cnUartType n \<noteq> nodeUartTypeUndefined"
    "length (linesAhead n arms) \<le> 10000" "undisturbed (length (linesAhead n arms)) arms"
  shows "\<exists>arms' n'. Command ctx None arms cmd n = Some (outs, arms', n') \<and> linesAhead n' arms' = post \<and>
    CommandResult n' = (if go_TrimSpace res = ''Done'' then None else Some (go_TrimSpace res))"
proof -
  obtain os where i: "inputCommand None cmd n = (n\<lparr>cnCmdErr := None, cnOut := os\<rparr>, None)"
    using inputCommand_sent [OF assms(6)] by blast
  let ?n = "n\<lparr>cnCmdErr := None, cnOut := os\<rparr>"
  have la: "linesAhead ?n arms = linesAhead n arms" "uart_stable ?n" using assms(5) by (simp_all add: linesAhead_input)
  obtain arms1 n1 where e: "expectEcho ctx cmd arms ?n = Some (None, arms1, n1)" "linesAhead n1 arms1 = outs @ res # post"
      "uart_stable n1" "undisturbed (length (outs @ res # post)) arms1"
      "n1 = ?n\<lparr>cnPendingLines := cnPendingLines n1, cnUartLine := cnUartLine n1\<rparr>"
    using expectEcho_ahead [of ?n arms junk cmd "outs @ res # post" ctx] la assms(1,2,7,8) by auto
  have b: "length (linesAhead n1 arms1) \<le> 10000" using assms(1,7) e(2) by simp
  have o: "\<forall>l \<in> set outs. \<not> isLineMatch l (ExpRegexp doneOrErrorRegexp)" "isLineMatch res (ExpRegexp doneOrErrorRegexp)"
    using assms(3,4) by simp_all
  obtain arms2 n2 where f: "expectLine ctx (ExpRegexp doneOrErrorRegexp) arms1 [] n1 = Some (outs @ [res], None, arms2, n2)"
      "linesAhead n2 arms2 = post" "n2 = n1\<lparr>cnPendingLines := cnPendingLines n2, cnUartLine := cnUartLine n2\<rparr>"
    using expectLine_ahead [OF e(2) o e(3) b e(4), of ctx "[]"] by auto
  have "cnCmdErr n1 = None" using arg_cong [OF e(5), of cnCmdErr] by simp
  then have "cnCmdErr n2 = None" using arg_cong [OF f(3), of cnCmdErr] by simp
  with i e(1) f show ?thesis
    by (simp add: Command_def CommandResult_def Node_error_def Let_def linesAhead_def)
qed

definition exampleCliNode :: "NodeConfig \<Rightarrow> CliNode" where
  "exampleCliNode cfg = \<lparr>cnId = 1, cnCfg = cfg, cnCmdErr = None, cnIsExiting = False, cnPendingLines = [],
     cnUartLine = [], cnUartType = nodeUartTypeVirtualTime, cnUartHasEcho = True, cnOut = []\<rparr>"

abbreviation cr_lf :: string where
  "cr_lf \<equiv> [CHR 0x0D, CHR 0x0A]"

definition exampleArms :: "Arm list" where
  "exampleArms = [ArmUart ''> st'', ArmLine, ArmUart (''ate'' @ cr_lf @ ''lead''), ArmLine, ArmUart (''er'' @ [CHR 0x0D]),
     ArmEvent, ArmUart ([CHR 0x0A] @ ''Done'' @ cr_lf @ ''> ''), ArmLine, ArmLine, ArmLine]"

lemma exampleArms_ahead: "linesAhead (exampleCliNode cfg) exampleArms = [''state'', ''leader'', ''Done'']"
proof -
  have "fst (uartLines (armData exampleArms)) = [''state'', ''leader'', ''Done'']" by code_simp
  then show ?thesis by (simp add: linesAhead_def exampleCliNode_def)
qed

lemma exampleCliNode_stable: "uart_stable (exampleCliNode cfg)"
proof -
  have "fst (uartLines []) = []" by code_simp
  then show ?thesis by (simp add: uart_stable_def exampleCliNode_def)
qed

definition exampleNodeConfig :: NodeConfig where
  "exampleNodeConfig = \<lparr>cfgID = 1, cfgType = ''router'', cfgVersion = [], cfgX = 0, cfgY = 0, cfgZ = 0, IsAutoPlaced = True,
     IsRaw = False, IsMtd = False, IsRcp = False, IsRouter = True, IsBorderRouter = False, IsExternal = False,
     RxOffWhenIdle = False, NodeLogFile = True, cfgRadioRange = 220, ExecutablePath = [], HostExePath = [], NetIfName = [],
     Restore = False, InitScript = [], cfgRandomSeed = 0, RfSimParams = []\<rparr>"

lemma exampleArms_undisturbed: "undisturbed 3 exampleArms"
proof -
  have "exampleArms = take 7 exampleArms @ replicate 3 ArmLine" by code_simp
  moreover have "ArmDeadline \<notin> set exampleArms" "ArmDone \<notin> set exampleArms" by (simp_all add: exampleArms_def)
  ultimately show ?thesis unfolding undisturbed_def by blast
qed

lemma exampleLines: "\<not> doneOrErrorRegexp ''leader''" "doneOrErrorRegexp ''Done''" "go_TrimSpace ''Done'' = ''Done''"
  by code_simp+

theorem Command_output_witness:
  "\<exists>arms' n'. Command 1 None exampleArms ''state'' (exampleCliNode exampleNodeConfig) = Some ([''leader''], arms', n') \<and>
     linesAhead n' arms' = [] \<and> CommandResult n' = None"
proof -
  have "linesAhead (exampleCliNode exampleNodeConfig) exampleArms =
      (if cnUartHasEcho (exampleCliNode exampleNodeConfig) then [] @ [''state''] else []) @ [''leader''] @ ''Done'' # []"
    unfolding exampleArms_ahead by (simp add: exampleCliNode_def)
  from Command_output [OF this _ _ exampleLines(2) exampleCliNode_stable, of 1] show ?thesis
    unfolding exampleArms_ahead using exampleLines exampleArms_undisturbed by (simp add: exampleCliNode_def numeral_3_eq_3)
qed

text \<open>
  The regular expression for the last line is not anchored at its end: an output line that only begins with
  \<open>Done\<close> ends the command, and it is reported as an error.
\<close>

lemma done_prefix_ends_command: "doneOrErrorRegexp ''Done with scan'' \<and> go_TrimSpace ''Done with scan'' \<noteq> ''Done''"
  by code_simp

end
