(* ===== verification/Node_Commands.thy ===== *)
theory Node_Commands
  imports Node_Cli_Laws
begin

text \<open>
  The typed commands of a node (\<^verbatim>\<open>simulation/node.go\<close>): commands that expect one line, a number or a
  flag, the counters, the init script, the set-up of the command line and of the mode, and the members of
  the multicast groups of the OTNS \<^verbatim>\<open>send\<close> command.

  A session is a node with what its surroundings will do: the results of the next writes to its terminal
  (an exhausted list stands for writes that succeed) and the next rounds of the select loops. A step of a
  session returns \<open>None\<close> when it is still waiting, a panic, or a value and the next session.
\<close>

record Session =
  ssNode :: CliNode
  ssSends :: "string option list"
  ssArms :: "Arm list"
  ssCtx :: NodeId
  ssStopped :: bool
  ssSendStarted :: bool
  ssGroupIds :: "int set"

type_synonym 'a cli = "Session \<Rightarrow> ('a \<times> Session) res option"

definition creturn :: "'a \<Rightarrow> 'a cli" where
  "creturn x = (\<lambda>s. Some (Inr (x, s)))"

definition cbind :: "'a cli \<Rightarrow> ('a \<Rightarrow> 'b cli) \<Rightarrow> 'b cli" where
  "cbind m f = (\<lambda>s. case m s of None \<Rightarrow> None | Some (Inl p) \<Rightarrow> Some (Inl p) | Some (Inr (x, s')) \<Rightarrow> f x s')"

definition clift :: "'a res \<Rightarrow> 'a cli" where
  "clift r = (\<lambda>s. Some (map_sum id (\<lambda>x. (x, s)) r))"

text \<open>\<^verbatim>\<open>node.Command(cmd)\<close>, \<^verbatim>\<open>node.CommandResult()\<close> and \<^verbatim>\<open>node.error(err)\<close> in a session.\<close>

definition command :: "string \<Rightarrow> string list cli" where
  "command cmd = (\<lambda>s.
    let sendErr = (case ssSends s of [] \<Rightarrow> None | e # _ \<Rightarrow> e) in
    case Command (ssCtx s) sendErr (ssArms s) cmd (ssNode s) of
      None \<Rightarrow> None
    | Some (out, arms, n) \<Rightarrow> Some (Inr (out, s\<lparr>ssNode := n, ssArms := arms, ssSends := tl (ssSends s)\<rparr>)))"

definition commandResult :: "string option cli" where
  "commandResult = (\<lambda>s. Some (Inr (CommandResult (ssNode s), s)))"

definition nodeError :: "string \<Rightarrow> unit cli" where
  "nodeError e = (\<lambda>s. Some (Inr ((), s\<lparr>ssNode := Node_error (Some e) (ssNode s)\<rparr>)))"

definition CommandChecked :: "string \<Rightarrow> string option cli" where
  "CommandChecked cmd = cbind (command cmd) (\<lambda>_. commandResult)"

section \<open>One line, a number, a flag\<close>

definition CommandExpectString :: "string \<Rightarrow> string cli" where
  "CommandExpectString cmd = cbind (command cmd) (\<lambda>output.
     if length output \<noteq> 1 then creturn [] else creturn (output ! 0))"

text \<open>\<^verbatim>\<open>strconv.ParseInt(s, base, 0)\<close> for a 64-bit int.\<close>

definition go_ParseInt :: "nat \<Rightarrow> string \<Rightarrow> int option" where
  "go_ParseInt base s =
     (let neg = (s \<noteq> [] \<and> hd s = CHR ''-'');
          ds = (if s \<noteq> [] \<and> (hd s = CHR ''-'' \<or> hd s = CHR ''+'') then tl s else s)
      in if ds = [] then None
         else case parse_digits base 0 ds of
           None \<Rightarrow> None
         | Some n \<Rightarrow> (let i = (if neg then - int n else int n) in
             if - (2 ^ 63) \<le> i \<and> i < 2 ^ 63 then Some i else None))"

definition CommandExpectInt :: "string \<Rightarrow> int cli" where
  "CommandExpectInt cmd = cbind (CommandExpectString cmd) (\<lambda>s.
     let iv = (if prefix ''0x'' s \<or> prefix ''0X'' s then go_ParseInt 16 (drop 2 s) else go_ParseInt 10 s)
     in creturn (case iv of None \<Rightarrow> 0 | Some i \<Rightarrow> i))"

text \<open>The slice expression \<^verbatim>\<open>s[2:]\<close> panics for a string of less than two bytes.\<close>

definition CommandExpectHex :: "string \<Rightarrow> int cli" where
  "CommandExpectHex cmd = cbind (CommandExpectString cmd) (\<lambda>s.
     if length s < 2 then clift (Inl IndexOutOfRange)
     else creturn (case go_ParseInt 16 (drop 2 s) of None \<Rightarrow> 0 | Some i \<Rightarrow> i))"

definition CommandExpectEnabledOrDisabled :: "string \<Rightarrow> bool cli" where
  "CommandExpectEnabledOrDisabled cmd = cbind (CommandExpectString cmd) (\<lambda>output. creturn (output = ''Enabled''))"

text \<open>\<^verbatim>\<open>strings.Index(s, sub)\<close>, with \<open>None\<close> for -1.\<close>

fun go_Index :: "string \<Rightarrow> string \<Rightarrow> nat option" where
  "go_Index [] sub = (if sub = [] then Some 0 else None)"
| "go_Index (c # cs) sub = (if prefix sub (c # cs) then Some 0 else map_option Suc (go_Index cs sub))"

text \<open>\<^verbatim>\<open>s[0:idx]\<close> with an index of -1 panics.\<close>

definition GetCcaThreshold :: "RfSimParamValue cli" where
  "GetCcaThreshold = cbind (CommandExpectString ''ccathreshold'') (\<lambda>s.
     case go_Index s '' dBm'' of
       None \<Rightarrow> clift (Inl IndexOutOfRange)
     | Some idx \<Rightarrow>
        (case go_ParseInt 10 (take idx s) of
           None \<Rightarrow> cbind (nodeError ''strconv.ParseInt'') (\<lambda>_. creturn 127)
         | Some iv \<Rightarrow> creturn (word_of_int iv)))"

definition SetCcaThreshold :: "RfSimParamValue \<Rightarrow> unit cli" where
  "SetCcaThreshold thresh =
    (if sint thresh \<ge> - 126 \<and> sint thresh \<le> 126
     then cbind (command (''ccathreshold '' @ go_Itoa (sint thresh))) (\<lambda>_. creturn ())
     else nodeError ''parameter out of range 0-255'')"

definition GetChannel :: "int cli" where
  "GetChannel = CommandExpectInt ''channel''"

definition GetPanid :: "u16 cli" where
  "GetPanid = cbind (CommandExpectInt ''panid'') (\<lambda>i. creturn (word_of_int i))"

definition GetRloc16 :: "u16 cli" where
  "GetRloc16 = cbind (CommandExpectHex ''rloc16'') (\<lambda>i. creturn (word_of_int i))"

definition GetExtAddr :: "u64 cli" where
  "GetExtAddr = cbind (CommandExpectString ''extaddr'') (\<lambda>s.
     creturn (case go_ParseUint s 16 64 of None \<Rightarrow> - 1 | Some v \<Rightarrow> of_nat v))"

definition GetIpAddrSlaac :: "string list cli" where
  "GetIpAddrSlaac = cbind (command ''ipaddr -v'') (\<lambda>addrs.
     creturn (concat (map (\<lambda>addr. case go_Index addr '' origin:slaac '' of
       Some idx \<Rightarrow> if idx > 0 then [take idx addr] else [] | None \<Rightarrow> []) addrs)))"

definition SetMode :: "string \<Rightarrow> unit cli" where
  "SetMode mode = cbind (command (''mode '' @ mode)) (\<lambda>_. creturn ())"

definition RouterEligibleDisable :: "unit cli" where
  "RouterEligibleDisable = cbind (command ''routereligible disable'') (\<lambda>_. creturn ())"

section \<open>Counters\<close>

lemma go_Index_bound: "go_Index s sub = Some i \<Longrightarrow> i + length sub \<le> length s"
  by (induction s arbitrary: i) (auto simp: prefix_length_le split: if_splits dest: prefix_length_le)

text \<open>\<^verbatim>\<open>strings.Split\<close> with a separator of several characters.\<close>

function go_SplitOn :: "string \<Rightarrow> string \<Rightarrow> string list" where
  "go_SplitOn sep s = (case go_Index s sep of
      None \<Rightarrow> [s]
    | Some i \<Rightarrow> if sep = [] then [s] else take i s # go_SplitOn sep (drop (i + length sep) s))"
  by auto

termination
proof (relation "measure (\<lambda>(_, s). length s)")
  fix sep s i
  assume "go_Index s sep = Some i" "sep \<noteq> []"
  then show "((sep, drop (i + length sep) s), sep, s) \<in> measure (\<lambda>(_, s). length s)"
    using go_Index_bound [of s sep i] by (cases sep) auto
qed simp

declare go_SplitOn.simps [simp del]

type_synonym NodeCounters = "string \<rightharpoonup> u64"

text \<open>The nil map of an unexpected line is \<open>None\<close>.\<close>

fun countersLoop :: "string \<Rightarrow> string list \<Rightarrow> NodeCounters \<Rightarrow> NodeCounters option" where
  "countersLoop keyPrefix [] m = Some m"
| "countersLoop keyPrefix (line # lines) m =
    (case go_SplitOn '': '' line of
       [k, v] \<Rightarrow>
        (case go_ParseUint v 10 64 of
           None \<Rightarrow> None
         | Some x \<Rightarrow> countersLoop keyPrefix lines (m(keyPrefix @ filter (\<lambda>c. c \<noteq> CHR '' '') k \<mapsto> of_nat x)))
     | _ \<Rightarrow> None)"

definition GetCounters :: "string \<Rightarrow> string \<Rightarrow> NodeCounters option cli" where
  "GetCounters counterType keyPrefix = cbind (command (''counters '' @ counterType)) (\<lambda>lines.
     creturn (countersLoop keyPrefix lines Map.empty))"

section \<open>Set-up of a node\<close>

definition runScript_step :: "string \<Rightarrow> string option option \<Rightarrow> string option option cli" where
  "runScript_step line ret =
    (case ret of Some _ \<Rightarrow> creturn ret
     | None \<Rightarrow>
      (let cmd = go_TrimSpace line in
       if cmd = [] \<or> prefix ''#'' cmd then creturn None
       else cbind commandResult (\<lambda>e. case e of
           Some _ \<Rightarrow> creturn (Some e)
         | None \<Rightarrow> (\<lambda>s. if ssStopped s then Some (Inr (Some None, s)) else cbind (command cmd) (\<lambda>_. creturn None) s))))"

text \<open>The loop value is \<open>Some r\<close> once the function has returned \<open>r\<close> from within the loop.\<close>

fun runScript_loop :: "string list \<Rightarrow> string option option \<Rightarrow> string option option cli" where
  "runScript_loop [] ret = creturn ret"
| "runScript_loop (c # cs) ret = cbind (runScript_step c ret) (runScript_loop cs)"

definition runScript :: "string list \<Rightarrow> string option cli" where
  "runScript cfg =
    (if cfg = [] then creturn None
     else cbind (runScript_loop cfg None) (\<lambda>ret. case ret of Some r \<Rightarrow> creturn r | None \<Rightarrow> commandResult))"

text \<open>
  \<open>setupCli\<close> on Linux (the extra newline for macOS is left out); the test command shows whether the
  terminal echoes.
\<close>

definition setupCli :: "string option cli" where
  "setupCli = (\<lambda>s.
    let testCmd = ''ifconfig'';
        expected = (if IsRcp (cnCfg (ssNode s)) \<and> IsBorderRouter (cnCfg (ssNode s)) then [''down'', ''up''] else [''down'']);
        check = (\<lambda>out. creturn (if out \<in> set expected then None else Some ''node did not provide expected output''))
    in cbind (command testCmd) (\<lambda>outputLines. cbind commandResult (\<lambda>e.
       case e of Some _ \<Rightarrow> creturn e
       | None \<Rightarrow>
        (case outputLines of
           [] \<Rightarrow> creturn (Some ''node did not provide any output'')
         | [out] \<Rightarrow> check out
         | [echo, out] \<Rightarrow>
            if echo \<noteq> testCmd then creturn (Some ''node did not provide expected command echo'')
            else cbind (\<lambda>s. Some (Inr ((), s\<lparr>ssNode := (ssNode s)\<lparr>cnUartHasEcho := True\<rparr>\<rparr>))) (\<lambda>_. check out)
         | _ \<Rightarrow> creturn (Some ''received unexpected (longer) node output'')))) s)"

definition setupMode_string :: "NodeConfig \<Rightarrow> string" where
  "setupMode_string cfg = (if \<not> RxOffWhenIdle cfg then ''r'' else []) @ (if \<not> IsMtd cfg then ''d'' else []) @ ''n''"

definition setupMode :: "unit cli" where
  "setupMode = (\<lambda>s. let cfg = cnCfg (ssNode s) in
    cbind (clift (assertr (IsRouter cfg \<longrightarrow> \<not> IsMtd cfg) (assertr (IsRouter cfg \<longrightarrow> \<not> RxOffWhenIdle cfg)
       (assertr (\<not> RxOffWhenIdle cfg \<or> IsMtd cfg) (Inr ()))))) (\<lambda>_.
     if IsExternal cfg then creturn ()
     else cbind (SetMode (setupMode_string cfg)) (\<lambda>_.
       if \<not> IsRouter cfg \<and> \<not> IsMtd cfg then RouterEligibleDisable else creturn ())) s)"

section \<open>Members of the send groups\<close>

text \<open>\<^verbatim>\<open>fmt.Sprintf("%x")\<close> of an int.\<close>

fun hex_digits :: "nat \<Rightarrow> string" where
  "hex_digits n = (let d = (\<lambda>k. if k < 10 then char_of (48 + k) else char_of (87 + k)) in
     if n < 16 then [d n] else hex_digits (n div 16) @ [d (n mod 16)])"

declare hex_digits.simps [simp del]

definition go_Hex :: "int \<Rightarrow> string" where
  "go_Hex i = (if i < 0 then CHR ''-'' # hex_digits (nat (- i)) else hex_digits (nat i))"

definition sendStarted :: "bool \<Rightarrow> unit cli" where
  "sendStarted b = (\<lambda>s. Some (Inr ((), s\<lparr>ssSendStarted := b\<rparr>)))"

text \<open>Run the commands in order; the first error ends the sequence.\<close>

fun checkedSeq :: "string list \<Rightarrow> string option cli" where
  "checkedSeq [] = creturn None"
| "checkedSeq (c # cs) = cbind (CommandChecked c) (\<lambda>e. case e of Some _ \<Rightarrow> creturn e | None \<Rightarrow> checkedSeq cs)"

definition SendInit :: "string option cli" where
  "SendInit = (\<lambda>s. if ssSendStarted s then Some (Inr (None, s))
    else cbind (checkedSeq [''udp open'', ''udp bind :: 10000'', ''coap start'', ''coap resource t'']) (\<lambda>e.
      case e of Some _ \<Rightarrow> creturn e | None \<Rightarrow> cbind (sendStarted True) (\<lambda>_. creturn None)) s)"

definition SendGroupMembership :: "int \<Rightarrow> bool \<Rightarrow> string option cli" where
  "SendGroupMembership groupId isMember =
    cbind (CommandChecked (''ipmaddr '' @ (if isMember then ''add'' else ''del'') @ '' ff13::deed:'' @ go_Hex groupId)) (\<lambda>e.
      case e of
        Some msg \<Rightarrow> if \<not> isMember \<and> prefix ''Error 23'' msg then creturn None else creturn e
      | None \<Rightarrow> (\<lambda>s. Some (Inr (None, s\<lparr>ssGroupIds := (if isMember then insert groupId (ssGroupIds s) else ssGroupIds s - {groupId})\<rparr>))))"

text \<open>\<open>gids\<close> are the keys of the map in the order they are visited.\<close>

fun leaveGroups :: "int list \<Rightarrow> string option cli" where
  "leaveGroups [] = creturn None"
| "leaveGroups (g # gs) = cbind (SendGroupMembership g False) (\<lambda>e. case e of Some _ \<Rightarrow> creturn e | None \<Rightarrow> leaveGroups gs)"

definition SendReset :: "int list \<Rightarrow> string option cli" where
  "SendReset gids = (\<lambda>s. if \<not> ssSendStarted s then Some (Inr (None, s))
    else cbind (checkedSeq [''coap stop'', ''udp close'']) (\<lambda>e. case e of Some _ \<Rightarrow> creturn e | None \<Rightarrow>
      cbind (leaveGroups gids) (\<lambda>e. case e of Some _ \<Rightarrow> creturn e | None \<Rightarrow>
        cbind (sendStarted False) (\<lambda>_. creturn None))) s)"

section \<open>Properties\<close>

lemma command_no_panic: "command c s \<noteq> Some (Inl p)"
  by (auto simp: command_def Let_def split: option.splits prod.splits)

lemma CommandExpectString_value:
  assumes "command c s = Some (Inr (out, s'))"
  shows "CommandExpectString c s = Some (Inr (if length out = 1 then out ! 0 else [], s'))"
  using assms by (simp add: CommandExpectString_def cbind_def creturn_def)

text \<open>
  Two queries panic instead of reporting an error. When the node answers \<^verbatim>\<open>ccathreshold\<close> or \<^verbatim>\<open>rloc16\<close>
  with anything but exactly one line (for instance with an error, or when the write to its terminal fails),
  \<open>CommandExpectString\<close> returns the empty string, which the callers slice without looking.
\<close>

theorem numeric_query_panics:
  assumes "command ''ccathreshold'' s = Some (Inr (out1, s1))" "length out1 \<noteq> 1"
    "command ''rloc16'' s = Some (Inr (out2, s2))" "length out2 \<noteq> 1"
  shows "GetCcaThreshold s = Some (Inl IndexOutOfRange) \<and> GetRloc16 s = Some (Inl IndexOutOfRange)"
  using CommandExpectString_value [OF assms(1)] CommandExpectString_value [OF assms(3)] assms(2,4)
  by (simp add: GetCcaThreshold_def GetRloc16_def CommandExpectHex_def cbind_def clift_def)

definition exampleSession :: Session where
  "exampleSession = \<lparr>ssNode = exampleCliNode exampleNodeConfig, ssSends = [Some ''broken pipe''], ssArms = [], ssCtx = 1,
     ssStopped = False, ssSendStarted = False, ssGroupIds = {}\<rparr>"

lemma exampleSession_fails: "\<exists>s'. command c exampleSession = Some (Inr ([], s'))"
  by (simp add: command_def Command_def inputCommand_def exampleSession_def exampleCliNode_def Let_def)

theorem numeric_query_panics_witness:
  "GetCcaThreshold exampleSession = Some (Inl IndexOutOfRange) \<and> GetRloc16 exampleSession = Some (Inl IndexOutOfRange)"
proof -
  obtain s1 s2 where "command ''ccathreshold'' exampleSession = Some (Inr ([], s1))"
    "command ''rloc16'' exampleSession = Some (Inr ([], s2))"
    using exampleSession_fails by blast
  from numeric_query_panics [OF this(1) _ this(2)] show ?thesis by simp
qed

text \<open>
  The mode of a new node fits its type. For a configuration that \<open>UpdateNodeConfigFromType\<close> accepted,
  whatever its flags were before, none of the assertions of \<open>setupMode\<close> fails, and the mode string that
  it sends stands for a node that keeps its receiver on unless it is a sleepy device, that is a full device
  unless it is a minimal one, and that takes the full network data.
\<close>

theorem setupMode_fits_type:
  assumes "UpdateNodeConfigFromType cfg = (cfg', True)" "cnCfg (ssNode s) = cfg'"
  shows "(case setupMode s of Some (Inl p) \<Rightarrow> False | _ \<Rightarrow> True) \<and>
    ParseNodeMode (setupMode_string cfg') =
      \<lparr>RxOnWhenIdle = (cfgType cfg \<notin> {''sed'', ''ssed''}),
       FullThreadDevice = (cfgType cfg \<notin> {''med'', ''mtd'', ''sed'', ''ssed''}), FullNetworkData = True\<rparr>"
proof -
  have f: "\<not> (IsRouter cfg' \<and> IsMtd cfg')" "\<not> (IsRouter cfg' \<and> RxOffWhenIdle cfg')" "\<not> RxOffWhenIdle cfg' \<or> IsMtd cfg'"
    "RxOffWhenIdle cfg' = (cfgType cfg \<in> {''sed'', ''ssed''})" "IsMtd cfg' = (cfgType cfg \<in> {''med'', ''mtd'', ''sed'', ''ssed''})"
    using assms(1) by (auto simp: UpdateNodeConfigFromType_def Let_def split: if_splits)
  have m: "ParseNodeMode (setupMode_string cfg') =
      \<lparr>RxOnWhenIdle = (\<not> RxOffWhenIdle cfg'), FullThreadDevice = (\<not> IsMtd cfg'), FullNetworkData = True\<rparr>"
    by (simp add: ParseNodeMode_def fold_ParseNodeMode_step ParseNodeMode_step_def setupMode_string_def)
  have "(case setupMode s of Some (Inl p) \<Rightarrow> False | _ \<Rightarrow> True)"
    using f(1-3) assms(2) command_no_panic
    by (auto simp: setupMode_def Let_def cbind_def clift_def creturn_def SetMode_def RouterEligibleDisable_def
        split: option.splits sum.splits)
  with m f(4,5) show ?thesis by simp
qed

theorem setupMode_fits_type_witness:
  "(case setupMode exampleSession of Some (Inl p) \<Rightarrow> False | _ \<Rightarrow> True) \<and>
    ParseNodeMode (setupMode_string exampleNodeConfig) =
      \<lparr>RxOnWhenIdle = True, FullThreadDevice = True, FullNetworkData = True\<rparr>"
  using setupMode_fits_type [of exampleNodeConfig exampleNodeConfig exampleSession]
  by (simp add: UpdateNodeConfigFromType_def exampleNodeConfig_def exampleSession_def exampleCliNode_def)

end
