(* ===== verification/Node_Placer.thy ===== *)
theory Node_Placer
  imports Types
begin

text \<open>
  The automatic placement of new nodes (\<^verbatim>\<open>NodeAutoPlacer\<close> of \<^verbatim>\<open>simulation/node_config.go\<close>) and the choice of a
  node id (\<^verbatim>\<open>genNodeId\<close> of \<^verbatim>\<open>simulation/simulation.go\<close>).
\<close>

section \<open>Placement\<close>

record NodeAutoPlacer =
  napX :: int
  napY :: int
  napZ :: int
  napXref :: int
  napYref :: int
  napXmax :: int
  NodeDeltaCoarse :: int
  NodeDeltaFine :: int
  fineCount :: int
  isReset :: bool

definition NewNodeAutoPlacer :: NodeAutoPlacer where
  "NewNodeAutoPlacer = \<lparr>napX = 100, napY = 100, napZ = 0, napXref = 100, napYref = 100, napXmax = 1450,
     NodeDeltaCoarse = 100, NodeDeltaFine = 40, fineCount = 0, isReset = True\<rparr>"

definition UpdateXReference :: "int \<Rightarrow> NodeAutoPlacer \<Rightarrow> NodeAutoPlacer" where
  "UpdateXReference x nap = nap\<lparr>napXref := x, napX := x\<rparr>"

definition UpdateYReference :: "int \<Rightarrow> NodeAutoPlacer \<Rightarrow> NodeAutoPlacer" where
  "UpdateYReference y nap = nap\<lparr>napYref := y, napY := y\<rparr>"

definition UpdateReference :: "int \<Rightarrow> int \<Rightarrow> int \<Rightarrow> NodeAutoPlacer \<Rightarrow> NodeAutoPlacer" where
  "UpdateReference x y z nap = nap\<lparr>napXref := x, napX := x, napYref := y, napY := y, napZ := z, isReset := False\<rparr>"

text \<open>Division and remainder of Go are those of HOL here, as the counts are not negative.\<close>

definition NextNodePosition :: "bool \<Rightarrow> NodeAutoPlacer \<Rightarrow> (int \<times> int \<times> int) \<times> NodeAutoPlacer" where
  "NextNodePosition isBelowParent nap =
    (if isBelowParent then
       (let fineCountCol = fineCount nap mod 16;
            fineCountRow = fineCount nap div 16;
            y = napY nap + (NodeDeltaCoarse nap div 2) * (fineCountRow + 1);
            x = napX nap + (fineCountCol * NodeDeltaFine nap - NodeDeltaFine nap)
        in ((x, y, napZ nap), nap\<lparr>fineCount := fineCount nap + 1\<rparr>))
     else
       (let nap1 = (if isReset nap then nap
              else let x = napX nap + NodeDeltaCoarse nap in
                if x > napXmax nap then nap\<lparr>napX := napXref nap, napY := napY nap + NodeDeltaCoarse nap\<rparr>
                else nap\<lparr>napX := x\<rparr>);
            nap2 = nap1\<lparr>isReset := False, fineCount := 0\<rparr>
        in ((napX nap2, napY nap2, napZ nap2), nap2)))"

definition ReuseNextNodePosition :: "NodeAutoPlacer \<Rightarrow> NodeAutoPlacer" where
  "ReuseNextNodePosition nap = nap\<lparr>isReset := True\<rparr>"

section \<open>Node ids\<close>

text \<open>
  The loop of \<open>genNodeId\<close>; \<open>used\<close> says whether the simulation or the dispatcher has a node with an id.
  \<open>None\<close> means that the fuel did not suffice.
\<close>

fun genNodeId_loop :: "(NodeId \<Rightarrow> bool) \<Rightarrow> nat \<Rightarrow> NodeId \<Rightarrow> NodeId option" where
  "genNodeId_loop used 0 nodeid = None"
| "genNodeId_loop used (Suc fuel) nodeid = (if used nodeid then genNodeId_loop used fuel (nodeid + 1) else Some nodeid)"

definition genNodeId :: "(NodeId \<Rightarrow> bool) \<Rightarrow> nat \<Rightarrow> NodeId option" where
  "genNodeId used fuel = genNodeId_loop used fuel 1"

section \<open>Properties\<close>

text \<open>The state of the placer after a number of routers and of children of the last one.\<close>

definition placed :: "int \<Rightarrow> int \<Rightarrow> NodeAutoPlacer" where
  "placed k j = NewNodeAutoPlacer\<lparr>napX := 100 + 100 * (k mod 14), napY := 100 + 100 * (k div 14), fineCount := j, isReset := False\<rparr>"

definition gridPos :: "int \<Rightarrow> int \<times> int \<times> int" where
  "gridPos k = (100 + 100 * (k mod 14), 100 + 100 * (k div 14), 0)"

lemma NextNodePosition_first:
  "NextNodePosition False (NewNodeAutoPlacer\<lparr>fineCount := j\<rparr>) = (gridPos 0, placed 0 0)"
  by (simp add: NextNodePosition_def NewNodeAutoPlacer_def placed_def gridPos_def)

lemma grid_succ: "(k :: int) mod 14 = 13 \<Longrightarrow> (k + 1) mod 14 = 0 \<and> (k + 1) div 14 = k div 14 + 1"
  "(k :: int) mod 14 < 13 \<Longrightarrow> (k + 1) mod 14 = k mod 14 + 1 \<and> (k + 1) div 14 = k div 14"
proof -
  have k: "k = 14 * (k div 14) + k mod 14" "0 \<le> k mod 14" by simp_all
  show "(k + 1) mod 14 = 0 \<and> (k + 1) div 14 = k div 14 + 1" if "k mod 14 = 13"
    using int_div_pos_eq [of "k + 1" 14 "k div 14 + 1" 0] int_mod_pos_eq [of "k + 1" 14 "k div 14 + 1" 0] k(1) that by simp
  show "(k + 1) mod 14 = k mod 14 + 1 \<and> (k + 1) div 14 = k div 14" if "k mod 14 < 13"
    using int_div_pos_eq [of "k + 1" 14 "k div 14" "k mod 14 + 1"] int_mod_pos_eq [of "k + 1" 14 "k div 14" "k mod 14 + 1"] k that
    by simp
qed

lemma NextNodePosition_router:
  shows "NextNodePosition False (placed k j) = (gridPos (k + 1), placed (k + 1) 0)"
proof -
  have b: "0 \<le> k mod 14" "k mod 14 \<le> 13" by simp_all
  show ?thesis
  proof (cases "k mod 14 = 13")
    case True
    with grid_succ(1) [OF True] show ?thesis
      by (simp add: NextNodePosition_def placed_def NewNodeAutoPlacer_def gridPos_def)
  next
    case False
    with b have "k mod 14 < 13" by linarith
    with grid_succ(2) [OF this] show ?thesis
      by (simp add: NextNodePosition_def placed_def NewNodeAutoPlacer_def gridPos_def)
  qed
qed

lemma NextNodePosition_child:
  "NextNodePosition True (placed k j) =
    ((100 + 100 * (k mod 14) + (j mod 16 * 40 - 40), 100 + 100 * (k div 14) + 50 * (j div 16 + 1), 0), placed k (j + 1))"
  by (simp add: NextNodePosition_def placed_def NewNodeAutoPlacer_def)

text \<open>The positions of the routers in a sequence of calls (\<open>True\<close> for a child).\<close>

fun routerPositions :: "bool list \<Rightarrow> NodeAutoPlacer \<Rightarrow> (int \<times> int \<times> int) list" where
  "routerPositions [] nap = []"
| "routerPositions (c # cs) nap =
    (case NextNodePosition c nap of (p, nap') \<Rightarrow> (if c then [] else [p]) @ routerPositions cs nap')"

lemma gridPos_inj: "gridPos i = gridPos j \<Longrightarrow> i = j"
proof -
  assume "gridPos i = gridPos j"
  then have "i mod 14 = j mod 14" "i div 14 = j div 14" by (simp_all add: gridPos_def)
  then show "i = j" by (metis div_mult_mod_eq)
qed

lemma routerPositions_placed:
  "routerPositions cs (placed k j) = map (\<lambda>i. gridPos (k + 1 + int i)) [0..<length (filter Not cs)]"
proof (induction cs arbitrary: k j)
  case (Cons c cs)
  show ?case
  proof (cases c)
    case True
    then show ?thesis using Cons by (simp add: NextNodePosition_child)
  next
    case False
    have "map (\<lambda>i. gridPos (k + 1 + int i)) [0..<Suc (length (filter Not cs))] =
        gridPos (k + 1) # map (\<lambda>i. gridPos (k + 1 + 1 + int i)) [0..<length (filter Not cs)]"
      by (simp only: map_upt_Suc) (simp add: ac_simps)
    with False Cons.IH [of "k + 1" 0] show ?thesis
      by (simp add: NextNodePosition_router)
  qed
qed simp

lemma routerPositions_fresh:
  "routerPositions cs (NewNodeAutoPlacer\<lparr>fineCount := j\<rparr>) = map (\<lambda>i. gridPos (int i)) [0..<length (filter Not cs)]"
proof (induction cs arbitrary: j)
  case (Cons c cs)
  show ?case
  proof (cases c)
    case True
    have "snd (NextNodePosition True (NewNodeAutoPlacer\<lparr>fineCount := j\<rparr>)) = NewNodeAutoPlacer\<lparr>fineCount := j + 1\<rparr>"
      by (simp add: NextNodePosition_def Let_def NewNodeAutoPlacer_def)
    then have "routerPositions (c # cs) (NewNodeAutoPlacer\<lparr>fineCount := j\<rparr>) = routerPositions cs (NewNodeAutoPlacer\<lparr>fineCount := j + 1\<rparr>)"
      using True by (simp add: case_prod_beta)
    with True Cons.IH show ?thesis by simp
  next
    case False
    have "map (\<lambda>i. gridPos (int i)) [0..<Suc (length (filter Not cs))] =
        gridPos 0 # map (\<lambda>i. gridPos (1 + int i)) [0..<length (filter Not cs)]"
      by (simp only: map_upt_Suc) simp
    with False routerPositions_placed [of cs 0 0] show ?thesis
      by (simp add: NextNodePosition_first)
  qed
qed simp

text \<open>
  The automatic placer never puts two routers on the same spot: in any sequence of placements of
  routers and children, the routers fill a grid of 14 columns, row by row, 100 units apart, and all their
  positions are different.
\<close>

theorem routers_on_grid:
  "routerPositions cs NewNodeAutoPlacer = map (\<lambda>i. gridPos (int i)) [0..<length (filter Not cs)] \<and>
   distinct (routerPositions cs NewNodeAutoPlacer)"
proof -
  have "NewNodeAutoPlacer = NewNodeAutoPlacer\<lparr>fineCount := 0\<rparr>" by (simp add: NewNodeAutoPlacer_def)
  then have r: "routerPositions cs NewNodeAutoPlacer = map (\<lambda>i. gridPos (int i)) [0..<length (filter Not cs)]"
    using routerPositions_fresh [of cs 0] by simp
  moreover have "distinct (map (\<lambda>i. gridPos (int i)) [0..<length (filter Not cs)])"
    by (auto simp: distinct_map inj_on_def dest: gridPos_inj)
  ultimately show ?thesis by simp
qed

text \<open>
  When adding a child fails, the position of its router is given out a second time: after
  \<open>ReuseNextNodePosition\<close> the next router is placed exactly on the previous one, and the next child does
  not get the position of the failed one but the one after it.
\<close>

theorem reuse_after_failed_child:
  "let nap = ReuseNextNodePosition (snd (NextNodePosition True (placed k j))) in
    fst (NextNodePosition False nap) = gridPos k \<and>
    fst (NextNodePosition True nap) \<noteq> fst (NextNodePosition True (placed k j))"
proof -
  have "(j + 1) mod 16 \<noteq> j mod 16" by (simp add: mod_eq_dvd_iff)
  then show ?thesis
    by (simp add: NextNodePosition_child Let_def) (simp add: NextNodePosition_def ReuseNextNodePosition_def placed_def NewNodeAutoPlacer_def gridPos_def)
qed

lemma genNodeId_loop_ends:
  assumes "finite {i. i \<ge> k \<and> used i}" "card {i. i \<ge> k \<and> used i} < fuel"
  shows "\<exists>n. genNodeId_loop used fuel k = Some n \<and> n \<ge> k \<and> \<not> used n \<and> (\<forall>i. k \<le> i \<and> i < n \<longrightarrow> used i)"
  using assms
proof (induction fuel arbitrary: k)
  case (Suc fuel)
  show ?case
  proof (cases "used k")
    case True
    then have s: "{i. i \<ge> k \<and> used i} = insert k {i. i \<ge> k + 1 \<and> used i}" by auto
    have "finite {i. i \<ge> k + 1 \<and> used i}" using Suc.prems(1) unfolding s by simp
    moreover have "card {i. i \<ge> k \<and> used i} = Suc (card {i. i \<ge> k + 1 \<and> used i})"
      unfolding s using calculation by (simp add: card_insert_if)
    ultimately obtain n where n: "genNodeId_loop used fuel (k + 1) = Some n" "n \<ge> k + 1" "\<not> used n" "\<forall>i. k + 1 \<le> i \<and> i < n \<longrightarrow> used i"
      using Suc.IH [of "k + 1"] Suc.prems(2) by auto
    have "used i" if "k \<le> i" "i < n" for i using n(4) True that by (cases "i = k") auto
    with n True show ?thesis by auto
  next
    case False
    then show ?thesis by auto
  qed
qed simp

text \<open>
  The search for a node id returns: with at most \<open>m\<close> ids in use the loop ends after at most \<open>m + 1\<close>
  rounds, with the smallest positive id that neither the simulation nor the dispatcher uses.
\<close>

theorem genNodeId_least_free:
  assumes "finite {i. i \<ge> 1 \<and> used i}"
  shows "\<exists>n. genNodeId used (card {i. i \<ge> 1 \<and> used i} + 1) = Some n \<and> n \<ge> 1 \<and> \<not> used n \<and> (\<forall>i. 1 \<le> i \<and> i < n \<longrightarrow> used i)"
  using genNodeId_loop_ends [OF assms, of "card {i. i \<ge> 1 \<and> used i} + 1"] by (simp add: genNodeId_def)

theorem genNodeId_least_free_witness:
  "\<exists>n. genNodeId (\<lambda>i. i = 1 \<or> i = 2 \<or> i = 4) (card {i. i \<ge> 1 \<and> (i = 1 \<or> i = 2 \<or> i = (4 :: NodeId))} + 1) = Some n \<and> n = 3"
proof -
  have e: "{i. i \<ge> 1 \<and> (i = 1 \<or> i = 2 \<or> i = (4 :: NodeId))} = {1, 2, 4}" by auto
  then have f: "finite {i. i \<ge> 1 \<and> (i = 1 \<or> i = 2 \<or> i = (4 :: NodeId))}" by simp
  obtain n where n: "genNodeId (\<lambda>i. i = 1 \<or> i = 2 \<or> i = 4) (card {i. i \<ge> 1 \<and> (i = 1 \<or> i = 2 \<or> i = (4 :: NodeId))} + 1) = Some n"
    using genNodeId_least_free [OF f] by blast
  then have "n = 3" unfolding e by (simp add: genNodeId_def)
  with n show ?thesis by blast
qed

end
