(* ===== verification/Go_Path.thy ===== *)
theory Go_Path
  imports Go_Strings "HOL-Library.Sublist"
begin

text \<open>
  The functions of Go's package \<^verbatim>\<open>path/filepath\<close> on a Unix system that the simulator uses. A path is a
  string; \<open>go_Clean\<close> works on its elements, the parts between the separators.
\<close>

abbreviation separator :: char where
  "separator \<equiv> CHR ''/''"

definition go_IsAbs :: "string \<Rightarrow> bool" where
  "go_IsAbs p \<longleftrightarrow> p \<noteq> [] \<and> hd p = separator"

text \<open>One element of a path against the stack of elements so far; \<open>..\<close> at the root is dropped.\<close>

definition clean_step :: "bool \<Rightarrow> string \<Rightarrow> string list \<Rightarrow> string list" where
  "clean_step rooted c st =
    (if c = [] \<or> c = ''.'' then st
     else if c = ''..'' then
       (case st of [] \<Rightarrow> if rooted then [] else [''..''] | t # ts \<Rightarrow> if t = ''..'' then ''..'' # st else ts)
     else c # st)"

definition cleanElems :: "string \<Rightarrow> string list" where
  "cleanElems p = rev (fold (clean_step (go_IsAbs p)) (go_Split p separator) [])"

definition go_Clean :: "string \<Rightarrow> string" where
  "go_Clean p =
    (let out = (if go_IsAbs p then [separator] else []) @ go_Join (cleanElems p) separator
     in if out = [] then ''.'' else out)"

text \<open>\<^verbatim>\<open>filepath.Join(a, b)\<close>.\<close>

definition go_PathJoin :: "string \<Rightarrow> string \<Rightarrow> string" where
  "go_PathJoin a b =
    (if a \<noteq> [] then go_Clean (a @ separator # b) else if b \<noteq> [] then go_Clean b else [])"

lemma go_Clean_nonempty [simp]: "go_Clean p \<noteq> []"
  by (simp add: go_Clean_def Let_def)

text \<open>The elements of a rooted path that is clean are proper names.\<close>

definition proper :: "string \<Rightarrow> bool" where
  "proper c \<longleftrightarrow> c \<noteq> [] \<and> c \<noteq> ''.'' \<and> c \<noteq> ''..''"

lemma clean_step_rooted: "list_all proper st \<Longrightarrow> list_all proper (clean_step True e st)"
  by (cases st) (auto simp: clean_step_def proper_def)

lemma fold_clean_rooted: "list_all proper st \<Longrightarrow> list_all proper (fold (clean_step True) es st)"
proof (induction es arbitrary: st)
  case (Cons e es)
  show ?case using Cons.IH [OF clean_step_rooted [OF Cons.prems]] by simp
qed simp

lemma cleanElems_rooted: "go_IsAbs p \<Longrightarrow> list_all proper (cleanElems p)"
  using fold_clean_rooted [of "[]" "go_Split p separator"] by (simp add: cleanElems_def)

end
