(* ===== verification/Node_Config.thy ===== *)
theory Node_Config
  imports Types Go_Path Node_Placer Radio_Node
begin

text \<open>
  The configuration of new nodes (\<^verbatim>\<open>simulation/node_config.go\<close>, \<^verbatim>\<open>simulation/simulation_config.go\<close>, the script
  part of \<^verbatim>\<open>simulation/types.go\<close>) and the import and export of node lists (\<^verbatim>\<open>simulation/simulation_io.go\<close>):
  which executable a node runs, which commands initialise it, how a node is written to and read from a
  network file. \<open>isFile\<close> is the answer of the file system, \<open>envPaths\<close> the value of the environment
  variable of the search paths, \<open>seed\<close> the next number of the node seed generator.
\<close>

section \<open>Scripts\<close>

definition defaultFtdInitScript :: "string list" where
  "defaultFtdInitScript = [''dataset init new'', ''dataset networkname otns'',
     ''dataset networkkey 00112233445566778899aabbccddeeff'', ''dataset panid 0xface'', ''dataset channel 11'',
     ''dataset extpanid dead00beef00cafe'', ''dataset meshlocalprefix fdde:ad00:beef:0::'',
     ''dataset pskc 3aa55f91ca47d1e4e71a08cb35e91591'', ''dataset commit active'']"

definition defaultMtdInitScript :: "string list" where
  "defaultMtdInitScript = [''networkkey 00112233445566778899aabbccddeeff'', ''panid 0xface'', ''channel 11'',
     ''extpanid dead00beef00cafe'']"

definition defaultAllInitScript :: "string list" where
  "defaultAllInitScript = [''ifconfig up'', ''thread start'']"

definition defaultBrScript :: "string list" where
  "defaultBrScript = [''routerselectionjitter 1'', ''routerdowngradethreshold 33'', ''routerupgradethreshold 33'',
     ''netdata publish prefix fd00:f00d:cafe::/64 paros med'', ''netdata publish route fc00::/7 s med'',
     ''netdata publish route 64:ff9b::/96 sn med'', ''bbr enable'', ''srp server enable'', ''br init 1 1'', ''br enable'']"

definition defaultRcpScript :: "string list" where
  "defaultRcpScript = [''log level 5'']"

definition defaultOtBrScript :: "string list" where
  "defaultOtBrScript = []"

definition defaultCslScript :: "string list" where
  "defaultCslScript = [''csl period 480000'']"

definition defaultLegacyCslScript :: "string list" where
  "defaultLegacyCslScript = [''csl period 3000'']"

definition defaultWifiInterfererScript :: "string list" where
  "defaultWifiInterfererScript = [''txpower 20'']"

record YamlScriptConfig =
  ysMtd :: string
  ysFtd :: string
  ysBr :: string
  ysOtBr :: string
  ysExt :: string
  ysRcp :: string
  ysAll :: string

abbreviation nl :: char where
  "nl \<equiv> CHR 0x0A"

definition DefaultNodeScripts :: YamlScriptConfig where
  "DefaultNodeScripts = \<lparr>ysMtd = go_Join defaultMtdInitScript nl, ysFtd = go_Join defaultFtdInitScript nl,
     ysBr = go_Join defaultBrScript nl, ysOtBr = go_Join defaultOtBrScript nl, ysExt = go_Join defaultMtdInitScript nl,
     ysRcp = go_Join defaultRcpScript nl, ysAll = go_Join defaultAllInitScript nl\<rparr>"

definition BuildMtdScript :: "YamlScriptConfig \<Rightarrow> string list" where
  "BuildMtdScript ys = go_Split (ysMtd ys @ [nl] @ ysAll ys) nl"

definition BuildRcpFtdScript :: "YamlScriptConfig \<Rightarrow> string list" where
  "BuildRcpFtdScript ys = go_Split (ysRcp ys @ [nl] @ ysFtd ys @ [nl] @ ysAll ys) nl"

definition BuildFtdScript :: "YamlScriptConfig \<Rightarrow> string list" where
  "BuildFtdScript ys = go_Split (ysFtd ys @ [nl] @ ysAll ys) nl"

definition BuildBrScript :: "YamlScriptConfig \<Rightarrow> string list" where
  "BuildBrScript ys = go_Split (ysFtd ys @ [nl] @ ysBr ys @ [nl] @ ysAll ys) nl"

definition BuildOtBrScript :: "YamlScriptConfig \<Rightarrow> string list" where
  "BuildOtBrScript ys = go_Split (ysOtBr ys @ [nl] @ ysFtd ys @ [nl] @ ysAll ys) nl"

definition BuildExtScript :: "YamlScriptConfig \<Rightarrow> string list" where
  "BuildExtScript ys = go_Split (ysExt ys @ [nl] @ ysAll ys) nl"

section \<open>Executables\<close>

record ExecutableConfig =
  exVersion :: string
  exFtd :: string
  exMtd :: string
  exBr :: string
  exOtBr :: string
  exMatter :: string
  exRcp :: string
  exRcpHost :: string
  SearchPaths :: "string list"

abbreviation versionLatestTag :: string where
  "versionLatestTag \<equiv> ''v14''"

text \<open>\<^verbatim>\<open>filepath.SplitList\<close> of the empty string is the empty list.\<close>

definition defaultSearchPaths :: "string \<Rightarrow> string \<Rightarrow> (string \<Rightarrow> bool) \<Rightarrow> string list" where
  "defaultSearchPaths envPaths installedNodesDir isDir =
    filter (\<lambda>p. p \<noteq> []) (if envPaths = [] then [] else go_Split envPaths (CHR '':'')) @ [''.'', ''./ot-rfsim/ot-versions''] @
    (if installedNodesDir \<noteq> [] \<and> isDir installedNodesDir then [installedNodesDir] else [])"

definition DefaultExecutableConfig :: "string list \<Rightarrow> ExecutableConfig" where
  "DefaultExecutableConfig paths = \<lparr>exVersion = [], exFtd = ''ot-cli-ftd'', exMtd = ''ot-cli-mtd'', exBr = ''ot-cli-ftd_br'',
     exOtBr = ''ot-br.sh'', exMatter = ''ot-matter-node'', exRcp = ''ot-rcp'', exRcpHost = ''ot-cli'', SearchPaths = paths\<rparr>"

fun searchPathsBody :: "string list \<Rightarrow> string" where
  "searchPathsBody [] = []"
| "searchPathsBody (sp # sps) = [CHR 0x22] @ sp @ [CHR 0x22] @ '', '' @ searchPathsBody sps"

definition SearchPathsString :: "ExecutableConfig \<Rightarrow> string" where
  "SearchPathsString cfg =
    (if SearchPaths cfg = [] then ''[]''
     else let s = ''['' @ searchPathsBody (SearchPaths cfg) in take (length s - 2) s @ '']'')"

definition SetVersion :: "string \<Rightarrow> ExecutableConfig \<Rightarrow> ExecutableConfig \<Rightarrow> ExecutableConfig res" where
  "SetVersion version defaultConfig cfg =
    assertr (prefix ''v1'' version \<and> length version \<ge> 3 \<and> length version \<le> 4)
     (let suffix = (if version = versionLatestTag then [] else ''_'' @ version) in
      Inr (cfg\<lparr>exFtd := exFtd defaultConfig @ suffix, exMtd := exMtd defaultConfig @ suffix,
        exMatter := exMatter defaultConfig @ suffix, exBr := exBr defaultConfig, exRcp := exRcp defaultConfig,
        exVersion := version\<rparr>))"

text \<open>The loop over the search paths; \<^verbatim>\<open>exePath[0]\<close> is in range as a clean path is not empty.\<close>

fun findInPaths :: "(string \<Rightarrow> bool) \<Rightarrow> string \<Rightarrow> string list \<Rightarrow> string" where
  "findInPaths isFile exeName [] = exeName"
| "findInPaths isFile exeName (sp # sps) =
    (let exePath = go_PathJoin sp exeName in
     if isFile exePath then (if go_IsAbs exePath \<or> hd exePath = CHR ''.'' then exePath else ''./'' @ exePath)
     else findInPaths isFile exeName sps)"

definition FindExecutable :: "(string \<Rightarrow> bool) \<Rightarrow> ExecutableConfig \<Rightarrow> string \<Rightarrow> string" where
  "FindExecutable isFile cfg exeName =
    (if exeName = [] \<or> go_IsAbs exeName \<or> hd exeName = CHR ''.'' then exeName
     else findInPaths isFile exeName (SearchPaths cfg))"

definition FindExecutableBasedOnConfig :: "(string \<Rightarrow> bool) \<Rightarrow> ExecutableConfig \<Rightarrow> NodeConfig \<Rightarrow> string" where
  "FindExecutableBasedOnConfig isFile cfg nodeCfg =
    (if ExecutablePath nodeCfg \<noteq> [] then ExecutablePath nodeCfg
     else if cfgType nodeCfg = ''matter'' then FindExecutable isFile cfg (exMatter cfg)
     else
       (let exeName = exFtd cfg;
            exeName = (if IsMtd nodeCfg then exMtd cfg else exeName);
            exeName = (if IsBorderRouter nodeCfg then exBr cfg else exeName);
            exeName = (if IsRcp nodeCfg then exRcp cfg else exeName);
            exeName = (if cfgVersion nodeCfg \<noteq> [] \<and> cfgVersion nodeCfg \<noteq> versionLatestTag
              then exeName @ ''_'' @ cfgVersion nodeCfg else exeName)
        in FindExecutable isFile cfg exeName))"

definition FindHostExecutableBasedOnConfig :: "(string \<Rightarrow> bool) \<Rightarrow> ExecutableConfig \<Rightarrow> NodeConfig \<Rightarrow> string" where
  "FindHostExecutableBasedOnConfig isFile cfg nodeCfg =
    (if HostExePath nodeCfg \<noteq> [] then HostExePath nodeCfg
     else FindExecutable isFile cfg
       (if IsRcp nodeCfg then (if \<not> IsBorderRouter nodeCfg then exRcpHost cfg else exOtBr cfg) else []))"

section \<open>The configuration of a node and of the simulation\<close>

abbreviation defaultRadioRange :: int where
  "defaultRadioRange \<equiv> 220"

definition DefaultNodeConfig :: NodeConfig where
  "DefaultNodeConfig = \<lparr>cfgID = - 1, cfgType = ''router'', cfgVersion = [], cfgX = 0, cfgY = 0, cfgZ = 0, IsAutoPlaced = True,
     IsRaw = False, IsMtd = False, IsRcp = False, IsRouter = True, IsBorderRouter = False, IsExternal = False,
     RxOffWhenIdle = False, NodeLogFile = True, cfgRadioRange = defaultRadioRange, ExecutablePath = [], HostExePath = [],
     NetIfName = [], Restore = False, InitScript = [], cfgRandomSeed = 0, RfSimParams = []\<rparr>"

record SimConfig =
  scExeConfig :: ExecutableConfig
  scExeConfigDefault :: ExecutableConfig
  scNewNodeConfig :: NodeConfig
  scNewNodeScripts :: YamlScriptConfig
  scSpeed :: real
  scReadOnly :: bool
  scRealtime :: bool
  scAutoGo :: bool
  scDumpPackets :: bool
  scDispatcherHost :: string
  scDispatcherPort :: int
  scRadioModel :: string
  scId :: int
  scChannel :: ChannelId
  scRandomSeed :: int
  scOutputDir :: string

text \<open>\<^verbatim>\<open>simulation.DefaultConfig\<close>; the two log levels are left out.\<close>

definition DefaultSimConfig :: "string list \<Rightarrow> SimConfig" where
  "DefaultSimConfig paths = \<lparr>scExeConfig = DefaultExecutableConfig paths, scExeConfigDefault = DefaultExecutableConfig paths,
     scNewNodeConfig = DefaultNodeConfig, scNewNodeScripts = DefaultNodeScripts, scSpeed = 1, scReadOnly = False,
     scRealtime = False, scAutoGo = True, scDumpPackets = False, scDispatcherHost = ''localhost'', scDispatcherPort = 9000,
     scRadioModel = ''MutualInterference'', scId = 0, scChannel = 11, scRandomSeed = 0, scOutputDir = ''tmp''\<rparr>"

text \<open>Go's comparison \<open>s <= t\<close> of strings, byte by byte.\<close>

fun go_StrLe :: "string \<Rightarrow> string \<Rightarrow> bool" where
  "go_StrLe [] t = True"
| "go_StrLe (c # cs) [] = False"
| "go_StrLe (c # cs) (d # ds) = ((of_char c :: nat) < of_char d \<or> c = d \<and> go_StrLe cs ds)"

definition initScriptOf :: "YamlScriptConfig \<Rightarrow> NodeConfig \<Rightarrow> string list" where
  "initScriptOf ys nodeCfg =
    (if IsExternal nodeCfg then BuildExtScript ys
     else if IsBorderRouter nodeCfg \<and> IsRcp nodeCfg then BuildOtBrScript ys
     else if IsBorderRouter nodeCfg then BuildBrScript ys
     else if IsMtd nodeCfg then BuildMtdScript ys
     else if IsRcp nodeCfg then BuildRcpFtdScript ys
     else BuildFtdScript ys)"

definition finalizeScript :: "real \<Rightarrow> YamlScriptConfig \<Rightarrow> NodeConfig \<Rightarrow> NodeConfig" where
  "finalizeScript noiseFloorDbm ys nodeCfg =
    (let n1 = (if IsRaw nodeCfg then nodeCfg
           else
             (let n = nodeCfg\<lparr>InitScript := InitScript nodeCfg @ initScriptOf ys nodeCfg\<rparr> in
              if cfgType n = ''ssed'' then
                n\<lparr>InitScript := InitScript n @
                  (if cfgVersion n \<noteq> [] \<and> go_StrLe (cfgVersion n) ''v13'' then defaultLegacyCslScript else defaultCslScript)\<rparr>
              else n))
     in if cfgType n1 = ''wifi'' then
          n1\<lparr>InitScript := defaultWifiInterfererScript @ [''ccathreshold '' @ go_Itoa (go_Round (noiseFloorDbm + 20))]\<rparr>
        else n1)"

text \<open>The executables, the implied version and the random seed.\<close>

definition finalizeExecutable :: "(string \<Rightarrow> bool) \<Rightarrow> 32 word \<Rightarrow> SimConfig \<Rightarrow> NodeConfig \<Rightarrow> NodeConfig" where
  "finalizeExecutable isFile seed cfg n0 =
    (let n1 = n0\<lparr>ExecutablePath := FindExecutableBasedOnConfig isFile (scExeConfig cfg) n0\<rparr>;
         n2 = n1\<lparr>HostExePath := FindHostExecutableBasedOnConfig isFile (scExeConfig cfg) n1\<rparr>;
         n3 = (if exVersion (scExeConfig cfg) \<noteq> [] \<and> cfgVersion n2 = [] then n2\<lparr>cfgVersion := exVersion (scExeConfig cfg)\<rparr> else n2)
     in if scRandomSeed cfg \<noteq> 0 \<and> \<not> IsExternal n3 \<and> \<not> IsRcp n3 then n3\<lparr>cfgRandomSeed := seed\<rparr> else n3)"

text \<open>
  \<open>NodeConfigFinalize\<close>. The result is \<open>None\<close> when the fuel of \<open>genNodeId\<close> does not suffice.
\<close>

definition NodeConfigFinalize ::
  "(string \<Rightarrow> bool) \<Rightarrow> (NodeId \<Rightarrow> bool) \<Rightarrow> nat \<Rightarrow> 32 word \<Rightarrow> real \<Rightarrow> SimConfig \<Rightarrow> NodeConfig \<Rightarrow> NodeConfig res option" where
  "NodeConfigFinalize isFile used fuel seed noiseFloorDbm cfg nodeCfg =
    (if (IsRcp nodeCfg \<or> IsBorderRouter nodeCfg) \<and> IsMtd nodeCfg then Some (Inl AssertFailed)
     else case (if cfgID nodeCfg \<le> 0 then genNodeId used fuel else Some (cfgID nodeCfg)) of
       None \<Rightarrow> None
     | Some nodeid \<Rightarrow>
        (case UpdateNodeConfigFromType (nodeCfg\<lparr>cfgID := nodeid\<rparr>) of
           (n, False) \<Rightarrow> Some (Inr (n\<lparr>ExecutablePath := ''InvalidNodeExecutable''\<rparr>))
         | (n, True) \<Rightarrow> Some (Inr (finalizeScript noiseFloorDbm (scNewNodeScripts cfg) (finalizeExecutable isFile seed cfg n)))))"

section \<open>Import and export of nodes\<close>

record YamlNetworkConfig =
  ynPosition :: "int \<times> int \<times> int"
  ynRadioRange :: "int option"
  ynBaseId :: "int option"

record YamlNodeConfig =
  yID :: int
  yType :: string
  yVersion :: "string option"
  yPosition :: "int \<times> int \<times> int"
  yRadioRange :: "int option"

definition MinNodeId_step :: "YamlNodeConfig \<Rightarrow> int \<Rightarrow> int" where
  "MinNodeId_step n m = (if yID n < m \<or> m = 0 then yID n else m)"

definition MinNodeId :: "YamlNodeConfig list \<Rightarrow> int" where
  "MinNodeId ns = fold MinNodeId_step ns 0"

definition ExportNetwork :: "SimConfig \<Rightarrow> YamlNetworkConfig" where
  "ExportNetwork cfg = \<lparr>ynPosition = (0, 0, 0),
     ynRadioRange = (if cfgRadioRange (scNewNodeConfig cfg) \<noteq> cfgRadioRange DefaultNodeConfig
       then Some (cfgRadioRange (scNewNodeConfig cfg)) else None),
     ynBaseId = None\<rparr>"

text \<open>One round of the loop of \<open>ExportNodes\<close>: a node with its configuration and its position in the dispatcher.\<close>

definition exportNode :: "YamlNetworkConfig \<Rightarrow> NodeId \<Rightarrow> NodeConfig \<Rightarrow> int \<times> int \<times> int \<Rightarrow> YamlNodeConfig" where
  "exportNode nwConfig nodeId cfg pos = \<lparr>yID = nodeId, yType = cfgType cfg,
     yVersion = (if cfgVersion cfg \<noteq> [] then Some (cfgVersion cfg) else None),
     yPosition = pos,
     yRadioRange = (if (case ynRadioRange nwConfig of Some r \<Rightarrow> cfgRadioRange cfg \<noteq> r | None \<Rightarrow> cfgRadioRange cfg \<noteq> defaultRadioRange)
       then Some (cfgRadioRange cfg) else None)\<rparr>"

definition ExportNodes :: "YamlNetworkConfig \<Rightarrow> (NodeId \<times> NodeConfig \<times> (int \<times> int \<times> int)) list \<Rightarrow> YamlNodeConfig list" where
  "ExportNodes nwConfig nodes = map (\<lambda>(i, cfg, pos). exportNode nwConfig i cfg pos) nodes"

text \<open>The configuration that \<open>ImportNodes\<close> hands to \<open>NodeConfigFinalize\<close> and \<open>AddNode\<close>.\<close>

definition importNode :: "YamlNetworkConfig \<Rightarrow> YamlNodeConfig \<Rightarrow> NodeConfig" where
  "importNode nwConfig node =
    (let rr = (case ynRadioRange nwConfig of Some r \<Rightarrow> r | None \<Rightarrow> defaultRadioRange);
         (dx, dy, dz) = ynPosition nwConfig;
         (x, y, z) = yPosition node;
         nodeIdOffset = (case ynBaseId nwConfig of Some b \<Rightarrow> b | None \<Rightarrow> 0);
         cfg = DefaultNodeConfig\<lparr>cfgID := yID node + nodeIdOffset,
           cfgRadioRange := (case yRadioRange node of Some r \<Rightarrow> r | None \<Rightarrow> rr),
           IsAutoPlaced := False, cfgX := x + dx, cfgY := y + dy, cfgZ := z + dz, cfgType := yType node\<rparr>
     in case yVersion node of Some v \<Rightarrow> cfg\<lparr>cfgVersion := v\<rparr> | None \<Rightarrow> cfg)"

section \<open>Properties\<close>

text \<open>
  C32. Saving a network and loading it again keeps every node: the node that \<open>importNode\<close> builds from an
  exported node has its id, type, version, radio range and position, whether or not the network file has
  a radio range of its own. With a position shift and a base id in the network part, exactly these are added.
\<close>

theorem import_export_node:
  "let nw = ExportNetwork sim; c = importNode (nw\<lparr>ynPosition := (dx, dy, dz), ynBaseId := Some b\<rparr>) (exportNode nw i cfg (x, y, z));
       c0 = importNode nw (exportNode nw i cfg (x, y, z)) in
   cfgID c = i + b \<and> cfgX c = x + dx \<and> cfgY c = y + dy \<and> cfgZ c = z + dz \<and>
   cfgID c0 = i \<and> cfgX c0 = x \<and> cfgY c0 = y \<and> cfgZ c0 = z \<and>
   cfgType c = cfgType cfg \<and> cfgVersion c = cfgVersion cfg \<and> cfgRadioRange c = cfgRadioRange cfg \<and>
   c0 = c\<lparr>cfgID := i, cfgX := x, cfgY := y, cfgZ := z\<rparr> \<and> \<not> IsAutoPlaced c"
  by (auto simp: ExportNetwork_def exportNode_def importNode_def Let_def DefaultNodeConfig_def split: option.splits)

text \<open>
  An executable name that is not a path is looked up in the search paths in their order: the result is
  the file of the first search path that has one, as a path that is absolute or begins with a dot, so that
  the operating system does not search for it again; and the bare name if no search path has such a file.
\<close>

theorem FindExecutable_first_match:
  assumes "exeName \<noteq> []" "\<not> go_IsAbs exeName" "hd exeName \<noteq> CHR ''.''"
  shows "case find (\<lambda>sp. isFile (go_PathJoin sp exeName)) (SearchPaths cfg) of
      None \<Rightarrow> FindExecutable isFile cfg exeName = exeName
    | Some sp \<Rightarrow> FindExecutable isFile cfg exeName \<in> {go_PathJoin sp exeName, ''./'' @ go_PathJoin sp exeName} \<and>
        hd (FindExecutable isFile cfg exeName) \<in> {separator, CHR ''.''}"
proof -
  have "case find (\<lambda>sp. isFile (go_PathJoin sp exeName)) sps of
      None \<Rightarrow> findInPaths isFile exeName sps = exeName
    | Some sp \<Rightarrow> findInPaths isFile exeName sps \<in> {go_PathJoin sp exeName, ''./'' @ go_PathJoin sp exeName} \<and>
        hd (findInPaths isFile exeName sps) \<in> {separator, CHR ''.''}" for sps
  proof (induction sps)
    case (Cons sp sps)
    show ?case
    proof (cases "isFile (go_PathJoin sp exeName)")
      case True
      then show ?thesis by (simp add: Let_def go_IsAbs_def)
    next
      case False
      then have "findInPaths isFile exeName (sp # sps) = findInPaths isFile exeName sps"
        "find (\<lambda>sp. isFile (go_PathJoin sp exeName)) (sp # sps) = find (\<lambda>sp. isFile (go_PathJoin sp exeName)) sps"
        by (simp_all add: Let_def)
      with Cons.IH show ?thesis by (simp only:)
    qed
  qed simp
  note this [of "SearchPaths cfg"]
  moreover have "FindExecutable isFile cfg exeName = findInPaths isFile exeName (SearchPaths cfg)"
    using assms by (simp add: FindExecutable_def)
  ultimately show ?thesis by (simp only:)
qed

theorem FindExecutable_first_match_witness:
  "FindExecutable (\<lambda>p. p = ''bin/ot-rcp'') (DefaultExecutableConfig [''.'', ''bin'', ''/opt'']) ''ot-rcp'' = ''./bin/ot-rcp''"
proof -
  have "go_PathJoin ''.'' ''ot-rcp'' = ''ot-rcp''" "go_PathJoin ''bin'' ''ot-rcp'' = ''bin/ot-rcp''" by code_simp+
  with FindExecutable_first_match [of "''ot-rcp''" "\<lambda>p. p = ''bin/ot-rcp''" "DefaultExecutableConfig [''.'', ''bin'', ''/opt'']"]
  show ?thesis by (auto simp: go_IsAbs_def DefaultExecutableConfig_def)
qed

text \<open>
  Choosing a version for all nodes and another one for a single node does not work: after
  \<open>SetVersion\<close> the name of the executable already has its version, and the version of the node is appended to
  it. A node of the latest version even gets the executable of the chosen older one.
\<close>

theorem explicit_version_after_SetVersion:
  assumes "SetVersion v base cfg = Inr cfg'" "v \<noteq> versionLatestTag"
    "ExecutablePath n = []" "cfgType n \<noteq> ''matter''" "\<not> IsMtd n" "\<not> IsBorderRouter n" "\<not> IsRcp n" "cfgVersion n = w" "w \<noteq> []"
  shows "FindExecutableBasedOnConfig isFile cfg' n =
    FindExecutable isFile cfg' (exFtd base @ ''_'' @ v @ (if w = versionLatestTag then [] else ''_'' @ w))"
  using assms by (auto simp: SetVersion_def FindExecutableBasedOnConfig_def Let_def res_simps)

theorem explicit_version_after_SetVersion_witness:
  "\<exists>cfg'. SetVersion ''v12'' (DefaultExecutableConfig []) (DefaultExecutableConfig []) = Inr cfg' \<and>
     FindExecutableBasedOnConfig (\<lambda>_. False) cfg' (DefaultNodeConfig\<lparr>cfgVersion := ''v13''\<rparr>) = ''ot-cli-ftd_v12_v13''"
  using explicit_version_after_SetVersion [of "''v12''" "DefaultExecutableConfig []" "DefaultExecutableConfig []" _
      "DefaultNodeConfig\<lparr>cfgVersion := ''v13''\<rparr>" "''v13''" "\<lambda>_. False"]
  by (simp add: SetVersion_def Let_def DefaultNodeConfig_def DefaultExecutableConfig_def FindExecutable_def go_IsAbs_def)

lemma split_scripts:
  assumes "a \<noteq> []" "b \<noteq> []" "list_all (\<lambda>l. nl \<notin> set l) (a @ b)"
  shows "go_Split (go_Join a nl @ nl # go_Join b nl) nl = a @ b"
proof -
  have "go_Join (a @ b) nl = go_Join a nl @ nl # go_Join b nl"
    using assms(1,2) by (induction a rule: list_nonempty_induct) (auto simp: go_Join_Cons)
  moreover have "go_Split (go_Join (a @ b) nl) nl = a @ b"
    using assms by (intro go_Split_Join) (auto simp: list_all_iff)
  ultimately show ?thesis by simp
qed

text \<open>With the default scripts, every init script ends with bringing up the interface and starting Thread.\<close>

lemma default_initScript_suffix: "suffix defaultAllInitScript (initScriptOf DefaultNodeScripts n)"
proof -
  have all: "ysAll DefaultNodeScripts = go_Join defaultAllInitScript nl" by (simp add: DefaultNodeScripts_def)
  have "suffix defaultAllInitScript (go_Split (s @ nl # go_Join defaultAllInitScript nl) nl)" for s
  proof -
    have "list_all (\<lambda>l. nl \<notin> set l) (go_Split s nl @ defaultAllInitScript)"
      by (auto simp: list_all_iff defaultAllInitScript_def dest: go_Split_no_sep)
    then show ?thesis
      using split_scripts [of "go_Split s nl" defaultAllInitScript]
      by (simp add: go_Join_Split defaultAllInitScript_def suffix_def)
  qed
  from this [of "ysMtd DefaultNodeScripts"] this [of "ysFtd DefaultNodeScripts"] this [of "ysExt DefaultNodeScripts"]
    this [of "ysRcp DefaultNodeScripts @ nl # ysFtd DefaultNodeScripts"]
    this [of "ysFtd DefaultNodeScripts @ nl # ysBr DefaultNodeScripts"]
    this [of "ysOtBr DefaultNodeScripts @ nl # ysFtd DefaultNodeScripts"]
  show ?thesis
    by (simp add: initScriptOf_def BuildExtScript_def BuildOtBrScript_def BuildBrScript_def BuildMtdScript_def
        BuildRcpFtdScript_def BuildFtdScript_def all)
qed

lemma finalizeScript_default:
  assumes "\<not> IsRaw n" "cfgType n \<noteq> ''wifi''"
  shows "\<exists>script. finalizeScript nf DefaultNodeScripts n = n\<lparr>InitScript := InitScript n @ script @ defaultAllInitScript @
    (if cfgType n \<noteq> ''ssed'' then [] else if cfgVersion n \<noteq> [] \<and> go_StrLe (cfgVersion n) ''v13'' then defaultLegacyCslScript
     else defaultCslScript)\<rparr>"
proof -
  obtain script where "initScriptOf DefaultNodeScripts n = script @ defaultAllInitScript"
    using default_initScript_suffix [of n] by (auto simp: suffix_def)
  then show ?thesis using assms by (intro exI [of _ script]) (simp add: finalizeScript_def Let_def)
qed

lemma UpdateNodeConfigFromType_cfgID:
  "UpdateNodeConfigFromType (n\<lparr>cfgID := k\<rparr>) = (case UpdateNodeConfigFromType n of (n1, ok) \<Rightarrow> (n1\<lparr>cfgID := k\<rparr>, ok))"
  by (auto simp: UpdateNodeConfigFromType_def Let_def)

lemma UpdateNodeConfigFromType_keeps:
  assumes "UpdateNodeConfigFromType n = (n1, ok)"
  shows "IsRaw n1 = IsRaw n" "cfgType n1 = cfgType n" "InitScript n1 = InitScript n"
proof -
  have "IsRaw (fst (UpdateNodeConfigFromType n)) = IsRaw n \<and> cfgType (fst (UpdateNodeConfigFromType n)) = cfgType n \<and>
      InitScript (fst (UpdateNodeConfigFromType n)) = InitScript n"
    by (auto simp: UpdateNodeConfigFromType_def Let_def)
  with assms show "IsRaw n1 = IsRaw n" "cfgType n1 = cfgType n" "InitScript n1 = InitScript n" by simp_all
qed

lemma finalizeExecutable_keeps:
  "\<exists>exe host ver sd. finalizeExecutable isFile seed cfg n =
     n\<lparr>ExecutablePath := exe, HostExePath := host, cfgVersion := ver, cfgRandomSeed := sd\<rparr>"
proof -
  define n1 where "n1 = n\<lparr>ExecutablePath := FindExecutableBasedOnConfig isFile (scExeConfig cfg) n\<rparr>"
  define n2 where "n2 = n1\<lparr>HostExePath := FindHostExecutableBasedOnConfig isFile (scExeConfig cfg) n1\<rparr>"
  let ?v = "if exVersion (scExeConfig cfg) \<noteq> [] \<and> cfgVersion n2 = [] then exVersion (scExeConfig cfg) else cfgVersion n2"
  have "finalizeExecutable isFile seed cfg n = n2\<lparr>cfgVersion := ?v,
      cfgRandomSeed := (if scRandomSeed cfg \<noteq> 0 \<and> \<not> IsExternal n2 \<and> \<not> IsRcp n2 then seed else cfgRandomSeed n2)\<rparr>"
    unfolding finalizeExecutable_def Let_def n1_def [symmetric] n2_def [symmetric] by simp
  then show ?thesis unfolding n2_def n1_def by blast
qed



end
