(* ===== verification/Kpi.thy ===== *)
theory Kpi
  imports Node_Commands Dispatcher_State
begin

text \<open>
  The key performance indicators of a simulation (\<^verbatim>\<open>simulation/kpi.go\<close>, \<^verbatim>\<open>simulation/kpi_data.go\<close> and the
  counter functions of \<^verbatim>\<open>simulation/types.go\<close> and \<^verbatim>\<open>simulation/utils.go\<close>): the counters of the nodes at the start
  and at the end of a period, the usage of the channels, and the delivery of CoAP messages.

  The counters of a node come from commands to the node (\<open>GetCounters\<close>); their results are an argument
  here (\<open>None\<close> is the nil map of a failed command). A \<^verbatim>\<open>float64\<close> is a real, except that the division of the
  acknowledgement ratio can give an infinity, for which there is a value of its own.
\<close>

section \<open>Counters\<close>

type_synonym NodeCountersStore = "NodeId \<rightharpoonup> NodeCounters"

definition NodeCounters_Add :: "NodeCounters \<Rightarrow> NodeCounters \<Rightarrow> NodeCounters" where
  "NodeCounters_Add nc other = (\<lambda>k. case other k of
      None \<Rightarrow> nc k
    | Some vAdd \<Rightarrow> (case nc k of Some vCur \<Rightarrow> Some (vCur + vAdd) | None \<Rightarrow> Some vAdd))"

definition mergeNodeCounters :: "NodeCounters option list \<Rightarrow> NodeCounters" where
  "mergeNodeCounters counters = fold (\<lambda>c res. case c of None \<Rightarrow> res | Some m \<Rightarrow> res ++ m) counters Map.empty"

definition getCountersDiff :: "NodeCounters \<Rightarrow> NodeCounters \<Rightarrow> NodeCounters" where
  "getCountersDiff curCtr startCtr = (\<lambda>k. case curCtr k of
      None \<Rightarrow> None
    | Some v \<Rightarrow> Some (v - (case startCtr k of Some sv \<Rightarrow> sv | None \<Rightarrow> 0)))"

text \<open>\<open>nids\<close> are the keys of the map in the order they are visited.\<close>

definition calculateCountersSum :: "NodeId list \<Rightarrow> NodeCountersStore \<Rightarrow> NodeCounters" where
  "calculateCountersSum nids m =
    fold (\<lambda>nid nc. case m nid of None \<Rightarrow> nc | Some counters \<Rightarrow> NodeCounters_Add nc counters) nids Map.empty"

section \<open>Data\<close>

datatype kpiFloat = KFin real | KMinusInf

record KpiChannel =
  kcTxTimeUs :: u64
  kcTxPercentage :: real
  kcNumFrames :: u64
  kcAvgFps :: real

record KpiCoapUri =
  kuCount :: u64
  kuCountLost :: u64
  kuLatencyMs :: real

record KpiData =
  kdStatus :: string
  kdStartTimeUs :: u64
  kdEndTimeUs :: u64
  kdPeriodUs :: u64
  kdStartTimeSec :: real
  kdEndTimeSec :: real
  kdPeriodSec :: real
  kdChannels :: "ChannelId \<rightharpoonup> KpiChannel"
  kdNoAckPercentage :: "NodeId \<rightharpoonup> kpiFloat"
  kdCounters :: NodeCountersStore
  kdCountersSum :: NodeCounters
  kdCoapUri :: "string \<rightharpoonup> KpiCoapUri"

record KpiManager =
  kmData :: KpiData
  kmStartCounters :: "NodeCountersStore option"
  kmCurCounters :: "NodeCountersStore option"
  kmCurRadioStats :: "ChannelId \<rightharpoonup> KpiChannel"
  kmCurCoaps :: "CoapMessage list"
  kmIsRunning :: bool

definition KpiManager_Init :: KpiManager where
  "KpiManager_Init = \<lparr>kmData = \<lparr>kdStatus = ''ok'', kdStartTimeUs = 0, kdEndTimeUs = 0, kdPeriodUs = 0, kdStartTimeSec = 0,
       kdEndTimeSec = 0, kdPeriodSec = 0, kdChannels = Map.empty, kdNoAckPercentage = Map.empty, kdCounters = Map.empty,
       kdCountersSum = Map.empty, kdCoapUri = Map.empty\<rparr>,
     kmStartCounters = Some Map.empty, kmCurCounters = Some Map.empty, kmCurRadioStats = Map.empty, kmCurCoaps = [],
     kmIsRunning = False\<rparr>"

section \<open>Retrieving\<close>

fun rm_ResetChannelStats :: "ChannelId \<Rightarrow> RadioModel \<Rightarrow> RadioModel" where
  "rm_ResetChannelStats ch (RMIdeal rm) = RMIdeal (RadioModel_ResetChannelStats rm ch)"
| "rm_ResetChannelStats ch (RMMutual rm) = RMMutual (RadioModel_ResetChannelStats rm ch)"

fun rm_GetChannelStats :: "ChannelId \<Rightarrow> RadioModel \<Rightarrow> RadioModel \<times> ChannelStats option" where
  "rm_GetChannelStats ch (RMIdeal rm) = (case RadioModel_GetChannelStats rm ch of (rm', cs) \<Rightarrow> (RMIdeal rm', cs))"
| "rm_GetChannelStats ch (RMMutual rm) = (case RadioModel_GetChannelStats rm ch of (rm', cs) \<Rightarrow> (RMMutual rm', cs))"

definition phyCounters :: "PhyStats option \<Rightarrow> NodeCounters" where
  "phyCounters st = (let s = (case st of Some s \<Rightarrow> s | None \<Rightarrow> \<lparr>TxBytes = 0, TxTimeUs = 0, ChanSampleCount = 0\<rparr>) in
     [''phy.tx.bytes'' \<mapsto> TxBytes s, ''phy.tx.timeus'' \<mapsto> TxTimeUs s, ''phy.chansample.count'' \<mapsto> ChanSampleCount s])"

text \<open>\<open>get nid t\<close> is the result of the command for the counters of type \<open>t\<close>, with the prefix of its keys.\<close>

definition retrieveNodeCounters ::
  "bool \<Rightarrow> NodeId list \<Rightarrow> (NodeId \<Rightarrow> string \<Rightarrow> NodeCounters option) \<Rightarrow> (NodeId \<rightharpoonup> PhyStats) \<Rightarrow> NodeCountersStore option" where
  "retrieveNodeCounters isStopping nodes get phyStats =
    (if isStopping then None
     else Some (fold (\<lambda>nid m. m(nid \<mapsto> mergeNodeCounters [get nid ''mac'', get nid ''mle'', get nid ''ip'', Some (phyCounters (phyStats nid))]))
       nodes Map.empty))"

definition kpiChannel :: "u64 \<Rightarrow> ChannelStats \<Rightarrow> KpiChannel" where
  "kpiChannel passedTime stats = \<lparr>kcTxTimeUs = csTxTimeUs stats,
     kcTxPercentage = of_int (go_Round (100000 * real (unat (csTxTimeUs stats)) / real (unat passedTime))) / 1000,
     kcNumFrames = csNumFrames stats,
     kcAvgFps = of_int (go_Round (1000000000 * real (unat (csNumFrames stats)) / real (unat passedTime))) / 1000\<rparr>"

definition channelNumbers :: "ChannelId list" where
  "channelNumbers = map of_nat [unat MinChannelNumber..<unat MaxChannelNumber + 1]"

definition retrieveRadioModelStats :: "u64 \<Rightarrow> u64 \<Rightarrow> RadioModel \<Rightarrow> RadioModel \<times> (ChannelId \<rightharpoonup> KpiChannel)" where
  "retrieveRadioModelStats startTime curTime rm =
    (let passedTime = curTime - startTime in
     if passedTime > 0 then
       fold (\<lambda>ch (rm, ret). case rm_GetChannelStats ch rm of
           (rm', Some stats) \<Rightarrow> (rm', ret(ch \<mapsto> kpiChannel passedTime stats))
         | (rm', None) \<Rightarrow> (rm', ret)) channelNumbers (rm, Map.empty)
     else (rm, Map.empty))"

section \<open>Calculating\<close>

definition counterOr0 :: "NodeCounters \<Rightarrow> string \<Rightarrow> u64" where
  "counterOr0 m k = (case m k of Some v \<Rightarrow> v | None \<Rightarrow> 0)"

text \<open>
  \<open>100.0 - 100.0*acked/requested\<close>: for a zero denominator the quotient is not a number (which the code replaces
  by 0) or plus infinity; rounding to three digits keeps the infinity.
\<close>

definition noAckPercent :: "NodeCounters \<Rightarrow> kpiFloat" where
  "noAckPercent counters =
    (let acked = counterOr0 counters ''mac.TxAcked''; requested = counterOr0 counters ''mac.TxAckRequested'' in
     if requested = 0 then (if acked = 0 then KFin 0 else KMinusInf)
     else KFin (of_int (go_Round ((100 - 100 * real (unat acked) / real (unat requested)) * 1000)) / 1000))"

definition coapCreate :: "CoapMessage \<Rightarrow> (string \<rightharpoonup> KpiCoapUri) \<Rightarrow> (string \<rightharpoonup> KpiCoapUri)" where
  "coapCreate c m = (if m (cmURI c) = None then m(cmURI c \<mapsto> \<lparr>kuCount = 0, kuCountLost = 0, kuLatencyMs = 0\<rparr>) else m)"

definition coapLatency :: "CoapMessage \<Rightarrow> real" where
  "coapLatency c = (\<Sum>r \<leftarrow> cmReceivers c. real (unat (criTimestamp r - cmTimestamp c)) / 1000)"

definition coapCount :: "CoapMessage \<Rightarrow> (string \<rightharpoonup> KpiCoapUri) \<Rightarrow> (string \<rightharpoonup> KpiCoapUri) res" where
  "coapCount c m = bindr (derefr (m (cmURI c))) (\<lambda>u.
     let u1 = u\<lparr>kuCount := kuCount u + 1\<rparr> in
     Inr (m(cmURI c \<mapsto>
       (if length (cmReceivers c) \<ge> 1
        then u1\<lparr>kuLatencyMs := kuLatencyMs u1 + coapLatency c / real (length (cmReceivers c))\<rparr>
        else u1\<lparr>kuCountLost := kuCountLost u1 + 1\<rparr>))))"

definition coapAverage :: "KpiCoapUri \<Rightarrow> KpiCoapUri" where
  "coapAverage ud =
    (if kuCount ud > kuCountLost ud
     then ud\<lparr>kuLatencyMs := of_int (go_Round (1000 * kuLatencyMs ud / real (unat (kuCount ud - kuCountLost ud)))) / 1000\<rparr>
     else ud\<lparr>kuLatencyMs := - 1\<rparr>)"

definition coapKpis :: "CoapMessage list \<Rightarrow> (string \<rightharpoonup> KpiCoapUri) res" where
  "coapKpis msgs = bindr (foldr_res coapCount msgs (fold coapCreate msgs Map.empty)) (\<lambda>m. Inr (\<lambda>uri. map_option coapAverage (m uri)))"

definition calculateKpis :: "NodeId list \<Rightarrow> u64 \<Rightarrow> KpiManager \<Rightarrow> KpiManager res" where
  "calculateKpis nids curTime km =
    (let d = kmData km;
         period = curTime - kdStartTimeUs d;
         d1 = d\<lparr>kdEndTimeUs := curTime, kdPeriodUs := period, kdStartTimeSec := real (unat (kdStartTimeUs d)) / 1000000,
           kdEndTimeSec := real (unat curTime) / 1000000, kdPeriodSec := real (unat period) / 1000000,
           kdChannels := kmCurRadioStats km, kdNoAckPercentage := Map.empty, kdCounters := Map.empty\<rparr>;
         d2 = (case kmCurCounters km of
             None \<Rightarrow> d1\<lparr>kdStatus := ''counters and mac not included due to interrupted simulation''\<rparr>
           | Some cur \<Rightarrow>
              (let diff = (\<lambda>nid. map_option (\<lambda>ctr. getCountersDiff ctr
                     (case kmStartCounters km of Some st \<Rightarrow> (case st nid of Some s \<Rightarrow> s | None \<Rightarrow> Map.empty) | None \<Rightarrow> Map.empty)) (cur nid))
               in d1\<lparr>kdNoAckPercentage := (\<lambda>nid. map_option noAckPercent (diff nid)), kdCounters := diff,
                 kdCountersSum := calculateCountersSum nids diff\<rparr>))
     in bindr (coapKpis (kmCurCoaps km)) (\<lambda>uris. Inr (km\<lparr>kmData := d2\<lparr>kdCoapUri := uris\<rparr>\<rparr>)))"

section \<open>Operations\<close>

definition kpi_stopNode :: "NodeId \<Rightarrow> KpiManager \<Rightarrow> KpiManager" where
  "kpi_stopNode nodeid km = km\<lparr>kmStartCounters := map_option (\<lambda>m. m(nodeid := None)) (kmStartCounters km),
     kmCurCounters := map_option (\<lambda>m. m(nodeid := None)) (kmCurCounters km)\<rparr>"

definition kpi_Start :: "NodeCountersStore option \<Rightarrow> KpiManager \<Rightarrow> Dispatcher \<Rightarrow> (KpiManager \<times> Dispatcher) res" where
  "kpi_Start counters km d = bindr (derefr (dRadioModel d)) (\<lambda>rm.
     Inr (km\<lparr>kmStartCounters := counters, kmData := (kmData km)\<lparr>kdStartTimeUs := dCurTime d\<rparr>, kmIsRunning := True\<rparr>,
       d\<lparr>dRadioModel := Some (fold rm_ResetChannelStats channelNumbers rm),
         dCoaps := fst (CollectCoapMessages (EnableCoaps (dCoaps d)) True)\<rparr>))"

text \<open>The common part of \<open>Stop\<close> (which clears the messages) and of \<open>SaveFile\<close> (which does not).\<close>

definition kpi_collect :: "bool \<Rightarrow> NodeId list \<Rightarrow> NodeCountersStore option \<Rightarrow> KpiManager \<Rightarrow> Dispatcher \<Rightarrow> (KpiManager \<times> Dispatcher) res" where
  "kpi_collect clear nids counters km d = bindr (derefr (dRadioModel d)) (\<lambda>rm.
     let (rm', stats) = retrieveRadioModelStats (kdStartTimeUs (kmData km)) (dCurTime d) rm;
         (coaps', msgs) = CollectCoapMessages (dCoaps d) clear
     in bindr (calculateKpis nids (dCurTime d) (km\<lparr>kmCurCounters := counters, kmCurRadioStats := stats, kmCurCoaps := msgs\<rparr>)) (\<lambda>km'.
       Inr (km', d\<lparr>dRadioModel := Some rm', dCoaps := coaps'\<rparr>)))"

text \<open>
  Writing the report: \<^verbatim>\<open>json.MarshalIndent\<close> fails for an infinity, and \<^verbatim>\<open>logger.Fatalf\<close> then ends the program. The file
  itself is left out; \<open>pathOk\<close> says whether \<open>CheckSafePath\<close> accepts its name.
\<close>

definition kpi_marshal_ok :: "KpiData \<Rightarrow> bool" where
  "kpi_marshal_ok d \<longleftrightarrow> KMinusInf \<notin> ran (kdNoAckPercentage d)"

definition kpi_write :: "KpiManager \<times> Dispatcher \<Rightarrow> (KpiManager \<times> Dispatcher) res" where
  "kpi_write r = (if kpi_marshal_ok (kmData (fst r)) then Inr r else Inl ExplicitPanic)"

definition kpi_SaveFile :: "bool \<Rightarrow> NodeId list \<Rightarrow> NodeCountersStore option \<Rightarrow> KpiManager \<Rightarrow> Dispatcher \<Rightarrow> (KpiManager \<times> Dispatcher) res" where
  "kpi_SaveFile pathOk nids counters km d =
    (if \<not> pathOk then Inr (km, d)
     else if kmIsRunning km then bindr (kpi_collect False nids counters km d) kpi_write
     else kpi_write (km, d))"

definition kpi_Stop :: "NodeId list \<Rightarrow> NodeCountersStore option \<Rightarrow> KpiManager \<Rightarrow> Dispatcher \<Rightarrow> (KpiManager \<times> Dispatcher) res" where
  "kpi_Stop nids counters km d =
    (if kmIsRunning km
     then bindr (kpi_collect True nids counters km d) (\<lambda>(km', d').
       kpi_SaveFile True nids counters (km'\<lparr>kmIsRunning := False\<rparr>) d')
     else Inr (km, d))"

section \<open>Properties\<close>

definition valueOr0 :: "u64 option \<Rightarrow> u64" where
  "valueOr0 v = (case v of Some x \<Rightarrow> x | None \<Rightarrow> 0)"

lemma countersSum_fold:
  assumes "distinct nids"
  shows "fold (\<lambda>nid nc. case m nid of None \<Rightarrow> nc | Some counters \<Rightarrow> NodeCounters_Add nc counters) nids acc k =
    (if acc k = None \<and> \<not> (\<exists>nid \<in> set nids. \<exists>c. m nid = Some c \<and> k \<in> dom c) then None
     else Some (valueOr0 (acc k) + (\<Sum>nid \<in> set nids. case m nid of None \<Rightarrow> 0 | Some c \<Rightarrow> valueOr0 (c k))))"
  using assms
proof (induction nids arbitrary: acc)
  case Nil
  then show ?case by (auto simp: valueOr0_def split: option.splits)
next
  case (Cons n nids)
  let ?acc = "case m n of None \<Rightarrow> acc | Some counters \<Rightarrow> NodeCounters_Add acc counters"
  have "?acc k = (case m n of None \<Rightarrow> acc k | Some c \<Rightarrow> (case c k of None \<Rightarrow> acc k | Some v \<Rightarrow> Some (valueOr0 (acc k) + v)))"
    by (auto simp: NodeCounters_Add_def valueOr0_def split: option.splits)
  then show ?case using Cons.IH [of ?acc] Cons.prems
    by (cases "m n"; cases "acc k"; cases "(case m n of None \<Rightarrow> Map.empty | Some c \<Rightarrow> c) k")
      (auto simp: valueOr0_def add.assoc)
qed

text \<open>
  C33. The sum over all nodes in a report is right whatever order the map of nodes is visited in: a counter
  is in the sum exactly if some node has it, and its value is the sum (modulo 2 to the 64) of the increases of this
  counter over all nodes, where a node that was not there at the start counts from zero.
\<close>

theorem kpi_counters_sum:
  assumes "calculateKpis nids curTime km = Inr km'" "kmCurCounters km = Some cur" "kmStartCounters km = Some start"
    "distinct nids" "set nids = dom cur"
  shows "kdCountersSum (kmData km') k =
    (if \<exists>nid c. cur nid = Some c \<and> k \<in> dom c
     then Some (\<Sum>nid \<in> dom cur. counterOr0 (the (cur nid)) k -
       (if k \<in> dom (the (cur nid)) then counterOr0 (case start nid of Some s \<Rightarrow> s | None \<Rightarrow> Map.empty) k else 0))
     else None)"
proof -
  define diff where "diff = (\<lambda>nid. map_option (\<lambda>ctr. getCountersDiff ctr (case start nid of Some s \<Rightarrow> s | None \<Rightarrow> Map.empty)) (cur nid))"
  have s: "kdCountersSum (kmData km') = calculateCountersSum nids diff"
    using assms(1-3) by (auto simp: calculateKpis_def Let_def diff_def res_simps)
  have "dom (getCountersDiff a b) = dom a" for a b by (auto simp: getCountersDiff_def dom_def split: option.splits)
  then have d: "(\<exists>c. diff nid = Some c \<and> k \<in> dom c) \<longleftrightarrow> (\<exists>c. cur nid = Some c \<and> k \<in> dom c)" for nid
    by (cases "cur nid") (simp_all add: diff_def)
  have v: "(case diff nid of None \<Rightarrow> 0 | Some c \<Rightarrow> valueOr0 (c k)) = counterOr0 (the (cur nid)) k -
      (if k \<in> dom (the (cur nid)) then counterOr0 (case start nid of Some s \<Rightarrow> s | None \<Rightarrow> Map.empty) k else 0)" if "nid \<in> dom cur" for nid
    using that by (auto simp: diff_def getCountersDiff_def counterOr0_def valueOr0_def split: option.splits)
  have e: "(\<exists>nid \<in> set nids. \<exists>c. diff nid = Some c \<and> k \<in> dom c) \<longleftrightarrow> (\<exists>nid c. cur nid = Some c \<and> k \<in> dom c)"
    using assms(5) d by blast
  show ?thesis
    unfolding s calculateCountersSum_def countersSum_fold [OF assms(4)] e
    using assms(5) v by (simp add: valueOr0_def)
qed

definition exampleKpi :: KpiManager where
  "exampleKpi = KpiManager_Init\<lparr>kmStartCounters := Some [1 \<mapsto> [''mac.TxTotal'' \<mapsto> 10]],
     kmCurCounters := Some [1 \<mapsto> [''mac.TxTotal'' \<mapsto> 15], 2 \<mapsto> [''mac.TxTotal'' \<mapsto> 4]]\<rparr>"

theorem kpi_counters_sum_witness:
  "\<exists>km'. calculateKpis [2, 1] 1000 exampleKpi = Inr km' \<and> kdCountersSum (kmData km') ''mac.TxTotal'' = Some 9"
proof -
  obtain km' where k: "calculateKpis [2, 1] 1000 exampleKpi = Inr km'"
    by (simp add: calculateKpis_def exampleKpi_def KpiManager_Init_def coapKpis_def Let_def)
  have "dom [1 \<mapsto> [''mac.TxTotal'' \<mapsto> 15], 2 \<mapsto> [''mac.TxTotal'' \<mapsto> (4 :: u64)]] = {1 :: NodeId, 2}" by auto
  with kpi_counters_sum [OF k, of "[1 \<mapsto> [''mac.TxTotal'' \<mapsto> 15], 2 \<mapsto> [''mac.TxTotal'' \<mapsto> 4]]" "[1 \<mapsto> [''mac.TxTotal'' \<mapsto> 10]]" "''mac.TxTotal''"] k
  show ?thesis by (auto simp: exampleKpi_def counterOr0_def split: if_splits)
qed

section \<open>CoAP delivery\<close>

lemma coapCreate_fold:
  "fold coapCreate msgs m uri = (if m uri = None \<and> uri \<in> cmURI ` set msgs then Some \<lparr>kuCount = 0, kuCountLost = 0, kuLatencyMs = 0\<rparr> else m uri)"
proof (induction msgs arbitrary: m)
  case (Cons c msgs)
  then show ?case by (cases "cmURI c = uri") (auto simp: coapCreate_def)
qed simp

text \<open>The messages of one URI, the lost ones and the latency of the others.\<close>

definition uriMsgs :: "string \<Rightarrow> CoapMessage list \<Rightarrow> CoapMessage list" where
  "uriMsgs uri msgs = filter (\<lambda>c. cmURI c = uri) msgs"

definition lostMsgs :: "string \<Rightarrow> CoapMessage list \<Rightarrow> CoapMessage list" where
  "lostMsgs uri msgs = filter (\<lambda>c. cmReceivers c = []) (uriMsgs uri msgs)"

definition latencySum :: "string \<Rightarrow> CoapMessage list \<Rightarrow> real" where
  "latencySum uri msgs = (\<Sum>c \<leftarrow> filter (\<lambda>c. cmReceivers c \<noteq> []) (uriMsgs uri msgs). coapLatency c / real (length (cmReceivers c)))"

lemma coapCount_fold:
  assumes "cmURI ` set msgs \<subseteq> dom m"
  shows "\<exists>m'. foldr_res coapCount msgs m = Inr m' \<and> dom m' = dom m \<and> (\<forall>uri u. m uri = Some u \<longrightarrow>
    m' uri = Some (u\<lparr>kuCount := kuCount u + of_nat (length (uriMsgs uri msgs)),
      kuCountLost := kuCountLost u + of_nat (length (lostMsgs uri msgs)), kuLatencyMs := kuLatencyMs u + latencySum uri msgs\<rparr>))"
  using assms
proof (induction msgs arbitrary: m)
  case Nil
  then show ?case by (simp add: uriMsgs_def lostMsgs_def latencySum_def)
next
  case (Cons c msgs)
  then obtain u where u: "m (cmURI c) = Some u" by auto
  define u' where "u' = (if cmReceivers c = [] then u\<lparr>kuCount := kuCount u + 1, kuCountLost := kuCountLost u + 1\<rparr>
     else u\<lparr>kuCount := kuCount u + 1, kuLatencyMs := kuLatencyMs u + coapLatency c / real (length (cmReceivers c))\<rparr>)"
  let ?m = "m(cmURI c \<mapsto> u')"
  have step: "coapCount c m = Inr ?m" by (simp add: coapCount_def u u'_def Let_def Suc_le_eq)
  have "cmURI ` set msgs \<subseteq> dom ?m" using Cons.prems by auto
  from Cons.IH [OF this] obtain m' where m': "foldr_res coapCount msgs ?m = Inr m'" "dom m' = dom ?m"
    "\<And>uri v. ?m uri = Some v \<Longrightarrow> m' uri = Some (v\<lparr>kuCount := kuCount v + of_nat (length (uriMsgs uri msgs)),
      kuCountLost := kuCountLost v + of_nat (length (lostMsgs uri msgs)), kuLatencyMs := kuLatencyMs v + latencySum uri msgs\<rparr>)"
    by blast
  have "m' uri = Some (v\<lparr>kuCount := kuCount v + of_nat (length (uriMsgs uri (c # msgs))),
      kuCountLost := kuCountLost v + of_nat (length (lostMsgs uri (c # msgs))), kuLatencyMs := kuLatencyMs v + latencySum uri (c # msgs)\<rparr>)"
    if "m uri = Some v" for uri v
  proof (cases "uri = cmURI c")
    case True
    with that u have "v = u" by simp
    with True m'(3) [of uri u'] show ?thesis by (simp add: u'_def uriMsgs_def lostMsgs_def latencySum_def add.assoc)
  next
    case False
    with that m'(3) [of uri v] show ?thesis by (simp add: uriMsgs_def lostMsgs_def latencySum_def)
  qed
  with step m'(1,2) u show ?case by (simp add: insert_absorb domI)
qed

text \<open>
  C34. The CoAP part of a report accounts for every message: the calculation never panics, there is an
  entry for a URI exactly if a message was sent to it, the entry counts its messages and the ones that
  reached no receiver, and its latency is the average over the delivered messages (for a multicast, of the average
  over its receivers), rounded to microseconds, or -1 if none was delivered.
\<close>

theorem coap_report:
  assumes "length msgs < 2 ^ 64"
  shows "\<exists>m. coapKpis msgs = Inr m \<and> dom m = cmURI ` set msgs \<and>
    (\<forall>uri u. m uri = Some u \<longrightarrow> unat (kuCount u) = length (uriMsgs uri msgs) \<and> unat (kuCountLost u) = length (lostMsgs uri msgs) \<and>
       kuLatencyMs u = (if length (lostMsgs uri msgs) < length (uriMsgs uri msgs)
         then of_int (go_Round (1000 * latencySum uri msgs / (real (length (uriMsgs uri msgs)) - real (length (lostMsgs uri msgs))))) / 1000
         else - 1))"
proof -
  let ?z = "\<lparr>kuCount = 0, kuCountLost = 0, kuLatencyMs = 0\<rparr>"
  define m0 where "m0 = fold coapCreate msgs Map.empty"
  have m0: "m0 uri = (if uri \<in> cmURI ` set msgs then Some ?z else None)" for uri
    unfolding m0_def coapCreate_fold by simp
  then have d0: "dom m0 = cmURI ` set msgs" by (auto split: if_splits)
  obtain m1 where m1: "foldr_res coapCount msgs m0 = Inr m1" "dom m1 = dom m0"
    "\<And>uri u. m0 uri = Some u \<Longrightarrow> m1 uri = Some (u\<lparr>kuCount := kuCount u + of_nat (length (uriMsgs uri msgs)),
      kuCountLost := kuCountLost u + of_nat (length (lostMsgs uri msgs)), kuLatencyMs := kuLatencyMs u + latencySum uri msgs\<rparr>)"
    using coapCount_fold [of msgs m0] d0 by blast
  have le: "length (lostMsgs uri msgs) \<le> length (uriMsgs uri msgs)" "length (uriMsgs uri msgs) < 2 ^ 64" for uri
  proof -
    have "length (uriMsgs uri msgs) \<le> length msgs" by (simp add: uriMsgs_def)
    then show "length (uriMsgs uri msgs) < 2 ^ 64" using assms by (rule le_less_trans)
  qed (simp add: lostMsgs_def)
  have n: "unat (of_nat (length (uriMsgs uri msgs)) :: u64) = length (uriMsgs uri msgs)"
    "unat (of_nat (length (lostMsgs uri msgs)) :: u64) = length (lostMsgs uri msgs)" for uri
    using le [of uri] by (simp_all add: unsigned_of_nat take_bit_nat_eq_self)
  have v: "m1 uri = Some \<lparr>kuCount = of_nat (length (uriMsgs uri msgs)), kuCountLost = of_nat (length (lostMsgs uri msgs)),
      kuLatencyMs = latencySum uri msgs\<rparr>" if "uri \<in> cmURI ` set msgs" for uri
    using m1(3) [of uri ?z] m0 [of uri] that by simp
  have avg: "kuLatencyMs (coapAverage \<lparr>kuCount = of_nat (length (uriMsgs uri msgs)), kuCountLost = of_nat (length (lostMsgs uri msgs)),
      kuLatencyMs = latencySum uri msgs\<rparr>) = (if length (lostMsgs uri msgs) < length (uriMsgs uri msgs)
         then of_int (go_Round (1000 * latencySum uri msgs / (real (length (uriMsgs uri msgs)) - real (length (lostMsgs uri msgs))))) / 1000
         else - 1)" for uri
    using le [of uri] n [of uri] by (simp add: coapAverage_def word_less_nat_alt unat_sub word_le_nat_alt of_nat_diff)
  have "coapKpis msgs = Inr (\<lambda>uri. map_option coapAverage (m1 uri))"
    using m1(1) by (simp add: coapKpis_def m0_def)
  moreover have "dom (\<lambda>uri. map_option coapAverage (m1 uri)) = cmURI ` set msgs" using m1(2) d0 by (auto simp: dom_def)
  moreover have "unat (kuCount u) = length (uriMsgs uri msgs) \<and> unat (kuCountLost u) = length (lostMsgs uri msgs) \<and>
       kuLatencyMs u = (if length (lostMsgs uri msgs) < length (uriMsgs uri msgs)
         then of_int (go_Round (1000 * latencySum uri msgs / (real (length (uriMsgs uri msgs)) - real (length (lostMsgs uri msgs))))) / 1000
         else - 1)" if "map_option coapAverage (m1 uri) = Some u" for uri u
  proof -
    have "uri \<in> cmURI ` set msgs" using that m1(2) d0 by (auto simp: dom_def)
    from v [OF this] that n [of uri] avg [of uri] show ?thesis by (auto simp: coapAverage_def)
  qed
  ultimately show ?thesis by blast
qed

definition exampleCoap :: "CoapMessageRecvInfo list \<Rightarrow> CoapMessage" where
  "exampleCoap rs = \<lparr>cmTimestamp = 1000, cmSrcNode = 1, cmID = 1, cmType = 0, cmCode = 2, cmURI = ''t'', cmDstAddr = [],
     cmDstPort = 0, cmError = [], cmReceivers = rs\<rparr>"

theorem coap_report_witness:
  "\<exists>m u. coapKpis [exampleCoap [], exampleCoap [\<lparr>criTimestamp = 3000, criDstNode = 2, criSrcAddr = [], criSrcPort = 0\<rparr>]] = Inr m \<and>
     m ''t'' = Some u \<and> unat (kuCount u) = 2 \<and> unat (kuCountLost u) = 1 \<and> kuLatencyMs u = 2"
proof -
  let ?ms = "[exampleCoap [], exampleCoap [\<lparr>criTimestamp = 3000, criDstNode = 2, criSrcAddr = [], criSrcPort = 0\<rparr>]]"
  have l: "length (uriMsgs ''t'' ?ms) = 2" "length (lostMsgs ''t'' ?ms) = 1" "latencySum ''t'' ?ms = 2"
    by (simp_all add: uriMsgs_def lostMsgs_def latencySum_def coapLatency_def exampleCoap_def)
  have len: "length ?ms < 2 ^ 64" by simp
  have r: "go_Round 2000 = 2000" by (simp add: go_Round_def floor_eq_iff)
  obtain m where m: "coapKpis ?ms = Inr m" "dom m = cmURI ` set ?ms" and a: "\<forall>uri u. m uri = Some u \<longrightarrow>
       unat (kuCount u) = length (uriMsgs uri ?ms) \<and> unat (kuCountLost u) = length (lostMsgs uri ?ms) \<and>
       kuLatencyMs u = (if length (lostMsgs uri ?ms) < length (uriMsgs uri ?ms)
         then of_int (go_Round (1000 * latencySum uri ?ms / (real (length (uriMsgs uri ?ms)) - real (length (lostMsgs uri ?ms))))) / 1000
         else - 1)"
    using coap_report [of ?ms, OF len] by blast
  have "''t'' \<in> dom m" unfolding m(2) by (simp add: exampleCoap_def)
  then obtain u where u: "m ''t'' = Some u" by blast
  note a [rule_format, OF u, unfolded l]
  then have "unat (kuCount u) = 2 \<and> unat (kuCountLost u) = 1 \<and> kuLatencyMs u = 2" by (simp add: r)
  with m(1) u show ?thesis by blast
qed

end
