(* ===== verification/Safe_Path.thy ===== *)
theory Safe_Path
  imports Go_Path
begin

text \<open>
  \<open>CheckSafePath\<close> of \<^verbatim>\<open>simulation/kpi.go\<close>, which decides whether a report may be written to a file. An absolute clean
  path is the list of its elements. \<^verbatim>\<open>filepath.EvalSymlinks\<close> asks the file system and is an argument
  (\<open>None\<close> for an error, which includes that the file does not exist).
\<close>

section \<open>The code\<close>

text \<open>\<^verbatim>\<open>filepath.Abs\<close> below the working directory \<open>cwd\<close>.\<close>

definition absElems :: "string list \<Rightarrow> string \<Rightarrow> string list" where
  "absElems cwd filename =
    (if go_IsAbs filename then cleanElems filename
     else cleanElems ([separator] @ go_Join cwd separator @ [separator] @ filename))"

text \<open>
  The loop over the parents: the longest part of the path that can be resolved, followed by the rest. The second
  argument collects the names of the rest; at the root without success the path itself stays.
\<close>

fun evalLoop :: "(string list \<Rightarrow> string list option) \<Rightarrow> string list \<Rightarrow> string list \<Rightarrow> string list option" where
  "evalLoop evalSymlinks temp rest =
    (case evalSymlinks temp of
       Some e \<Rightarrow> Some (e @ rest)
     | None \<Rightarrow> if temp = [] then None else evalLoop evalSymlinks (butlast temp) (last temp # rest))"

declare evalLoop.simps [simp del]

text \<open>\<^verbatim>\<open>filepath.Rel\<close> of two absolute paths: up from the base to the common part, then down.\<close>

definition relElems :: "string list \<Rightarrow> string list \<Rightarrow> string list" where
  "relElems base targ =
    (let common = longest_common_prefix base targ
     in replicate (length base - length common) ''..'' @ drop (length common) targ)"

definition CheckSafePath :: "string list option \<Rightarrow> (string list \<Rightarrow> string list option) \<Rightarrow> string \<Rightarrow> string list option" where
  "CheckSafePath getwd evalSymlinks filename =
    (if filename = [] then None
     else case getwd of
       None \<Rightarrow> None
     | Some cwd \<Rightarrow>
        (let evalCwd = (case evalSymlinks cwd of Some e \<Rightarrow> e | None \<Rightarrow> cwd);
             abspath = absElems cwd filename;
             evalAbs = (case evalLoop evalSymlinks abspath [] of Some e \<Rightarrow> e | None \<Rightarrow> abspath);
             rel = relElems evalCwd evalAbs
         in if rel \<noteq> [] \<and> hd rel = ''..'' then None else Some evalAbs))"

section \<open>A file system\<close>

text \<open>
  A file system with directories and files (\<open>fsNodes\<close>) and symbolic links to absolute paths. Resolving a path follows
  at most \<open>n\<close> links (255 in Go) and fails if an element does not exist; opening a file for writing with the
  flag to create it follows the links too, but its last element need not exist.
\<close>

record FileSystem =
  fsNodes :: "string list \<Rightarrow> bool"
  fsLinks :: "string list \<rightharpoonup> string list"

function walk :: "FileSystem \<Rightarrow> nat \<Rightarrow> string list \<Rightarrow> string list \<Rightarrow> string list option" where
  "walk fs n cur [] = Some cur"
| "walk fs n cur (e # es) =
    (case fsLinks fs (cur @ [e]) of
       Some t \<Rightarrow> if n = 0 then None else walk fs (n - 1) [] (t @ es)
     | None \<Rightarrow> if fsNodes fs (cur @ [e]) then walk fs n (cur @ [e]) es else None)"
  by pat_completeness auto

termination
  by (relation "measures [\<lambda>(_, n, _, _). n, \<lambda>(_, _, _, es). length es]") auto

definition fsEvalSymlinks :: "FileSystem \<Rightarrow> string list \<Rightarrow> string list option" where
  "fsEvalSymlinks fs p = walk fs 255 [] p"

function createAt :: "FileSystem \<Rightarrow> nat \<Rightarrow> string list \<Rightarrow> string list option" where
  "createAt fs n p =
    (if p = [] then None
     else case walk fs n [] (butlast p) of
       None \<Rightarrow> None
     | Some dir \<Rightarrow>
        (case fsLinks fs (dir @ [last p]) of
           None \<Rightarrow> Some (dir @ [last p])
         | Some t \<Rightarrow> if n = 0 then None else createAt fs (n - 1) t))"
  by auto

termination
  by (relation "measure (\<lambda>(_, n, _). n)") auto

declare createAt.simps [simp del]

section \<open>Properties\<close>

lemma relElems_prefix: "relElems base targ \<noteq> [] \<and> hd (relElems base targ) = ''..'' \<or> prefix base targ"
proof (cases "length (longest_common_prefix base targ) < length base")
  case True
  then obtain k where "length base - length (longest_common_prefix base targ) = Suc k" by (metis Suc_diff_Suc)
  then show ?thesis by (simp add: relElems_def Let_def)
next
  case False
  have "prefix (longest_common_prefix base targ) base" "prefix (longest_common_prefix base targ) targ"
    by (rule longest_common_prefix_prefix1 longest_common_prefix_prefix2)+
  moreover from False this(1) have "longest_common_prefix base targ = base"
    by (metis not_equal_is_parallel parallelD1 prefix_length_le prefix_order.dual_order.refl order.antisym linorder_not_less)
  ultimately show ?thesis by simp
qed



lemma evalLoop_parent:
  assumes "evalSymlinks (dir @ [name]) = None" "evalSymlinks dir = Some d"
  shows "evalLoop evalSymlinks (dir @ [name]) [] = Some (d @ [name])"
  using assms by (simp add: evalLoop.simps [of _ "dir @ [name]"] evalLoop.simps [of _ dir])

lemma cleanElems_below:
  assumes "list_all (\<lambda>c. proper c \<and> separator \<notin> set c) (cwd @ [name])"
  shows "absElems cwd name = cwd @ [name]"
proof -
  have rel: "\<not> go_IsAbs name" using assms by (cases name) (auto simp: go_IsAbs_def)
  have join: "go_Join (cwd @ [name]) separator = (if cwd = [] then name else go_Join cwd separator @ separator # name)"
    by (induction cwd) (auto simp: go_Join_Cons)
  have split: "go_Split (go_Join (cwd @ [name]) separator) separator = cwd @ [name]"
    using assms by (intro go_Split_Join) (auto simp: list_all_iff)
  have fold: "fold (clean_step True) es st = rev es @ st" if "list_all proper es" for es st
    using that by (induction es arbitrary: st) (auto simp: clean_step_def proper_def)
  have p: "list_all proper (cwd @ [name])" using assms by (auto simp: list_all_iff)
  show ?thesis
  proof (cases "cwd = []")
    case True
    have "go_Split name separator = [name]" using split True by simp
    then have "go_Split ([separator] @ [separator] @ name) separator = [[], [], name]" by simp
    with True rel p show ?thesis
      by (simp add: absElems_def cleanElems_def go_IsAbs_def clean_step_def proper_def)
  next
    case False
    then have "go_Split ([separator] @ go_Join cwd separator @ [separator] @ name) separator = [] # (cwd @ [name])"
      using split join by simp
    moreover have "fold (clean_step True) ([] # (cwd @ [name])) [] = rev (cwd @ [name])"
      using fold [OF p, of "[]"] by (simp only: fold_simps clean_step_def) simp
    ultimately show ?thesis
      using rel by (simp only: absElems_def cleanElems_def if_False) (simp add: go_IsAbs_def)
  qed
qed

text \<open>
  C39. A symbolic link to a file that does not exist yet escapes the check. Let the working directory contain no links
  on its way and contain a link to a path outside of it whose directory exists but which itself does not exist. Then
  \<open>CheckSafePath\<close> accepts the name of the link, as resolving it fails and only its directory is
  resolved; opening the accepted path for writing follows the link and creates the file outside of the
  working directory.
\<close>

theorem dangling_link_escapes:
  assumes "list_all (\<lambda>c. proper c \<and> separator \<notin> set c) (cwd @ [name])" "fsEvalSymlinks fs cwd = Some cwd"
    "fsEvalSymlinks fs (cwd @ [name]) = None" "fsLinks fs (cwd @ [name]) = Some t" "t \<noteq> []"
    "walk fs 254 [] (butlast t) = Some dir" "fsLinks fs (dir @ [last t]) = None" "\<not> prefix cwd (dir @ [last t])"
  shows "CheckSafePath (Some cwd) (fsEvalSymlinks fs) name = Some (cwd @ [name]) \<and>
    createAt fs 255 (cwd @ [name]) = Some (dir @ [last t]) \<and> \<not> prefix cwd (dir @ [last t])"
proof -
  have "name \<noteq> []" using assms(1) by (auto simp: proper_def)
  have "longest_common_prefix cwd (cwd @ [name]) = cwd" by (induction cwd) auto
  then have "relElems cwd (cwd @ [name]) = [name]" by (simp add: relElems_def)
  moreover have "name \<noteq> ''..''" using assms(1) by (auto simp: proper_def)
  ultimately have "CheckSafePath (Some cwd) (fsEvalSymlinks fs) name = Some (cwd @ [name])"
    using \<open>name \<noteq> []\<close> assms(2,3) evalLoop_parent [OF assms(3,2)] cleanElems_below [OF assms(1)]
    by (simp add: CheckSafePath_def Let_def)
  moreover have "createAt fs 254 t = Some (dir @ [last t])"
    using assms(5-7) by (simp add: createAt.simps)
  then have "createAt fs 255 (cwd @ [name]) = Some (dir @ [last t])"
    using assms(2,4) by (subst createAt.simps) (simp add: fsEvalSymlinks_def)
  ultimately show ?thesis using assms(8) by blast
qed

definition exampleFs :: FileSystem where
  "exampleFs = \<lparr>fsNodes = (\<lambda>p. p = [''home''] \<or> p = [''etc'']), fsLinks = [[''home'', ''out''] \<mapsto> [''etc'', ''new'']]\<rparr>"

theorem dangling_link_escapes_witness:
  "CheckSafePath (Some [''home'']) (fsEvalSymlinks exampleFs) ''out'' = Some [''home'', ''out''] \<and>
    createAt exampleFs 255 [''home'', ''out''] = Some [''etc'', ''new'']"
  using dangling_link_escapes [of "[''home'']" "''out''" exampleFs "[''etc'', ''new'']" "[''etc'']"]
  by (simp add: proper_def fsEvalSymlinks_def exampleFs_def)

end
