(* ===== verification/Simulation_State.thy ===== *)
theory Simulation_State
  imports Node_Config Dispatcher_Laws
begin

text \<open>
  Parts of \<^verbatim>\<open>simulation/simulation.go\<close>: the configuration that the simulation passes on to its dispatcher, the queries over its
  nodes, moving a node, and the automatic progress of the simulation (autogo). Autogo is a goroutine that is told
  through a channel of capacity one whether to run; it is modelled as a step relation that
  interleaves the goroutine with the dispatcher goroutine, select statement by select statement.
\<close>

section \<open>Nodes and configuration\<close>

definition syncDispatcherConfig :: "SimConfig \<Rightarrow> DConfig \<Rightarrow> DConfig" where
  "syncDispatcherConfig cfg dcfg = dcfg\<lparr>dcSpeed := (if scRealtime cfg then 1 else scSpeed cfg), dcRealtime := scRealtime cfg,
     dcDumpPackets := scDumpPackets cfg, dcSimulationId := scId cfg, dcOutputDir := scOutputDir cfg\<rparr>"

record SimNode =
  snCfg :: NodeConfig
  snIsExiting :: bool

record Simulation =
  simCfg :: SimConfig
  simNodes :: "NodeId \<rightharpoonup> SimNode"
  simD :: Dispatcher
  simNodePlacer :: NodeAutoPlacer

text \<open>\<open>ids\<close> are the keys of the map of nodes in the order they are visited.\<close>

definition GetNodes :: "NodeId list \<Rightarrow> Simulation \<Rightarrow> NodeId list" where
  "GetNodes ids s = sort (filter (\<lambda>i. case simNodes s i of Some n \<Rightarrow> \<not> snIsExiting n | None \<Rightarrow> False) ids)"

definition MaxNodeId :: "NodeId list \<Rightarrow> NodeId" where
  "MaxNodeId ids = fold (\<lambda>nid m. if nid > m \<or> m = 0 then nid else m) ids 0"

definition sim_genNodeId :: "nat \<Rightarrow> Simulation \<Rightarrow> NodeId option" where
  "sim_genNodeId fuel s = genNodeId (\<lambda>i. simNodes s i \<noteq> None \<or> dNodes (simD s) i \<noteq> None) fuel"

definition VisitNodesInOrder :: "Simulation \<Rightarrow> NodeId list" where
  "VisitNodesInOrder s = filter (\<lambda>i. simNodes s i \<noteq> None) (dNodesArray (simD s))"

definition sim_SetSpeed :: "real \<Rightarrow> Simulation \<Rightarrow> Simulation" where
  "sim_SetSpeed speed s = s\<lparr>simD := SetSpeed (if scRealtime (simCfg s) then 1 else speed) (simD s)\<rparr>"

text \<open>The second component is \<open>False\<close> for the error that the node does not exist.\<close>

definition MoveNodeTo :: "NodeId \<Rightarrow> int \<Rightarrow> int \<Rightarrow> int option \<Rightarrow> Simulation \<Rightarrow> (Simulation \<times> bool) res" where
  "MoveNodeTo nodeid x y z s =
    (case dNodes (simD s) nodeid of
       None \<Rightarrow> Inr (s, False)
     | Some dn \<Rightarrow>
        (let zNew = (case z of Some v \<Rightarrow> v | None \<Rightarrow> dnZ dn) in
         bindr (SetNodePos nodeid x y zNew (simD s)) (\<lambda>d.
           Inr (s\<lparr>simD := d, simNodePlacer := UpdateReference x y zNew (simNodePlacer s)\<rparr>, True))))"

text \<open>\<open>getCommitFromOtVersion\<close> of \<^verbatim>\<open>simulation/utils.go\<close>.\<close>

definition getCommitFromOtVersion :: "string \<Rightarrow> string" where
  "getCommitFromOtVersion ver =
    (if prefix ''OPENTHREAD/'' ver \<and> length ver \<ge> 13 then
       (let commit = drop 11 ver; idx = length (takeWhile (\<lambda>c. c \<noteq> CHR '';'') commit) in
        if CHR '';'' \<in> set commit \<and> idx > 0 then take idx commit else [])
     else [])"

section \<open>Autogo\<close>

datatype autoGoLoop = Loop1 | Loop2 | Returned

text \<open>
  \<open>agSignal\<close> is the value that \<open>signalAutoGo\<close> is about to send, \<open>agChan\<close> the channel, \<open>agPeriods\<close> the
  number of periods of a second that the goroutine has started.
\<close>

record AutoGo =
  agRealtime :: bool
  agWanted :: bool
  agFirstNodeAdded :: bool
  agSignal :: "bool option"
  agChan :: "bool option"
  agLoop :: autoGoLoop
  agPeriods :: nat
  agCtxDone :: bool

definition newAutoGo :: "SimConfig \<Rightarrow> AutoGo" where
  "newAutoGo cfg = \<lparr>agRealtime = scRealtime cfg, agWanted = (scAutoGo cfg \<or> scRealtime cfg), agFirstNodeAdded = False,
     agSignal = None, agChan = None, agLoop = Loop1, agPeriods = 0, agCtxDone = False\<rparr>"

definition SetAutoGo :: "bool \<Rightarrow> AutoGo \<Rightarrow> AutoGo res" where
  "SetAutoGo isAuto s =
    (if agRealtime s then assertr isAuto (Inr s)
     else if agWanted s \<noteq> isAuto then
       Inr (if agFirstNodeAdded s then s\<lparr>agWanted := isAuto, agSignal := Some isAuto\<rparr> else s\<lparr>agWanted := isAuto\<rparr>)
     else Inr s)"

text \<open>The end of \<open>AddNode\<close>.\<close>

definition firstNodeAdded :: "AutoGo \<Rightarrow> AutoGo" where
  "firstNodeAdded s =
    (if agFirstNodeAdded s then s
     else s\<lparr>agFirstNodeAdded := True, agSignal := (if agWanted s then Some True else agSignal s)\<rparr>)"

text \<open>
  The steps. \<open>signalAutoGo\<close> runs on the dispatcher goroutine, so no other call starts while a signal is on its way. Its select
  sends if the channel is empty and drops the pending value otherwise. The select of the second loop has a default,
  which is taken only if nothing is ready.
\<close>

inductive ag_step :: "AutoGo \<Rightarrow> AutoGo \<Rightarrow> bool" where
  ag_set: "agSignal s = None \<Longrightarrow> SetAutoGo b s = Inr s' \<Longrightarrow> ag_step s s'"
| ag_first: "agSignal s = None \<Longrightarrow> ag_step s (firstNodeAdded s)"
| ag_send: "agSignal s = Some b \<Longrightarrow> agChan s = None \<Longrightarrow> ag_step s (s\<lparr>agSignal := None, agChan := Some b\<rparr>)"
| ag_drop: "agSignal s = Some b \<Longrightarrow> agChan s = Some v \<Longrightarrow> ag_step s (s\<lparr>agChan := None\<rparr>)"
| ag_recv1: "agLoop s = Loop1 \<Longrightarrow> agChan s = Some v \<Longrightarrow>
    ag_step s (s\<lparr>agChan := None, agLoop := (if v \<and> \<not> agRealtime s then Loop2 else Loop1)\<rparr>)"
| ag_recv2: "agLoop s = Loop2 \<Longrightarrow> agChan s = Some v \<Longrightarrow>
    ag_step s (s\<lparr>agChan := None, agLoop := (if v then Loop2 else Loop1)\<rparr>)"
| ag_go: "agLoop s = Loop2 \<Longrightarrow> agChan s = None \<Longrightarrow> \<not> agCtxDone s \<Longrightarrow> ag_step s (s\<lparr>agPeriods := agPeriods s + 1\<rparr>)"
| ag_cancel: "ag_step s (s\<lparr>agCtxDone := True\<rparr>)"
| ag_return: "agCtxDone s \<Longrightarrow> ag_step s (s\<lparr>agLoop := Returned\<rparr>)"

inductive ag_reach :: "SimConfig \<Rightarrow> AutoGo \<Rightarrow> bool" for cfg where
  agr_new: "ag_reach cfg (newAutoGo cfg)"
| agr_step: "ag_reach cfg s \<Longrightarrow> ag_step s s' \<Longrightarrow> ag_reach cfg s'"

section \<open>Properties\<close>

lemma MoveNodeTo_law:
  assumes "reg_inv (simD s)"
  shows "\<exists>s' ok. MoveNodeTo i x y z s = Inr (s', ok) \<and> ok = (dNodes (simD s) i \<noteq> None) \<and> reg_inv (simD s') \<and>
    registry (simD s') = registry (simD s)"
proof (cases "dNodes (simD s) i")
  case None
  then show ?thesis using assms by (intro exI [of _ s] exI [of _ False]) (simp add: MoveNodeTo_def)
next
  case (Some n)
  then show ?thesis
    using SetNodePos_law [OF assms Some, of x y "case z of Some v \<Rightarrow> v | None \<Rightarrow> dnZ n"] by (auto simp: MoveNodeTo_def)
qed

text \<open>
  The newest value on its way, in the signal, in the channel or already in effect, is the wanted one.
\<close>

definition ag_inv :: "AutoGo \<Rightarrow> bool" where
  "ag_inv s \<longleftrightarrow>
    (if agRealtime s then agLoop s \<noteq> Loop2
     else case agSignal s of
        Some b \<Rightarrow> b = agWanted s \<and> agFirstNodeAdded s
      | None \<Rightarrow> (case agChan s of
          Some b \<Rightarrow> b = agWanted s \<and> agFirstNodeAdded s
        | None \<Rightarrow> agLoop s = Returned \<or> (agLoop s = Loop2) = (agFirstNodeAdded s \<and> agWanted s)))"

lemma ag_step_realtime: "ag_step s s' \<Longrightarrow> agRealtime s' = agRealtime s"
  by (induction rule: ag_step.induct) (auto simp: SetAutoGo_def firstNodeAdded_def res_simps split: if_splits)

lemma ag_step_inv: "ag_step s s' \<Longrightarrow> ag_inv s \<Longrightarrow> ag_inv s'"
proof (induction rule: ag_step.induct)
  case (ag_set s b s')
  then show ?case by (auto simp: ag_inv_def SetAutoGo_def res_simps split: if_splits option.splits)
next
  case (ag_first s)
  then show ?case by (auto simp: ag_inv_def firstNodeAdded_def split: if_splits option.splits)
next
  case (ag_return s)
  then show ?case by (auto simp: ag_inv_def split: if_splits option.splits)
qed (auto simp: ag_inv_def split: if_splits option.splits)

lemma ag_reach_inv: "ag_reach cfg s \<Longrightarrow> ag_inv s"
proof (induction rule: ag_reach.induct)
  case agr_new
  then show ?case by (simp add: ag_inv_def newAutoGo_def)
next
  case (agr_step s s')
  then show ?case using ag_step_inv by blast
qed

lemma ag_reach_realtime: "ag_reach cfg s \<Longrightarrow> agRealtime s = scRealtime cfg"
  by (induction rule: ag_reach.induct) (auto simp: newAutoGo_def ag_step_realtime)

text \<open>
  C25. Autogo follows the last request in every interleaving of the two goroutines, although the channel holds one
  value only and pending values are dropped. When no signal is on its way and the goroutine has read its channel, it is
  running exactly if autogo is wanted (and a first node was added). While a value is pending, this value is
  the wanted one. So a period is only ever started when autogo is wanted or when the request to stop is
  just being sent. In real-time mode no period is ever started.
\<close>

theorem autogo_follows_request:
  assumes "ag_reach cfg s" "agLoop s \<noteq> Returned" "agSignal s = None"
  shows "(case agChan s of
      None \<Rightarrow> (agLoop s = Loop2) = (\<not> scRealtime cfg \<and> agFirstNodeAdded s \<and> agWanted s)
    | Some b \<Rightarrow> scRealtime cfg \<or> b = agWanted s) \<and> (scRealtime cfg \<longrightarrow> agLoop s = Loop1)"
proof -
  have "agRealtime s = scRealtime cfg" using ag_reach_realtime assms(1) by blast
  with ag_reach_inv [OF assms(1)] assms(2,3) show ?thesis
    by (cases "agLoop s") (auto simp: ag_inv_def split: option.splits if_splits)
qed

definition exampleRunning :: AutoGo where
  "exampleRunning = (newAutoGo (DefaultSimConfig []))\<lparr>agFirstNodeAdded := True, agLoop := Loop2\<rparr>"

lemma exampleRunning_reach: "ag_reach (DefaultSimConfig []) exampleRunning"
proof -
  let ?s = "newAutoGo (DefaultSimConfig [])"
  have s1: "ag_reach (DefaultSimConfig []) (?s\<lparr>agFirstNodeAdded := True, agSignal := Some True\<rparr>)"
    using agr_step [OF agr_new ag_first [of ?s]] by (simp add: newAutoGo_def firstNodeAdded_def DefaultSimConfig_def)
  have s2: "ag_reach (DefaultSimConfig []) (?s\<lparr>agFirstNodeAdded := True, agChan := Some True\<rparr>)"
    using agr_step [OF s1 ag_send [of _ True]] by (simp add: newAutoGo_def)
  show ?thesis
    using agr_step [OF s2 ag_recv1 [of _ True]] by (simp add: newAutoGo_def exampleRunning_def DefaultSimConfig_def)
qed

theorem autogo_follows_request_witness:
  "agChan exampleRunning = None \<and> (agLoop exampleRunning = Loop2) =
     (\<not> scRealtime (DefaultSimConfig []) \<and> agFirstNodeAdded exampleRunning \<and> agWanted exampleRunning)"
proof -
  have "agChan exampleRunning = None" "agLoop exampleRunning \<noteq> Returned" "agSignal exampleRunning = None"
    by (simp_all add: exampleRunning_def newAutoGo_def)
  with autogo_follows_request [OF exampleRunning_reach] show ?thesis by simp
qed

end
