(* ===== verification/Rfsim_Alarm.thy ===== *)
theory Rfsim_Alarm
  imports Prelude "HOL-Library.Signed_Division"
begin

text \<open>
  The clock and the two alarms of a simulated node (\<^verbatim>\<open>src/ot-rfsim/src/alarm.c\<close>). The static variables of the file are a
  record. Unsigned integers wrap; the drift is a signed 64-bit number, whose overflow has no defined result in C.
  The microsecond timer (\<^verbatim>\<open>OPENTHREAD_CONFIG_PLATFORM_USEC_TIMER_ENABLE\<close>) is compiled in.
\<close>

section \<open>The clock\<close>

record Alarm =
  alNow :: u64
  alClockDriftPpm :: "16 word"
  alDriftPicoSec :: int
  alIsMsRunning :: bool
  alMsAlarm :: u32
  alIsUsRunning :: bool
  alUsAlarm :: u32

definition newAlarm :: Alarm where
  "newAlarm = \<lparr>alNow = 0, alClockDriftPpm = 0, alDriftPicoSec = 0, alIsMsRunning = False, alMsAlarm = 0,
     alIsUsRunning = False, alUsAlarm = 0\<rparr>"

definition platformAlarmInit :: "'a Alarm_scheme \<Rightarrow> 'a Alarm_scheme" where
  "platformAlarmInit a = a\<lparr>alNow := 0, alDriftPicoSec := 0, alClockDriftPpm := 0\<rparr>"

abbreviation US_PER_MS :: u64 where "US_PER_MS \<equiv> 1000"
abbreviation PS_PER_US :: int where "PS_PER_US \<equiv> 1000000"

definition in_int64 :: "int \<Rightarrow> bool" where
  "in_int64 x \<longleftrightarrow> - (2 ^ 63) \<le> x \<and> x < 2 ^ 63"

text \<open>Division rounds towards zero, and adding a negative adjustment to the clock wraps.\<close>

definition platformAlarmAdvanceNow :: "u64 \<Rightarrow> 'a Alarm_scheme \<Rightarrow> 'a Alarm_scheme res" where
  "platformAlarmAdvanceNow aDelta a =
    (let now = alNow a + aDelta;
         step = sint (alClockDriftPpm a) * sint aDelta;
         drift = alDriftPicoSec a + step in
     if \<not> in_int64 step \<or> \<not> in_int64 drift then Inl UndefinedBehaviour
     else if drift \<ge> PS_PER_US \<or> drift \<le> - PS_PER_US then
       (let adjust = drift sdiv PS_PER_US in
        Inr (a\<lparr>alNow := now + of_int adjust, alDriftPicoSec := drift - adjust * PS_PER_US\<rparr>))
     else Inr (a\<lparr>alNow := now, alDriftPicoSec := drift\<rparr>))"

definition platformAlarmSetClockDrift :: "16 word \<Rightarrow> 'a Alarm_scheme \<Rightarrow> 'a Alarm_scheme" where
  "platformAlarmSetClockDrift aDrift a = a\<lparr>alClockDriftPpm := aDrift\<rparr>"

definition otPlatAlarmMilliGetNow :: "'a Alarm_scheme \<Rightarrow> u32" where
  "otPlatAlarmMilliGetNow a = ucast (alNow a div US_PER_MS)"

definition otPlatAlarmMilliStartAt :: "u32 \<Rightarrow> u32 \<Rightarrow> 'a Alarm_scheme \<Rightarrow> 'a Alarm_scheme" where
  "otPlatAlarmMilliStartAt aT0 aDt a = a\<lparr>alMsAlarm := aT0 + aDt, alIsMsRunning := True\<rparr>"

definition otPlatAlarmMilliStop :: "'a Alarm_scheme \<Rightarrow> 'a Alarm_scheme" where
  "otPlatAlarmMilliStop a = a\<lparr>alIsMsRunning := False\<rparr>"

definition otPlatAlarmMicroGetNow :: "'a Alarm_scheme \<Rightarrow> u32" where
  "otPlatAlarmMicroGetNow a = ucast (alNow a)"

definition otPlatAlarmMicroStartAt :: "u32 \<Rightarrow> u32 \<Rightarrow> 'a Alarm_scheme \<Rightarrow> 'a Alarm_scheme" where
  "otPlatAlarmMicroStartAt aT0 aDt a = a\<lparr>alUsAlarm := aT0 + aDt, alIsUsRunning := True\<rparr>"

definition otPlatAlarmMicroStop :: "'a Alarm_scheme \<Rightarrow> 'a Alarm_scheme" where
  "otPlatAlarmMicroStop a = a\<lparr>alIsUsRunning := False\<rparr>"

section \<open>The alarms\<close>

definition msRemaining :: "'a Alarm_scheme \<Rightarrow> int" where
  "msRemaining a = sint (alMsAlarm a - otPlatAlarmMilliGetNow a)"

definition usRemaining :: "'a Alarm_scheme \<Rightarrow> int" where
  "usRemaining a = sint (alUsAlarm a - otPlatAlarmMicroGetNow a)"

abbreviation INT64_MAX :: u64 where "INT64_MAX \<equiv> 0x7fffffffffffffff"

definition platformAlarmGetNext :: "'a Alarm_scheme \<Rightarrow> u64" where
  "platformAlarmGetNext a =
    (let remaining = (if alIsMsRunning a then
           if msRemaining a < 0 then 0 else of_int (msRemaining a) * US_PER_MS
         else INT64_MAX) in
     if alIsUsRunning a then
       if usRemaining a < 0 then 0
       else if remaining > of_int (usRemaining a) then of_int (usRemaining a)
       else remaining
     else remaining)"

text \<open>
  The timeout of a select call, in microseconds: the old one or the time to the next alarm, if that is shorter.
\<close>

definition platformAlarmUpdateTimeout :: "int \<Rightarrow> 'a Alarm_scheme \<Rightarrow> int" where
  "platformAlarmUpdateTimeout timeout a =
    (let r0 = 2 ^ 31 - 1;
         r1 = (if alIsMsRunning a then
                 if msRemaining a \<le> 0 then msRemaining a
                 else msRemaining a * 1000 - uint (alNow a mod US_PER_MS)
               else r0);
         r2 = (if alIsMsRunning a \<and> msRemaining a \<le> 0 then r1
               else if alIsUsRunning a \<and> usRemaining a < r1 then usRemaining a else r1) in
     if r2 \<le> 0 then 0 else if r2 < timeout then r2 else timeout)"

text \<open>
  The alarms that are due are stopped and the stack is told. \<open>milliFired\<close> and \<open>microFired\<close> are the handlers of the stack,
  which may start alarms again (in diagnostics mode, the first one is that of the diagnostics module).
\<close>

definition platformAlarmProcess :: "('a Alarm_scheme \<Rightarrow> 'a Alarm_scheme) \<Rightarrow> ('a Alarm_scheme \<Rightarrow> 'a Alarm_scheme) \<Rightarrow> 'a Alarm_scheme \<Rightarrow> 'a Alarm_scheme" where
  "platformAlarmProcess milliFired microFired a =
    (let a1 = (if alIsMsRunning a \<and> msRemaining a \<le> 0 then milliFired (a\<lparr>alIsMsRunning := False\<rparr>) else a) in
     if alIsUsRunning a1 \<and> usRemaining a1 \<le> 0 then microFired (a1\<lparr>alIsUsRunning := False\<rparr>) else a1)"

section \<open>The drifting clock\<close>

lemma sdiv_remainder:
  fixes d :: int
  shows "\<bar>d - d sdiv 1000000 * 1000000\<bar> < 1000000"
proof (cases "d \<ge> 0")
  case True
  then have "d sdiv 1000000 = d div 1000000" by (auto simp: signed_divide_int_def sgn_if)
  then show ?thesis by (simp add: minus_div_mult_eq_mod)
next
  case False
  then have "d sdiv 1000000 = - ((- d) div 1000000)" by (auto simp: signed_divide_int_def sgn_if)
  moreover have "- d - (- d) div 1000000 * 1000000 = (- d) mod 1000000" by (simp add: minus_div_mult_eq_mod)
  moreover have "0 \<le> (- d) mod 1000000" "(- d) mod 1000000 < 1000000" by simp_all
  ultimately show ?thesis by linarith
qed

text \<open>The exact time of a clock in picoseconds.\<close>

definition exactTime :: "'a Alarm_scheme \<Rightarrow> int" where
  "exactTime a = uint (alNow a) * PS_PER_US + alDriftPicoSec a"

lemma uint_add_of_int:
  fixes x :: u64
  assumes "0 \<le> uint x + k" "uint x + k < 2 ^ 64"
  shows "uint (x + of_int k) = uint x + k"
proof -
  have "uint (x + of_int k) = (uint x + k) mod 2 ^ 64"
    by (simp add: uint_word_ariths unsigned_of_int take_bit_eq_mod mod_add_right_eq)
  with assms show ?thesis by simp
qed

lemma AdvanceNow_exact:
  fixes aDelta :: u64
  assumes "\<bar>alDriftPicoSec a\<bar> < PS_PER_US" "uint aDelta < 2 ^ 47" "uint (alNow a) + 2 * uint aDelta + 2 < 2 ^ 64" "0 \<le> exactTime a"
  shows "\<exists>a'. platformAlarmAdvanceNow aDelta a = Inr a' \<and> \<bar>alDriftPicoSec a'\<bar> < PS_PER_US \<and> alClockDriftPpm a' = alClockDriftPpm a \<and>
    exactTime a' = exactTime a + uint aDelta * (PS_PER_US + sint (alClockDriftPpm a))"
proof -
  define p where "p = sint (alClockDriftPpm a)"
  have p: "- 32768 \<le> p" "p < 32768"
    using sint_range_size [of "alClockDriftPpm a"] by (simp_all add: p_def word_size)
  have sd: "sint aDelta = uint aDelta" using assms(2) 
    by (simp add: sint_uint signed_take_bit_int_eq_self_iff order_trans [OF _ uint_ge_0])
  define D where "D = alDriftPicoSec a + p * uint aDelta"
  define adj where "adj = (if \<bar>D\<bar> \<ge> PS_PER_US then D sdiv PS_PER_US else 0)"
  have "\<bar>p * uint aDelta\<bar> \<le> 32768 * uint aDelta" using p by (simp add: abs_mult mult_right_mono)
  then have step: "\<bar>p * uint aDelta\<bar> < 2 ^ 62" using assms(2) by simp
  then have fits: "in_int64 (p * uint aDelta)" "in_int64 D" using assms(1) by (auto simp: in_int64_def D_def)
  have r: "\<bar>D - adj * PS_PER_US\<bar> < PS_PER_US" using sdiv_remainder [of D] by (simp add: adj_def)
  have T: "(uint (alNow a) + uint aDelta + adj) * PS_PER_US + (D - adj * PS_PER_US) =
      exactTime a + uint aDelta * (PS_PER_US + p)"
    by (simp add: exactTime_def D_def algebra_simps)
  moreover have "0 \<le> uint aDelta * (PS_PER_US + p)" using p by simp
  ultimately have "0 \<le> (uint (alNow a) + uint aDelta + adj) * PS_PER_US + (D - adj * PS_PER_US)" using assms(4) by simp
  moreover have "D - adj * PS_PER_US < PS_PER_US" using r by simp
  ultimately have "(uint (alNow a) + uint aDelta + adj) * PS_PER_US > - 1 * PS_PER_US" by simp
  then have "uint (alNow a) + uint aDelta + adj > - 1" by (rule mult_right_less_imp_less) simp
  then have lo: "0 \<le> uint (alNow a) + uint aDelta + adj" by simp
  have "p * uint aDelta \<le> PS_PER_US * uint aDelta" using p by (intro mult_right_mono) simp_all
  then have hi: "uint (alNow a) + uint aDelta + adj < 2 ^ 64" using T r assms(1,3) by (simp add: exactTime_def algebra_simps)
  have n: "uint (alNow a + aDelta) = uint (alNow a) + uint aDelta"
    using assms(3) uint_add_of_int [of "alNow a" "uint aDelta"] uint_ge_0 [of aDelta] uint_ge_0 [of "alNow a"] by simp
  have now: "uint (alNow a + aDelta + of_int adj) = uint (alNow a) + uint aDelta + adj"
    using uint_add_of_int [of "alNow a + aDelta" adj] lo hi n by simp
  have "platformAlarmAdvanceNow aDelta a =
      Inr (a\<lparr>alNow := alNow a + aDelta + of_int adj, alDriftPicoSec := D - adj * PS_PER_US\<rparr>)"
    using fits by (auto simp: platformAlarmAdvanceNow_def Let_def sd adj_def D_def p_def abs_if)
  then show ?thesis using r T now by (simp add: exactTime_def p_def)
qed

text \<open>A run of the clock: before each step, the drift may be set to another value.\<close>

definition clockStep :: "16 word \<times> u64 \<Rightarrow> 'a Alarm_scheme \<Rightarrow> 'a Alarm_scheme res" where
  "clockStep st a = platformAlarmAdvanceNow (snd st) (platformAlarmSetClockDrift (fst st) a)"

definition stepTime :: "16 word \<times> u64 \<Rightarrow> int" where
  "stepTime st = uint (snd st) * (PS_PER_US + sint (fst st))"

lemma clockRun_exact:
  assumes "\<forall>st \<in> set steps. uint (snd st) < 2 ^ 47" "exactTime a + 2 * PS_PER_US * (\<Sum>st\<leftarrow>steps. uint (snd st)) < 2 ^ 62 * PS_PER_US"
    "\<bar>alDriftPicoSec a\<bar> < PS_PER_US" "0 \<le> exactTime a"
  shows "\<exists>a'. foldr_res clockStep steps a = Inr a' \<and> exactTime a' = exactTime a + (\<Sum>st\<leftarrow>steps. stepTime st) \<and>
    \<bar>alDriftPicoSec a'\<bar> < PS_PER_US"
  using assms
proof (induction steps arbitrary: a)
  case Nil
  then show ?case by simp
next
  case (Cons st steps)
  let ?b = "platformAlarmSetClockDrift (fst st) a"
  have b: "alNow ?b = alNow a" "alDriftPicoSec ?b = alDriftPicoSec a" "exactTime ?b = exactTime a" "alClockDriftPpm ?b = fst st"
    by (simp_all add: platformAlarmSetClockDrift_def exactTime_def)
  have nn: "0 \<le> (\<Sum>st\<leftarrow>steps. uint (snd st))" by (intro sum_list_nonneg) auto
  have sum: "exactTime a + 2 * PS_PER_US * uint (snd st) + 2 * PS_PER_US * (\<Sum>st\<leftarrow>steps. uint (snd st)) < 2 ^ 62 * PS_PER_US"
    using Cons.prems(2) by (simp add: algebra_simps)
  then have "exactTime a + 2 * PS_PER_US * uint (snd st) < 2 ^ 62 * PS_PER_US" using nn by simp
  then have "uint (alNow a) + 2 * uint (snd st) + 2 < 2 ^ 64" using Cons.prems(3) by (simp add: exactTime_def abs_less_iff)
  then have small: "uint (snd st) < 2 ^ 47" "uint (alNow ?b) + 2 * uint (snd st) + 2 < 2 ^ 64"
    using Cons.prems(1) by (simp_all add: b)
  obtain a1 where a1: "platformAlarmAdvanceNow (snd st) ?b = Inr a1" "\<bar>alDriftPicoSec a1\<bar> < PS_PER_US"
    "exactTime a1 = exactTime a + stepTime st"
    using AdvanceNow_exact [of ?b "snd st"] small Cons.prems(3,4) by (auto simp: b stepTime_def)
  have p: "- 32768 \<le> sint (fst st)" "sint (fst st) < 32768"
    using sint_range_size [of "fst st"] by (simp_all add: word_size)
  have pos: "0 \<le> stepTime st" using p by (simp add: stepTime_def)
  have "sint (fst st) * uint (snd st) \<le> PS_PER_US * uint (snd st)" using p by (intro mult_right_mono) simp_all
  then have "stepTime st \<le> 2 * PS_PER_US * uint (snd st)" by (simp add: stepTime_def algebra_simps)
  then have "exactTime a1 + 2 * PS_PER_US * (\<Sum>st\<leftarrow>steps. uint (snd st)) < 2 ^ 62 * PS_PER_US" using sum a1(3) by simp
  with Cons.IH [of a1] a1 Cons.prems(1,4) pos show ?case by (auto simp: clockStep_def)
qed


section \<open>Waking up\<close>

text \<open>A clock without drift that is moved forward.\<close>

definition later :: "u64 \<Rightarrow> 'a Alarm_scheme \<Rightarrow> 'a Alarm_scheme" where
  "later t a = a\<lparr>alNow := alNow a + t\<rparr>"

definition msDue :: "'a Alarm_scheme \<Rightarrow> bool" where
  "msDue a \<longleftrightarrow> alIsMsRunning a \<and> msRemaining a \<le> 0"

definition usDue :: "'a Alarm_scheme \<Rightarrow> bool" where
  "usDue a \<longleftrightarrow> alIsUsRunning a \<and> usRemaining a \<le> 0"

lemma AdvanceNow_no_drift:
  assumes "alClockDriftPpm a = 0" "alDriftPicoSec a = 0"
  shows "platformAlarmAdvanceNow t a = Inr (later t a)"
  using assms by (simp add: platformAlarmAdvanceNow_def later_def in_int64_def Let_def)

lemma sint_diff:
  fixes x :: u32
  assumes "0 \<le> k" "k \<le> sint x"
  shows "sint (x - of_int k) = sint x - k"
proof -
  have "sint x < 2 ^ 31" using sint_range_size [of x] by (simp add: word_size)
  moreover have "x - of_int k = of_int (sint x - k)" by simp
  ultimately show ?thesis
    using assms by (simp only: signed_of_int) (simp add: signed_take_bit_int_eq_self_iff)
qed

lemma later_now: "uint (alNow a) + uint s < 2 ^ 64 \<Longrightarrow> uint (alNow (later s a)) = uint (alNow a) + uint s"
  using uint_add_of_int [of "alNow a" "uint s"] by (simp add: later_def)

lemma msRemaining_later:
  assumes "uint (alNow a) + uint s < 2 ^ 64" "(uint (alNow a) + uint s) div 1000 - uint (alNow a) div 1000 \<le> msRemaining a"
  shows "msRemaining (later s a) = msRemaining a - ((uint (alNow a) + uint s) div 1000 - uint (alNow a) div 1000)"
proof -
  define k where "k = (uint (alNow a) + uint s) div 1000 - uint (alNow a) div 1000"
  have k: "0 \<le> k" using zdiv_mono1 [of "uint (alNow a)" "uint (alNow a) + uint s" 1000] by (simp add: k_def)
  have m: "otPlatAlarmMilliGetNow b = of_int (uint (alNow b) div 1000)" for b :: "'a Alarm_scheme"
    by (simp add: otPlatAlarmMilliGetNow_def ucast_eq uint_div)
  have "otPlatAlarmMilliGetNow (later s a) = otPlatAlarmMilliGetNow a + of_int k"
    using later_now [OF assms(1)] by (simp add: m k_def)
  moreover have "alMsAlarm (later s a) = alMsAlarm a" by (simp add: later_def)
  ultimately have "msRemaining (later s a) = sint (alMsAlarm a - otPlatAlarmMilliGetNow a - of_int k)"
    by (simp add: msRemaining_def diff_diff_eq)
  then show ?thesis
    using sint_diff [OF k, of "alMsAlarm a - otPlatAlarmMilliGetNow a"] assms(2) by (simp add: msRemaining_def k_def)
qed

lemma ucast_add_32: "(ucast (x + y) :: u32) = ucast x + ucast y" for x y :: u64
proof -
  have "(ucast (x + y) :: u32) = of_int ((uint x + uint y) mod 2 ^ 64)"
    by (simp only: ucast_eq uint_word_ariths len_num1 len_bit0 len_num0) simp
  also have "\<dots> = of_int (uint x + uint y)"
    by (simp only: word_of_int_eq_iff take_bit_eq_mod len_num1 len_bit0 len_num0)
      (rule mod_mod_cancel, simp add: le_imp_power_dvd)
  finally show ?thesis by (simp only: ucast_eq of_int_add)
qed

lemma usRemaining_later:
  assumes "uint s \<le> usRemaining a"
  shows "usRemaining (later s a) = usRemaining a - uint s"
proof -
  have now: "otPlatAlarmMicroGetNow (later s a) = otPlatAlarmMicroGetNow a + of_int (uint s)"
    by (simp add: otPlatAlarmMicroGetNow_def later_def ucast_add_32)
  have "sint (alUsAlarm a - otPlatAlarmMicroGetNow a - of_int (uint s)) = sint (alUsAlarm a - otPlatAlarmMicroGetNow a) - uint s"
    by (rule sint_diff) (use assms in \<open>simp_all add: usRemaining_def\<close>)
  moreover have "alUsAlarm (later s a) = alUsAlarm a" by (simp add: later_def)
  ultimately show ?thesis unfolding usRemaining_def now by (simp add: diff_diff_eq)
qed

lemma remaining_bound: "msRemaining a < 2 ^ 31" "usRemaining a < 2 ^ 31"
  using sint_range_size [of "alMsAlarm a - otPlatAlarmMilliGetNow a"] sint_range_size [of "alUsAlarm a - otPlatAlarmMicroGetNow a"]
  by (simp_all add: msRemaining_def usRemaining_def word_size)

lemma uint_of_remaining: "0 \<le> k \<Longrightarrow> k < 2 ^ 31 \<Longrightarrow> uint (of_int k :: u64) = k" "0 \<le> k \<Longrightarrow> k < 2 ^ 31 \<Longrightarrow> uint (of_int k * US_PER_MS) = k * 1000"
proof -
  assume k: "0 \<le> k" "k < 2 ^ 31"
  show "uint (of_int k :: u64) = k" using k by (simp add: unsigned_of_int take_bit_int_eq_self_iff)
  have "(of_int k * US_PER_MS) = (of_int (k * 1000) :: u64)" by simp
  then show "uint (of_int k * US_PER_MS) = k * 1000" using k by (simp only: unsigned_of_int) (simp add: take_bit_int_eq_self_iff)
qed

text \<open>The time to the next alarm as a number, for alarms that are not overdue.\<close>

lemma GetNext_value:
  assumes "\<not> (alIsMsRunning a \<and> msRemaining a < 0)" "\<not> (alIsUsRunning a \<and> usRemaining a < 0)"
  shows "uint (platformAlarmGetNext a) =
    min (if alIsMsRunning a then msRemaining a * 1000 else 2 ^ 63 - 1) (if alIsUsRunning a then usRemaining a else 2 ^ 63 - 1)"
proof -
  have m: "uint (of_int (msRemaining a) * US_PER_MS) = msRemaining a * 1000" if "alIsMsRunning a"
    using that assms(1) remaining_bound by (intro uint_of_remaining) auto
  have u: "uint (of_int (usRemaining a) :: u64) = usRemaining a" if "alIsUsRunning a"
    using that assms(2) remaining_bound by (intro uint_of_remaining) auto
  show ?thesis
    using m u assms remaining_bound [of a] by (auto simp: platformAlarmGetNext_def Let_def word_less_def min_def)
qed

lemma GetNext_not_overdue:
  assumes "platformAlarmGetNext a > 0"
  shows "\<not> (alIsMsRunning a \<and> msRemaining a < 0)" "\<not> (alIsUsRunning a \<and> usRemaining a < 0)"
  using assms by (auto simp: platformAlarmGetNext_def Let_def split: if_splits)

lemma later_not_due:
  assumes "platformAlarmGetNext a > 0" "s < platformAlarmGetNext a"
  shows "\<not> usDue (later s a)"
proof
  assume due: "usDue (later s a)"
  then have run: "alIsUsRunning a" by (simp add: usDue_def later_def)
  from GetNext_value [OF GetNext_not_overdue [OF assms(1)]] have "uint s < usRemaining a" using assms(2) run by (simp add: word_less_def)
  with usRemaining_later [of s a] due show False by (simp add: usDue_def)
qed

section \<open>Properties\<close>

text \<open>
  C12. The clock of a node with a drift is exact: after any number of steps, with any drift in each of them, the microseconds of the
  clock and the picoseconds it keeps aside add up to the sum of the steps, each scaled by its drift, and less than a
  microsecond is kept aside, so no rounding error accumulates. The bounds on the steps, each below \<open>2 ^ 47\<close> and all together below
  \<open>2 ^ 61\<close> microseconds, keep the signed arithmetic from overflowing.
\<close>

theorem clock_drift_exact:
  assumes "\<forall>st \<in> set steps. uint (snd st) < 2 ^ 47" "(\<Sum>st\<leftarrow>steps. uint (snd st)) < 2 ^ 61"
  shows "\<exists>a'. foldr_res clockStep steps (platformAlarmInit a) = Inr a' \<and>
    uint (alNow a') * PS_PER_US + alDriftPicoSec a' = (\<Sum>st\<leftarrow>steps. uint (snd st) * (PS_PER_US + sint (fst st))) \<and>
    \<bar>alDriftPicoSec a'\<bar> < PS_PER_US"
  using clockRun_exact [OF assms(1), of "platformAlarmInit a"] assms(2)
  by (simp add: exactTime_def platformAlarmInit_def stepTime_def [abs_def])

theorem clock_drift_exact_witness:
  "\<exists>a'. foldr_res clockStep [(-20, 30000), (50, 35000)] newAlarm = Inr a' \<and>
    uint (alNow a') * PS_PER_US + alDriftPicoSec a' = 65001150000 \<and> \<bar>alDriftPicoSec a'\<bar> < PS_PER_US"
  using clock_drift_exact [of "[(-20, 30000), (50, 35000)]" newAlarm] by (simp add: newAlarm_def platformAlarmInit_def)



end
