(* ===== verification/Rfsim_Event.thy ===== *)
theory Rfsim_Event
  imports Rfsim_Alarm Dispatcher_Progress
begin

text \<open>
  The events that a simulated node sends (\<^verbatim>\<open>src/ot-rfsim/src/event-sim.c\<close>) and what the dispatcher makes of them. The node is C code
  and the dispatcher Go code; they have to agree on the layout of packed structs with little-endian fields. The structs
  with the data of an event have the fields of the Go structs of the same names, which are used for both.
\<close>

section \<open>Sending\<close>

text \<open>
  \<open>msgId\<close> is the number of the event that was received last. Nothing is sent while the socket is not open. The copy of the last event that was
  sent, which is only printed when the process crashes, and the exit of the process when the write fails are not modelled.
\<close>

definition otSimSendEvent :: "bool \<Rightarrow> u64 \<Rightarrow> u64 \<Rightarrow> u8 \<Rightarrow> bytes \<Rightarrow> bytes" where
  "otSimSendEvent sockOpen msgId mDelay mEvent mData =
    (if sockOpen then put_le 8 mDelay @ [mEvent] @ put_le 8 msgId @ put_le 2 (of_nat (length mData) :: u16) @ mData else [])"

definition otSimSendSleepEvent :: "bool \<Rightarrow> u64 \<Rightarrow> 'a Alarm_scheme \<Rightarrow> bytes res" where
  "otSimSendSleepEvent sockOpen msgId a =
     assertr (platformAlarmGetNext a > 0) (Inr (otSimSendEvent sockOpen msgId (platformAlarmGetNext a) EventTypeAlarmFired []))"

abbreviation OT_EVENT_DATA_MAX_SIZE :: nat where
  "OT_EVENT_DATA_MAX_SIZE \<equiv> 2048"

record MsgToHost =
  cmSrcPort :: u16
  cmDstPort :: u16
  cmSrcIp6 :: bytes
  cmDstIp6 :: bytes

definition putRadioComm :: "RadioCommEventData \<Rightarrow> bytes" where
  "putRadioComm c = [rcChannel c, rcPowerDbm c, rcError c] @ put_le 8 (rcDuration c)"

definition putMsgToHost :: "MsgToHost \<Rightarrow> bytes" where
  "putMsgToHost h = put_le 2 (cmSrcPort h) @ put_le 2 (cmDstPort h) @ cmSrcIp6 h @ cmDstIp6 h"

text \<open>
  \<open>otSimSendRadioCommEvent\<close> and \<open>otSimSendRadioCommInterferenceEvent\<close> do not set the delay of the event; the value that
  happens to be there is the argument \<open>mDelay\<close>. The assertion of the former does not count the data before the payload, so
  a payload within the asserted limit may be written beyond the end of the buffer.
\<close>

definition otSimSendRadioCommEvent :: "bool \<Rightarrow> u64 \<Rightarrow> u64 \<Rightarrow> RadioCommEventData \<Rightarrow> bytes \<Rightarrow> bytes res" where
  "otSimSendRadioCommEvent sockOpen msgId mDelay aEventData aPayload =
     assertr (length aPayload \<le> OT_EVENT_DATA_MAX_SIZE)
       (if length (putRadioComm aEventData) + length aPayload > OT_EVENT_DATA_MAX_SIZE then Inl UndefinedBehaviour
        else Inr (otSimSendEvent sockOpen msgId mDelay EventTypeRadioCommStart (putRadioComm aEventData @ aPayload)))"

definition otSimSendRadioCommInterferenceEvent :: "bool \<Rightarrow> u64 \<Rightarrow> u64 \<Rightarrow> RadioCommEventData \<Rightarrow> bytes" where
  "otSimSendRadioCommInterferenceEvent sockOpen msgId mDelay aEventData =
     otSimSendEvent sockOpen msgId mDelay EventTypeRadioCommStart (putRadioComm aEventData @ [rcChannel aEventData])"

definition otSimSendRadioChanSampleEvent :: "bool \<Rightarrow> u64 \<Rightarrow> RadioCommEventData \<Rightarrow> bytes" where
  "otSimSendRadioChanSampleEvent sockOpen msgId aChanData =
     otSimSendEvent sockOpen msgId 0 EventTypeRadioChannelSample (putRadioComm aChanData)"

definition otSimSendRadioStateEvent :: "bool \<Rightarrow> u64 \<Rightarrow> RadioStateEventData \<Rightarrow> u64 \<Rightarrow> bytes" where
  "otSimSendRadioStateEvent sockOpen msgId aStateData aDeltaUntilNextRadioState =
     otSimSendEvent sockOpen msgId aDeltaUntilNextRadioState EventTypeRadioState (putRadioState aStateData)"

definition otSimSendUartWriteEvent :: "bool \<Rightarrow> u64 \<Rightarrow> bytes \<Rightarrow> bytes res" where
  "otSimSendUartWriteEvent sockOpen msgId aData =
     assertr (length aData \<le> OT_EVENT_DATA_MAX_SIZE) (Inr (otSimSendEvent sockOpen msgId 0 EventTypeUartWrite aData))"

definition otSimSendLogWriteEvent :: "bool \<Rightarrow> u64 \<Rightarrow> bytes \<Rightarrow> bytes res" where
  "otSimSendLogWriteEvent sockOpen msgId aData =
     assertr (length aData \<le> OT_EVENT_DATA_MAX_SIZE) (Inr (otSimSendEvent sockOpen msgId 0 EventTypeLogWrite aData))"

definition otSimSendOtnsStatusPushEvent :: "bool \<Rightarrow> u64 \<Rightarrow> bytes \<Rightarrow> bytes res" where
  "otSimSendOtnsStatusPushEvent sockOpen msgId aStatus =
     assertr (length aStatus \<le> OT_EVENT_DATA_MAX_SIZE) (Inr (otSimSendEvent sockOpen msgId 0 EventTypeStatusPush aStatus))"

definition otSimSendExtAddrEvent :: "bool \<Rightarrow> u64 \<Rightarrow> bytes option \<Rightarrow> bytes res" where
  "otSimSendExtAddrEvent sockOpen msgId aExtAddress =
     (case aExtAddress of None \<Rightarrow> Inl AssertFailed | Some a \<Rightarrow> Inr (otSimSendEvent sockOpen msgId 0 EventTypeExtAddr a))"

definition otSimSendNodeInfoEvent :: "bool \<Rightarrow> u64 \<Rightarrow> u32 \<Rightarrow> bytes res" where
  "otSimSendNodeInfoEvent sockOpen msgId nodeId =
     assertr (nodeId > 0) (Inr (otSimSendEvent sockOpen msgId 0 EventTypeNodeInfo (put_le 4 nodeId)))"

definition otSimSendRfSimParamRespEvent :: "bool \<Rightarrow> u64 \<Rightarrow> u8 \<Rightarrow> u32 \<Rightarrow> bytes" where
  "otSimSendRfSimParamRespEvent sockOpen msgId param val =
     otSimSendEvent sockOpen msgId 0 EventTypeRadioRfSimParamRsp ([param] @ put_le 4 val)"

definition otSimSendMsgToHostEvent :: "bool \<Rightarrow> u64 \<Rightarrow> u8 \<Rightarrow> MsgToHost \<Rightarrow> bytes \<Rightarrow> bytes res" where
  "otSimSendMsgToHostEvent sockOpen msgId typ aEventData aMsgBytes =
     assertr (length aMsgBytes \<le> OT_EVENT_DATA_MAX_SIZE - 36)
       (Inr (otSimSendEvent sockOpen msgId 0 typ (putMsgToHost aEventData @ aMsgBytes)))"

section \<open>Calls\<close>

text \<open>A call of one of the functions, with its arguments.\<close>

datatype SimCall =
    SleepEvent Alarm
  | RadioCommEvent u64 RadioCommEventData bytes
  | RadioCommInterferenceEvent u64 RadioCommEventData
  | RadioChanSampleEvent RadioCommEventData
  | RadioStateEvent RadioStateEventData u64
  | UartWriteEvent bytes
  | LogWriteEvent bytes
  | OtnsStatusPushEvent bytes
  | ExtAddrEvent "bytes option"
  | NodeInfoEvent u32
  | RfSimParamRespEvent u8 u32
  | MsgToHostEvent u8 MsgToHost bytes

fun simCall :: "bool \<Rightarrow> u64 \<Rightarrow> SimCall \<Rightarrow> bytes res" where
  "simCall so m (SleepEvent a) = otSimSendSleepEvent so m a"
| "simCall so m (RadioCommEvent dl c p) = otSimSendRadioCommEvent so m dl c p"
| "simCall so m (RadioCommInterferenceEvent dl c) = Inr (otSimSendRadioCommInterferenceEvent so m dl c)"
| "simCall so m (RadioChanSampleEvent c) = Inr (otSimSendRadioChanSampleEvent so m c)"
| "simCall so m (RadioStateEvent s dl) = Inr (otSimSendRadioStateEvent so m s dl)"
| "simCall so m (UartWriteEvent p) = otSimSendUartWriteEvent so m p"
| "simCall so m (LogWriteEvent p) = otSimSendLogWriteEvent so m p"
| "simCall so m (OtnsStatusPushEvent p) = otSimSendOtnsStatusPushEvent so m p"
| "simCall so m (ExtAddrEvent a) = otSimSendExtAddrEvent so m a"
| "simCall so m (NodeInfoEvent n) = otSimSendNodeInfoEvent so m n"
| "simCall so m (RfSimParamRespEvent par val) = Inr (otSimSendRfSimParamRespEvent so m par val)"
| "simCall so m (MsgToHostEvent t h p) = otSimSendMsgToHostEvent so m t h p"

text \<open>
  What a caller has to respect: the sizes of the buffers and arrays, a sleep of more than 0, and that the payload of a radio
  event begins with the channel.
\<close>

fun call_ok :: "SimCall \<Rightarrow> bool" where
  "call_ok (SleepEvent a) \<longleftrightarrow> platformAlarmGetNext a > 0"
| "call_ok (RadioCommEvent dl c p) \<longleftrightarrow> length p \<le> 2037 \<and> p \<noteq> [] \<and> hd p = rcChannel c"
| "call_ok (UartWriteEvent p) \<longleftrightarrow> length p \<le> 2048"
| "call_ok (LogWriteEvent p) \<longleftrightarrow> length p \<le> 2048"
| "call_ok (OtnsStatusPushEvent p) \<longleftrightarrow> length p \<le> 2048"
| "call_ok (ExtAddrEvent a) \<longleftrightarrow> (case a of None \<Rightarrow> False | Some bs \<Rightarrow> length bs = 8)"
| "call_ok (NodeInfoEvent n) \<longleftrightarrow> n > 0"
| "call_ok (MsgToHostEvent t h p) \<longleftrightarrow> (t = EventTypeUdpToHost \<or> t = EventTypeIp6ToHost) \<and> length p \<le> 2012 \<and>
     length (cmSrcIp6 h) = 16 \<and> length (cmDstIp6 h) = 16"
| "call_ok _ \<longleftrightarrow> True"

text \<open>The event that the dispatcher should see.\<close>

fun content :: "SimCall \<Rightarrow> Event" where
  "content (SleepEvent a) = zeroEvent\<lparr>evDelay := platformAlarmGetNext a, evType := EventTypeAlarmFired\<rparr>"
| "content (RadioCommEvent dl c p) = zeroEvent\<lparr>evDelay := dl, evType := EventTypeRadioCommStart, evRadioCommData := c, evData := p\<rparr>"
| "content (RadioCommInterferenceEvent dl c) =
     zeroEvent\<lparr>evDelay := dl, evType := EventTypeRadioCommStart, evRadioCommData := c, evData := [rcChannel c]\<rparr>"
| "content (RadioChanSampleEvent c) = zeroEvent\<lparr>evType := EventTypeRadioChannelSample, evRadioCommData := c\<rparr>"
| "content (RadioStateEvent s dl) = zeroEvent\<lparr>evDelay := dl, evType := EventTypeRadioState, evRadioStateData := s\<rparr>"
| "content (UartWriteEvent p) = zeroEvent\<lparr>evType := EventTypeUartWrite, evData := p\<rparr>"
| "content (LogWriteEvent p) = zeroEvent\<lparr>evType := EventTypeLogWrite, evData := p\<rparr>"
| "content (OtnsStatusPushEvent p) = zeroEvent\<lparr>evType := EventTypeStatusPush, evData := p\<rparr>"
| "content (ExtAddrEvent a) = zeroEvent\<lparr>evType := EventTypeExtAddr, evData := (case a of None \<Rightarrow> [] | Some bs \<Rightarrow> bs)\<rparr>"
| "content (NodeInfoEvent n) = zeroEvent\<lparr>evType := EventTypeNodeInfo, evNodeInfoData := \<lparr>niNodeId = uint n\<rparr>\<rparr>"
| "content (RfSimParamRespEvent par val) =
     zeroEvent\<lparr>evType := EventTypeRadioRfSimParamRsp, evRfSimParamData := \<lparr>rpParam = par, rpValue = val\<rparr>\<rparr>"
| "content (MsgToHostEvent t h p) = zeroEvent\<lparr>evType := t, evData := p, evMsgToHostData :=
     \<lparr>mhSrcPort = cmSrcPort h, mhDstPort = cmDstPort h, mhSrcIp6Address = Addr16 (cmSrcIp6 h), mhDstIp6Address = Addr16 (cmDstIp6 h)\<rparr>\<rparr>"

definition seenAs :: "nat \<Rightarrow> NodeId \<Rightarrow> u64 \<Rightarrow> SimCall \<Rightarrow> Event" where
  "seenAs conn i msgId c = (content c)\<lparr>evMsgId := msgId, evTimestamp := InvalidTimestamp, evNodeId := i, evConn := Some conn\<rparr>"

section \<open>Receiving\<close>

lemma SendEvent_wire:
  "otSimSendEvent True msgId dl t p = wireHeader dl t msgId (length p) @ p"
  by (simp add: otSimSendEvent_def wireHeader_def)

lemma length_puts [simp]:
  "length (putRadioComm c) = 11" "length (putRadioState s) = 14"
  "length (putMsgToHost h) = 4 + length (cmSrcIp6 h) + length (cmDstIp6 h)"
  by (simp_all add: putRadioComm_def putRadioState_def putMsgToHost_def)

lemma deserialize_node_puts:
  "deserializeRadioCommData (putRadioComm c @ bs) = Inr c"
  "length (cmSrcIp6 h) = 16 \<Longrightarrow> length (cmDstIp6 h) = 16 \<Longrightarrow> deserializeMsgToHostData (putMsgToHost h @ bs) =
    Inr \<lparr>mhSrcPort = cmSrcPort h, mhDstPort = cmDstPort h, mhSrcIp6Address = Addr16 (cmSrcIp6 h), mhDstIp6Address = Addr16 (cmDstIp6 h)\<rparr>"
  "deserializeNodeInfoData (put_le 4 n @ bs) = Inr \<lparr>niNodeId = uint (n :: u32)\<rparr>"
  "deserializeRfSimParamData (par # put_le 4 (val :: u32) @ bs) = Inr \<lparr>rpParam = par, rpValue = val\<rparr>"
  by (simp_all add: deserialize_defs putRadioComm_def putMsgToHost_def drop_Cons')

lemmas node_puts = deserialize_node_puts deserialize_node_puts [where bs = "[]", simplified]
  deserialize_puts(1) deserialize_puts(1) [where bs = "[]", simplified]

text \<open>The bytes in front of the data of the event.\<close>

fun front :: "SimCall \<Rightarrow> bytes" where
  "front (RadioCommEvent dl c p) = putRadioComm c"
| "front (RadioCommInterferenceEvent dl c) = putRadioComm c"
| "front (RadioChanSampleEvent c) = putRadioComm c"
| "front (RadioStateEvent s dl) = putRadioState s"
| "front (NodeInfoEvent n) = put_le 4 n"
| "front (RfSimParamRespEvent par val) = par # put_le 4 val"
| "front (MsgToHostEvent t h p) = putMsgToHost h"
| "front _ = []"

abbreviation payload :: "SimCall \<Rightarrow> bytes" where
  "payload c \<equiv> front c @ evData (content c)"

lemmas otSimSend_defs = otSimSendSleepEvent_def otSimSendRadioCommEvent_def otSimSendRadioCommInterferenceEvent_def
  otSimSendRadioChanSampleEvent_def otSimSendRadioStateEvent_def otSimSendUartWriteEvent_def otSimSendLogWriteEvent_def
  otSimSendOtnsStatusPushEvent_def otSimSendExtAddrEvent_def otSimSendNodeInfoEvent_def otSimSendRfSimParamRespEvent_def
  otSimSendMsgToHostEvent_def

lemma simCall_sends:
  "call_ok c \<Longrightarrow> simCall True msgId c =
    Inr (wireHeader (evDelay (content c)) (evType (content c)) msgId (length (payload c)) @ payload c)"
  by (cases c) (auto simp: otSimSend_defs SendEvent_wire zeroEvent_def split: option.splits)

lemma length_payload: "call_ok c \<Longrightarrow> length (payload c) \<le> 2048"
  by (cases c) (auto simp: zeroEvent_def split: option.splits)

lemma front_first: "(putRadioComm c @ bs) ! 0 = rcChannel c" "bs \<noteq> [] \<Longrightarrow> (putRadioComm c @ bs) ! 11 = hd bs"
  by (simp_all add: putRadioComm_def nth_append hd_conv_nth)

lemma payload_switch:
  "call_ok c \<Longrightarrow> Event_deserializeSwitch (zeroEvent\<lparr>evDelay := evDelay (content c), evType := evType (content c), evMsgId := msgId, evData := payload c\<rparr>) =
    Inr ((content c)\<lparr>evMsgId := msgId, evData := payload c\<rparr>, length (front c))"
  by (cases c) (auto simp: Event_deserializeSwitch_def node_puts indexr_def front_first zeroEvent_def split: option.splits)

lemma simCall_received:
  assumes "call_ok c"
  shows "\<exists>bs. simCall True msgId c = Inr bs \<and> Event_Deserialize zeroEvent bs = Inr ((content c)\<lparr>evMsgId := msgId, evTimestamp := InvalidTimestamp\<rparr>, length bs) \<and>
    19 \<le> length bs \<and> length bs \<le> 2067 \<and> (\<forall>rest. length (bs @ rest) < 65555 \<longrightarrow> Event_Deserialize zeroEvent (bs @ rest) = Event_Deserialize zeroEvent bs)"
proof -
  let ?bs = "wireHeader (evDelay (content c)) (evType (content c)) msgId (length (payload c)) @ payload c"
  have len: "length (payload c) \<le> 2048" by (rule length_payload [OF assms])
  have d: "Event_Deserialize zeroEvent (?bs @ rest) = Inr ((content c)\<lparr>evMsgId := msgId, evTimestamp := InvalidTimestamp\<rparr>, length ?bs)"
    if "length (?bs @ rest) < 65555" for rest
  proof -
    have "\<not> length (payload c @ rest) mod 65536 < length (payload c)" using that by simp
    then show ?thesis
      using Deserialize_wire [of "length (payload c)" zeroEvent "evDelay (content c)" "evType (content c)" msgId "payload c @ rest"]
        len payload_switch [OF assms, of msgId] by (simp add: slicer_def)
  qed
  show ?thesis using simCall_sends [OF assms, of msgId] d [of "[]"] d len by (intro exI [of _ ?bs]) simp
qed

text \<open>The bytes of a sequence of calls, each with the number of the event that was received last.\<close>

fun sendAll :: "(u64 \<times> SimCall) list \<Rightarrow> bytes res" where
  "sendAll [] = Inr []"
| "sendAll ((m, c) # cs) = bindr (simCall True m c) (\<lambda>bs. bindr (sendAll cs) (\<lambda>rest. Inr (bs @ rest)))"

lemma connBuf_simCall:
  assumes "call_ok c" "simCall True m c = Inr bs" "length (bs @ rest) < 65555" "nid = 0 \<longrightarrow> (\<exists>n. c = NodeInfoEvent n)" "0 \<le> nid"
  defines "nid' \<equiv> (if nid = 0 then niNodeId (evNodeInfoData (content c)) else nid)"
  shows "connBuf conn nid (bs @ rest) = bindr (connBuf conn nid' rest) (\<lambda>(i, evs, go_on). Inr (i, seenAs conn nid' m c # evs, go_on))"
proof -
  have b: "Event_Deserialize zeroEvent (bs @ rest) = Inr ((content c)\<lparr>evMsgId := m, evTimestamp := InvalidTimestamp\<rparr>, length bs)" "bs \<noteq> []"
    using simCall_received [OF assms(1), of m] assms(2,3) by auto
  have n: "nid' > 0" "nid = 0 \<Longrightarrow> evType (content c) = EventTypeNodeInfo"
    using assms(1,4,5) by (auto simp: nid'_def zeroEvent_def word_less_def)
  show ?thesis
    using b n by (subst connBuf.simps) (auto simp: Let_def seenAs_def nid'_def)
qed

lemma connBuf_sendAll:
  assumes "\<forall>(m, c) \<in> set cs. call_ok c" "0 < nid"
  shows "\<exists>bs. sendAll cs = Inr bs \<and> (length bs < 65555 \<longrightarrow>
    connBuf conn nid bs = Inr (nid, map (\<lambda>(m, c). seenAs conn nid m c) cs, True))"
  using assms(1)
proof (induction cs)
  case Nil
  then show ?case by (simp add: connBuf.simps)
next
  case (Cons mc cs)
  obtain m c where mc: "mc = (m, c)" by fastforce
  obtain bs where bs: "simCall True m c = Inr bs" using simCall_received [of c m] Cons.prems mc by auto
  then show ?case
    using Cons connBuf_simCall [of c m bs _ nid conn] mc assms(2) by auto
qed

lemma SleepEvent_bytes:
  assumes "platformAlarmGetNext a > 0"
  shows "otSimSendSleepEvent True msgId a =
    Inr (Event_Serialize (zeroEvent\<lparr>evDelay := platformAlarmGetNext a, evType := EventTypeAlarmFired, evMsgId := msgId\<rparr>))"
  using assms by (simp add: otSimSendSleepEvent_def otSimSendEvent_def Event_Serialize_def Event_extraFields_def zeroEvent_def)

lemma SleepEvent_decoded:
  "decode conn i (Event_Serialize (zeroEvent\<lparr>evDelay := dl, evType := EventTypeAlarmFired, evMsgId := msgId\<rparr>)) =
    zeroEvent\<lparr>evDelay := dl, evType := EventTypeAlarmFired, evMsgId := msgId, evTimestamp := InvalidTimestamp, evNodeId := i, evConn := Some conn\<rparr>"
  using Deserialize_Serialize_append [of "zeroEvent\<lparr>evDelay := dl, evType := EventTypeAlarmFired, evMsgId := msgId\<rparr>" "[]" zeroEvent]
  by (simp add: decode_def sendable_def symmetric_type_def is_frame_def received_as_def is_comm_def Event_Serialize_def Event_extraFields_def zeroEvent_def)

lemma HandleEvent_sleep:
  assumes "dNodes d i = Some node" "dnConn node = None \<or> dnConn node = Some conn" "am_inv (dAlarmMgr d)" "alarms d i \<noteq> None"
  shows "\<exists>d'. HandleEvent env onNew (zeroEvent\<lparr>evDelay := dl, evType := EventTypeAlarmFired, evMsgId := msgId,
      evTimestamp := InvalidTimestamp, evNodeId := i, evConn := Some conn\<rparr>) d = Inr d' \<and>
    alarms d' = (alarms d)(i \<mapsto> dCurTime d + (if dl \<ge> 0x7fffffff then Ever else dl))"
proof -
  let ?ts = "dCurTime d + (if dl \<ge> 0x7fffffff then Ever else dl)"
  obtain am where "alarmMgr_SetTimestamp (dAlarmMgr d) i ?ts = Inr am" "am_abs am = (alarms d)(i \<mapsto> ?ts)"
    using SetTimestamp_refines [OF assms(3,4), of ?ts] by blast
  then show ?thesis
    using assms(1,2) by (auto simp: HandleEvent_def handleNodeEvent_def zeroEvent_def Let_def setSleeping_def set_node_def)
qed

text \<open>
  C10. The simulator understands its nodes. A node that first announces its id and then calls any of the functions for sending events, in
  any order and within their preconditions, passes all their assertions; if the bytes arrive in one read, the connection goroutine of the
  dispatcher learns the id and gets exactly these events, in this order, with all their fields and data unchanged.
\<close>

theorem node_events_received:
  assumes "n > 0" "\<forall>(m, c) \<in> set cs. call_ok c"
  shows "\<exists>bs. sendAll ((m0, NodeInfoEvent n) # cs) = Inr bs \<and> (length bs < 65555 \<longrightarrow>
    connBuf conn InvalidNodeId bs = Inr (uint n, map (\<lambda>(m, c). seenAs conn (uint n) m c) ((m0, NodeInfoEvent n) # cs), True))"
proof -
  have n: "uint n > 0" using assms(1) by (simp add: word_less_def)
  obtain rest where rest: "sendAll cs = Inr rest"
      "length rest < 65555 \<longrightarrow> connBuf conn (uint n) rest = Inr (uint n, map (\<lambda>(m, c). seenAs conn (uint n) m c) cs, True)"
    using connBuf_sendAll [OF assms(2) n] by blast
  obtain bs where "simCall True m0 (NodeInfoEvent n) = Inr bs" using simCall_received [of "NodeInfoEvent n" m0] assms(1) by auto
  then show ?thesis using connBuf_simCall [of "NodeInfoEvent n" m0 bs rest 0 conn] rest assms(1) by auto
qed

theorem node_events_received_witness:
  "\<exists>bs. sendAll [(0, NodeInfoEvent 5), (0, UartWriteEvent [62, 32]), (0, RadioChanSampleEvent \<lparr>rcChannel = 11, rcPowerDbm = 0, rcError = 0, rcDuration = 128\<rparr>)] = Inr bs \<and>
    connBuf 3 InvalidNodeId bs = Inr (5, map (seenAs 3 5 0)
      [NodeInfoEvent 5, UartWriteEvent [62, 32], RadioChanSampleEvent \<lparr>rcChannel = 11, rcPowerDbm = 0, rcError = 0, rcDuration = 128\<rparr>], True)"
  using node_events_received [of 5 "[(0, UartWriteEvent [62, 32]), (0, RadioChanSampleEvent \<lparr>rcChannel = 11, rcPowerDbm = 0, rcError = 0, rcDuration = 128\<rparr>)]" 0 3]
  by (auto simp: otSimSend_defs otSimSendEvent_def)

text \<open>
  C11. The sleep event of a node arrives: the bytes that the node writes are decoded to an alarm event with the delay to its next alarm,
  and the dispatcher sets the alarm of that node, and no other, to the current time plus this delay if it is less than 2^31 - 1
  microseconds. A longer delay counts as infinite, although a node without an alarm sends 2^63 - 1 and an alarm of the millisecond timer
  may be up to 2^31 milliseconds ahead: the dispatcher does not wake up the node for an alarm that is more than 36 minutes ahead.
\<close>

theorem sleep_event_schedules:
  assumes "platformAlarmGetNext a > 0"
    and "dNodes d i = Some node" "dnConn node = None \<or> dnConn node = Some conn" "am_inv (dAlarmMgr d)" "alarms d i \<noteq> None"
  shows "\<exists>bs d'. otSimSendSleepEvent True msgId a = Inr bs \<and> HandleEvent env onNew (decode conn i bs) d = Inr d' \<and>
    alarms d' = (alarms d)(i \<mapsto> dCurTime d + (if platformAlarmGetNext a \<ge> 0x7fffffff then Ever else platformAlarmGetNext a))"
  using SleepEvent_bytes [OF assms(1)] HandleEvent_sleep [OF assms(2-5)] by (metis SleepEvent_decoded)

theorem sleep_event_schedules_witness:
  "\<exists>d (near :: Alarm) (far :: Alarm) bs d' bs' d''. otSimSendSleepEvent True 7 near = Inr bs \<and> HandleEvent exampleEnv (\<lambda>i d. Inr (False, d)) (decode 4 1 bs) d = Inr d' \<and>
    alarms d' 1 = Some 2000 \<and> otSimSendSleepEvent True 7 far = Inr bs' \<and> alIsMsRunning far \<and> alMsAlarm far = 3000000 \<and>
    HandleEvent exampleEnv (\<lambda>i d. Inr (False, d)) (decode 4 1 bs') d = Inr d'' \<and> alarms d'' 1 = Some Ever"
proof -
  let ?near = "newAlarm\<lparr>alNow := 1500, alMsAlarm := 3, alIsMsRunning := True\<rparr>"
  let ?far = "newAlarm\<lparr>alMsAlarm := 3000000, alIsMsRunning := True\<rparr>"
  obtain d node where d: "idle d" "dNodes d = [1 \<mapsto> node]" "dnConn node = None" "dCurTime d = 0"
    using exampleIdle by blast
  have am: "am_inv (dAlarmMgr d)" "alarms d 1 \<noteq> None" using d(1,2) by (auto simp: idle_def dom_def)
  have n: "platformAlarmGetNext ?near = 2000" "platformAlarmGetNext ?far = 3000000000" by code_simp+
  note t = sleep_event_schedules [OF _ _ _ am, of _ node 4 7 exampleEnv "\<lambda>i d. Inr (False, d)"]
  show ?thesis
    using t [of ?near, unfolded n] t [of ?far, unfolded n] d
    by (intro exI [of _ d] exI [of _ ?near] exI [of _ ?far]) auto
qed

end
