(* ===== verification/Rfsim_Crc.thy ===== *)
theory Rfsim_Crc
  imports Prelude
begin

text \<open>
  The frame check sequence of a simulated radio (\<^verbatim>\<open>crc16_citt\<close> and \<^verbatim>\<open>radioComputeCrc\<close> of
  \<^verbatim>\<open>src/ot-rfsim/src/radio.c\<close>): a table-driven CRC-16, which is compared with the division by the polynomial bit by bit.
\<close>

unbundle bit_operations_syntax

definition sFcsTable :: "u16 list" where
  "sFcsTable = [
     0x0000, 0x1189, 0x2312, 0x329b, 0x4624, 0x57ad, 0x6536, 0x74bf, 0x8c48, 0x9dc1, 0xaf5a, 0xbed3, 0xca6c, 0xdbe5, 0xe97e, 0xf8f7,
     0x1081, 0x0108, 0x3393, 0x221a, 0x56a5, 0x472c, 0x75b7, 0x643e, 0x9cc9, 0x8d40, 0xbfdb, 0xae52, 0xdaed, 0xcb64, 0xf9ff, 0xe876,
     0x2102, 0x308b, 0x0210, 0x1399, 0x6726, 0x76af, 0x4434, 0x55bd, 0xad4a, 0xbcc3, 0x8e58, 0x9fd1, 0xeb6e, 0xfae7, 0xc87c, 0xd9f5,
     0x3183, 0x200a, 0x1291, 0x0318, 0x77a7, 0x662e, 0x54b5, 0x453c, 0xbdcb, 0xac42, 0x9ed9, 0x8f50, 0xfbef, 0xea66, 0xd8fd, 0xc974,
     0x4204, 0x538d, 0x6116, 0x709f, 0x0420, 0x15a9, 0x2732, 0x36bb, 0xce4c, 0xdfc5, 0xed5e, 0xfcd7, 0x8868, 0x99e1, 0xab7a, 0xbaf3,
     0x5285, 0x430c, 0x7197, 0x601e, 0x14a1, 0x0528, 0x37b3, 0x263a, 0xdecd, 0xcf44, 0xfddf, 0xec56, 0x98e9, 0x8960, 0xbbfb, 0xaa72,
     0x6306, 0x728f, 0x4014, 0x519d, 0x2522, 0x34ab, 0x0630, 0x17b9, 0xef4e, 0xfec7, 0xcc5c, 0xddd5, 0xa96a, 0xb8e3, 0x8a78, 0x9bf1,
     0x7387, 0x620e, 0x5095, 0x411c, 0x35a3, 0x242a, 0x16b1, 0x0738, 0xffcf, 0xee46, 0xdcdd, 0xcd54, 0xb9eb, 0xa862, 0x9af9, 0x8b70,
     0x8408, 0x9581, 0xa71a, 0xb693, 0xc22c, 0xd3a5, 0xe13e, 0xf0b7, 0x0840, 0x19c9, 0x2b52, 0x3adb, 0x4e64, 0x5fed, 0x6d76, 0x7cff,
     0x9489, 0x8500, 0xb79b, 0xa612, 0xd2ad, 0xc324, 0xf1bf, 0xe036, 0x18c1, 0x0948, 0x3bd3, 0x2a5a, 0x5ee5, 0x4f6c, 0x7df7, 0x6c7e,
     0xa50a, 0xb483, 0x8618, 0x9791, 0xe32e, 0xf2a7, 0xc03c, 0xd1b5, 0x2942, 0x38cb, 0x0a50, 0x1bd9, 0x6f66, 0x7eef, 0x4c74, 0x5dfd,
     0xb58b, 0xa402, 0x9699, 0x8710, 0xf3af, 0xe226, 0xd0bd, 0xc134, 0x39c3, 0x284a, 0x1ad1, 0x0b58, 0x7fe7, 0x6e6e, 0x5cf5, 0x4d7c,
     0xc60c, 0xd785, 0xe51e, 0xf497, 0x8028, 0x91a1, 0xa33a, 0xb2b3, 0x4a44, 0x5bcd, 0x6956, 0x78df, 0x0c60, 0x1de9, 0x2f72, 0x3efb,
     0xd68d, 0xc704, 0xf59f, 0xe416, 0x90a9, 0x8120, 0xb3bb, 0xa232, 0x5ac5, 0x4b4c, 0x79d7, 0x685e, 0x1ce1, 0x0d68, 0x3ff3, 0x2e7a,
     0xe70e, 0xf687, 0xc41c, 0xd595, 0xa12a, 0xb0a3, 0x8238, 0x93b1, 0x6b46, 0x7acf, 0x4854, 0x59dd, 0x2d62, 0x3ceb, 0x0e70, 0x1ff9,
     0xf78f, 0xe606, 0xd49d, 0xc514, 0xb1ab, 0xa022, 0x92b9, 0x8330, 0x7bc7, 0x6a4e, 0x58d5, 0x495c, 0x3de3, 0x2c6a, 0x1ef1, 0x0f78]"

definition crc16_citt :: "u16 \<Rightarrow> u8 \<Rightarrow> u16" where
  "crc16_citt aFcs aByte = drop_bit 8 aFcs XOR sFcsTable ! unat ((aFcs XOR ucast aByte) AND 0xff)"

text \<open>
  A frame is an array of bytes. The offset of the check sequence is an unsigned 16-bit number; an access beyond the array is
  undefined.
\<close>

definition crcLoop :: "u16 \<Rightarrow> bytes \<Rightarrow> u16" where
  "crcLoop crc bs = fold (\<lambda>b crc. crc16_citt crc b) bs crc"

definition radioComputeCrc :: "u16 \<Rightarrow> bytes \<Rightarrow> bytes res" where
  "radioComputeCrc aLength mPsdu =
    (let crc_offset = unat (aLength - 2) in
     if crc_offset + 1 < length mPsdu then
       (let crc = crcLoop 0 (take crc_offset mPsdu) in
        Inr (mPsdu[crc_offset := ucast (crc AND 0xff), crc_offset + 1 := ucast (drop_bit 8 crc)]))
     else Inl UndefinedBehaviour)"

section \<open>Division by the polynomial\<close>

text \<open>One step of the reflected division by \<^verbatim>\<open>x^16 + x^12 + x^5 + 1\<close>.\<close>

definition crcBit :: "u16 \<Rightarrow> u16" where
  "crcBit r = (if bit r 0 then drop_bit 1 r XOR 0x8408 else drop_bit 1 r)"

definition crcByte :: "u16 \<Rightarrow> u8 \<Rightarrow> u16" where
  "crcByte r b = (crcBit ^^ 8) (r XOR ucast b)"

lemma crcBit_xor: "crcBit (x XOR y) = crcBit x XOR crcBit y"
  by (rule bit_eqI) (auto simp: crcBit_def bit_xor_iff bit_drop_bit_eq)

lemma crcBit_pow_xor: "(crcBit ^^ n) (x XOR y) = (crcBit ^^ n) x XOR (crcBit ^^ n) y"
  by (induction n) (simp_all add: crcBit_xor)

lemma crcBit_shift: "\<forall>i < n. \<not> bit x i \<Longrightarrow> (crcBit ^^ n) x = drop_bit n x"
proof (induction n arbitrary: x)
  case (Suc n)
  have "crcBit x = drop_bit 1 x" using Suc.prems by (simp add: crcBit_def)
  moreover have "\<forall>i < n. \<not> bit (drop_bit 1 x) i" using Suc.prems by (simp add: bit_drop_bit_eq)
  ultimately show ?case using Suc.IH [of "drop_bit 1 x"] by (simp add: funpow_Suc_right del: funpow.simps)
qed simp

text \<open>The table is linear, so that it is given by its entries at the powers of two.\<close>

definition crcBasis :: "u16 list" where
  "crcBasis = [0x8408, 0x4204, 0x2102, 0x1081, 0x8c48, 0x4624, 0x2312, 0x1189]"

fun linearTable :: "u16 list \<Rightarrow> u16 list" where
  "linearTable [] = [0]"
| "linearTable (t # ts) = (let L = linearTable ts in L @ map (\<lambda>x. x XOR t) L)"

lemma crcBasis_entries: "crcBasis = map (\<lambda>k. (crcBit ^^ 8) (2 ^ k)) (rev [0..<8])"
proof -
  have "map (crcBit ^^ 8) [128, 64, 32, 16, 8, 4, 2, 1] = crcBasis" by code_simp
  then show ?thesis by (simp add: upt_rec)
qed

lemma sFcsTable_linear: "sFcsTable = linearTable crcBasis"
  by code_simp

lemma length_linearTable: "length (linearTable ts) = 2 ^ length ts"
  by (induction ts) (simp_all add: Let_def)

lemma of_nat_xor_power:
  assumes "i < 2 ^ k" "k < 16"
  shows "(of_nat (i + 2 ^ k) :: u16) = of_nat i XOR 2 ^ k"
proof -
  have "\<not> bit i k" using assms(1) by (simp add: bit_iff_odd)
  then have "\<not> bit (of_nat i :: u16) k" by (simp add: bit_simps)
  then have "(of_nat i :: u16) AND 2 ^ k = 0"
    by (intro bit_eqI) (auto simp: bit_and_iff bit_exp_iff)
  then show ?thesis by (simp add: disjunctive_add_eq_xor)
qed

lemma linearTable_nth:
  fixes F :: "u16 \<Rightarrow> u16"
  assumes "i < 2 ^ k" "k \<le> 16" "\<And>x y. F (x XOR y) = F x XOR F y"
  shows "linearTable (map (\<lambda>k. F (2 ^ k)) (rev [0..<k])) ! i = F (of_nat i)"
  using assms
proof (induction k arbitrary: i)
  case 0
  have "F 0 = F 0 XOR F 0" using assms(3) [of 0 0] by simp
  then have "F 0 = 0" by simp
  with 0 show ?case by simp
next
  case (Suc k)
  let ?L = "linearTable (map (\<lambda>k. F (2 ^ k)) (rev [0..<k]))"
  have len: "length ?L = 2 ^ k" by (simp add: length_linearTable)
  show ?case
  proof (cases "i < 2 ^ k")
    case True
    then show ?thesis using Suc by (simp add: Let_def nth_append len)
  next
    case False
    define j where "j = i - 2 ^ k"
    have j: "i = j + 2 ^ k" "j < 2 ^ k" using False Suc.prems(1) by (auto simp: j_def)
    have "linearTable (map (\<lambda>k. F (2 ^ k)) (rev [0..<Suc k])) ! i = ?L ! j XOR F (2 ^ k)"
      using j by (simp add: Let_def nth_append len)
    also have "\<dots> = F (of_nat j XOR 2 ^ k)" using Suc j(2) by simp
    also have "\<dots> = F (of_nat i)" using of_nat_xor_power [OF j(2)] Suc.prems(2) by (simp only: j(1))
    finally show ?thesis .
  qed
qed

lemma sFcsTable_entries: "i < 256 \<Longrightarrow> sFcsTable ! i = (crcBit ^^ 8) (of_nat i)"
  unfolding sFcsTable_linear crcBasis_entries by (rule linearTable_nth) (simp_all add: crcBit_pow_xor)

section \<open>Properties\<close>

text \<open>
  C40. The table-driven step of the check sequence is the division by the polynomial, bit by bit: for every state and byte
  \<open>crc16_citt\<close> does the same as eight steps of the shift register.
\<close>

theorem crc16_citt_division: "crc16_citt aFcs aByte = (crcBit ^^ 8) (aFcs XOR ucast aByte)"
proof -
  define x where "x = aFcs XOR (ucast aByte :: u16)"
  define lo where "lo = x AND 0xff"
  define hi where "hi = x AND NOT 0xff"
  have m: "(0xff :: u16) = mask 8" by (simp add: mask_eq_exp_minus_1)
  have "unat lo < 256"
    by (simp add: lo_def m flip: take_bit_eq_mask) (simp add: unsigned_take_bit_eq take_bit_nat_less_exp [of 8, simplified])
  then have "sFcsTable ! unat lo = (crcBit ^^ 8) lo" by (simp add: sFcsTable_entries)
  moreover have "(crcBit ^^ 8) hi = drop_bit 8 hi"
    by (rule crcBit_shift) (simp add: hi_def m bit_and_iff bit_not_iff bit_mask_iff)
  moreover have "drop_bit 8 hi = drop_bit 8 aFcs"
    by (rule bit_eqI) (auto simp: hi_def x_def m bit_simps dest: bit_imp_le_length)
  moreover have "hi XOR lo = x" by (rule bit_eqI) (auto simp: hi_def lo_def bit_simps)
  ultimately show ?thesis
    using crcBit_pow_xor [of 8 hi lo] by (simp add: crc16_citt_def x_def [symmetric] lo_def [symmetric])
qed


text \<open>
  C19. \<open>radioComputeCrc\<close> writes the check sequence into the last two bytes of a frame and changes nothing else, and a receiver that
  runs the division over the whole frame, check sequence included, ends with the remainder 0.
\<close>

theorem radioComputeCrc_residue:
  assumes "2 \<le> n" "n \<le> length mPsdu" "n < 2 ^ 16"
  shows "\<exists>p. radioComputeCrc (of_nat n) mPsdu = Inr p \<and> crcLoop 0 (take n p) = 0 \<and> length p = length mPsdu \<and>
    take (n - 2) p = take (n - 2) mPsdu \<and> drop n p = drop n mPsdu"
proof -
  obtain k where k: "n = k + 2" using assms(1) by (metis le_add_diff_inverse2)
  have off: "unat ((of_nat n :: u16) - 2) = k" using assms(3) by (simp add: k unat_of_nat)
  define crc where "crc = crcLoop 0 (take k mPsdu)"
  define p where "p = mPsdu[k := ucast (crc AND 0xff), k + 1 := ucast (drop_bit 8 crc)]"
  have r: "radioComputeCrc (of_nat n) mPsdu = Inr p"
    using assms(2) unfolding radioComputeCrc_def off Let_def by (simp add: p_def crc_def k)
  have t0: "sFcsTable ! 0 = 0" by (simp add: sFcsTable_def)
  have e: "(x XOR ucast (ucast (x AND 0xff) :: u8)) AND 0xff = 0" for x :: u16
  proof -
    have m: "(0xff :: u16) = mask 8" by (simp add: mask_eq_exp_minus_1)
    show ?thesis by (rule bit_eqI) (auto simp: m bit_simps)
  qed
  have e2: "ucast (drop_bit 8 x) = (ucast (drop_bit 8 x AND 0xff) :: u8)" for x :: u16
  proof -
    have m: "(0xff :: u16) = mask 8" by (simp add: mask_eq_exp_minus_1)
    show ?thesis by (rule bit_eqI) (auto simp: m bit_simps)
  qed
  have z: "drop_bit 8 (drop_bit 8 crc) = 0" by (rule bit_eqI) (auto simp: bit_simps dest: bit_imp_le_length)
  have "take n p = take k mPsdu @ [ucast (crc AND 0xff), ucast (drop_bit 8 crc)]"
    using assms(2) by (intro nth_equalityI) (auto simp: p_def k nth_append nth_list_update less_Suc_eq)
  moreover have "crcLoop 0 (take k mPsdu @ [b, c]) = crc16_citt (crc16_citt crc b) c" for b c
    by (simp add: crcLoop_def crc_def)
  moreover have "crc16_citt crc (ucast (crc AND 0xff)) = drop_bit 8 crc" by (simp add: crc16_citt_def e t0)
  moreover have "crc16_citt (drop_bit 8 crc) (ucast (drop_bit 8 crc)) = 0" by (simp only: crc16_citt_def e2 e z) (simp add: t0)
  ultimately have "crcLoop 0 (take n p) = 0" by simp
  moreover have "take k p = take k mPsdu" "drop n p = drop n mPsdu" "length p = length mPsdu"
    by (simp_all add: p_def k)
  ultimately show ?thesis using r k by simp
qed

theorem radioComputeCrc_residue_witness:
  "\<exists>p. radioComputeCrc 5 [0x12, 0x34, 7, 0, 0, 9] = Inr p \<and> crcLoop 0 (take 5 p) = 0 \<and> take 3 p = [0x12, 0x34, 7]"
  using radioComputeCrc_residue [of 5 "[0x12, 0x34, 7, 0, 0, 9]"] by auto

end
