(* ===== verification/Spec2Isabelle.thy ===== *)
theory Spec2Isabelle
  imports Alarm_Mgr Events Send_Queue Rloc16_Map Failure_Ctrl Coaps Energy Radio_Channel Log_Level Wpan Pcap
    Dispatcher_Laws Dispatcher_Times Dispatcher_Progress Dispatcher_Delivery
    Sim_Hosts_Laws Node_Cli_Laws Node_Commands Node_Placer Node_Config Kpi Safe_Path Simulation_State
    Rfsim_Event Rfsim_Crc
begin

text \<open>
  Verification of the OpenThread Network Simulator (OTNS).

  \<^bold>\<open>The program.\<close> OTNS simulates a Thread network. Each simulated node is a process of its own that runs OpenThread on a simulated platform
  (\<^verbatim>\<open>src/ot-rfsim\<close>, in C). A node does nothing by itself: it waits for an event on a socket, works it off, and answers with events of its own,
  the last of which says how long it will sleep. The dispatcher (\<^verbatim>\<open>src/dispatcher\<close>, in Go, as the rest) keeps the virtual time.
  It has a queue of future events and an alarm per node, moves the time to the earliest of them, wakes up the nodes concerned, and
  waits until they all sleep again. A transmitted frame goes through a radio model (\<^verbatim>\<open>src/radiomodel\<close>), which decides who receives
  it. The simulation (\<^verbatim>\<open>src/simulation\<close>) creates nodes, talks to their command lines, forwards their datagrams to hosts, and
  reports performance figures.

  \<^bold>\<open>Conventions.\<close> A function keeps the name of the Go or C function, with the receiver type in front where names clash. A struct is a record, an
  integer that can wrap is a word of its width, a \<open>float64\<close> is a real number. Code that can panic returns \<open>'a res\<close>: \<open>Inl\<close> the reason or \<open>Inr\<close>
  the value. Objects that are shared through pointers live in an explicit memory. What comes from outside is an argument:
  random numbers, results of system calls, the order of an iteration over a Go map, the arms taken by a \<^verbatim>\<open>select\<close>. What goes outside is a
  list of outputs.

  \<^bold>\<open>Theories, the code they model, and what they show.\<close>

  \<^item> \<open>Prelude\<close>: words, panics, byte order, shared lemmas. \<open>Types\<close>: \<^verbatim>\<open>types/*.go\<close>. \<open>Go_Heap\<close>, \<open>Go_Strings\<close>, \<open>Go_Path\<close>: what is used of
    \<^verbatim>\<open>container/heap\<close>, \<^verbatim>\<open>strings\<close>, \<^verbatim>\<open>strconv\<close> and \<^verbatim>\<open>path/filepath\<close>. The heap algorithms are proved once in the locales
    \<open>heap_preorder\<close>, \<open>heap_impl\<close> and \<open>heap_store\<close>, for every implementation of the interface, and interpreted on both queues.
  \<^item> \<open>Events\<close>: \<^verbatim>\<open>event/event.go\<close> and the socket reader \<^verbatim>\<open>eventsReader\<close>. The result of decoding any buffer, round trips, framing of a stream.
  \<^item> \<open>Alarm_Mgr\<close>, \<open>Send_Queue\<close>, \<open>Rloc16_Map\<close>, \<open>Failure_Ctrl\<close>, \<open>Coaps\<close>: the files of these names in \<^verbatim>\<open>dispatcher\<close>. The
    alarm manager refines a map with a minimum (locale \<open>alarm_clock\<close>), the queue a priority queue (locale \<open>event_queue\<close>), the address map a relation;
    failures and recoveries alternate; a CoAP report changes one message.
  \<^item> \<open>Energy\<close>: \<^verbatim>\<open>energy/*.go\<close>. The times of all radio states add up to the elapsed time; result files stay in their directory.
  \<^item> \<open>Radio_Node\<close>, \<open>Radio_Fading\<close>, \<open>Radio_Model\<close>: \<^verbatim>\<open>radiomodel/*.go\<close>. \<open>Radio_Laws\<close> has the interface (locale \<open>radio_model\<close>), with
    both models and the dynamic dispatch as interpretations: no panic, and no event in the past. \<open>Radio_Channel\<close>: channel
    statistics, interference and bit errors.
  \<^item> \<open>Log_Level\<close>: level names of \<^verbatim>\<open>logger\<close>. \<open>Wpan\<close>: \<^verbatim>\<open>dissectpkt\<close>. \<open>Pcap\<close>: \<^verbatim>\<open>pcap/*.go\<close>. Parsers and writers with their round trips.
  \<^item> \<open>Dispatcher_Node\<close> (\<^verbatim>\<open>dispatcher/Node.go\<close>), \<open>Dispatcher_State\<close>, \<open>Dispatcher_Events\<close>, \<open>Dispatcher_Run\<close> (\<^verbatim>\<open>dispatcher/dispatcher.go\<close>, \<^verbatim>\<open>stats.go\<close>
    and the configuration files): node records, management of nodes, event handlers, loops. \<open>Dispatcher_Laws\<close>: all indexes of
    nodes agree, and management refines one map. \<open>Dispatcher_Progress\<close>: the loop over the events of an instant ends and makes progress
    (locales \<open>fuel_loop\<close> and \<open>measured_loop\<close>), and runs forever after an alarm with delay 0. \<open>Dispatcher_Delivery\<close>: who receives a frame.
    \<open>Dispatcher_Times\<close>: clock conversion and time windows.
  \<^item> \<open>Ip6_Udp\<close>, \<open>Sim_Hosts\<close>, \<open>Sim_Hosts_Laws\<close>: \<^verbatim>\<open>simulation/utils.go\<close> and \<^verbatim>\<open>sim_hosts.go\<close>. A receiver of the RFCs accepts the datagrams;
    the connection table refines a ledger; the reader goroutine delivers in every interleaving.
  \<^item> \<open>Node_Cli\<close>, \<open>Node_Cli_Laws\<close>, \<open>Node_Commands\<close>: \<^verbatim>\<open>simulation/node.go\<close>. Lines do not depend on how data is cut; a command
    returns the lines of its answer; the mode of a new node fits its type.
  \<^item> \<open>Node_Placer\<close>, \<open>Node_Config\<close>: \<^verbatim>\<open>simulation/node_config.go\<close>, \<^verbatim>\<open>simulation_config.go\<close> and \<^verbatim>\<open>simulation_io.go\<close>. Placement, ids, finalisation, export and import.
  \<^item> \<open>Kpi\<close>, \<open>Safe_Path\<close>: \<^verbatim>\<open>simulation/kpi.go\<close>. Counter differences, CoAP figures, and the check of file names.
  \<^item> \<open>Simulation_State\<close>: parts of \<^verbatim>\<open>simulation/simulation.go\<close>. Autogo follows the last request in every interleaving.
  \<^item> \<open>Rfsim_Alarm\<close>: \<^verbatim>\<open>ot-rfsim/src/alarm.c\<close>. The drifting clock is exact, and a node that sleeps as long as it asked for misses no alarm.
    \<open>Rfsim_Event\<close>: \<^verbatim>\<open>event-sim.c\<close>; the Go code reads the events that the C code writes, and a sleep event sets the alarm.
    \<open>Rfsim_Crc\<close>: the checksum of \<^verbatim>\<open>radio.c\<close>; the table agrees with the division by the polynomial.

  \<^bold>\<open>Fuel.\<close> Most loops are structural or have a termination proof. \<open>processNextEvents\<close> and its real-time variant may run forever; they take fuel, and
  \<open>Dispatcher_Progress\<close> shows that some amount suffices, as does every larger one. \<open>convertNodeMilliTime\<close> and \<open>updateTimeWindowStats\<close> compute
  their own fuel, the number of rounds and one more; \<open>Dispatcher_Times\<close> shows that it suffices under the hypotheses stated there. \<open>genNodeId\<close> needs one more
  than the number of ids in use. The command loop of a node gets the list of the arms of its \<^verbatim>\<open>select\<close>; when the list ends, the code is still waiting.

  \<^bold>\<open>Assumptions.\<close> A node never asks for a delay of 0 (the C code asserts it). Real numbers stand for floating point, so rounding is not covered.
  Hypotheses on the environment are written in the theorems.

  \<^bold>\<open>Not modelled.\<close>

  \<^item> \<^verbatim>\<open>cli\<close>: the parser is built by reflection by a third-party package, and the runner prints and posts tasks.
  \<^item> \<^verbatim>\<open>visualize\<close>, \<^verbatim>\<open>web\<close>, \<^verbatim>\<open>cmd\<close>, \<^verbatim>\<open>otns_main\<close>, \<^verbatim>\<open>progctx\<close>, \<^verbatim>\<open>prng\<close>, log output: gRPC, generated code, flags, wait groups, and generators of \<^verbatim>\<open>math/rand\<close>.
  \<^item> \<^verbatim>\<open>Run\<close>, \<^verbatim>\<open>RunRealtime\<close>, \<^verbatim>\<open>Stop\<close> and the task queue of the dispatcher, and starting and stopping node processes: channels, timers and processes.
  \<^item> The rest of \<^verbatim>\<open>radio.c\<close> and the other files of \<^verbatim>\<open>ot-rfsim\<close>: they work on the data structures and with the functions of OpenThread, which is a submodule.
  \<^item> \<^verbatim>\<open>zephyr\<close>: drivers and applications on an operating system that is not part of the sources. \<^verbatim>\<open>pylibs\<close>, \<^verbatim>\<open>otnstester\<close>: clients and tests.
\<close>

end
